(* ===== verification/Prelude.thy ===== *)
theory Prelude
  imports Main "HOL-Library.Word"
begin

text \<open>
  Shared vocabulary of the development.  The integer types are the typedefs of
  \<open>src/kernel/lib/ds.h\<close>: unsigned and signed C integers are both words, read with
  \<open>unat\<close>/\<open>uint\<close> where the code treats them as unsigned and with \<open>sint\<close> where it
  treats them as signed.  Pointers are 64-bit words, 0 is \<open>NULL\<close>.  The collections
  \<open>word_read\<close> (reading a word operation as a number) and \<open>heap_simps\<close> (reading back
  a store) carry the component proofs.
\<close>

unbundle bit_operations_syntax

type_synonym u8 = "8 word"
type_synonym u16 = "16 word"
type_synonym u32 = "32 word"
type_synonym u64 = "64 word"
type_synonym i8 = "8 word"
type_synonym i32 = "32 word"
type_synonym i64 = "64 word"
type_synonym ptr = "64 word"

abbreviation (input) NULL :: ptr where
  "NULL \<equiv> 0"

named_theorems word_read "reading word operations as numbers"
named_theorems heap_simps "reading back a store"

section \<open>Bits\<close>

definition bitset1 :: "'a::len word \<Rightarrow> nat \<Rightarrow> 'a word" where
  "bitset1 w n = set_bit n w"

definition bitset0 :: "'a::len word \<Rightarrow> nat \<Rightarrow> 'a word" where
  "bitset0 w n = unset_bit n w"

definition bitrev :: "'a::len word \<Rightarrow> nat \<Rightarrow> 'a word" where
  "bitrev w n = flip_bit n w"

lemma bit_bitset1 [simp]:
  "bit (bitset1 (w :: 'a::len word) n) k \<longleftrightarrow> (k = n \<and> n < LENGTH('a)) \<or> bit w k"
  by (auto simp: bitset1_def bit_simps)

lemma bit_bitset0 [simp]:
  "bit (bitset0 (w :: 'a::len word) n) k \<longleftrightarrow> k \<noteq> n \<and> bit w k"
  by (auto simp: bitset0_def bit_simps)

lemma bit_bitrev [simp]:
  "bit (bitrev (w :: 'a::len word) n) k \<longleftrightarrow>
     (if k = n then n < LENGTH('a) \<and> \<not> bit w k else bit w k)"
  by (auto simp: bitrev_def bit_simps dest: bit_imp_le_length)

lemma bitrev_bitrev [simp]: "bitrev (bitrev w n) n = (w :: 'a::len word)"
  by (rule bit_word_eqI) auto

lemma bitset0_bitset1: "\<not> bit w n \<Longrightarrow> bitset0 (bitset1 w n) n = (w :: 'a::len word)"
  by (rule bit_word_eqI) auto

lemma bitset1_bitset0:
  "bit w n \<Longrightarrow> bitset1 (bitset0 w n) n = (w :: 'a::len word)"
  by (rule bit_word_eqI) (auto dest: bit_imp_le_length)

section \<open>Words as numbers\<close>

lemma unat_plus_less [word_read]:
  "unat (a :: 'a::len word) + unat b < 2 ^ LENGTH('a) \<Longrightarrow> unat (a + b) = unat a + unat b"
  by (simp add: unat_word_ariths)

lemma unat_minus_le [word_read]:
  "b \<le> a \<Longrightarrow> unat ((a :: 'a::len word) - b) = unat a - unat b"
  by (simp add: unat_sub)

lemma unat_mult_less [word_read]:
  "unat (a :: 'a::len word) * unat b < 2 ^ LENGTH('a) \<Longrightarrow> unat (a * b) = unat a * unat b"
  by (simp add: unat_word_ariths)

lemma unat_u64_less: "unat (w :: u64) < 18446744073709551616"
  using unsigned_less [of w, where ?'a = nat] by simp

lemma unat_u32_less: "unat (w :: u32) < 4294967296"
  using unsigned_less [of w, where ?'a = nat] by simp

lemma unat_u16_less: "unat (w :: u16) < 65536"
  using unsigned_less [of w, where ?'a = nat] by simp

lemma unat_u8_less: "unat (w :: u8) < 256"
  using unsigned_less [of w, where ?'a = nat] by simp

section \<open>Lists\<close>

text \<open>Removing one element, as \<open>List_del\<close> does on a list without repetitions.\<close>

lemma remove1_append_notin: "x \<notin> set xs \<Longrightarrow> remove1 x (xs @ x # ys) = xs @ ys"
  by (induction xs) auto

section \<open>Numbers\<close>

lemma unat_div_pow2: "unat (drop_bit s w) = unat w div 2 ^ s"
  by (metis drop_bit_eq_div unat_drop_bit_eq)

lemma unat_exp2: "k < LENGTH('a) \<Longrightarrow> unat (2 ^ k :: 'a::len word) = 2 ^ k"
proof -
  assume k: "k < LENGTH('a)"
  have "(2 ^ k :: 'a word) = of_nat (2 ^ k)" by simp
  then have "unat (2 ^ k :: 'a word) = 2 ^ k mod 2 ^ LENGTH('a)"
    by (simp only: unat_of_nat)
  with k show ?thesis by simp
qed

lemma all_less_32:
  "(\<forall>n<32. P (n::nat)) \<longleftrightarrow>
     P 0 \<and> P 1 \<and> P 2 \<and> P 3 \<and> P 4 \<and> P 5 \<and> P 6 \<and> P 7 \<and> P 8 \<and> P 9 \<and> P 10 \<and> P 11 \<and>
     P 12 \<and> P 13 \<and> P 14 \<and> P 15 \<and> P 16 \<and> P 17 \<and> P 18 \<and> P 19 \<and> P 20 \<and> P 21 \<and> P 22 \<and>
     P 23 \<and> P 24 \<and> P 25 \<and> P 26 \<and> P 27 \<and> P 28 \<and> P 29 \<and> P 30 \<and> P 31"
  by (simp add: numeral_eq_Suc All_less_Suc conj_ac)

lemma find_upt_Some:
  "List.find P [0..<b] = Some i \<longleftrightarrow> i < b \<and> P i \<and> (\<forall>j<i. \<not> P j)"
  by (auto simp: find_Some_iff)

lemma ceil_mult:
  assumes "0 < (b :: nat)" shows "x \<le> (x + b - 1) div b * b"
  using dividend_less_div_times [OF assms, of "x + b - 1"] by linarith

lemma unat_minus1: "w \<noteq> 0 \<Longrightarrow> unat (w - 1 :: 'a::len word) = unat w - 1"
  by (rule unat_minus_one)

lemma unat_max: "unat (- 1 :: u64) = 2 ^ 64 - 1"
  by (simp add: unsigned_minus_1_eq_mask mask_eq_exp_minus_1)

lemma unat_ucast_mod: "unat (ucast (w :: 'a::len word) :: 'b::len word) = unat w mod 2 ^ LENGTH('b)"
  by (simp add: unsigned_ucast_eq take_bit_eq_mod)

lemma nonneg_i64: "0 \<le> sint (w :: i64) \<longleftrightarrow> \<not> bit w 63"
  using bit_last_iff [of w] by (simp add: not_less)

lemma nonneg_i64_unat: "0 \<le> sint (w :: i64) \<longleftrightarrow> unat w < 2 ^ 63"
proof -
  have "bit w 63 \<longleftrightarrow> odd (unat w div 2 ^ 63)"
    unfolding bit_iff_odd [of "unat w", symmetric] by (simp add: bit_unsigned_iff)
  also have "\<dots> \<longleftrightarrow> \<not> unat w < 2 ^ 63"
    using unat_u64_less [of w] by (cases "unat w < 2 ^ 63") (auto simp: div_nat_eqI odd_iff_mod_2_eq_one)
  finally show ?thesis by (simp add: nonneg_i64)
qed

lemma first_difference:
  assumes "\<not> (\<forall>i<n. P i)"
  obtains k where "k < n" "\<forall>i<k. P i" "\<not> P (k :: nat)"
proof -
  have "\<exists>k. k < n \<and> \<not> P k" using assms by auto
  then obtain k where "k < n \<and> \<not> P k" "\<forall>j<k. \<not> (j < n \<and> \<not> P j)"
    unfolding exists_least_iff [of "\<lambda>k. k < n \<and> \<not> P k"] by blast
  then show thesis by (intro that [of k]) auto
qed

text \<open>Searching an interval of numbers.\<close>

lemma find_order:
  "List.find P [a..<b] = Some k \<longleftrightarrow> a \<le> k \<and> k < b \<and> P k \<and> (\<forall>j. a \<le> j \<and> j < k \<longrightarrow> \<not> P (j::nat))"
  "List.find P [a..<b] = None \<longleftrightarrow> (\<forall>j. a \<le> j \<and> j < b \<longrightarrow> \<not> P j)"
proof -
  show "List.find P [a..<b] = None \<longleftrightarrow> (\<forall>j. a \<le> j \<and> j < b \<longrightarrow> \<not> P j)"
    by (auto simp: find_None_iff)
  show "List.find P [a..<b] = Some k \<longleftrightarrow> a \<le> k \<and> k < b \<and> P k \<and> (\<forall>j. a \<le> j \<and> j < k \<longrightarrow> \<not> P j)"
    unfolding find_Some_iff
  proof safe
    fix i assume "i < length [a..<b]" "P ([a..<b] ! i)" "\<forall>j<i. \<not> P ([a..<b] ! j)" "k = [a..<b] ! i"
    then show "a \<le> [a..<b] ! i" "[a..<b] ! i < b" by auto
    fix j assume "a \<le> j" "j < [a..<b] ! i" "P j"
    with \<open>\<forall>j<i. \<not> P ([a..<b] ! j)\<close> \<open>i < length [a..<b]\<close> show False
      by (auto dest: spec [of _ "j - a"])
  next
    assume "a \<le> k" "k < b" "P k" "\<forall>j. a \<le> j \<and> j < k \<longrightarrow> \<not> P j"
    then show "\<exists>i<length [a..<b]. P ([a..<b] ! i) \<and> k = [a..<b] ! i \<and> (\<forall>j<i. \<not> P ([a..<b] ! j))"
      by (intro exI [of _ "k - a"]) auto
  qed
qed

end
