(* ===== verification/Bits.thy ===== *)
theory Bits
  imports Prelude
begin

text \<open>
  The bit and arithmetic helpers of \<open>src/kernel/lib/ds.h\<close>, \<open>ds.c\<close>, \<open>algorithm.h\<close>
  and \<open>algorithm.c\<close>.  \<open>bts\<close>, \<open>btr\<close> and \<open>btc\<close> with a memory operand and a
  register index address a bit string: the quadword they change is the one at
  \<open>index div 64\<close>, so \<open>Bit_set1\<close>, \<open>Bit_set0\<close> and \<open>Bit_revBit\<close> are stated on the
  memory that follows \<open>addr\<close>, a map from quadword offsets to quadwords.
\<close>

section \<open>Bit strings in memory\<close>

type_synonym qmem = "int \<Rightarrow> u64"

definition bs_quad :: "u64 \<Rightarrow> int" where
  "bs_quad index = sint index div 64"

definition bs_bit :: "u64 \<Rightarrow> nat" where
  "bs_bit index = nat (sint index mod 64)"

definition Bit_get :: "u64 \<Rightarrow> u64 \<Rightarrow> u64" where
  "Bit_get addr index = drop_bit (unat index mod 64) addr AND 1"

definition Bit_set1 :: "qmem \<Rightarrow> u64 \<Rightarrow> qmem" where
  "Bit_set1 m index = m(bs_quad index := bitset1 (m (bs_quad index)) (bs_bit index))"

definition Bit_set0 :: "qmem \<Rightarrow> u64 \<Rightarrow> qmem" where
  "Bit_set0 m index = m(bs_quad index := bitset0 (m (bs_quad index)) (bs_bit index))"

definition Bit_revBit :: "qmem \<Rightarrow> u64 \<Rightarrow> qmem" where
  "Bit_revBit m index = m(bs_quad index := bitrev (m (bs_quad index)) (bs_bit index))"

lemma bs_bit_less: "bs_bit index < 64"
  by (simp add: bs_bit_def nat_less_iff)

lemma bs_small:
  assumes "index < 64"
  shows "bs_quad index = 0" "bs_bit index = unat index"
proof -
  have "uint index < 64"
    using assms by (simp add: word_less_def)
  then have "sint index = uint index"
    by (simp add: sint_uint signed_take_bit_int_eq_self_iff order_trans [OF _ uint_ge_0])
  with \<open>uint index < 64\<close> show "bs_quad index = 0" "bs_bit index = unat index"
    by (simp_all add: bs_quad_def bs_bit_def)
qed

text \<open>The bit of a bit string that an index names.\<close>

definition bs_test :: "qmem \<Rightarrow> int \<Rightarrow> nat \<Rightarrow> bool" where
  "bs_test m q b = bit (m q) b"

lemma Bit_get_bit: "Bit_get w index = (if bit w (unat index mod 64) then 1 else 0)"
proof -
  have "drop_bit (unat index mod 64) w AND 1 = of_bool (bit w (unat index mod 64))"
    by (rule bit_word_eqI) (auto simp: bit_simps)
  then show ?thesis
    by (simp add: Bit_get_def)
qed

lemma bs_test_set1:
  "bs_test (Bit_set1 m i) q b \<longleftrightarrow> (q = bs_quad i \<and> b = bs_bit i) \<or> bs_test m q b"
  using bs_bit_less [of i] by (auto simp: bs_test_def Bit_set1_def)

lemma bs_test_set0:
  "bs_test (Bit_set0 m i) q b \<longleftrightarrow> \<not> (q = bs_quad i \<and> b = bs_bit i) \<and> bs_test m q b"
  by (auto simp: bs_test_def Bit_set0_def)

lemma bs_test_rev:
  "bs_test (Bit_revBit m i) q b \<longleftrightarrow>
     (if q = bs_quad i \<and> b = bs_bit i then \<not> bs_test m q b else bs_test m q b)"
  using bs_bit_less [of i] by (auto simp: bs_test_def Bit_revBit_def)

lemma Bit_get_after:
  assumes "i < 64" "j < 64"
  shows "Bit_get (Bit_set1 m i 0) j = (if i = j then 1 else Bit_get (m 0) j)"
    and "Bit_get (Bit_set0 m i 0) j = (if i = j then 0 else Bit_get (m 0) j)"
    and "Bit_get (Bit_revBit m i 0) j = (if i = j then 1 - Bit_get (m 0) j else Bit_get (m 0) j)"
proof -
  have lt: "unat i < 64" "unat j < 64"
    using assms by (simp_all add: word_less_nat_alt)
  then have eq: "unat i mod 64 = unat i" "unat j mod 64 = unat j"
    by simp_all
  show "Bit_get (Bit_set1 m i 0) j = (if i = j then 1 else Bit_get (m 0) j)"
    "Bit_get (Bit_set0 m i 0) j = (if i = j then 0 else Bit_get (m 0) j)"
    "Bit_get (Bit_revBit m i 0) j = (if i = j then 1 - Bit_get (m 0) j else Bit_get (m 0) j)"
    using lt
    by (auto simp: Bit_get_bit Bit_set1_def Bit_set0_def Bit_revBit_def bs_small assms eq
        dest: word_unat_eq_iff [THEN iffD2])
qed

section \<open>Reversal and byte order\<close>

definition Bit_rev32 :: "u32 \<Rightarrow> u32" where
  "Bit_rev32 x0 =
    (let x = (drop_bit 1 (x0 AND 0xaaaaaaaa) OR push_bit 1 (x0 AND 0x55555555));
         x = (drop_bit 2 (x AND 0xcccccccc) OR push_bit 2 (x AND 0x33333333));
         x = (drop_bit 4 (x AND 0xf0f0f0f0) OR push_bit 4 (x AND 0x0f0f0f0f));
         x = (drop_bit 8 (x AND 0xff00ff00) OR push_bit 8 (x AND 0x00ff00ff))
     in drop_bit 16 x OR push_bit 16 x)"

definition endianSwap32 :: "u32 \<Rightarrow> u32" where
  "endianSwap32 val =
     (drop_bit 24 val AND 0xff) OR (drop_bit 8 val AND 0xff00) OR
     (push_bit 8 val AND 0xff0000) OR push_bit 24 val"

definition endianSwap64 :: "u64 \<Rightarrow> u64" where
  "endianSwap64 val =
     push_bit 32 (ucast (endianSwap32 (ucast (val AND 0xffffffff))) :: u64) OR
     ucast (endianSwap32 (ucast (drop_bit 32 val)))"

section \<open>Searching for a bit, logarithms\<close>

text \<open>
  \<open>bsf\<close> scans from bit 0; with a zero operand it sets ZF and \<open>cmove\<close> takes \<open>-1\<close>, so
  the function returns 0.
\<close>

definition Bit_ffs :: "u64 \<Rightarrow> u32" where
  "Bit_ffs val =
     (case List.find (\<lambda>i. bit val i) [0..<64] of
        None \<Rightarrow> 0xffffffff + 1
      | Some i \<Rightarrow> of_nat i + 1)"

definition log2_step :: "u64 \<Rightarrow> nat \<Rightarrow> i32 \<times> u64 \<Rightarrow> i32 \<times> u64" where
  "log2_step msk s = (\<lambda>(res, n).
     if n AND msk \<noteq> 0 then (res + of_nat s, drop_bit s n) else (res, n))"

definition log2 :: "u64 \<Rightarrow> i32" where
  "log2 n0 = fst
     (log2_step 0x0000000000000002 1
     (log2_step 0x000000000000000C 2
     (log2_step 0x00000000000000F0 4
     (log2_step 0x000000000000FF00 8
     (log2_step 0x00000000FFFF0000 16
     (log2_step 0xFFFFFFFF00000000 32 (0, n0)))))))"

definition log2Ceil :: "u64 \<Rightarrow> i32" where
  "log2Ceil n = (if n AND (n - 1) \<noteq> 0 then 1 else 0) + log2 n"

section \<open>Macros of algorithm.h\<close>

definition upAlignTo :: "u64 \<Rightarrow> u64 \<Rightarrow> u64" where
  "upAlignTo x bs = (x + bs - 1) div bs * bs"

definition downAlignTo :: "u64 \<Rightarrow> u64 \<Rightarrow> u64" where
  "downAlignTo x bs = x div bs * bs"

definition max_u64 :: "u64 \<Rightarrow> u64 \<Rightarrow> u64" where
  "max_u64 a b = (if a > b then a else b)"

definition min_u64 :: "u64 \<Rightarrow> u64 \<Rightarrow> u64" where
  "min_u64 a b = (if a > b then b else a)"

definition lowbit :: "u64 \<Rightarrow> u64" where
  "lowbit x = x AND - x"

definition BKDRHash :: "u64 \<Rightarrow> u64 \<Rightarrow> u64" where
  "BKDRHash x ch = x * 31 + ch"

definition abs_i64 :: "i64 \<Rightarrow> i64" where
  "abs_i64 a = (if sint a < 0 then - a else a)"

section \<open>Correctness\<close>

definition flip_pos :: "nat \<Rightarrow> nat \<Rightarrow> nat" where
  "flip_pos s n = (if even (n div s) then n + s else n - s)"

lemma flip_step:
  assumes lo: "\<And>i. i < 32 \<Longrightarrow> bit lo i \<longleftrightarrow> even (i div s)"
    and hi: "\<And>i. i < 32 \<Longrightarrow> bit hi i \<longleftrightarrow> odd (i div s)"
    and s: "0 < s" and n: "n < 32" "flip_pos s n < 32"
  shows "bit (drop_bit s (x AND hi) OR push_bit s (x AND lo) :: u32) n = bit x (flip_pos s n)"
proof -
  have up: "(s + n) div s = Suc (n div s)"
    using s div_add_self2 [of s n] by (simp add: add.commute [of s n])
  have dn: "n div s = Suc ((n - s) div s)" if "s \<le> n"
    using s that div_add_self2 [of s "n - s"] by simp
  have "bit hi (s + n) \<longleftrightarrow> s + n < 32 \<and> even (n div s)"
    using hi [of "s + n"] up bit_imp_le_length [of hi "s + n"] by auto
  moreover have "bit lo (n - s) \<longleftrightarrow> odd (n div s)" if "s \<le> n"
    using lo [of "n - s"] dn [OF that] n by simp
  moreover have "s \<le> n" if "odd (n div s)"
    using that by (metis div_less even_zero not_less)
  ultimately show ?thesis
    using n unfolding flip_pos_def add.commute [of n s] by (auto simp: bit_simps)
qed

lemma flip_pos_bound: "\<forall>n<32. flip_pos 1 n < 32 \<and> flip_pos 2 n < 32 \<and> flip_pos 4 n < 32 \<and> flip_pos 8 n < 32 \<and> flip_pos 16 n < 32"
  unfolding all_less_32 by (simp add: flip_pos_def)

lemma flip_masks:
  "\<forall>i<32. bit (0x55555555 :: u32) i = even (i div 1)" "\<forall>i<32. bit (0xaaaaaaaa :: u32) i = odd (i div 1)"
  "\<forall>i<32. bit (0x33333333 :: u32) i = even (i div 2)" "\<forall>i<32. bit (0xcccccccc :: u32) i = odd (i div 2)"
  "\<forall>i<32. bit (0x0f0f0f0f :: u32) i = even (i div 4)" "\<forall>i<32. bit (0xf0f0f0f0 :: u32) i = odd (i div 4)"
  "\<forall>i<32. bit (0x00ff00ff :: u32) i = even (i div 8)" "\<forall>i<32. bit (0xff00ff00 :: u32) i = odd (i div 8)"
  unfolding all_less_32 by simp_all

lemma flip_all: "\<forall>n<32. flip_pos 1 (flip_pos 2 (flip_pos 4 (flip_pos 8 (flip_pos 16 n)))) = 31 - n"
  unfolding all_less_32 by (simp add: flip_pos_def)

lemma bit_rev32:
  assumes n: "n < 32" shows "bit (Bit_rev32 x) n = bit x (31 - n)"
proof -
  note b = flip_pos_bound [rule_format]
  have st: "bit (drop_bit 1 (y AND 0xaaaaaaaa) OR push_bit 1 (y AND 0x55555555)) i = bit y (flip_pos 1 i)"
    "bit (drop_bit 2 (y AND 0xcccccccc) OR push_bit 2 (y AND 0x33333333)) i = bit y (flip_pos 2 i)"
    "bit (drop_bit 4 (y AND 0xf0f0f0f0) OR push_bit 4 (y AND 0x0f0f0f0f)) i = bit y (flip_pos 4 i)"
    "bit (drop_bit 8 (y AND 0xff00ff00) OR push_bit 8 (y AND 0x00ff00ff)) i = bit y (flip_pos 8 i)"
    if "i < 32" for i and y :: u32
    by (rule flip_step [OF _ _ _ that];
        (rule flip_masks [rule_format], assumption | use that b in simp))+
  have l: "bit (drop_bit 16 y OR push_bit 16 y) n = bit y (flip_pos 16 n)" for y :: u32
  proof (cases "n < 16")
    case False
    with n have "n div 16 = 1" "\<not> bit y (16 + n)"
      using bit_imp_le_length [of y "16 + n"] by auto
    with False n show ?thesis by (auto simp: flip_pos_def bit_simps)
  qed (simp add: flip_pos_def bit_simps add.commute)
  show ?thesis
    unfolding Bit_rev32_def Let_def l
    using n b flip_all [rule_format, OF n] by (simp only: st)
qed

lemma endianSwap32_bit:
  assumes "n < 32"
  shows "bit (endianSwap32 x) n = bit x ((24 - n div 8 * 8) + n mod 8)"
proof -
  have "\<forall>n<32. bit (endianSwap32 x) n = bit x ((24 - n div 8 * 8) + n mod 8)"
    unfolding all_less_32 endianSwap32_def
    by (simp add: bit_simps flip: numeral_2_eq_2)
  with assms show ?thesis by blast
qed

lemma endianSwap32_twice: "endianSwap32 (endianSwap32 x) = x"
proof (rule bit_word_eqI)
  fix n assume "n < LENGTH(32)"
  then have n: "n < 32" by simp
  have "\<forall>n<32. (24 - ((24 - n div 8 * 8) + n mod 8) div 8 * 8) + ((24 - n div 8 * 8) + n mod 8) mod 8 = n \<and> (24 - n div 8 * 8) + n mod 8 < (32::nat)"
    unfolding all_less_32 by simp
  with n show "bit (endianSwap32 (endianSwap32 x)) n = bit x n"
    by (simp add: endianSwap32_bit)
qed

lemma log2_step_inv:
  assumes msk: "\<And>i. bit msk i \<longleftrightarrow> s \<le> i \<and> i < 2 * s"
    and s: "0 < s" "2 * s \<le> 64"
    and inv: "unat n0 div 2 ^ unat res = unat n" "n \<noteq> 0" "unat n < 2 ^ (2 * s)" "unat res + 2 * s \<le> 64"
    and st: "log2_step msk s (res, n) = (res', n')"
  shows "unat n0 div 2 ^ unat res' = unat n' \<and> n' \<noteq> 0 \<and> unat n' < 2 ^ s \<and> unat res' + s \<le> 64"
proof -
  have ge: "n AND msk \<noteq> 0 \<longleftrightarrow> 2 ^ s \<le> unat n"
  proof -
    have "n AND msk = 0 \<longleftrightarrow> drop_bit s n = 0"
    proof -
      have hi: "\<not> bit n i" if "i \<ge> 2 * s" for i
      proof -
        have "(2::nat) ^ (2 * s) \<le> 2 ^ i"
          using that by simp
        with inv(3) have "unat n < 2 ^ i"
          by (rule less_le_trans)
        then have "unat n div 2 ^ i = 0"
          by (rule div_less)
        then have "\<not> bit (unat n) i"
          by (simp add: bit_iff_odd)
        then show ?thesis
          by (simp add: bit_unsigned_iff)
      qed
      show ?thesis
      proof
        assume l: "n AND msk = 0"
        have "\<not> bit n i" if "s \<le> i" for i
          using hi [of i] that arg_cong [OF l, of "\<lambda>w. bit w i"]
          by (cases "i < 2 * s") (auto simp: bit_and_iff msk)
        then show "drop_bit s n = 0"
          by (intro bit_eqI) (simp add: bit_drop_bit_eq)
      next
        assume r: "drop_bit s n = 0"
        have "\<not> bit n i" if "s \<le> i" for i
          using arg_cong [OF r, of "\<lambda>w. bit w (i - s)"] that by (simp add: bit_drop_bit_eq)
        then show "n AND msk = 0"
          by (intro bit_eqI) (auto simp: bit_and_iff msk)
      qed
    qed
    also have "\<dots> \<longleftrightarrow> unat n div 2 ^ s = 0"
      by (metis unat_div_pow2 unat_eq_0)
    finally show ?thesis
      by (simp add: div_eq_0_iff not_less)
  qed
  show ?thesis
  proof (cases "n AND msk = 0")
    case True
    with st have "res' = res" "n' = n" by (simp_all add: log2_step_def)
    with True ge inv show ?thesis by auto
  next
    case False
    with st have r: "res' = res + of_nat s" "n' = drop_bit s n" by (simp_all add: log2_step_def)
    have s32: "unat (of_nat s :: i32) = s"
      using s by (simp add: unat_of_nat)
    have ur: "unat res' = unat res + s"
      using inv(4) by (simp add: r unat_word_ariths s32)
    have un: "unat n' = unat n div 2 ^ s"
      by (simp only: r unat_div_pow2)
    have "unat n div 2 ^ s < 2 ^ s"
      using inv(3) by (simp add: less_mult_imp_div_less mult_2 power_add)
    moreover have "unat n div 2 ^ s \<noteq> 0"
      using ge False by (simp add: div_eq_0_iff not_less)
    then have "n' \<noteq> 0" using un by auto
    ultimately show ?thesis
      using inv(1,4) by (simp add: ur un power_add div_mult2_eq)
  qed
qed

lemma bit_run: "bit (push_bit s (mask s) :: u64) i \<longleftrightarrow> i < 64 \<and> s \<le> i \<and> i < 2 * s"
  by (auto simp: bit_simps)

lemma log2_masks:
  "0xFFFFFFFF00000000 = (push_bit 32 (mask 32) :: u64)"
  "0x00000000FFFF0000 = (push_bit 16 (mask 16) :: u64)"
  "0x000000000000FF00 = (push_bit 8 (mask 8) :: u64)"
  "0x00000000000000F0 = (push_bit 4 (mask 4) :: u64)"
  "0x000000000000000C = (push_bit 2 (mask 2) :: u64)"
  "0x0000000000000002 = (push_bit 1 (mask 1) :: u64)"
  by (simp_all add: mask_eq_exp_minus_1 push_bit_eq_mult)

definition log2_inv :: "u64 \<Rightarrow> nat \<Rightarrow> i32 \<times> u64 \<Rightarrow> bool" where
  "log2_inv n0 s = (\<lambda>(res, n). unat n0 div 2 ^ unat res = unat n \<and> n \<noteq> 0 \<and>
      unat n < 2 ^ s \<and> unat res + s \<le> 64)"

lemma log2_step_pres:
  assumes "0 < s" "2 * s \<le> 64" "log2_inv n0 (2 * s) p"
  shows "log2_inv n0 s (log2_step (push_bit s (mask s)) s p)"
proof (cases p)
  case (Pair r m)
  obtain r' m' where e: "log2_step (push_bit s (mask s)) s (r, m) = (r', m')" by fastforce
  have "bit (push_bit s (mask s) :: u64) i \<longleftrightarrow> s \<le> i \<and> i < 2 * s" for i
    using assms(2) by (auto simp: bit_run)
  from log2_step_inv [OF this assms(1,2) _ _ _ _ e, of n0] assms(3)
  show ?thesis by (simp add: Pair e log2_inv_def)
qed

lemma log2_spec:
  assumes n: "n0 \<noteq> 0"
  shows "unat n0 div 2 ^ unat (log2 n0) = 1"
proof -
  have "log2_inv n0 64 (0, n0)" using n unat_u64_less [of n0] by (simp add: log2_inv_def)
  then have "log2_inv n0 1
     (log2_step 0x0000000000000002 1
     (log2_step 0x000000000000000C 2
     (log2_step 0x00000000000000F0 4
     (log2_step 0x000000000000FF00 8
     (log2_step 0x00000000FFFF0000 16
     (log2_step 0xFFFFFFFF00000000 32 (0, n0)))))))" (is "log2_inv n0 1 ?p")
    unfolding log2_masks
    using log2_step_pres [of 1 n0] log2_step_pres [of 2 n0] log2_step_pres [of 4 n0]
      log2_step_pres [of 8 n0] log2_step_pres [of 16 n0] log2_step_pres [of 32 n0]
    by simp
  moreover have "log2 n0 = fst ?p" by (simp only: log2_def)
  ultimately have "unat n0 div 2 ^ unat (log2 n0) = unat (snd ?p)" "snd ?p \<noteq> 0" "unat (snd ?p) < 2"
    by (simp_all add: log2_inv_def split_beta)
  moreover from this(2) have "unat (snd ?p) \<noteq> 0" by (simp add: unat_eq_0)
  ultimately show ?thesis by linarith
qed

lemma log2_bounds:
  assumes "n \<noteq> 0"
  shows "2 ^ unat (log2 n) \<le> unat n \<and> unat n < 2 ^ (unat (log2 n) + 1)"
proof -
  let ?k = "2 ^ unat (log2 n) :: nat"
  have "unat n div ?k = 1" using log2_spec [OF assms] .
  moreover have "0 < ?k" by simp
  ultimately have "?k \<le> unat n" "unat n < 2 * ?k"
    by (metis div_less not_less zero_neq_one) (metis \<open>0 < ?k\<close> \<open>unat n div ?k = 1\<close> dividend_less_times_div mult.commute mult.right_neutral mult_2 mult_Suc_right)
  then show ?thesis by simp
qed

lemma log2_le: 
  assumes "n \<noteq> 0" shows "unat (log2 n) < 64"
proof -
  have "(2::nat) ^ unat (log2 n) < 2 ^ 64"
    using log2_bounds [OF assms] unat_u64_less [of n] by simp
  then show ?thesis by (rule power_less_imp_less_exp [rotated]) simp
qed

lemma power_of_two_iff:
  assumes "n \<noteq> 0"
  shows "n AND (n - 1) = 0 \<longleftrightarrow> unat n = 2 ^ unat (log2 n)"
proof -
  let ?k = "unat (log2 n)"
  have b: "2 ^ ?k \<le> unat n" "unat n < 2 * 2 ^ ?k" using log2_bounds [OF assms] by simp_all
  have u1: "unat (n - 1) = unat n - 1"
    using assms by (simp add: unat_minus_one)
  have bk: "bit w ?k \<longleftrightarrow> odd (unat w div 2 ^ ?k)" for w :: u64
    unfolding bit_iff_odd [of "unat w", symmetric] by (simp add: bit_unsigned_iff)
  show ?thesis
  proof (cases "unat n = 2 ^ ?k")
    case True
    have nk: "n = push_bit ?k 1"
      using True log2_le [OF assms] by (simp add: push_bit_eq_mult word_unat_eq_iff unat_exp2)
    have "\<not> bit (n - 1) ?k" by (simp add: bk u1 True)
    then have "n AND (n - 1) = 0"
      by (subst nk, intro bit_word_eqI) (auto simp: bit_simps)
    with True show ?thesis by simp
  next
    case False
    with b have "2 ^ ?k \<le> unat n - 1" by linarith
    with b have "(unat n - 1) div 2 ^ ?k = 1"
      by (intro div_nat_eqI) simp_all
    then have "bit n ?k" "bit (n - 1) ?k"
      using log2_spec [OF assms] by (simp_all add: bk u1)
    then have "bit (n AND (n - 1)) ?k" by (simp add: bit_and_iff)
    with False show ?thesis by auto
  qed
qed

lemma log2Ceil_bounds:
  assumes "n \<noteq> 0"
  shows "unat n \<le> 2 ^ unat (log2Ceil n) \<and> (1 < n \<longrightarrow> 2 ^ (unat (log2Ceil n) - 1) < unat n)"
proof -
  let ?k = "unat (log2 n)"
  have k: "?k < 64" by (rule log2_le [OF assms])
  show ?thesis
  proof (cases "n AND (n - 1) = 0")
    case True
    then have "log2Ceil n = log2 n" by (simp add: log2Ceil_def)
    moreover have "unat n = 2 ^ ?k" using True power_of_two_iff [OF assms] by simp
    moreover have "?k \<noteq> 0" if "1 < n"
      using that \<open>unat n = 2 ^ ?k\<close> by (cases "?k = 0") (auto simp: word_less_nat_alt)
    ultimately show ?thesis by simp
  next
    case False
    then have "unat (log2Ceil n) = Suc ?k"
      using k by (simp add: log2Ceil_def unat_word_ariths)
    moreover have "unat n \<noteq> 2 ^ ?k" using False power_of_two_iff [OF assms] by simp
    ultimately show ?thesis using log2_bounds [OF assms] by simp
  qed
qed

lemma Bit_ffs_spec:
  "(val = 0 \<longrightarrow> Bit_ffs val = 0) \<and>
   (val \<noteq> 0 \<longrightarrow> (let k = unat (Bit_ffs val) - 1 in
      1 \<le> unat (Bit_ffs val) \<and> bit val k \<and> (\<forall>j<k. \<not> bit val j)))"
proof (cases "List.find (\<lambda>i. bit val i) [0..<64]")
  case None
  then have "\<not> bit val i" for i
    using bit_imp_le_length [of val i] by (auto simp: find_None_iff)
  then have "val = 0" by (auto intro: bit_eqI)
  with None show ?thesis by (simp add: Bit_ffs_def)
next
  case (Some i)
  then have i: "i < 64" "bit val i" "\<forall>j<i. \<not> bit val j" by (auto simp: find_upt_Some)
  have "unat (Bit_ffs val) = i + 1"
    using i(1) by (simp add: Bit_ffs_def Some unat_word_ariths unat_of_nat)
  moreover have "val \<noteq> 0" using i(2) by auto
  ultimately show ?thesis using i by (simp add: Let_def)
qed

lemma unat_upAlignTo:
  assumes "0 < bs" "unat x + unat bs \<le> 2 ^ 64"
  shows "unat (upAlignTo x bs) = (unat x + unat bs - 1) div unat bs * unat bs"
proof -
  let ?b = "unat bs" and ?x = "unat x"
  have b: "0 < ?b" using assms(1) by (simp add: word_less_nat_alt)
  have "unat (x + (bs - 1)) = ?x + (?b - 1)"
    using assms(2) b by (subst unat_plus_less) (auto simp: unat_minus_le word_le_nat_alt)
  moreover have "x + (bs - 1) = x + bs - 1" by simp
  ultimately have s: "unat (x + bs - 1) = ?x + ?b - 1"
    using b by simp
  have q: "(?x + ?b - 1) div ?b * ?b \<le> ?x + ?b - 1" by (rule div_times_less_eq_dividend)
  then have "(?x + ?b - 1) div ?b * ?b < 2 ^ 64"
    using assms(2) b by linarith
  then show ?thesis
    unfolding upAlignTo_def by (subst unat_mult_less) (simp_all add: unat_div s)
qed

lemma upAlignTo_spec:
  assumes "0 < bs" "unat x + unat bs \<le> 2 ^ 64"
  shows "unat bs dvd unat (upAlignTo x bs) \<and> x \<le> upAlignTo x bs \<and> unat (upAlignTo x bs) < unat x + unat bs"
proof -
  have b: "0 < unat bs" using assms(1) by (simp add: word_less_nat_alt)
  then have "(unat x + unat bs - 1) div unat bs * unat bs < unat x + unat bs"
    using div_times_less_eq_dividend [of "unat x + unat bs - 1" "unat bs"] by linarith
  then show ?thesis
    using ceil_mult [OF b, of "unat x"] unat_upAlignTo [OF assms] by (simp add: word_le_nat_alt)
qed

lemma unat_downAlignTo: "unat (downAlignTo x bs) = unat x div unat bs * unat bs"
proof -
  have "unat x div unat bs * unat bs \<le> unat x" by (rule div_times_less_eq_dividend)
  then have "unat x div unat bs * unat bs < 2 ^ 64"
    by (rule le_less_trans) (simp add: unat_u64_less)
  then show ?thesis
    unfolding downAlignTo_def by (subst unat_mult_less) (simp_all add: unat_div)
qed

end
