(* ===== verification/ListDs.thy ===== *)
theory ListDs
  imports Prelude
begin

text \<open>
  The intrusive circular doubly linked list of \<open>src/kernel/lib/ds.h\<close>.  The heap maps
  the address of a \<open>List\<close> member to its two pointers, and every operation is the
  sequence of stores of the C function, so aliasing (inserting behind a node whose
  successor is itself, deleting the last node) behaves as in the code.  \<open>ring h xs\<close>
  says that the nodes \<open>xs\<close> form one cycle; the locale \<open>circular_list\<close> states what the
  kernel's clients rely on, and is interpreted on these operations.
\<close>

section \<open>The structure and its operations\<close>

record List =
  nxt :: ptr
  prv :: ptr

type_synonym lheap = "ptr \<Rightarrow> List"

definition set_nxt :: "ptr \<Rightarrow> ptr \<Rightarrow> lheap \<Rightarrow> lheap" where
  "set_nxt p v h = h(p := (h p)\<lparr>nxt := v\<rparr>)"

definition set_prv :: "ptr \<Rightarrow> ptr \<Rightarrow> lheap \<Rightarrow> lheap" where
  "set_prv p v h = h(p := (h p)\<lparr>prv := v\<rparr>)"

definition List_init :: "ptr \<Rightarrow> lheap \<Rightarrow> lheap" where
  "List_init list h = set_prv list list (set_nxt list list h)"

definition List_insBehind :: "ptr \<Rightarrow> ptr \<Rightarrow> lheap \<Rightarrow> lheap" where
  "List_insBehind ele pos h =
    (let h = set_nxt ele (nxt (h pos)) h;
         h = set_prv ele pos h;
         h = set_prv (nxt (h pos)) ele h
     in set_nxt pos ele h)"

definition List_insBefore :: "ptr \<Rightarrow> ptr \<Rightarrow> lheap \<Rightarrow> lheap" where
  "List_insBefore ele pos h =
    (let h = set_nxt ele pos h;
         h = set_prv ele (prv (h pos)) h;
         h = set_nxt (prv (h pos)) ele h
     in set_prv pos ele h)"

definition List_isEmpty :: "ptr \<Rightarrow> lheap \<Rightarrow> bool" where
  "List_isEmpty ele h \<longleftrightarrow> prv (h ele) = ele \<and> nxt (h ele) = ele"

definition List_del :: "ptr \<Rightarrow> lheap \<Rightarrow> lheap" where
  "List_del ele h =
    (let h = set_prv (nxt (h ele)) (prv (h ele)) h;
         h = set_nxt (prv (h ele)) (nxt (h ele)) h;
         h = set_nxt ele ele h
     in set_prv ele ele h)"

lemma set_nxt_simps [simp, heap_simps]:
  "nxt (set_nxt p v h q) = (if q = p then v else nxt (h q))"
  "prv (set_nxt p v h q) = prv (h q)"
  by (simp_all add: set_nxt_def)

lemma set_prv_simps [simp, heap_simps]:
  "prv (set_prv p v h q) = (if q = p then v else prv (h q))"
  "nxt (set_prv p v h q) = nxt (h q)"
  by (simp_all add: set_prv_def)

section \<open>Rings\<close>

fun links :: "lheap \<Rightarrow> ptr list \<Rightarrow> bool" where
  "links h [] = True"
| "links h [x] = True"
| "links h (x # y # zs) \<longleftrightarrow> nxt (h x) = y \<and> prv (h y) = x \<and> links h (y # zs)"

definition ring :: "lheap \<Rightarrow> ptr list \<Rightarrow> bool" where
  "ring h xs \<longleftrightarrow> xs \<noteq> [] \<and> distinct xs \<and> links h (xs @ [hd xs])"

lemma links_append:
  "links h (xs @ a # ys) \<longleftrightarrow> links h (xs @ [a]) \<and> links h (a # ys)"
proof (induction xs)
  case (Cons x xs)
  then show ?case by (cases xs) auto
qed simp

lemma links_split:
  assumes "links h (xs @ a # ys)"
  shows "links h (xs @ [a])" "links h (a # ys)"
  using assms links_append by blast+

lemma links_join: "links h (xs @ [a]) \<Longrightarrow> links h (a # ys) \<Longrightarrow> links h (xs @ a # ys)"
  using links_append by blast

lemma links_cong:
  assumes "\<And>x. x \<in> set (butlast xs) \<Longrightarrow> nxt (h' x) = nxt (h x)"
    and "\<And>x. x \<in> set (tl xs) \<Longrightarrow> prv (h' x) = prv (h x)"
  shows "links h' xs = links h xs"
  using assms by (induction h xs rule: links.induct) auto

lemma ring_not_Nil: "ring h xs \<Longrightarrow> xs \<noteq> []"
  by (simp add: ring_def)

lemma ring_distinct: "ring h xs \<Longrightarrow> distinct xs"
  by (simp add: ring_def)

lemma ring_cong:
  assumes "\<And>x. x \<in> set xs \<Longrightarrow> h' x = h x"
  shows "ring h' xs = ring h xs"
proof (cases xs)
  case (Cons a ys)
  have "links h' (xs @ [hd xs]) = links h (xs @ [hd xs])"
    using assms by (intro links_cong) (auto simp: Cons)
  then show ?thesis by (simp add: ring_def)
qed (simp add: ring_def)

lemma ring_rotate:
  assumes "ring h (xs @ ys)"
  shows "ring h (ys @ xs)"
proof (cases "xs = [] \<or> ys = []")
  case False
  then obtain x xs' y ys' where e: "xs = x # xs'" "ys = y # ys'"
    by (metis neq_Nil_conv)
  have l: "links h ((x # xs') @ y # (ys' @ [x]))"
    using assms by (simp add: ring_def e)
  then have "links h ((x # xs') @ [y])" "links h ((y # ys') @ [x])"
    using links_split [OF l] by simp_all
  then have "links h ((y # ys') @ x # (xs' @ [y]))"
    using links_join [of h "y # ys'" x "xs' @ [y]"] by simp
  then show ?thesis
    using assms by (auto simp: ring_def e)
qed (use assms in auto)

lemma ring_single: "ring h [p] \<longleftrightarrow> nxt (h p) = p \<and> prv (h p) = p"
  by (auto simp: ring_def)

lemma ring_Cons2:
  "ring h (p # q # xs) \<longleftrightarrow> distinct (p # q # xs) \<and> nxt (h p) = q \<and> prv (h q) = p \<and>
     links h (q # xs @ [p])"
  by (auto simp: ring_def)

lemma ring_List_init: "ring (List_init p h) [p]"
  by (simp add: List_init_def ring_single)

lemma ring_isEmpty: "ring h (p # xs) \<Longrightarrow> List_isEmpty p h \<longleftrightarrow> xs = []"
  by (cases xs) (auto simp: ring_single ring_Cons2 List_isEmpty_def)

lemma ring_insBehind:
  assumes r: "ring h (pos # xs)" and e: "ele \<notin> set (pos # xs)"
  shows "ring (List_insBehind ele pos h) (pos # ele # xs)"
proof (cases xs)
  case Nil
  with r e show ?thesis
    by (auto simp: ring_single ring_Cons2 List_insBehind_def Let_def)
next
  case (Cons s ys)
  have d: "distinct (pos # s # ys)" and l: "nxt (h pos) = s" "links h (s # ys @ [pos])"
    using r by (auto simp: ring_Cons2 Cons)
  have "links (List_insBehind ele pos h) (s # ys @ [pos]) = links h (s # ys @ [pos])"
    using d e by (intro links_cong) (auto simp: List_insBehind_def Let_def l Cons)
  then show ?thesis
    using d e l by (auto simp: ring_Cons2 Cons List_insBehind_def Let_def)
qed

lemma ring_insBefore:
  assumes r: "ring h (pos # xs)" and e: "ele \<notin> set (pos # xs)"
  shows "ring (List_insBefore ele pos h) (pos # xs @ [ele])"
proof -
  have "ring h (xs @ [pos])"
    using ring_rotate [of h "[pos]" xs] r by simp
  have "ring (List_insBefore ele pos h) (ele # pos # xs)"
  proof (cases xs rule: rev_cases)
    case Nil
    with r e show ?thesis
      by (auto simp: ring_single ring_Cons2 List_insBefore_def Let_def)
  next
    case (snoc ys s)
    have d: "distinct (pos # ys @ [s])" and l0: "links h ((pos # ys) @ s # [pos])"
      using r by (auto simp: ring_def snoc)
    have l: "prv (h pos) = s" "links h (pos # ys @ [s])"
      using links_split [OF l0] by simp_all
    let ?h = "List_insBefore ele pos h"
    have "links ?h (pos # ys @ [s]) = links h (pos # ys @ [s])"
      using d e by (intro links_cong) (auto simp: List_insBefore_def Let_def l snoc)
    moreover have "nxt (?h s) = ele" "prv (?h ele) = s" "nxt (?h ele) = pos" "prv (?h pos) = ele"
      using d e by (auto simp: List_insBefore_def Let_def l snoc)
    ultimately have "links ?h ((pos # ys) @ s # [ele])"
      using l links_join [of ?h "pos # ys" s "[ele]"] by simp
    with d e \<open>nxt (?h ele) = pos\<close> \<open>prv (?h pos) = ele\<close> show ?thesis
      by (auto simp: ring_Cons2 snoc)
  qed
  from ring_rotate [of _ "[ele]" "pos # xs", simplified, OF this] show ?thesis
    by simp
qed

lemma ring_del:
  assumes r: "ring h (ele # x # xs)"
  shows "ring (List_del ele h) (x # xs) \<and> ring (List_del ele h) [ele]"
proof (cases xs rule: rev_cases)
  case Nil
  with r show ?thesis
    by (auto simp: ring_single ring_Cons2 List_del_def Let_def)
next
  case (snoc ys s)
  have d: "distinct (ele # x # ys @ [s])" and l0: "links h ((ele # x # ys) @ s # [ele])"
    using r by (auto simp: ring_def snoc)
  have l: "nxt (h ele) = x" "prv (h ele) = s" "links h (x # ys @ [s])"
    using links_split [OF l0] by simp_all
  let ?h = "List_del ele h"
  have "links ?h (x # ys @ [s]) = links h (x # ys @ [s])"
    using d by (intro links_cong) (auto simp: List_del_def Let_def l)
  moreover have "nxt (?h s) = x" "prv (?h x) = s" "nxt (?h ele) = ele" "prv (?h ele) = ele"
    using d by (auto simp: List_del_def Let_def l)
  ultimately have "links ?h ((x # ys) @ s # [x])"
    using l links_join [of ?h "x # ys" s "[x]"] by simp
  then show ?thesis
    using d \<open>nxt (?h ele) = ele\<close> \<open>prv (?h ele) = ele\<close> by (auto simp: ring_def snoc)
qed

text \<open>Every operation leaves the nodes of other rings alone.\<close>

lemma List_insBehind_frame:
  assumes "ring h (pos # xs)" "q \<notin> set (pos # xs)" "q \<noteq> ele"
  shows "List_insBehind ele pos h q = h q"
proof -
  have "nxt (h pos) \<in> set (pos # xs)"
    using assms(1) by (cases xs) (auto simp: ring_single ring_Cons2)
  with assms(2,3) show ?thesis
    by (auto simp: List_insBehind_def Let_def set_nxt_def set_prv_def)
qed

lemma ring_prv_in: "ring h (p # xs) \<Longrightarrow> prv (h p) \<in> set (p # xs)"
proof (cases xs rule: rev_cases)
  case (snoc ys s)
  assume "ring h (p # xs)"
  then have "links h ((p # ys) @ s # [p])" by (simp add: ring_def snoc)
  then show ?thesis using links_split(2) [of h "p # ys" s "[p]"] by (simp add: snoc)
qed (auto simp: ring_single)

lemma ring_nxt_in: "ring h (p # xs) \<Longrightarrow> nxt (h p) \<in> set (p # xs)"
  by (cases xs) (auto simp: ring_single ring_Cons2)

lemma List_insBefore_frame:
  assumes "ring h (pos # xs)" "q \<notin> set (pos # xs)" "q \<noteq> ele"
  shows "List_insBefore ele pos h q = h q"
  using ring_prv_in [OF assms(1)] assms(2,3)
  by (auto simp: List_insBefore_def Let_def set_nxt_def set_prv_def)

lemma List_del_frame:
  assumes "ring h (ele # xs)" "q \<notin> set (ele # xs)"
  shows "List_del ele h q = h q"
  using ring_prv_in [OF assms(1)] ring_nxt_in [OF assms(1)] assms(2)
  by (auto simp: List_del_def Let_def set_nxt_def set_prv_def)

lemma List_init_frame: "q \<noteq> p \<Longrightarrow> List_init p h q = h q"
  by (simp add: List_init_def set_nxt_def set_prv_def)

section \<open>The interface of the kernel's lists\<close>

text \<open>
  What a client of \<open>ds.h\<close> relies on: a list is a ring through a head node; insertion
  behind the head pushes in front, insertion before the head appends, deletion unlinks
  the element from wherever it stands and leaves it a singleton, and nothing outside
  the ring is touched.
\<close>

locale circular_list =
  fixes init :: "'p \<Rightarrow> 'h \<Rightarrow> 'h"
    and ins_behind :: "'p \<Rightarrow> 'p \<Rightarrow> 'h \<Rightarrow> 'h"
    and ins_before :: "'p \<Rightarrow> 'p \<Rightarrow> 'h \<Rightarrow> 'h"
    and unlink :: "'p \<Rightarrow> 'h \<Rightarrow> 'h"
    and is_empty :: "'p \<Rightarrow> 'h \<Rightarrow> bool"
    and cycle :: "'h \<Rightarrow> 'p list \<Rightarrow> bool"
  assumes cycle_rotate: "cycle h (xs @ ys) \<Longrightarrow> cycle h (ys @ xs)"
    and cycle_distinct: "cycle h xs \<Longrightarrow> distinct xs"
    and init_law: "cycle (init p h) [p]"
    and init_frame: "\<lbrakk>cycle h ys; p \<notin> set ys\<rbrakk> \<Longrightarrow> cycle (init p h) ys"
    and empty_law: "cycle h (p # xs) \<Longrightarrow> is_empty p h \<longleftrightarrow> xs = []"
    and behind_law: "\<lbrakk>cycle h (p # xs); e \<notin> set (p # xs)\<rbrakk> \<Longrightarrow> cycle (ins_behind e p h) (p # e # xs)"
    and behind_frame: "\<lbrakk>cycle h (p # xs); cycle h ys; set ys \<inter> set (p # xs) = {}; e \<notin> set ys\<rbrakk>
      \<Longrightarrow> cycle (ins_behind e p h) ys"
    and before_law: "\<lbrakk>cycle h (p # xs); e \<notin> set (p # xs)\<rbrakk> \<Longrightarrow> cycle (ins_before e p h) (p # xs @ [e])"
    and before_frame: "\<lbrakk>cycle h (p # xs); cycle h ys; set ys \<inter> set (p # xs) = {}; e \<notin> set ys\<rbrakk>
      \<Longrightarrow> cycle (ins_before e p h) ys"
    and unlink_law: "cycle h (e # x # xs) \<Longrightarrow> cycle (unlink e h) (x # xs) \<and> cycle (unlink e h) [e]"
    and unlink_frame: "\<lbrakk>cycle h (e # xs); cycle h ys; set ys \<inter> set (e # xs) = {}\<rbrakk>
      \<Longrightarrow> cycle (unlink e h) ys"
begin

lemma unlink_inner:
  assumes "cycle h (p # xs @ e # ys)"
  shows "cycle (unlink e h) (p # xs @ ys) \<and> cycle (unlink e h) [e]"
proof -
  have "cycle h ((e # ys) @ (p # xs))"
    using assms cycle_rotate [of h "p # xs" "e # ys"] by simp
  moreover obtain z zs where zs: "ys @ p # xs = z # zs"
    by (cases "ys @ p # xs") auto
  ultimately have "cycle (unlink e h) (ys @ p # xs) \<and> cycle (unlink e h) [e]"
    using unlink_law [of h e z zs] by simp
  then show ?thesis
    using cycle_rotate [of "unlink e h" ys "p # xs"] by simp
qed

text \<open>Appending the elements of a list one after the other, and taking them off the front.\<close>

fun append_all :: "'p \<Rightarrow> 'p list \<Rightarrow> 'h \<Rightarrow> 'h" where
  "append_all p [] h = h"
| "append_all p (e # es) h = append_all p es (ins_before e p h)"

lemma append_all_cycle:
  "\<lbrakk>cycle h (p # xs); distinct es; set es \<inter> set (p # xs) = {}\<rbrakk>
    \<Longrightarrow> cycle (append_all p es h) (p # xs @ es)"
proof (induction es arbitrary: h xs)
  case (Cons e es)
  have "cycle (ins_before e p h) (p # xs @ [e])"
    using Cons.prems by (intro before_law) auto
  from Cons.IH [OF this] Cons.prems show ?case by auto
qed simp

lemma behind_in_order:
  assumes "cycle h (p # xs @ q # ys)" "e \<notin> set (p # xs @ q # ys)"
  shows "cycle (ins_behind e q h) (p # xs @ q # e # ys)"
proof -
  have "cycle h (q # ys @ p # xs)"
    using assms(1) cycle_rotate [of h "p # xs" "q # ys"] by simp
  then have "cycle (ins_behind e q h) ((q # e # ys) @ (p # xs))"
    using behind_law [of h q "ys @ p # xs" e] assms(2) by auto
  then show ?thesis
    using cycle_rotate [of "ins_behind e q h" "q # e # ys" "p # xs"] by simp
qed

lemma before_in_order:
  assumes "cycle h (p # xs @ q # ys)" "e \<notin> set (p # xs @ q # ys)"
  shows "cycle (ins_before e q h) (p # xs @ e # q # ys)"
proof -
  have "cycle h (q # ys @ p # xs)"
    using assms(1) cycle_rotate [of h "p # xs" "q # ys"] by simp
  then have "cycle (ins_before e q h) ((q # ys) @ (p # xs @ [e]))"
    using before_law [of h q "ys @ p # xs" e] assms(2) by auto
  then show ?thesis
    using cycle_rotate [of "ins_before e q h" "q # ys" "p # xs @ [e]"] by simp
qed

end

lemma ring_frame:
  assumes "ring h ys" "\<And>q. q \<in> set ys \<Longrightarrow> h' q = h q"
  shows "ring h' ys"
  using assms ring_cong [of ys h' h] by blast

interpretation kl: circular_list List_init List_insBehind List_insBefore List_del List_isEmpty ring
proof unfold_locales
  show "ring h (xs @ ys) \<Longrightarrow> ring h (ys @ xs)" for h xs ys by (rule ring_rotate)
  show "ring h xs \<Longrightarrow> distinct xs" for h xs by (rule ring_distinct)
  show "ring (List_init p h) [p]" for p h by (rule ring_List_init)
  show "\<lbrakk>ring h ys; p \<notin> set ys\<rbrakk> \<Longrightarrow> ring (List_init p h) ys" for h ys p
    by (erule ring_frame, rule List_init_frame, auto)
  show "ring h (p # xs) \<Longrightarrow> List_isEmpty p h \<longleftrightarrow> xs = []" for h p xs by (rule ring_isEmpty)
  show "\<lbrakk>ring h (p # xs); e \<notin> set (p # xs)\<rbrakk> \<Longrightarrow> ring (List_insBehind e p h) (p # e # xs)" for h p xs e
    by (rule ring_insBehind)
  show "\<lbrakk>ring h (p # xs); ring h ys; set ys \<inter> set (p # xs) = {}; e \<notin> set ys\<rbrakk>
      \<Longrightarrow> ring (List_insBehind e p h) ys" for h p xs ys e
    by (erule ring_frame, erule List_insBehind_frame) auto
  show "\<lbrakk>ring h (p # xs); e \<notin> set (p # xs)\<rbrakk> \<Longrightarrow> ring (List_insBefore e p h) (p # xs @ [e])" for h p xs e
    by (rule ring_insBefore)
  show "\<lbrakk>ring h (p # xs); ring h ys; set ys \<inter> set (p # xs) = {}; e \<notin> set ys\<rbrakk>
      \<Longrightarrow> ring (List_insBefore e p h) ys" for h p xs ys e
    by (erule ring_frame, erule List_insBefore_frame) auto
  show "ring h (e # x # xs) \<Longrightarrow> ring (List_del e h) (x # xs) \<and> ring (List_del e h) [e]" for h e x xs
    by (rule ring_del)
  show "\<lbrakk>ring h (e # xs); ring h ys; set ys \<inter> set (e # xs) = {}\<rbrakk> \<Longrightarrow> ring (List_del e h) ys" for h e xs ys
    by (erule ring_frame, erule List_del_frame) auto
qed

text \<open>
  The list view that the component theories use: inserting behind the head of a list is
  \<open>Cons\<close>, inserting before it is appending, and deleting an element is \<open>remove1\<close>.
\<close>

lemma kl_unlink_remove1:
  assumes "ring h (p # xs)" "e \<in> set xs"
  shows "ring (List_del e h) (p # remove1 e xs)"
proof -
  obtain ys zs where s: "xs = ys @ e # zs" using split_list [OF assms(2)] by blast
  then have "e \<notin> set ys" using ring_distinct [OF assms(1)] by auto
  with s show ?thesis
    using kl.unlink_inner [of h p ys e zs] assms(1) by (simp add: remove1_append_notin)
qed

text \<open>
  Inserting a node behind itself, as the slab allocator does when it moves the first
  slab to the front of its own list, takes it out of the ring.
\<close>

lemma List_insBehind_self:
  "nxt (h p) = p \<Longrightarrow> nxt (List_insBehind p p h p) = p \<and> prv (List_insBehind p p h p) = p"
  by (simp add: List_insBehind_def Let_def)

end
