(* ===== verification/MemOps.thy ===== *)
theory MemOps
  imports Prelude
begin

text \<open>
  The string instructions of \<open>src/kernel/lib/memop.c\<close> on a byte-addressed memory.
  Every function is the instruction sequence of its inline assembly: the repeat prefixes
  are loops on the 64-bit counter register, the quadword, doubleword, word and byte
  stores follow one another, and the comparisons are of signed bytes because the code
  branches with \<open>jl\<close>.  The comparison loops take the flags found on entry, which
  \<open>repe cmpsb\<close> leaves unchanged when its count is 0.
\<close>

type_synonym mem = "u64 \<Rightarrow> u8"

section \<open>Stores and repeated stores\<close>

fun put_bytes :: "mem \<Rightarrow> u64 \<Rightarrow> u8 list \<Rightarrow> mem" where
  "put_bytes m a [] = m"
| "put_bytes m a (b # bs) = put_bytes (m(a := b)) (a + 1) bs"

definition get_bytes :: "mem \<Rightarrow> u64 \<Rightarrow> nat \<Rightarrow> u8 list" where
  "get_bytes m a n = map (\<lambda>i. m (a + of_nat i)) [0..<n]"

text \<open>The low \<open>n\<close> bytes of a register, least significant first.\<close>

definition le_bytes :: "u64 \<Rightarrow> nat \<Rightarrow> u8 list" where
  "le_bytes v n = map (\<lambda>i. ucast (drop_bit (8 * i) v)) [0..<n]"

function rep_stosq :: "mem \<Rightarrow> u64 \<Rightarrow> u64 \<Rightarrow> u64 \<Rightarrow> mem \<times> u64" where
  "rep_stosq m rax rdi rcx =
    (if rcx = 0 then (m, rdi)
     else rep_stosq (put_bytes m rdi (le_bytes rax 8)) rax (rdi + 8) (rcx - 1))"
  by pat_completeness auto
termination
  by (relation "measure (\<lambda>(_, _, _, rcx). unat rcx)") (auto simp: unat_minus_one unat_eq_0 unat_gt_0)

declare rep_stosq.simps [simp del]

definition memset :: "mem \<Rightarrow> u64 \<Rightarrow> u8 \<Rightarrow> i64 \<Rightarrow> mem" where
  "memset m addr dt sz =
    (let tmp = ucast dt * 0x0101010101010101;
         (m, rdi) = rep_stosq m tmp addr (signed_drop_bit 3 sz);
         (m, rdi) = (if bit sz 2 then (put_bytes m rdi (le_bytes tmp 4), rdi + 4) else (m, rdi));
         (m, rdi) = (if bit sz 1 then (put_bytes m rdi (le_bytes tmp 2), rdi + 2) else (m, rdi));
         (m, rdi) = (if bit sz 0 then (put_bytes m rdi (le_bytes tmp 1), rdi + 1) else (m, rdi))
     in m)"

function rep_movsq :: "mem \<Rightarrow> u64 \<Rightarrow> u64 \<Rightarrow> u64 \<Rightarrow> mem \<times> u64 \<times> u64" where
  "rep_movsq m rsi rdi rcx =
    (if rcx = 0 then (m, rsi, rdi)
     else rep_movsq (put_bytes m rdi (get_bytes m rsi 8)) (rsi + 8) (rdi + 8) (rcx - 1))"
  by pat_completeness auto
termination
  by (relation "measure (\<lambda>(_, _, _, rcx). unat rcx)") (auto simp: unat_minus_one unat_eq_0 unat_gt_0)

declare rep_movsq.simps [simp del]

definition movs :: "nat \<Rightarrow> mem \<times> u64 \<times> u64 \<Rightarrow> mem \<times> u64 \<times> u64" where
  "movs n = (\<lambda>(m, rsi, rdi).
     (put_bytes m rdi (get_bytes m rsi n), rsi + of_nat n, rdi + of_nat n))"

text \<open>The count is \<open>num / 8\<close>, a division of signed numbers that truncates.\<close>

definition sdiv8 :: "i64 \<Rightarrow> i64" where
  "sdiv8 num = (if sint num < 0 then - word_of_int (- sint num div 8) else num div 8)"

definition memcpy :: "mem \<Rightarrow> u64 \<Rightarrow> u64 \<Rightarrow> i64 \<Rightarrow> mem" where
  "memcpy m src dst num =
    (let s = rep_movsq m src dst (sdiv8 num);
         s = (if bit num 2 then movs 4 s else s);
         s = (if bit num 1 then movs 2 s else s);
         s = (if bit num 0 then movs 1 s else s)
     in fst s)"

section \<open>Comparisons and searches\<close>

record flags =
  zf :: bool
  lt :: bool

definition cmp_flags :: "u8 \<Rightarrow> u8 \<Rightarrow> flags" where
  "cmp_flags a b = \<lparr>zf = (a = b), lt = (sint a < sint b)\<rparr>"

function repe_cmpsb :: "mem \<Rightarrow> u64 \<Rightarrow> u64 \<Rightarrow> u64 \<Rightarrow> flags \<Rightarrow> flags" where
  "repe_cmpsb m rsi rdi rcx fl =
    (if rcx = 0 then fl
     else let fl = cmp_flags (m rsi) (m rdi)
          in if zf fl then repe_cmpsb m (rsi + 1) (rdi + 1) (rcx - 1) fl else fl)"
  by pat_completeness auto
termination
  by (relation "measure (\<lambda>(_, _, _, rcx, _). unat rcx)") (auto simp: unat_minus_one unat_eq_0 unat_gt_0)

declare repe_cmpsb.simps [simp del]

definition memcmp :: "flags \<Rightarrow> mem \<Rightarrow> u64 \<Rightarrow> u64 \<Rightarrow> i64 \<Rightarrow> i32" where
  "memcmp fl m fir sec sz =
    (let fl = repe_cmpsb m sec fir sz fl
     in if zf fl then 0 else if lt fl then 1 else - 1)"

function repne_scasb :: "mem \<Rightarrow> u8 \<Rightarrow> u64 \<Rightarrow> u64 \<Rightarrow> u64" where
  "repne_scasb m al rdi rcx =
    (if rcx = 0 then rcx
     else if m rdi = al then rcx - 1
     else repne_scasb m al (rdi + 1) (rcx - 1))"
  by pat_completeness auto
termination
  by (relation "measure (\<lambda>(_, _, _, rcx). unat rcx)") (auto simp: unat_minus_one unat_eq_0 unat_gt_0)

declare repne_scasb.simps [simp del]

definition strlen :: "mem \<Rightarrow> u64 \<Rightarrow> i64" where
  "strlen m str = NOT (repne_scasb m 0 str 0xffffffffffffffff) - 1"

text \<open>\<open>strcmp\<close> has no bound: on two equal byte streams without a NUL it does not return.\<close>

partial_function (option) strcmp :: "mem \<Rightarrow> u64 \<Rightarrow> u64 \<Rightarrow> i32 option" where
  "strcmp m rdi rsi =
    (let al = m rsi; fl = cmp_flags al (m rdi)
     in if \<not> zf fl then Some (if lt fl then 1 else - 1)
        else if al \<noteq> 0 then strcmp m (rdi + 1) (rsi + 1)
        else Some 0)"

text \<open>
  \<open>decq\<close> and \<open>js\<close>: the loop stops when the counter, decremented, is negative as a
  signed number.
\<close>

function strncmp :: "mem \<Rightarrow> u64 \<Rightarrow> u64 \<Rightarrow> i64 \<Rightarrow> i32" where
  "strncmp m rdi rsi rcx =
    (let rcx' = rcx - 1
     in if sint rcx' < 0 then 0
        else let al = m rsi; fl = cmp_flags al (m rdi)
             in if \<not> zf fl then (if lt fl then 1 else - 1)
                else if al \<noteq> 0 then strncmp m (rdi + 1) (rsi + 1) rcx'
                else 0)"
  by pat_completeness auto
termination
proof (relation "measure (\<lambda>(_, _, _, rcx). unat rcx)", simp, clarsimp)
  fix rcx :: i64
  assume "\<not> sint (rcx - 1) < 0"
  then have "rcx \<noteq> 0" by auto
  then show "unat (rcx - 1) < unat rcx" by (simp add: unat_minus_one unat_gt_0)
qed

declare strncmp.simps [simp del]

lemma put_bytes_apply:
  "length bs \<le> 2 ^ 64 \<Longrightarrow>
    put_bytes m a bs x = (if unat (x - a) < length bs then bs ! unat (x - a) else m x)"
proof (induction bs arbitrary: m a)
  case (Cons b bs)
  show ?case
  proof (cases "x = a")
    case True
    have "unat (a - (a + 1)) = 2 ^ 64 - 1" by (simp add: unat_max)
    with True Cons show ?thesis by simp
  next
    case False
    then have "x - a \<noteq> 0" by simp
    then have "unat (x - (a + 1)) = unat (x - a) - 1" "0 < unat (x - a)"
      using unat_minus1 [of "x - a"] by (simp_all add: diff_diff_eq unat_gt_0)
    with Cons False show ?thesis by (auto simp: nth_Cons')
  qed
qed simp

lemma put_bytes_append:
  "put_bytes m a (xs @ ys) = put_bytes (put_bytes m a xs) (a + of_nat (length xs)) ys"
  by (induction xs arbitrary: m a) (auto simp: algebra_simps)

lemma length_le_bytes [simp]: "length (le_bytes v n) = n"
  by (simp add: le_bytes_def)

lemma length_get_bytes [simp]: "length (get_bytes m a n) = n"
  by (simp add: get_bytes_def)

lemma rep_stosq_eq:
  "rep_stosq m rax rdi rcx =
     (put_bytes m rdi (concat (replicate (unat rcx) (le_bytes rax 8))), rdi + 8 * rcx)"
proof (induction m rax rdi rcx rule: rep_stosq.induct)
  case (1 m rax rdi rcx)
  show ?case
  proof (cases "rcx = 0")
    case True
    then show ?thesis by (subst rep_stosq.simps) simp
  next
    case False
    then have r: "unat rcx = Suc (unat (rcx - 1))"
      using unat_gt_0 [of rcx] by (simp add: unat_minus1)
    show ?thesis
      using False 1 by (subst rep_stosq.simps) (simp add: r put_bytes_append algebra_simps)
  qed
qed

text \<open>The number whose \<open>n\<close> base-256 digits are all 1.\<close>

primrec ones256 :: "nat \<Rightarrow> nat" where
  "ones256 0 = 0"
| "ones256 (Suc n) = 1 + 256 * ones256 n"

lemma ones256_8: "ones256 8 = 0x0101010101010101"
proof -
  have e: "8 = Suc (Suc (Suc (Suc (Suc (Suc (Suc (Suc 0)))))))" by simp
  show ?thesis by (subst e) simp
qed

lemma fill_nat: "\<lbrakk>d < 256; i < n\<rbrakk> \<Longrightarrow> d * ones256 n div 256 ^ i mod 256 = d"
proof (induction i arbitrary: n)
  case (Suc i)
  then obtain n' where n: "n = Suc n'" "i < n'" by (cases n) auto
  have "d * ones256 n = d + 256 * (d * ones256 n')"
    by (simp add: n algebra_simps)
  then have "d * ones256 n div 256 = d * ones256 n'"
    using Suc.prems(1) by simp
  then show ?case
    using Suc.IH [OF Suc.prems(1) n(2)] by (simp add: div_mult2_eq)
next
  case 0
  then obtain n' where n: "n = Suc n'" by (cases n) auto
  have "d * ones256 n = d + 256 * (d * ones256 n')"
    by (simp add: n algebra_simps)
  with 0 show ?case by simp
qed

lemma byte_of_fill:
  assumes "i < 8"
  shows "ucast (drop_bit (8 * i) (ucast dt * 0x0101010101010101 :: u64)) = (dt :: u8)"
proof -
  let ?d = "unat dt"
  have d: "?d < 256" by (rule unat_u8_less)
  have u: "unat (ucast dt * 0x0101010101010101 :: u64) = ?d * 0x0101010101010101"
    using d by (subst unat_mult_less) (simp_all add: unat_ucast_mod)
  have "?d * 0x0101010101010101 div 256 ^ i mod 256 = ?d"
    using fill_nat [OF d assms] by (simp only: ones256_8)
  then have "?d * 0x0101010101010101 div 2 ^ (8 * i) mod 256 = ?d"
    by (simp add: power_mult)
  then show ?thesis
    by (simp add: word_unat_eq_iff unat_ucast_mod u unat_div_pow2)
qed

lemma le_bytes_fill:
  "n \<le> 8 \<Longrightarrow> le_bytes (ucast dt * 0x0101010101010101) n = replicate n (dt :: u8)"
  by (rule nth_equalityI) (simp_all add: le_bytes_def byte_of_fill)

lemma concat_replicate_replicate: "concat (replicate k (replicate n x)) = replicate (k * n) x"
  by (induction k) (simp_all add: replicate_add)

text \<open>A non-negative count splits into quadwords and its low three bits.\<close>

lemma low3_split:
  fixes sz :: u64
  shows "unat (drop_bit 3 sz) * 8 + (if bit sz 2 then 4 else 0) + (if bit sz 1 then 2 else 0) +
     (if bit sz 0 then 1 else 0) = unat sz"
proof -
  have b: "bit sz i \<longleftrightarrow> odd (unat sz div 2 ^ i)" if "i < 64" for i
    unfolding bit_iff_odd [of "unat sz", symmetric] using that by (simp add: bit_unsigned_iff)
  let ?n = "unat sz"
  have e: "(if bit sz i then k else 0) = k * (?n div 2 ^ i mod 2)" if "i < 64" for i k
    using b [OF that] by (simp add: odd_iff_mod_2_eq_one)
  have "?n = 2 * (?n div 2) + ?n mod 2" "?n div 2 = 2 * (?n div 4) + ?n div 2 mod 2"
    "?n div 4 = 2 * (?n div 8) + ?n div 4 mod 2"
    using div_mult2_eq [of ?n 2 2] div_mult2_eq [of ?n 4 2] by simp_all
  then have "?n div 8 * 8 + 4 * (?n div 4 mod 2) + 2 * (?n div 2 mod 2) + ?n mod 2 = ?n"
    by linarith
  then show ?thesis
    unfolding unat_div_pow2 by (simp add: e del: One_nat_def)
qed

lemma le_bytes_4_2_1:
  "le_bytes (ucast dt * 0x0101010101010101) 8 = replicate 8 (dt :: u8)"
  "le_bytes (ucast dt * 0x0101010101010101) 4 = replicate 4 dt"
  "le_bytes (ucast dt * 0x0101010101010101) 2 = replicate 2 dt"
  "le_bytes (ucast dt * 0x0101010101010101) 1 = replicate 1 dt"
  using le_bytes_fill [of 8 dt] le_bytes_fill [of 4 dt] le_bytes_fill [of 2 dt] le_bytes_fill [of 1 dt]
  by simp_all

lemma signed_drop_bit_nonneg: "0 \<le> sint w \<Longrightarrow> signed_drop_bit n (w :: i64) = drop_bit n w"
  unfolding nonneg_i64 by (rule bit_word_eqI) (auto simp: bit_simps dest: bit_imp_le_length)

lemma memset_eq:
  assumes "0 \<le> sint sz"
  shows "memset m addr dt sz = put_bytes m addr (replicate (unat sz) dt)"
proof -
  let ?b = "\<lambda>i n. replicate (if bit sz i then n else 0) dt"
  have "memset m addr dt sz =
      put_bytes m addr (replicate (unat (drop_bit 3 sz) * 8) dt @ ?b 2 4 @ ?b 1 2 @ ?b 0 1)"
    unfolding memset_def Let_def rep_stosq_eq signed_drop_bit_nonneg [OF assms] le_bytes_4_2_1
    by (simp add: put_bytes_append concat_replicate_replicate le_bytes_4_2_1 [simplified] mult.commute add.assoc)
  also have "replicate (unat (drop_bit 3 sz) * 8) dt @ ?b 2 4 @ ?b 1 2 @ ?b 0 1 = replicate (unat sz) dt"
    unfolding replicate_add [symmetric] using low3_split [of sz] by (simp only: add.assoc)
  finally show ?thesis .
qed

lemma memset_apply:
  assumes "0 \<le> sint sz"
  shows "memset m addr dt sz x = (if unat (x - addr) < unat sz then dt else m x)"
  using unat_u64_less [of sz] by (simp add: memset_eq [OF assms] put_bytes_apply)

text \<open>Copying, when the two regions are disjoint.\<close>

definition disjoint_regions :: "u64 \<Rightarrow> u64 \<Rightarrow> nat \<Rightarrow> bool" where
  "disjoint_regions a b n \<longleftrightarrow> (\<forall>i<n. \<forall>j<n. a + of_nat i \<noteq> b + of_nat j)"

lemma get_bytes_put_disjoint:
  assumes "disjoint_regions src dst N" "k + n \<le> N" "N \<le> 2 ^ 63"
  shows "get_bytes (put_bytes m dst (get_bytes m src k)) (src + of_nat k) n = get_bytes m (src + of_nat k) n"
proof (rule nth_equalityI)
  fix i assume "i < length (get_bytes (put_bytes m dst (get_bytes m src k)) (src + of_nat k) n)"
  then have i: "i < n" by simp
  let ?x = "src + of_nat k + of_nat i :: u64"
  have "\<not> unat (?x - dst) < k"
  proof
    assume l: "unat (?x - dst) < k"
    have "dst + of_nat (unat (?x - dst)) = src + of_nat (k + i)" by simp
    moreover have "unat (?x - dst) < N" "k + i < N" using l i assms(2) by auto
    ultimately show False using assms(1) unfolding disjoint_regions_def by metis
  qed
  then show "get_bytes (put_bytes m dst (get_bytes m src k)) (src + of_nat k) n ! i =
      get_bytes m (src + of_nat k) n ! i"
    using i assms(2,3) put_bytes_apply [of "get_bytes m src k" m dst ?x]
    by (simp add: get_bytes_def)
qed simp

lemma get_bytes_split: "get_bytes m a (k + n) = get_bytes m a k @ get_bytes m (a + of_nat k) n"
  by (rule nth_equalityI) (auto simp: get_bytes_def nth_append algebra_simps)

definition copied :: "mem \<Rightarrow> u64 \<Rightarrow> u64 \<Rightarrow> nat \<Rightarrow> mem \<times> u64 \<times> u64" where
  "copied m src dst k = (put_bytes m dst (get_bytes m src k), src + of_nat k, dst + of_nat k)"

lemma movs_copied:
  assumes "disjoint_regions src dst N" "k + n \<le> N" "N \<le> 2 ^ 63"
  shows "movs n (copied m src dst k) = copied m src dst (k + n)"
  using get_bytes_put_disjoint [OF assms]
  by (simp add: movs_def copied_def get_bytes_split put_bytes_append add.assoc)

lemma rep_movsq_copied:
  assumes "disjoint_regions src dst N" "k + 8 * unat rcx \<le> N" "N \<le> 2 ^ 63"
    and "copied m src dst k = (m', rsi, rdi)"
  shows "rep_movsq m' rsi rdi rcx = copied m src dst (k + 8 * unat rcx)"
  using assms(2,4)
proof (induction "unat rcx" arbitrary: rcx k m' rsi rdi)
  case 0
  then have "rcx = 0" by (simp add: unat_eq_0)
  with 0 show ?case by (subst rep_movsq.simps) simp
next
  case (Suc c)
  then have nz: "rcx \<noteq> 0" by auto
  have c: "unat (rcx - 1) = c" using Suc.hyps(2) nz by (simp add: unat_minus1)
  have st: "movs 8 (m', rsi, rdi) = copied m src dst (k + 8)"
    using movs_copied [OF assms(1) _ assms(3), of k 8 m] Suc.prems Suc.hyps(2) by simp
  then have e: "copied m src dst (k + 8) = (put_bytes m' rdi (get_bytes m' rsi 8), rsi + 8, rdi + 8)"
    by (simp add: movs_def)
  have "rep_movsq m' rsi rdi rcx = rep_movsq (put_bytes m' rdi (get_bytes m' rsi 8)) (rsi + 8) (rdi + 8) (rcx - 1)"
    using nz by (subst rep_movsq.simps) simp
  also have "\<dots> = copied m src dst (k + 8 + 8 * unat (rcx - 1))"
    using Suc.prems(1) Suc.hyps(2) c by (intro Suc.hyps(1)) (simp_all add: e)
  finally show ?case using c by (simp flip: Suc.hyps(2) add: algebra_simps)
qed

lemma memcpy_eq:
  assumes "0 \<le> sint num" "disjoint_regions src dst (unat num)"
  shows "memcpy m src dst num = put_bytes m dst (get_bytes m src (unat num))"
proof -
  have le: "unat num \<le> 2 ^ 63"
    using assms(1) nonneg_i64_unat by simp
  have d: "sdiv8 num = drop_bit 3 num"
    using assms(1) by (simp add: sdiv8_def drop_bit_eq_div)
  let ?k = "unat (drop_bit 3 num) * 8"
  note mv = movs_copied [OF assms(2) _ le, of _ _ m] and ls = low3_split [of num]
  have 0: "rep_movsq m src dst (sdiv8 num) = copied m src dst ?k"
    using rep_movsq_copied [OF assms(2) _ le, of 0 "drop_bit 3 num" m m src dst] ls
    by (simp add: d copied_def get_bytes_def mult.commute)
  have "memcpy m src dst num = fst (copied m src dst (unat num))"
    unfolding memcpy_def Let_def 0 using ls by (auto simp: mv split: if_splits)
  then show ?thesis by (simp add: copied_def)
qed

lemma memcpy_apply:
  assumes "0 \<le> sint num" "disjoint_regions src dst (unat num)"
  shows "memcpy m src dst num x = (if unat (x - dst) < unat num then m (src + (x - dst)) else m x)"
  using unat_u64_less [of num] by (simp add: memcpy_eq [OF assms] put_bytes_apply get_bytes_def)

text \<open>Comparison: the first difference decides, as signed bytes.\<close>

lemma repe_cmpsb_diff:
  "\<lbrakk>k < unat rcx; \<forall>i<k. m (rsi + of_nat i) = m (rdi + of_nat i); m (rsi + of_nat k) \<noteq> m (rdi + of_nat k)\<rbrakk>
    \<Longrightarrow> repe_cmpsb m rsi rdi rcx fl = cmp_flags (m (rsi + of_nat k)) (m (rdi + of_nat k))"
proof (induction k arbitrary: rsi rdi rcx fl)
  case 0
  then show ?case by (subst repe_cmpsb.simps) (auto simp: cmp_flags_def)
next
  case (Suc k)
  have nz: "rcx \<noteq> 0" using Suc.prems(1) by auto
  have "m rsi = m rdi" using Suc.prems(2) by force
  moreover have "repe_cmpsb m (rsi + 1) (rdi + 1) (rcx - 1) fl' =
      cmp_flags (m (rsi + 1 + of_nat k)) (m (rdi + 1 + of_nat k))" for fl'
  proof (rule Suc.IH)
    show "k < unat (rcx - 1)" using Suc.prems(1) nz by (simp add: unat_minus1)
    show "\<forall>i<k. m (rsi + 1 + of_nat i) = m (rdi + 1 + of_nat i)"
    proof (intro allI impI)
      fix i assume "i < k"
      then show "m (rsi + 1 + of_nat i) = m (rdi + 1 + of_nat i)"
        using Suc.prems(2) [rule_format, of "Suc i"] by (simp add: add.assoc)
    qed
    show "m (rsi + 1 + of_nat k) \<noteq> m (rdi + 1 + of_nat k)"
      using Suc.prems(3) by (simp add: add.assoc)
  qed
  ultimately show ?case
    using nz by (subst repe_cmpsb.simps) (simp add: cmp_flags_def add.assoc)
qed

lemma repe_cmpsb_same:
  "\<lbrakk>rcx \<noteq> 0; \<forall>i<unat rcx. m (rsi + of_nat i) = m (rdi + of_nat i)\<rbrakk>
    \<Longrightarrow> zf (repe_cmpsb m rsi rdi rcx fl)"
proof (induction "unat rcx" arbitrary: rsi rdi rcx fl)
  case (Suc c)
  have c: "unat (rcx - 1) = c" using Suc.hyps(2) Suc.prems(1) by (simp add: unat_minus1)
  have e: "m rsi = m rdi" using Suc.prems(2) Suc.hyps(2) by force
  show ?case
  proof (cases "rcx - 1 = 0")
    case True
    then have "repe_cmpsb m (rsi + 1) (rdi + 1) (rcx - 1) fl' = fl'" for fl'
      by (subst repe_cmpsb.simps) simp
    with e Suc.prems(1) show ?thesis
      by (subst repe_cmpsb.simps) (simp add: cmp_flags_def)
  next
    case False
    have "zf (repe_cmpsb m (rsi + 1) (rdi + 1) (rcx - 1) fl')" for fl'
    proof (rule Suc.hyps(1))
      show "c = unat (rcx - 1)" using c by simp
      show "rcx - 1 \<noteq> 0" by (fact False)
      show "\<forall>i<unat (rcx - 1). m (rsi + 1 + of_nat i) = m (rdi + 1 + of_nat i)"
      proof (intro allI impI)
        fix i assume "i < unat (rcx - 1)"
        then show "m (rsi + 1 + of_nat i) = m (rdi + 1 + of_nat i)"
          using Suc.prems(2) [rule_format, of "Suc i"] c Suc.hyps(2) by (simp add: add.assoc)
      qed
    qed
    with e Suc.prems(1) show ?thesis
      by (subst repe_cmpsb.simps) (simp add: cmp_flags_def)
  qed
qed (simp add: unat_eq_0)

lemma memcmp_same:
  assumes "sz \<noteq> 0" "\<forall>i<unat sz. m (fir + of_nat i) = m (sec + of_nat i)"
  shows "memcmp fl m fir sec sz = 0"
  using repe_cmpsb_same [of sz m sec fir fl] assms by (simp add: memcmp_def Let_def)

lemma memcmp_diff:
  assumes "k < unat sz" "\<forall>i<k. m (fir + of_nat i) = m (sec + of_nat i)"
    and "m (fir + of_nat k) \<noteq> m (sec + of_nat k)"
  shows "memcmp fl m fir sec sz =
     (if sint (m (fir + of_nat k)) > sint (m (sec + of_nat k)) then 1 else - 1)"
  using repe_cmpsb_diff [of k sz m sec fir fl] assms
  by (auto simp: memcmp_def Let_def cmp_flags_def)

lemma memcmp_zero_iff:
  assumes "sz \<noteq> 0"
  shows "memcmp fl m fir sec sz = 0 \<longleftrightarrow> get_bytes m fir (unat sz) = get_bytes m sec (unat sz)"
proof -
  have g: "get_bytes m fir (unat sz) = get_bytes m sec (unat sz) \<longleftrightarrow>
      (\<forall>i<unat sz. m (fir + of_nat i) = m (sec + of_nat i))"
    by (auto simp: get_bytes_def list_eq_iff_nth_eq)
  show ?thesis
  proof (cases "\<forall>i<unat sz. m (fir + of_nat i) = m (sec + of_nat i)")
    case True
    with assms g show ?thesis by (simp add: memcmp_same)
  next
    case False
    then obtain k where "k < unat sz" "\<forall>i<k. m (fir + of_nat i) = m (sec + of_nat i)"
      "m (fir + of_nat k) \<noteq> m (sec + of_nat k)"
      by (rule first_difference)
    from memcmp_diff [OF this, of fl] False g show ?thesis by (auto split: if_splits)
  qed
qed

lemma repne_scasb_found:
  "\<lbrakk>k < unat rcx; \<forall>i<k. m (rdi + of_nat i) \<noteq> al; m (rdi + of_nat k) = al\<rbrakk>
    \<Longrightarrow> repne_scasb m al rdi rcx = rcx - of_nat k - 1"
proof (induction k arbitrary: rdi rcx)
  case 0
  then show ?case by (subst repne_scasb.simps) auto
next
  case (Suc k)
  have nz: "rcx \<noteq> 0" using Suc.prems(1) by auto
  have "m rdi \<noteq> al" using Suc.prems(2) by force
  moreover have "repne_scasb m al (rdi + 1) (rcx - 1) = rcx - 1 - of_nat k - 1"
  proof (rule Suc.IH)
    show "k < unat (rcx - 1)" using Suc.prems(1) nz by (simp add: unat_minus1)
    show "\<forall>i<k. m (rdi + 1 + of_nat i) \<noteq> al"
    proof (intro allI impI)
      fix i assume "i < k"
      then show "m (rdi + 1 + of_nat i) \<noteq> al"
        using Suc.prems(2) [rule_format, of "Suc i"] by (simp add: add.assoc)
    qed
    show "m (rdi + 1 + of_nat k) = al" using Suc.prems(3) by (simp add: add.assoc)
  qed
  ultimately show ?case using nz by (subst repne_scasb.simps) (simp add: algebra_simps)
qed

lemma strlen_found:
  assumes "k < 2 ^ 64 - 1" "\<forall>i<k. m (str + of_nat i) \<noteq> 0" "m (str + of_nat k) = 0"
  shows "strlen m str = of_nat k"
proof -
  have "k < unat (0xffffffffffffffff :: u64)" using assms(1) by simp
  then have "repne_scasb m 0 str 0xffffffffffffffff = 0xffffffffffffffff - of_nat k - 1"
    using assms by (intro repne_scasb_found) auto
  moreover have "(0xffffffffffffffff :: u64) = - 1" by simp
  ultimately have "strlen m str = NOT (- 1 - of_nat k - 1) - 1"
    by (simp only: strlen_def)
  then show ?thesis by (simp only: not_eq_complement) simp
qed

lemma strcmp_first:
  "\<lbrakk>\<forall>i<k. m (a + of_nat i) = m (b + of_nat i) \<and> m (b + of_nat i) \<noteq> 0;
    m (a + of_nat k) \<noteq> m (b + of_nat k) \<or> m (b + of_nat k) = 0\<rbrakk>
    \<Longrightarrow> strcmp m a b = Some
      (if m (a + of_nat k) = m (b + of_nat k) then 0
       else if sint (m (b + of_nat k)) < sint (m (a + of_nat k)) then 1 else - 1)"
proof (induction k arbitrary: a b)
  case 0
  then show ?case by (subst strcmp.simps) (auto simp: cmp_flags_def Let_def)
next
  case (Suc k)
  have z: "m a = m b" "m b \<noteq> 0" using Suc.prems(1) by force+
  have "strcmp m (a + 1) (b + 1) = Some
      (if m (a + 1 + of_nat k) = m (b + 1 + of_nat k) then 0
       else if sint (m (b + 1 + of_nat k)) < sint (m (a + 1 + of_nat k)) then 1 else - 1)"
  proof (rule Suc.IH)
    show "\<forall>i<k. m (a + 1 + of_nat i) = m (b + 1 + of_nat i) \<and> m (b + 1 + of_nat i) \<noteq> 0"
    proof (intro allI impI)
      fix i assume "i < k"
      then show "m (a + 1 + of_nat i) = m (b + 1 + of_nat i) \<and> m (b + 1 + of_nat i) \<noteq> 0"
        using Suc.prems(1) [rule_format, of "Suc i"] by (simp add: add.assoc)
    qed
    show "m (a + 1 + of_nat k) \<noteq> m (b + 1 + of_nat k) \<or> m (b + 1 + of_nat k) = 0"
      using Suc.prems(2) by (simp add: add.assoc)
  qed
  with z show ?case by (subst strcmp.simps) (simp add: cmp_flags_def Let_def add.assoc)
qed

lemma strncmp_step:
  assumes "rcx \<noteq> 0" "unat rcx < 2 ^ 63" "m a = m b" "m b \<noteq> 0"
  shows "strncmp m a b rcx = strncmp m (a + 1) (b + 1) (rcx - 1)"
proof -
  have "unat (rcx - 1) < 2 ^ 63" using assms(1,2) by (simp add: unat_minus1)
  then have "\<not> sint (rcx - 1) < 0" using nonneg_i64_unat [of "rcx - 1"] by simp
  with assms show ?thesis by (subst strncmp.simps) (simp add: cmp_flags_def Let_def)
qed

lemma strncmp_stop:
  assumes "rcx \<noteq> 0" "unat rcx < 2 ^ 63" "m a \<noteq> m b \<or> m b = 0"
  shows "strncmp m a b rcx = (if m a = m b then 0 else if sint (m b) < sint (m a) then 1 else - 1)"
proof -
  have "unat (rcx - 1) < 2 ^ 63" using assms(1,2) by (simp add: unat_minus1)
  then have "\<not> sint (rcx - 1) < 0" using nonneg_i64_unat [of "rcx - 1"] by simp
  with assms show ?thesis by (subst strncmp.simps) (auto simp: cmp_flags_def Let_def)
qed

lemma strncmp_skip:
  "\<lbrakk>k \<le> unat rcx; unat rcx < 2 ^ 63; \<forall>i<k. m (a + of_nat i) = m (b + of_nat i) \<and> m (b + of_nat i) \<noteq> 0\<rbrakk>
    \<Longrightarrow> strncmp m a b rcx = strncmp m (a + of_nat k) (b + of_nat k) (rcx - of_nat k)"
proof (induction k arbitrary: a b rcx)
  case (Suc k)
  have nz: "rcx \<noteq> 0" using Suc.prems(1) by auto
  have "m a = m b" "m b \<noteq> 0" using Suc.prems(3) by force+
  then have "strncmp m a b rcx = strncmp m (a + 1) (b + 1) (rcx - 1)"
    using strncmp_step nz Suc.prems(2) by blast
  also have "\<dots> = strncmp m (a + 1 + of_nat k) (b + 1 + of_nat k) (rcx - 1 - of_nat k)"
  proof (rule Suc.IH)
    show "k \<le> unat (rcx - 1)" "unat (rcx - 1) < 2 ^ 63"
      using Suc.prems(1,2) nz by (simp_all add: unat_minus1)
    show "\<forall>i<k. m (a + 1 + of_nat i) = m (b + 1 + of_nat i) \<and> m (b + 1 + of_nat i) \<noteq> 0"
    proof (intro allI impI)
      fix i assume "i < k"
      then show "m (a + 1 + of_nat i) = m (b + 1 + of_nat i) \<and> m (b + 1 + of_nat i) \<noteq> 0"
        using Suc.prems(3) [rule_format, of "Suc i"] by (simp add: add.assoc)
    qed
  qed
  finally show ?case by (simp add: algebra_simps)
qed simp

lemma strncmp_zero: "strncmp m a b 0 = 0"
  by (subst strncmp.simps) simp

lemma strncmp_prefix:
  assumes "unat n < 2 ^ 63" "\<forall>i<unat n. m (a + of_nat i) = m (b + of_nat i) \<and> m (b + of_nat i) \<noteq> 0"
  shows "strncmp m a b n = 0"
  using strncmp_skip [OF order_refl assms] by (simp add: strncmp_zero)

lemma strncmp_first:
  assumes "k < unat n" "unat n < 2 ^ 63"
    and "\<forall>i<k. m (a + of_nat i) = m (b + of_nat i) \<and> m (b + of_nat i) \<noteq> 0"
    and "m (a + of_nat k) \<noteq> m (b + of_nat k) \<or> m (b + of_nat k) = 0"
  shows "strncmp m a b n = (if m (a + of_nat k) = m (b + of_nat k) then 0
       else if sint (m (b + of_nat k)) < sint (m (a + of_nat k)) then 1 else - 1)"
proof -
  have k: "unat (of_nat k :: u64) = k"
    using assms(1) unat_u64_less [of n] by (simp add: unat_of_nat)
  then have "unat (n - of_nat k) = unat n - k"
    using assms(1) by (simp add: unat_minus_le word_le_nat_alt)
  then have "n - of_nat k \<noteq> 0" "unat (n - of_nat k) < 2 ^ 63" using assms(1,2) by auto
  then show ?thesis
    using strncmp_skip [of k n m a b] strncmp_stop [of "n - of_nat k" m "a + of_nat k" "b + of_nat k"] assms
    by simp
qed

end
