(* ===== verification/Locks.thy ===== *)
theory Locks
  imports Prelude
begin

text \<open>
  \<open>src/kernel/lib/spinlock.h\<close>, \<open>spinlock.c\<close> and \<open>atomic.h\<close>.  \<open>SpinLock_lock\<close> is a loop
  around one atomic instruction, \<open>lock cmpxchg\<close>; a run of the machine is a sequence of
  such instructions by the processors, in any order, so the lock is a step relation on
  the lock word and the place each processor has reached.  The invariant \<open>lock_inv\<close>
  gives mutual exclusion; it holds because only the owner unlocks, and
  \<open>foreign_unlock_breaks\<close> shows what an unlock by another processor does.
\<close>

section \<open>The operations\<close>

record SpinLock =
  lock :: i64

definition SpinLock_init :: "SpinLock \<Rightarrow> SpinLock" where
  "SpinLock_init l = l\<lparr>lock := 0\<rparr>"

text \<open>
  \<open>lock cmpxchg rcx, mem\<close> with the expected value in rax: the new memory word, the new
  rax and the zero flag.
\<close>

definition cmpxchg :: "i64 \<Rightarrow> i64 \<Rightarrow> i64 \<Rightarrow> i64 \<times> i64 \<times> bool" where
  "cmpxchg mem rax rcx = (if mem = rax then (rcx, rax, True) else (mem, mem, False))"

text \<open>One turn of the loop of \<open>SpinLock_lock\<close>: the lock and whether the loop is left.\<close>

definition SpinLock_try :: "SpinLock \<Rightarrow> SpinLock \<times> bool" where
  "SpinLock_try l =
    (let a = 0; c = 1; (v, rax, z) = cmpxchg (lock l) a c in (l\<lparr>lock := v\<rparr>, z))"

definition SpinLock_unlock :: "SpinLock \<Rightarrow> SpinLock" where
  "SpinLock_unlock l = l\<lparr>lock := 0\<rparr>"

text \<open>
  Taking a lock within one processor's run: \<open>None\<close> when it is held, since the caller spins.
\<close>

definition SpinLock_acquire :: "SpinLock \<Rightarrow> SpinLock option" where
  "SpinLock_acquire l = (case SpinLock_try l of (l', z) \<Rightarrow> if z then Some l' else None)"

lemma SpinLock_acquire_free: "lock l = 0 \<Longrightarrow> SpinLock_acquire l = Some (l\<lparr>lock := 1\<rparr>)"
  by (simp add: SpinLock_acquire_def SpinLock_try_def cmpxchg_def Let_def)

lemma SpinLock_acquire_held: "lock l \<noteq> 0 \<Longrightarrow> SpinLock_acquire l = None"
  by (simp add: SpinLock_acquire_def SpinLock_try_def cmpxchg_def Let_def)

record Atomic =
  "value" :: i64

definition Atomic_add :: "Atomic \<Rightarrow> i64 \<Rightarrow> Atomic" where
  "Atomic_add a vl = a\<lparr>value := value a + vl\<rparr>"

definition Atomic_sub :: "Atomic \<Rightarrow> i64 \<Rightarrow> Atomic" where
  "Atomic_sub a vl = a\<lparr>value := value a - vl\<rparr>"

definition Atomic_inc :: "Atomic \<Rightarrow> Atomic" where
  "Atomic_inc a = a\<lparr>value := value a + 1\<rparr>"

definition Atomic_dec :: "Atomic \<Rightarrow> Atomic" where
  "Atomic_dec a = a\<lparr>value := value a - 1\<rparr>"

lemma Atomic_add_sub: "Atomic_sub (Atomic_add a v) v = a"
  by (simp add: Atomic_add_def Atomic_sub_def)

lemma Atomic_inc_dec: "Atomic_dec (Atomic_inc a) = a"
  by (simp add: Atomic_inc_def Atomic_dec_def)

text \<open>Atomic updates commute, so their order on different processors does not matter.\<close>

lemma Atomic_add_commute: "Atomic_add (Atomic_add a v) w = Atomic_add (Atomic_add a w) v"
  by (simp add: Atomic_add_def algebra_simps)

lemma Atomic_incs:
  "value ((Atomic_inc ^^ n) a) = value a + of_nat n"
  by (induction n) (simp_all add: Atomic_inc_def algebra_simps)

section \<open>Processors competing for a lock\<close>

datatype lock_pc = Outside | Spinning | Inside

record lock_sys =
  lk :: SpinLock
  pcs :: "nat \<Rightarrow> lock_pc"

definition lock_start :: lock_sys where
  "lock_start = \<lparr>lk = SpinLock_init \<lparr>lock = 0\<rparr>, pcs = (\<lambda>_. Outside)\<rparr>"

inductive lock_step :: "lock_sys \<Rightarrow> lock_sys \<Rightarrow> bool" where
  enter: "pcs s c = Outside \<Longrightarrow> lock_step s (s\<lparr>pcs := (pcs s)(c := Spinning)\<rparr>)"
| acquire: "\<lbrakk>pcs s c = Spinning; SpinLock_try (lk s) = (l, True)\<rbrakk>
    \<Longrightarrow> lock_step s (s\<lparr>lk := l, pcs := (pcs s)(c := Inside)\<rparr>)"
| retry: "\<lbrakk>pcs s c = Spinning; SpinLock_try (lk s) = (l, False)\<rbrakk>
    \<Longrightarrow> lock_step s (s\<lparr>lk := l\<rparr>)"
| release: "pcs s c = Inside
    \<Longrightarrow> lock_step s (s\<lparr>lk := SpinLock_unlock (lk s), pcs := (pcs s)(c := Outside)\<rparr>)"

inductive_cases lock_stepE: "lock_step s s'"

lemma SpinLock_try_True: "SpinLock_try l = (l', True) \<longleftrightarrow> lock l = 0 \<and> l' = l\<lparr>lock := 1\<rparr>"
  by (auto simp: SpinLock_try_def cmpxchg_def Let_def)

lemma SpinLock_try_False: "SpinLock_try l = (l', False) \<longleftrightarrow> lock l \<noteq> 0 \<and> l' = l"
  by (auto simp: SpinLock_try_def cmpxchg_def Let_def)

definition lock_inv :: "lock_sys \<Rightarrow> bool" where
  "lock_inv s \<longleftrightarrow>
     (lock (lk s) = 0 \<and> (\<forall>c. pcs s c \<noteq> Inside)) \<or>
     (lock (lk s) = 1 \<and> (\<exists>c. \<forall>d. pcs s d = Inside \<longleftrightarrow> d = c))"

lemma lock_inv_start: "lock_inv lock_start"
  by (simp add: lock_inv_def lock_start_def SpinLock_init_def)

lemma lock_inv_step: "\<lbrakk>lock_step s s'; lock_inv s\<rbrakk> \<Longrightarrow> lock_inv s'"
proof (induction rule: lock_step.induct)
  case (enter s c)
  have "((pcs s)(c := Spinning)) d = Inside \<longleftrightarrow> pcs s d = Inside" for d
    using enter by simp
  with enter show ?case by (simp add: lock_inv_def del: fun_upd_apply)
next
  case (acquire s c l)
  then have "lock (lk s) = 0" "l = (lk s)\<lparr>lock := 1\<rparr>" "\<forall>d. pcs s d \<noteq> Inside"
    by (auto simp: lock_inv_def SpinLock_try_True)
  then show ?case by (auto simp: lock_inv_def intro!: exI [of _ c])
next
  case (retry s c l)
  then show ?case by (simp add: lock_inv_def SpinLock_try_False)
next
  case (release s c)
  then have "\<forall>d. pcs s d = Inside \<longleftrightarrow> d = c" by (auto simp: lock_inv_def)
  then show ?case by (simp add: lock_inv_def SpinLock_unlock_def)
qed

lemma lock_inv_reachable: "lock_step\<^sup>*\<^sup>* lock_start s \<Longrightarrow> lock_inv s"
  by (induction rule: rtranclp_induct) (simp_all only: lock_inv_start lock_inv_step)

lemma lock_free_if_nobody_inside:
  "\<lbrakk>lock_inv s; \<forall>c. pcs s c \<noteq> Inside\<rbrakk> \<Longrightarrow> lock (lk s) = 0"
  by (auto simp: lock_inv_def)

lemma lock_progress:
  assumes "lock_inv s" "pcs s c = Spinning" "\<forall>d. pcs s d \<noteq> Inside"
  shows "lock_step s (s\<lparr>lk := (lk s)\<lparr>lock := 1\<rparr>, pcs := (pcs s)(c := Inside)\<rparr>)"
  using assms lock_free_if_nobody_inside [of s]
  by (intro lock_step.acquire) (simp_all add: SpinLock_try_True)

text \<open>
  The handler of the timer soft interrupt unlocks a lock that it does not hold; a
  processor that unlocks from outside lets a second one in.
\<close>

definition foreign_unlock :: "lock_sys \<Rightarrow> lock_sys" where
  "foreign_unlock s = s\<lparr>lk := SpinLock_unlock (lk s)\<rparr>"

lemma foreign_unlock_breaks:
  assumes "pcs s c = Inside" "pcs s d = Spinning"
  shows "\<exists>s'. lock_step (foreign_unlock s) s' \<and> pcs s' c = Inside \<and> pcs s' d = Inside"
proof (intro exI conjI)
  let ?s = "foreign_unlock s"
  let ?s' = "?s\<lparr>lk := (lk ?s)\<lparr>lock := 1\<rparr>, pcs := (pcs ?s)(d := Inside)\<rparr>"
  show "lock_step ?s ?s'"
    using assms by (intro lock_step.acquire)
      (simp_all add: SpinLock_try_True foreign_unlock_def SpinLock_unlock_def)
  show "pcs ?s' c = Inside" "pcs ?s' d = Inside"
    using assms by (simp_all add: foreign_unlock_def)
qed

section \<open>Mutual exclusion\<close>

text \<open>
  C26: In every run of any number of processors that take and release a spin lock, at most one is
  inside at a time; and whenever one spins, either one is inside or the spinning one can enter with
  its next attempt.
\<close>

theorem SpinLock_mutex:
  assumes "lock_step\<^sup>*\<^sup>* lock_start s"
  shows "(\<forall>c d. pcs s c = Inside \<and> pcs s d = Inside \<longrightarrow> c = d) \<and>
    (\<forall>c. pcs s c = Spinning \<longrightarrow> (\<exists>d. pcs s d = Inside) \<or> (\<exists>s'. lock_step s s' \<and> pcs s' c = Inside))"
proof (intro conjI allI impI)
  have i: "lock_inv s" by (rule lock_inv_reachable [OF assms])
  show "c = d" if "pcs s c = Inside \<and> pcs s d = Inside" for c d using i that by (auto simp: lock_inv_def)
  show "(\<exists>d. pcs s d = Inside) \<or> (\<exists>s'. lock_step s s' \<and> pcs s' c = Inside)" if c: "pcs s c = Spinning" for c
  proof (cases "\<exists>d. pcs s d = Inside")
    case False
    then show ?thesis using lock_progress [OF i c] by fastforce
  qed simp
qed

theorem SpinLock_mutex_witness:
  "let s = lock_start\<lparr>pcs := (\<lambda>_. Outside)(3 := Spinning)\<rparr> in
    (\<exists>d. pcs s d = Inside) \<or> (\<exists>s'. lock_step s s' \<and> pcs s' 3 = Inside)"
proof -
  have "lock_step lock_start (lock_start\<lparr>pcs := (\<lambda>_. Outside)(3 := Spinning)\<rparr>)"
    using lock_step.enter [of lock_start 3] by (simp add: lock_start_def)
  from SpinLock_mutex [OF r_into_rtranclp [where r = lock_step, OF this]] show ?thesis by (simp add: Let_def)
qed

end
