(* ===== verification/RBTree.thy ===== *)
theory RBTree
  imports Prelude Locks
begin

text \<open>
  The intrusive red-black tree of \<open>src/kernel/lib/rbtree.h\<close> and \<open>rbtree.c\<close> on a heap of
  nodes.  The colour and the parent share one word (\<open>unionParCol\<close>: bit 0 is the colour,
  the address has its two low bits clear), and every function is the sequence of loads and
  stores of the C function.  A pointer to a link (\<open>RBNode **src\<close>) is a \<open>slot\<close>.  The
  lock of the tree is taken by \<open>SpinLock_acquire\<close>, whose result is \<open>None\<close> when the lock
  is held, because the caller then spins.  Loops are partial functions into options, so that
  a cyclic heap does not return; the theories \<open>RBTree_Shape\<close>, \<open>RBTree_Insert\<close> and
  \<open>RBTree_Delete\<close> prove that they return on the heaps of red-black trees.
\<close>

section \<open>Nodes, trees, words\<close>

record RBNode =
  unionParCol :: u64
  left :: ptr
  right :: ptr

record RBTree =
  root :: ptr
  tlock :: SpinLock

record rbs = RBTree +
  nd :: "ptr \<Rightarrow> RBNode"

abbreviation (input) RBTree_Col_Red :: u64 where
  "RBTree_Col_Red \<equiv> 0"

abbreviation (input) RBTree_Col_Black :: u64 where
  "RBTree_Col_Black \<equiv> 1"

definition parent :: "rbs \<Rightarrow> ptr \<Rightarrow> ptr" where
  "parent s n = unionParCol (nd s n) AND NOT 3"

definition color :: "rbs \<Rightarrow> ptr \<Rightarrow> u64" where
  "color s n = unionParCol (nd s n) AND 1"

definition isRed :: "rbs \<Rightarrow> ptr \<Rightarrow> bool" where
  "isRed s n \<longleftrightarrow> color s n = 0"

definition isBlack :: "rbs \<Rightarrow> ptr \<Rightarrow> bool" where
  "isBlack s n \<longleftrightarrow> color s n \<noteq> 0"

definition set_upc :: "ptr \<Rightarrow> u64 \<Rightarrow> rbs \<Rightarrow> rbs" where
  "set_upc n v s = s\<lparr>nd := (nd s)(n := (nd s n)\<lparr>unionParCol := v\<rparr>)\<rparr>"

definition set_left :: "ptr \<Rightarrow> ptr \<Rightarrow> rbs \<Rightarrow> rbs" where
  "set_left n v s = s\<lparr>nd := (nd s)(n := (nd s n)\<lparr>left := v\<rparr>)\<rparr>"

definition set_right :: "ptr \<Rightarrow> ptr \<Rightarrow> rbs \<Rightarrow> rbs" where
  "set_right n v s = s\<lparr>nd := (nd s)(n := (nd s n)\<lparr>right := v\<rparr>)\<rparr>"

definition setRed :: "ptr \<Rightarrow> rbs \<Rightarrow> rbs" where
  "setRed n s = set_upc n (unionParCol (nd s n) AND NOT 1) s"

definition setBlack :: "ptr \<Rightarrow> rbs \<Rightarrow> rbs" where
  "setBlack n s = set_upc n (unionParCol (nd s n) OR 1) s"

definition setParent :: "ptr \<Rightarrow> ptr \<Rightarrow> rbs \<Rightarrow> rbs" where
  "setParent n par s = set_upc n ((unionParCol (nd s n) AND 3) OR par) s"

definition setCol :: "ptr \<Rightarrow> u64 \<Rightarrow> rbs \<Rightarrow> rbs" where
  "setCol n col s = set_upc n ((unionParCol (nd s n) AND NOT 1) OR col) s"

definition tree_lock :: "rbs \<Rightarrow> rbs option" where
  "tree_lock s = map_option (\<lambda>l. s\<lparr>tlock := l\<rparr>) (SpinLock_acquire (tlock s))"

definition tree_unlock :: "rbs \<Rightarrow> rbs" where
  "tree_unlock s = s\<lparr>tlock := SpinLock_unlock (tlock s)\<rparr>"

section \<open>Rotations and links\<close>

definition rotLeft :: "ptr \<Rightarrow> rbs \<Rightarrow> rbs" where
  "rotLeft node s =
    (let rt = right (nd s node);
         s = set_right node (left (nd s rt)) s;
         s = (if right (nd s node) \<noteq> NULL then setParent (left (nd s rt)) node s else s);
         s = set_left rt node s;
         s = setParent rt (parent s node) s;
         s = (if parent s rt \<noteq> NULL
              then if node = left (nd s (parent s node))
                   then set_left (parent s node) rt s
                   else set_right (parent s node) rt s
              else s\<lparr>root := rt\<rparr>)
     in setParent node rt s)"

definition rotRight :: "ptr \<Rightarrow> rbs \<Rightarrow> rbs" where
  "rotRight node s =
    (let lf = left (nd s node);
         s = set_left node (right (nd s lf)) s;
         s = (if left (nd s node) \<noteq> NULL then setParent (right (nd s lf)) node s else s);
         s = set_right lf node s;
         s = setParent lf (parent s node) s;
         s = (if parent s node \<noteq> NULL
              then if node = right (nd s (parent s node))
                   then set_right (parent s node) lf s
                   else set_left (parent s node) lf s
              else s\<lparr>root := lf\<rparr>)
     in setParent node lf s)"

datatype slot = RootSlot | LeftOf ptr | RightOf ptr

fun slot_get :: "slot \<Rightarrow> rbs \<Rightarrow> ptr" where
  "slot_get RootSlot s = root s"
| "slot_get (LeftOf p) s = left (nd s p)"
| "slot_get (RightOf p) s = right (nd s p)"

fun slot_set :: "slot \<Rightarrow> ptr \<Rightarrow> rbs \<Rightarrow> rbs" where
  "slot_set RootSlot v s = s\<lparr>root := v\<rparr>"
| "slot_set (LeftOf p) v s = set_left p v s"
| "slot_set (RightOf p) v s = set_right p v s"

definition linkNode :: "slot \<Rightarrow> ptr \<Rightarrow> ptr \<Rightarrow> rbs \<Rightarrow> rbs" where
  "linkNode src node par s =
    (let s = set_upc node par s;
         s = setRed node s;
         s = set_left node NULL (set_right node NULL s)
     in slot_set src node s)"

definition RBTree_init :: "rbs \<Rightarrow> rbs" where
  "RBTree_init s = s\<lparr>tlock := SpinLock_init (tlock s), root := NULL\<rparr>"

section \<open>Insertion\<close>

text \<open>
  The function that the macro \<open>RBTree_insert(name, comparator)\<close> defines: the slot where the
  node goes and the last node passed.
\<close>

partial_function (option) RBTree_insert ::
  "(ptr \<Rightarrow> ptr \<Rightarrow> bool) \<Rightarrow> rbs \<Rightarrow> ptr \<Rightarrow> slot \<Rightarrow> ptr \<Rightarrow> (slot \<times> ptr) option" where
  "RBTree_insert comparator s node src lst =
    (if slot_get src s \<noteq> NULL
     then let lst = slot_get src s
          in if comparator node lst then RBTree_insert comparator s node (LeftOf lst) lst
             else RBTree_insert comparator s node (RightOf lst) lst
     else Some (src, lst))"

partial_function (option) fixAfterIns :: "ptr \<Rightarrow> rbs \<Rightarrow> rbs option" where
  "fixAfterIns node s =
    (let par = parent s node in
     if par \<noteq> NULL \<and> isRed s par then
       let gPar = parent s par in
       if par = left (nd s gPar) then
         let uncle = right (nd s gPar) in
         if uncle \<noteq> NULL \<and> isRed s uncle
         then fixAfterIns gPar (setRed gPar (setBlack par (setBlack uncle s)))
         else if right (nd s par) = node
         then (let s = rotLeft par s; tmp = par; par = node; node = tmp
               in fixAfterIns node (rotRight gPar (setRed gPar (setBlack par s))))
         else fixAfterIns node (rotRight gPar (setRed gPar (setBlack par s)))
       else
         let uncle = left (nd s gPar) in
         if uncle \<noteq> NULL \<and> isRed s uncle
         then fixAfterIns gPar (setRed gPar (setBlack par (setBlack uncle s)))
         else if left (nd s par) = node
         then (let s = rotRight par s; tmp = par; par = node; node = tmp
               in fixAfterIns node (rotLeft gPar (setRed gPar (setBlack par s))))
         else fixAfterIns node (rotLeft gPar (setRed gPar (setBlack par s)))
     else Some (setBlack (root s) s))"

definition RBTree_insNode ::
  "(ptr \<Rightarrow> ptr \<Rightarrow> bool) \<Rightarrow> ptr \<Rightarrow> ptr \<Rightarrow> rbs \<Rightarrow> rbs option" where
  "RBTree_insNode comparator tree node s =
    (if tree = NULL \<or> node = NULL then Some s
     else case tree_lock s of None \<Rightarrow> None
     | Some s \<Rightarrow>
       if root s = NULL
       then let s = s\<lparr>root := node\<rparr>;
                s = set_left node NULL (set_right node NULL s);
                s = set_upc node 1 s
            in Some (tree_unlock s)
       else case RBTree_insert comparator s node RootSlot NULL of None \<Rightarrow> None
       | Some (src, lst) \<Rightarrow> map_option tree_unlock (fixAfterIns node (linkNode src node lst s)))"

section \<open>Deletion\<close>

abbreviation (input) noRed :: "rbs \<Rightarrow> ptr \<Rightarrow> bool" where
  "noRed s p \<equiv> p = NULL \<or> isBlack s p"

text \<open>
  The end of \<open>_fixAfterDel\<close> colours the node at which the loop stopped; the \<open>break\<close> of the
  rotation cases comes after \<open>node = tree->root\<close>.
\<close>

definition fixDel_end :: "ptr \<Rightarrow> rbs \<Rightarrow> rbs option" where
  "fixDel_end node s = Some (if node \<noteq> NULL then setBlack node s else s)"

text \<open>
  The two rotation cases, where the sibling \<open>other\<close> has a red child: first for a node
  that is a left child, then for a right child.
\<close>

definition fixDel_left :: "ptr \<Rightarrow> ptr \<Rightarrow> rbs \<Rightarrow> rbs option" where
  "fixDel_left other par s =
    (let (other, s) =
           (if noRed s (right (nd s other))
            then let o_left = left (nd s other);
                     s = (if o_left \<noteq> NULL then setBlack o_left s else s);
                     s = setRed other s;
                     s = rotRight other s
                 in (right (nd s par), s)
            else (other, s));
         s = setCol other (color s par) s;
         s = setBlack par s;
         s = (if right (nd s other) \<noteq> NULL then setBlack (right (nd s other)) s else s);
         s = rotLeft par s
     in fixDel_end (root s) s)"

definition fixDel_right :: "ptr \<Rightarrow> ptr \<Rightarrow> rbs \<Rightarrow> rbs option" where
  "fixDel_right other par s =
    (let (other, s) =
           (if noRed s (left (nd s other))
            then let s = (if right (nd s other) \<noteq> NULL
                          then setBlack (right (nd s other)) s else s);
                     s = setRed other s;
                     s = rotLeft other s
                 in (left (nd s par), s)
            else (other, s));
         s = setCol other (color s par) s;
         s = setBlack par s;
         s = (if left (nd s other) \<noteq> NULL then setBlack (left (nd s other)) s else s);
         s = rotRight par s
     in fixDel_end (root s) s)"

partial_function (option) fixAfterDel :: "ptr \<Rightarrow> ptr \<Rightarrow> rbs \<Rightarrow> rbs option" where
  "fixAfterDel node par s =
    (if noRed s node \<and> node \<noteq> root s then
       if left (nd s par) = node then
         let other = right (nd s par);
             s = (if isRed s other then rotLeft par (setRed par (setBlack other s)) else s);
             other = right (nd s par)
         in if noRed s (left (nd s other)) \<and> noRed s (right (nd s other))
            then let s = setRed other s in fixAfterDel par (parent s par) s
            else fixDel_left other par s
       else
         let other = left (nd s par);
             s = (if isRed s other then rotRight par (setRed par (setBlack other s)) else s);
             other = left (nd s par)
         in if noRed s (left (nd s other)) \<and> noRed s (right (nd s other))
            then let s = setRed other s in fixAfterDel par (parent s par) s
            else fixDel_right other par s
     else fixDel_end node s)"

text \<open>Descending along the left links, as the deletion, \<open>getMin\<close> and \<open>getNext\<close> do.\<close>

partial_function (option) go_left :: "rbs \<Rightarrow> ptr \<Rightarrow> ptr option" where
  "go_left s node = (if left (nd s node) \<noteq> NULL then go_left s (left (nd s node)) else Some node)"

partial_function (option) go_right :: "rbs \<Rightarrow> ptr \<Rightarrow> ptr option" where
  "go_right s node = (if right (nd s node) \<noteq> NULL then go_right s (right (nd s node)) else Some node)"

definition relink_child :: "ptr \<Rightarrow> ptr \<Rightarrow> ptr \<Rightarrow> rbs \<Rightarrow> rbs" where
  "relink_child par node child s =
    (if par \<noteq> NULL
     then if left (nd s par) = node then set_left par child s else set_right par child s
     else s\<lparr>root := child\<rparr>)"

text \<open>The part of \<open>RBTree_delNode\<close> that puts \<open>node\<close> in the place of \<open>old\<close>.\<close>

definition replace_node :: "ptr \<Rightarrow> ptr \<Rightarrow> rbs \<Rightarrow> rbs" where
  "replace_node old node s =
    (let s = set_upc node (unionParCol (nd s old)) s;
         s = set_left node (left (nd s old)) s;
         s = set_right node (right (nd s old)) s;
         s = (if parent s old \<noteq> NULL
              then if left (nd s (parent s old)) = old
                   then set_left (parent s old) node s
                   else set_right (parent s old) node s
              else s\<lparr>root := node\<rparr>);
         s = setParent (left (nd s old)) node s
     in (if right (nd s old) \<noteq> NULL then setParent (right (nd s old)) node s else s))"

text \<open>The body of \<open>RBTree_delNode\<close>, between taking and releasing the lock.\<close>

definition delNode_body :: "ptr \<Rightarrow> rbs \<Rightarrow> rbs option" where
  "delNode_body node s =
    (if left (nd s node) \<noteq> NULL \<and> right (nd s node) \<noteq> NULL
     then case go_left s (right (nd s node)) of None \<Rightarrow> None
     | Some nod \<Rightarrow>
       let old = node; node = nod;
           child = right (nd s node);
           par = parent s node;
           col = color s node;
           s = (if child \<noteq> NULL then setParent child par s else s);
           s = relink_child par node child s;
           par = (if parent s node = old then node else par);
           s = replace_node old node s
       in if col = RBTree_Col_Black then fixAfterDel child par s else Some s
     else
       let child = (if left (nd s node) = NULL then right (nd s node) else left (nd s node));
           par = parent s node;
           col = color s node;
           s = (if child \<noteq> NULL then setParent child par s else s);
           s = relink_child par node child s;
           s = (if node = root s then s\<lparr>root := NULL\<rparr> else s)
       in if col = RBTree_Col_Black then fixAfterDel child par s else Some s)"

definition RBTree_delNode :: "ptr \<Rightarrow> ptr \<Rightarrow> rbs \<Rightarrow> rbs option" where
  "RBTree_delNode tree node s =
    (if tree = NULL \<or> node = NULL then Some s
     else case tree_lock s of None \<Rightarrow> None
     | Some s \<Rightarrow> map_option tree_unlock (delNode_body node s))"

section \<open>Minimum, maximum, successor\<close>

definition RBTree_getMin :: "ptr \<Rightarrow> rbs \<Rightarrow> (ptr \<times> rbs) option" where
  "RBTree_getMin tree s =
    (if tree = NULL \<or> root s = NULL then Some (NULL, s)
     else case tree_lock s of None \<Rightarrow> None
     | Some s \<Rightarrow> map_option (\<lambda>res. (res, tree_unlock s)) (go_left s (root s)))"

definition RBTree_getMax :: "ptr \<Rightarrow> rbs \<Rightarrow> (ptr \<times> rbs) option" where
  "RBTree_getMax tree s =
    (if tree = NULL \<or> root s = NULL then Some (NULL, s)
     else case tree_lock s of None \<Rightarrow> None
     | Some s \<Rightarrow> map_option (\<lambda>res. (res, tree_unlock s)) (go_right s (root s)))"

text \<open>
  The second loop of \<open>RBTree_getNext\<close> climbs while the node is a right child, and the
  function returns the node at which it stopped, not that node's parent.
\<close>

partial_function (option) climb_right :: "rbs \<Rightarrow> ptr \<Rightarrow> ptr option" where
  "climb_right s node =
    (let par = parent s node
     in if par \<noteq> NULL \<and> node = right (nd s par) then climb_right s par else Some node)"

definition RBTree_getNext :: "ptr \<Rightarrow> ptr \<Rightarrow> rbs \<Rightarrow> (ptr \<times> rbs) option" where
  "RBTree_getNext tree node s =
    (if tree = NULL \<or> root s = NULL then Some (NULL, s)
     else case tree_lock s of None \<Rightarrow> None
     | Some s \<Rightarrow>
       if right (nd s node) \<noteq> NULL
       then map_option (\<lambda>n. (n, tree_unlock s)) (go_left s (right (nd s node)))
       else map_option (\<lambda>n. (n, tree_unlock s)) (climb_right s node))"

end
