(* ===== verification/RBTree_Shape.thy ===== *)
theory RBTree_Shape
  imports RBTree
begin

text \<open>
  The trees that the node heap of \<open>RBTree\<close> represents.  \<open>tr h par t\<close> says that the heap
  holds the nodes of \<open>t\<close>, hanging below \<open>par\<close>; \<open>cr h rt p k\<close> says that it holds the path
  \<open>k\<close> from a subtree with root \<open>p\<close> up to the root of the tree.  The frames of \<open>k\<close> are listed
  from the subtree upwards, so the code, which climbs parent pointers, pops them.  The
  lemmas about rotations and colour changes state each of them on this zipper.
\<close>

section \<open>Trees and paths\<close>

datatype colr = R | B

datatype rbt = Lf | Nd rbt ptr colr rbt

datatype frame = FL ptr colr rbt | FR rbt ptr colr

type_synonym path = "frame list"

fun inord :: "rbt \<Rightarrow> ptr list" where
  "inord Lf = []"
| "inord (Nd l a c r) = inord l @ a # inord r"

fun rootp :: "rbt \<Rightarrow> ptr" where
  "rootp Lf = NULL"
| "rootp (Nd l a c r) = a"

fun col :: "rbt \<Rightarrow> colr" where
  "col Lf = B"
| "col (Nd l a c r) = c"

fun par_of :: "path \<Rightarrow> ptr" where
  "par_of [] = NULL"
| "par_of (FL a c r # k) = a"
| "par_of (FR l a c # k) = a"

fun plug :: "rbt \<Rightarrow> path \<Rightarrow> rbt" where
  "plug t [] = t"
| "plug t (FL a c r # k) = plug (Nd t a c r) k"
| "plug t (FR l a c # k) = plug (Nd l a c t) k"

text \<open>The nodes before and after the hole, in order.\<close>

fun befores :: "path \<Rightarrow> ptr list" where
  "befores [] = []"
| "befores (FL a c r # k) = befores k"
| "befores (FR l a c # k) = befores k @ inord l @ [a]"

fun afters :: "path \<Rightarrow> ptr list" where
  "afters [] = []"
| "afters (FL a c r # k) = a # inord r @ afters k"
| "afters (FR l a c # k) = afters k"

lemma inord_plug: "inord (plug t k) = befores k @ inord t @ afters k"
  by (induction t k rule: plug.induct) simp_all

fun cw :: "colr \<Rightarrow> u64" where
  "cw R = 0"
| "cw B = 1"

definition al :: "ptr \<Rightarrow> bool" where
  "al p \<longleftrightarrow> p AND 3 = 0"

definition okp :: "ptr \<Rightarrow> bool" where
  "okp p \<longleftrightarrow> p \<noteq> NULL \<and> al p"

definition mk :: "ptr \<Rightarrow> colr \<Rightarrow> ptr \<Rightarrow> ptr \<Rightarrow> RBNode" where
  "mk par c l r = \<lparr>unionParCol = par OR cw c, left = l, right = r\<rparr>"

fun tr :: "(ptr \<Rightarrow> RBNode) \<Rightarrow> ptr \<Rightarrow> rbt \<Rightarrow> bool" where
  "tr h par Lf \<longleftrightarrow> True"
| "tr h par (Nd l a c r) \<longleftrightarrow>
     okp a \<and> h a = mk par c (rootp l) (rootp r) \<and> tr h a l \<and> tr h a r"

fun cr :: "(ptr \<Rightarrow> RBNode) \<Rightarrow> ptr \<Rightarrow> ptr \<Rightarrow> path \<Rightarrow> bool" where
  "cr h rt p [] \<longleftrightarrow> rt = p"
| "cr h rt p (FL a c r # k) \<longleftrightarrow>
     okp a \<and> h a = mk (par_of k) c p (rootp r) \<and> tr h a r \<and> cr h rt a k"
| "cr h rt p (FR l a c # k) \<longleftrightarrow>
     okp a \<and> h a = mk (par_of k) c (rootp l) p \<and> tr h a l \<and> cr h rt a k"

definition zrep :: "rbs \<Rightarrow> rbt \<Rightarrow> path \<Rightarrow> bool" where
  "zrep s t k \<longleftrightarrow> tr (nd s) (par_of k) t \<and> cr (nd s) (root s) (rootp t) k \<and>
     distinct (befores k @ inord t @ afters k)"

definition rep :: "rbs \<Rightarrow> rbt \<Rightarrow> bool" where
  "rep s t \<longleftrightarrow> tr (nd s) NULL t \<and> root s = rootp t \<and> distinct (inord t)"

lemma rep_zrep: "rep s t \<longleftrightarrow> zrep s t []"
  by (auto simp: rep_def zrep_def)

lemma zrep_FL: "zrep s t (FL a c r # k) \<longleftrightarrow> zrep s (Nd t a c r) k"
  by (auto simp: zrep_def)

lemma zrep_FR: "zrep s t (FR l a c # k) \<longleftrightarrow> zrep s (Nd l a c t) k"
  by (auto simp: zrep_def)

lemma zrep_plug: "zrep s t k \<longleftrightarrow> rep s (plug t k)"
  by (induction t k rule: plug.induct) (simp_all add: rep_zrep zrep_FL zrep_FR)

section \<open>The shared word\<close>

lemma al_0 [simp]: "al 0"
  by (simp add: al_def)

lemma bit_3: "bit (3 :: u64) n \<longleftrightarrow> n < 2"
proof -
  have m: "(3 :: u64) = mask 2"
    by (simp add: mask_eq_exp_minus_1)
  show ?thesis
    by (subst m) (auto simp: bit_mask_iff)
qed

lemma al_bits: "al p \<longleftrightarrow> (\<forall>n<2. \<not> bit p n)"
proof
  assume "al p"
  then have "\<not> (bit p n \<and> bit (3 :: u64) n)" for n
    using bit_and_iff [of p 3 n] by (simp add: al_def del: bit_numeral_word_iff)
  then show "\<forall>n<2. \<not> bit p n" using bit_3 by blast
next
  assume "\<forall>n<2. \<not> bit p n"
  then have "p AND 3 = 0"
    by (intro bit_word_eqI) (simp add: bit_and_iff bit_3 del: bit_numeral_word_iff, blast)
  then show "al p" by (simp add: al_def)
qed

lemma bit_cw: "bit (cw c) n \<longleftrightarrow> n = 0 \<and> c = B"
  by (cases c) (auto simp: bit_1_iff)

lemma upc_masks:
  assumes p: "al p" and m: "\<And>n. bit (m :: u64) n \<longleftrightarrow> n < 2" and o: "\<And>n. bit (o1 :: u64) n \<longleftrightarrow> n = 0"
  shows "(p OR cw c) AND NOT m = p" "((p OR cw c) AND m) OR q = q OR cw c"
    "(p OR cw c) AND o1 = cw c" "(p OR cw c) AND NOT o1 = p"
proof -
  have b: "\<not> bit p n" if "n < 2" for n using p that by (simp add: al_bits)
  then have b0: "\<not> bit p 0" by simp
  then have z: "bit p n \<Longrightarrow> n \<noteq> 0" for n by (cases n) auto
  show "(p OR cw c) AND NOT m = p" "(p OR cw c) AND NOT o1 = p"
    using b z by (intro bit_word_eqI; fastforce simp: bit_and_iff bit_or_iff bit_not_iff m o bit_cw)+
  show "((p OR cw c) AND m) OR q = q OR cw c" "(p OR cw c) AND o1 = cw c"
    using b b0 by (intro bit_word_eqI; auto simp: bit_and_iff bit_or_iff m o bit_cw; fail)+
qed

lemmas upc_parent = upc_masks(1) [OF _ bit_3 bit_1_iff]
lemmas upc_keep = upc_masks(2) [OF _ bit_3 bit_1_iff]
lemmas upc_col = upc_masks(3) [OF _ bit_3 bit_1_iff]
lemmas upc_red = upc_masks(4) [OF _ bit_3 bit_1_iff]

lemma upc_black: "(p OR cw c) OR 1 = p OR 1"
  by (cases c) (simp_all add: or.assoc)

lemma mk_sel [simp]: "left (mk q c l r) = l" "right (mk q c l r) = r"
  by (simp_all add: mk_def)

lemma mk_upd [simp]:
  "(mk q c l r)\<lparr>left := v\<rparr> = mk q c v r" "(mk q c l r)\<lparr>right := v\<rparr> = mk q c l v"
  by (simp_all add: mk_def)

section \<open>The C macros on represented nodes\<close>

named_theorems node_simps "loads and stores of a represented node"

lemma node_reads [node_simps]:
  assumes "nd s a = mk q c l r" "al q"
  shows "parent s a = q" "color s a = cw c" "isRed s a \<longleftrightarrow> c = R" "isBlack s a \<longleftrightarrow> c = B"
proof -
  show p: "parent s a = q"
    unfolding parent_def assms mk_def using upc_parent [OF assms(2)] by (simp only: RBNode.simps)
  show k: "color s a = cw c"
    unfolding color_def assms mk_def using upc_col [OF assms(2)] by (simp only: RBNode.simps)
  show "isRed s a \<longleftrightarrow> c = R" "isBlack s a \<longleftrightarrow> c = B"
    unfolding isRed_def isBlack_def k by (cases c; simp)+
qed

lemma node_writes [node_simps]:
  assumes "nd s a = mk q c l r"
  shows "al q \<Longrightarrow> setRed a s = s\<lparr>nd := (nd s)(a := mk q R l r)\<rparr>"
    and "setBlack a s = s\<lparr>nd := (nd s)(a := mk q B l r)\<rparr>"
    and "al q \<Longrightarrow> setParent a p s = s\<lparr>nd := (nd s)(a := mk p c l r)\<rparr>"
    and "al q \<Longrightarrow> setCol a (cw d) s = s\<lparr>nd := (nd s)(a := mk q d l r)\<rparr>"
    and "set_left a p s = s\<lparr>nd := (nd s)(a := mk q c p r)\<rparr>"
    and "set_right a p s = s\<lparr>nd := (nd s)(a := mk q c l p)\<rparr>"
proof -
  have u: "unionParCol (nd s a) = q OR cw c" by (simp add: assms mk_def)
  show "al q \<Longrightarrow> setRed a s = s\<lparr>nd := (nd s)(a := mk q R l r)\<rparr>"
    unfolding setRed_def set_upc_def u by (simp only: upc_red) (simp add: assms mk_def)
  show "setBlack a s = s\<lparr>nd := (nd s)(a := mk q B l r)\<rparr>"
    unfolding setBlack_def set_upc_def u by (simp only: upc_black) (simp add: assms mk_def)
  show "al q \<Longrightarrow> setParent a p s = s\<lparr>nd := (nd s)(a := mk p c l r)\<rparr>"
    unfolding setParent_def set_upc_def u by (simp only: upc_keep) (simp add: assms mk_def)
  show "al q \<Longrightarrow> setCol a (cw d) s = s\<lparr>nd := (nd s)(a := mk q d l r)\<rparr>"
    unfolding setCol_def set_upc_def u by (simp only: upc_red) (simp add: assms mk_def)
  show "set_left a p s = s\<lparr>nd := (nd s)(a := mk q c p r)\<rparr>"
    "set_right a p s = s\<lparr>nd := (nd s)(a := mk q c l p)\<rparr>"
    by (simp_all add: set_left_def set_right_def assms)
qed

lemma okpD [dest, simp]: "okp a \<Longrightarrow> al a" "okp a \<Longrightarrow> a \<noteq> 0"
  by (simp_all add: okp_def)

lemma tr_cong: "\<forall>q\<in>set (inord t). h' q = h q \<Longrightarrow> tr h' p t = tr h p t"
  by (induction t arbitrary: p) auto

lemma tr_upd [simp]: "q \<notin> set (inord t) \<Longrightarrow> tr (h(q := v)) p t = tr h p t"
  by (rule tr_cong) auto

lemma cr_cong: "\<forall>q\<in>set (befores k @ afters k). h' q = h q \<Longrightarrow> cr h' rt p k = cr h rt p k"
proof (induction k arbitrary: p rule: befores.induct)
  case (2 a c r k)
  then have "tr h' a r = tr h a r" by (intro tr_cong) auto
  with 2 show ?case by auto
next
  case (3 l a c k)
  then have "tr h' a l = tr h a l" by (intro tr_cong) auto
  with 3 show ?case by auto
qed simp

lemma cr_upd [simp]:
  "\<lbrakk>q \<notin> set (befores k); q \<notin> set (afters k)\<rbrakk> \<Longrightarrow> cr (h(q := v)) rt p k = cr h rt p k"
  by (rule cr_cong) auto

lemma tr_okp: "tr h p t \<Longrightarrow> q \<in> set (inord t) \<Longrightarrow> okp q"
  by (induction t arbitrary: p) auto

lemma cr_okp: "cr h rt p k \<Longrightarrow> k \<noteq> [] \<Longrightarrow> okp (par_of k)"
  by (cases k rule: par_of.cases) auto

lemma cr_al: "cr h rt p k \<Longrightarrow> al (par_of k)"
  using cr_okp [of h rt p k] by (cases "k = []") auto

lemma rootp_0: "tr h p t \<Longrightarrow> rootp t = 0 \<longleftrightarrow> t = Lf"
  by (cases t) auto

lemma tr_parent_irrelevant:
  "\<lbrakk>tr h p (Nd l a c r); a \<notin> set (inord l); a \<notin> set (inord r)\<rbrakk>
    \<Longrightarrow> tr (h(a := mk q d (rootp l) (rootp r))) q (Nd l a d r)"
  by simp

section \<open>Rotations on the zipper\<close>

definition kept :: "ptr set \<Rightarrow> rbs \<Rightarrow> rbs \<Rightarrow> bool" where
  "kept A s s' \<longleftrightarrow> (\<forall>q. q \<notin> A \<longrightarrow> nd s' q = nd s q) \<and> tlock s' = tlock s"

lemma kept_refl [simp]: "kept A s s"
  by (simp add: kept_def)

lemma kept_trans: "kept A s s' \<Longrightarrow> kept A s' s'' \<Longrightarrow> kept A s s''"
  by (simp add: kept_def)

abbreviation nodes :: "rbt \<Rightarrow> path \<Rightarrow> ptr set" where
  "nodes t k \<equiv> set (befores k) \<union> set (inord t) \<union> set (afters k)"

lemma neq_rootp: "\<lbrakk>okp x; x \<notin> set (inord t)\<rbrakk> \<Longrightarrow> x \<noteq> rootp t"
  by (cases t) auto

lemma rotLeft_zrep:
  assumes z: "zrep s (Nd a x c (Nd b y d e)) k"
  shows "zrep (rotLeft x s) (Nd (Nd a x c b) y d e) k \<and>
    kept (nodes (Nd a x c (Nd b y d e)) k) s (rotLeft x s)"
proof -
  have f: "tr (nd s) (par_of k) (Nd a x c (Nd b y d e))" "cr (nd s) (root s) x k"
    "distinct (befores k @ inord (Nd a x c (Nd b y d e)) @ afters k)"
    using z by (auto simp: zrep_def)
  note u = rotLeft_def Let_def node_simps
  define Q where "Q s' \<longleftrightarrow> zrep s' (Nd (Nd a x c b) y d e) k \<and>
    kept (nodes (Nd a x c (Nd b y d e)) k) s s'" for s'
  have "Q (rotLeft x s)"
  proof (cases k rule: par_of.cases)
    case 1
    show ?thesis
    proof (cases b)
      case Lf
      show ?thesis using f unfolding 1 Lf by (clarsimp, simp add: u cong: let_weak_cong, simp add: 1 Lf Q_def zrep_def kept_def)
    next
      case (Nd b1 m g b2)
      show ?thesis using f unfolding 1 Nd by (clarsimp, simp add: u cong: let_weak_cong, simp add: 1 Nd Q_def zrep_def kept_def)
    qed
  next
    case (2 p q r k')
    have al': "al (par_of k')" using f(2) unfolding 2 by (auto intro: cr_al)
    show ?thesis
    proof (cases b)
      case Lf
      show ?thesis using f al' unfolding 2 Lf by (clarsimp, simp add: u cong: let_weak_cong, simp add: 2 Lf Q_def zrep_def kept_def)
    next
      case (Nd b1 m g b2)
      show ?thesis using f al' unfolding 2 Nd by (clarsimp, simp add: u cong: let_weak_cong, simp add: 2 Nd Q_def zrep_def kept_def)
    qed
  next
    case (3 r p q k')
    have al': "al (par_of k')" "x \<noteq> rootp r"
      using f unfolding 3 by (auto intro: cr_al dest: neq_rootp)
    show ?thesis
    proof (cases b)
      case Lf
      show ?thesis using f al' unfolding 3 Lf by (clarsimp, simp add: u cong: let_weak_cong, simp add: 3 Lf Q_def zrep_def kept_def)
    next
      case (Nd b1 m g b2)
      show ?thesis using f al' unfolding 3 Nd by (clarsimp, simp add: u cong: let_weak_cong, simp add: 3 Nd Q_def zrep_def kept_def)
    qed
  qed
  then show ?thesis by (simp only: Q_def)
qed

lemma rotRight_zrep:
  assumes z: "zrep s (Nd (Nd a y d b) x c e) k"
  shows "zrep (rotRight x s) (Nd a y d (Nd b x c e)) k \<and>
    kept (nodes (Nd (Nd a y d b) x c e) k) s (rotRight x s)"
proof -
  have f: "tr (nd s) (par_of k) (Nd (Nd a y d b) x c e)" "cr (nd s) (root s) x k"
    "distinct (befores k @ inord (Nd (Nd a y d b) x c e) @ afters k)"
    using z by (auto simp: zrep_def)
  note u = rotRight_def Let_def node_simps
  define Q where "Q s' \<longleftrightarrow> zrep s' (Nd a y d (Nd b x c e)) k \<and>
    kept (nodes (Nd (Nd a y d b) x c e) k) s s'" for s'
  have "Q (rotRight x s)"
  proof (cases k rule: par_of.cases)
    case 1
    show ?thesis
    proof (cases b)
      case Lf
      show ?thesis using f unfolding 1 Lf by (clarsimp, simp add: u cong: let_weak_cong, simp add: 1 Lf Q_def zrep_def kept_def)
    next
      case (Nd b1 m g b2)
      show ?thesis using f unfolding 1 Nd by (clarsimp, simp add: u cong: let_weak_cong, simp add: 1 Nd Q_def zrep_def kept_def)
    qed
  next
    case (2 p q r k')
    have al': "al (par_of k')" "x \<noteq> rootp r"
      using f unfolding 2 by (auto intro: cr_al dest: neq_rootp)
    show ?thesis
    proof (cases b)
      case Lf
      show ?thesis using f al' unfolding 2 Lf by (clarsimp, simp add: u cong: let_weak_cong, simp add: 2 Lf Q_def zrep_def kept_def)
    next
      case (Nd b1 m g b2)
      show ?thesis using f al' unfolding 2 Nd by (clarsimp, simp add: u cong: let_weak_cong, simp add: 2 Nd Q_def zrep_def kept_def)
    qed
  next
    case (3 r p q k')
    have al': "al (par_of k')" using f(2) unfolding 3 by (auto intro: cr_al)
    show ?thesis
    proof (cases b)
      case Lf
      show ?thesis using f al' unfolding 3 Lf by (clarsimp, simp add: u cong: let_weak_cong, simp add: 3 Lf Q_def zrep_def kept_def)
    next
      case (Nd b1 m g b2)
      show ?thesis using f al' unfolding 3 Nd by (clarsimp, simp add: u cong: let_weak_cong, simp add: 3 Nd Q_def zrep_def kept_def)
    qed
  qed
  then show ?thesis by (simp only: Q_def)
qed

section \<open>Reading and painting the focus\<close>

lemma zrep_node:
  assumes "zrep s (Nd l x c r) k"
  shows "nd s x = mk (par_of k) c (rootp l) (rootp r)" "al (par_of k)" "okp x"
  using assms by (auto simp: zrep_def intro: cr_al)

lemma zrep_reads:
  assumes "zrep s (Nd l x c r) k"
  shows "parent s x = par_of k" "isRed s x \<longleftrightarrow> c = R" "isBlack s x \<longleftrightarrow> c = B"
    "color s x = cw c" "left (nd s x) = rootp l" "right (nd s x) = rootp r" "x \<noteq> 0"
  using zrep_node [OF assms] by (simp_all add: node_simps)

lemma zrep_noRed: "zrep s t k \<Longrightarrow> noRed s (rootp t) \<longleftrightarrow> col t = B"
  by (cases t) (auto simp: zrep_reads)

lemma zrep_isRed: "zrep s t k \<Longrightarrow> rootp t \<noteq> 0 \<and> isRed s (rootp t) \<longleftrightarrow> col t = R"
  by (cases t) (auto simp: zrep_reads)

lemma zrep_rootp: "zrep s t k \<Longrightarrow> rootp t = 0 \<longleftrightarrow> t = Lf"
  by (cases t) (auto simp: zrep_reads)

lemma zrep_paint:
  assumes "zrep s (Nd l x c r) k" "s' = s\<lparr>nd := (nd s)(x := mk (par_of k) d (rootp l) (rootp r))\<rparr>"
  shows "zrep s' (Nd l x d r) k \<and> kept {x} s s'"
  using assms by (simp add: zrep_def kept_def)

lemma kept_mono: "kept A s s' \<Longrightarrow> A \<subseteq> A' \<Longrightarrow> kept A' s s'"
  by (auto simp: kept_def)

lemma zrep_colours:
  assumes "zrep s (Nd l x c r) k"
  shows "zrep (setRed x s) (Nd l x R r) k \<and> kept {x} s (setRed x s)"
    and "zrep (setBlack x s) (Nd l x B r) k \<and> kept {x} s (setBlack x s)"
    and "zrep (setCol x (cw d) s) (Nd l x d r) k \<and> kept {x} s (setCol x (cw d) s)"
  using zrep_node [OF assms] by (intro zrep_paint [OF assms]; simp add: node_simps)+

section \<open>Red-black trees\<close>

fun invc :: "rbt \<Rightarrow> bool" where
  "invc Lf \<longleftrightarrow> True"
| "invc (Nd l a c r) \<longleftrightarrow> (c = R \<longrightarrow> col l = B \<and> col r = B) \<and> invc l \<and> invc r"

fun bh :: "rbt \<Rightarrow> nat" where
  "bh Lf = 0"
| "bh (Nd l a c r) = bh l + (if c = B then 1 else 0)"

fun invh :: "rbt \<Rightarrow> bool" where
  "invh Lf \<longleftrightarrow> True"
| "invh (Nd l a c r) \<longleftrightarrow> bh l = bh r \<and> invh l \<and> invh r"

definition rbtree :: "rbt \<Rightarrow> bool" where
  "rbtree t \<longleftrightarrow> invc t \<and> invh t \<and> col t = B"

text \<open>
  The same for paths: the colour of the node above the hole, which counts as red above the
  root, so that the root must be black, and the conditions on a subtree of black height \<open>n\<close>
  in the hole.
\<close>

fun pcol :: "path \<Rightarrow> colr" where
  "pcol [] = R"
| "pcol (FL a c r # k) = c"
| "pcol (FR l a c # k) = c"

fun cctx :: "path \<Rightarrow> bool" where
  "cctx [] \<longleftrightarrow> True"
| "cctx (FL a c r # k) \<longleftrightarrow> (c = R \<longrightarrow> col r = B \<and> pcol k = B) \<and> invc r \<and> cctx k"
| "cctx (FR l a c # k) \<longleftrightarrow> (c = R \<longrightarrow> col l = B \<and> pcol k = B) \<and> invc l \<and> cctx k"

fun hctx :: "path \<Rightarrow> nat \<Rightarrow> bool" where
  "hctx [] n \<longleftrightarrow> True"
| "hctx (FL a c r # k) n \<longleftrightarrow> bh r = n \<and> invh r \<and> hctx k (n + (if c = B then 1 else 0))"
| "hctx (FR l a c # k) n \<longleftrightarrow> bh l = n \<and> invh l \<and> hctx k (n + (if c = B then 1 else 0))"

lemma invh_plug: "invh (plug t k) \<longleftrightarrow> invh t \<and> hctx k (bh t)"
  by (induction t k rule: plug.induct) auto

lemma invc_plug:
  "invc (plug t k) \<and> col (plug t k) = B \<longleftrightarrow> invc t \<and> cctx k \<and> (col t = R \<longrightarrow> pcol k = B)"
proof (induction t k rule: plug.induct)
  case (1 t)
  then show ?case by (cases "col t") auto
next
  case (2 t a c r k)
  then show ?case by (cases c; cases "col t") auto
next
  case (3 t l a c k)
  then show ?case by (cases c; cases "col t") auto
qed

lemma rbtree_plug:
  "rbtree (plug t k) \<longleftrightarrow>
     invc t \<and> invh t \<and> cctx k \<and> hctx k (bh t) \<and> (col t = R \<longrightarrow> pcol k = B)"
  using invc_plug [of t k] invh_plug [of t k] by (auto simp: rbtree_def)

end
