(* ===== verification/RBTree_Insert.thy ===== *)
theory RBTree_Insert
  imports RBTree_Shape
begin

text \<open>
  \<open>RBTree_insNode\<close> on a represented red-black tree: the search of \<open>RBTree_insert\<close> ends in
  the slot that keeps the order, and \<open>_fixAfterIns\<close> terminates and restores the colour
  and height invariants without changing the sequence of the nodes.
\<close>

section \<open>Rebalancing\<close>

text \<open>What a rebalancing loop started on the zipper \<open>(t, k)\<close> must deliver.\<close>

definition rebalanced :: "rbs \<Rightarrow> rbt \<Rightarrow> path \<Rightarrow> rbs option \<Rightarrow> bool" where
  "rebalanced s t k res \<longleftrightarrow>
     (\<exists>s' t'. res = Some s' \<and> rep s' t' \<and> rbtree t' \<and> inord t' = inord (plug t k) \<and>
        kept (nodes t k) s s')"

lemma rebalancedI:
  "\<lbrakk>res = Some s'; zrep s' t' k'; rbtree (plug t' k'); inord (plug t' k') = inord (plug t k);
    kept (nodes t k) s s'\<rbrakk> \<Longrightarrow> rebalanced s t k res"
  unfolding rebalanced_def zrep_plug by blast

lemma rebalanced_step:
  assumes "rebalanced s1 t1 k1 res" "inord (plug t1 k1) = inord (plug t k)"
    and "kept (nodes t k) s s1"
  shows "rebalanced s t k res"
proof -
  have n: "nodes t' k' = set (inord (plug t' k'))" for t' k'
    by (auto simp: inord_plug)
  then have "nodes t1 k1 = nodes t k" using assms(2) by simp
  with assms show ?thesis
    unfolding rebalanced_def using kept_trans by fastforce
qed

lemma root_at_top: "zrep s (Nd l x c r) k \<Longrightarrow> root s = rootp (plug (Nd l x c r) k)"
  using zrep_plug [of s "Nd l x c r" k] by (simp add: rep_def)

lemma setBlack_root:
  assumes "rep s t" "col t = B" "t \<noteq> Lf"
  shows "setBlack (root s) s = s"
proof -
  obtain l x r where t: "t = Nd l x B r" using assms(2,3) by (cases t) auto
  then have "nd s x = mk 0 B (rootp l) (rootp r)" "root s = x"
    using assms(1) by (simp_all add: rep_def)
  then show ?thesis
    by (simp add: node_simps fun_upd_idem)
qed

lemma plug_Nd: "plug (Nd l x c r) k \<noteq> Lf"
  by (metis append_is_Nil_conv inord.simps inord_plug list.distinct(1))

lemma fixAfterIns_black:
  assumes z: "zrep s (Nd l x c r) k" and k: "k \<noteq> []" "pcol k = B" and t: "rbtree (plug (Nd l x c r) k)"
  shows "fixAfterIns x s = Some s"
proof -
  have "setBlack (root s) s = s"
    using z t plug_Nd by (intro setBlack_root [of _ "plug (Nd l x c r) k"]) (auto simp: zrep_plug rbtree_def)
  moreover have "\<not> isRed s (par_of k)"
  proof (cases k rule: par_of.cases)
    case (2 a c q k')
    with z k show ?thesis by (simp add: zrep_FL zrep_reads)
  next
    case (3 q a c k')
    with z k show ?thesis by (simp add: zrep_FR zrep_reads)
  qed (use k in simp)
  ultimately show ?thesis
    using zrep_reads(1) [OF z] by (subst fixAfterIns.simps) simp
qed

lemma fixAfterIns_top:
  assumes "zrep s (Nd l x c r) []"
  shows "fixAfterIns x s = Some (setBlack x s)"
  using zrep_reads(1) [OF assms] root_at_top [OF assms]
  by (subst fixAfterIns.simps) simp

text \<open>Colour changes below the focus.\<close>

lemma paint_left:
  assumes "zrep s (Nd (Nd l x c r) a d e) k"
  shows "zrep (setBlack x s) (Nd (Nd l x B r) a d e) k \<and> kept {x} s (setBlack x s)"
    and "zrep (setRed x s) (Nd (Nd l x R r) a d e) k \<and> kept {x} s (setRed x s)"
  using zrep_colours [of s l x c r "FL a d e # k"] assms by (simp_all add: zrep_FL)

lemma paint_right:
  assumes "zrep s (Nd e a d (Nd l x c r)) k"
  shows "zrep (setBlack x s) (Nd e a d (Nd l x B r)) k \<and> kept {x} s (setBlack x s)"
    and "zrep (setRed x s) (Nd e a d (Nd l x R r)) k \<and> kept {x} s (setRed x s)"
  using zrep_colours [of s l x c r "FR e a d # k"] assms by (simp_all add: zrep_FR)

lemma recolour_L:
  assumes "zrep s (Nd (Nd pl p c pr) g d (Nd u1 y e u2)) k"
  shows "zrep (setRed g (setBlack p (setBlack y s))) (Nd (Nd pl p B pr) g R (Nd u1 y B u2)) k \<and>
    kept {g, p, y} s (setRed g (setBlack p (setBlack y s)))"
proof -
  note 1 = paint_right(1) [OF assms]
  note 2 = paint_left(1) [OF conjunct1 [OF 1]]
  note 3 = zrep_colours(1) [OF conjunct1 [OF 2]]
  from 1 2 3 show ?thesis by (simp add: kept_def)
qed

lemma recolour_R:
  assumes "zrep s (Nd (Nd u1 y e u2) g d (Nd pl p c pr)) k"
  shows "zrep (setRed g (setBlack p (setBlack y s))) (Nd (Nd u1 y B u2) g R (Nd pl p B pr)) k \<and>
    kept {g, p, y} s (setRed g (setBlack p (setBlack y s)))"
proof -
  note 1 = paint_left(1) [OF assms]
  note 2 = paint_right(1) [OF conjunct1 [OF 1]]
  note 3 = zrep_colours(1) [OF conjunct1 [OF 2]]
  from 1 2 3 show ?thesis by (simp add: kept_def)
qed

text \<open>The single rotations that end the loop.\<close>

lemma lift_R:
  assumes "zrep s (Nd (Nd a p c b) g d u) k"
  shows "zrep (rotRight g (setRed g (setBlack p s))) (Nd a p B (Nd b g R u)) k \<and>
    kept (nodes (Nd (Nd a p c b) g d u) k) s (rotRight g (setRed g (setBlack p s)))"
proof -
  note 1 = paint_left(1) [OF assms]
  note 2 = zrep_colours(1) [OF conjunct1 [OF 1]]
  note 3 = rotRight_zrep [OF conjunct1 [OF 2]]
  from 1 2 3 show ?thesis by (simp add: kept_def)
qed

lemma lift_L:
  assumes "zrep s (Nd u g d (Nd a p c b)) k"
  shows "zrep (rotLeft g (setRed g (setBlack p s))) (Nd (Nd u g R a) p B b) k \<and>
    kept (nodes (Nd u g d (Nd a p c b)) k) s (rotLeft g (setRed g (setBlack p s)))"
proof -
  note 1 = paint_right(1) [OF assms]
  note 2 = zrep_colours(1) [OF conjunct1 [OF 1]]
  note 3 = rotLeft_zrep [OF conjunct1 [OF 2]]
  from 1 2 3 show ?thesis by (simp add: kept_def)
qed

lemma zrep_neq:
  assumes "zrep s (Nd l x c r) k"
  shows "k = FL p d e # k' \<Longrightarrow> x \<noteq> rootp e" "k = FR e p d # k' \<Longrightarrow> x \<noteq> rootp e"
  using assms by (auto simp: zrep_def dest: neq_rootp)

lemma fixAfterIns_ok:
  "\<lbrakk>zrep s (Nd l x R r) k; invc (Nd l x R r); invh (Nd l x R r); cctx k; hctx k (bh l)\<rbrakk>
    \<Longrightarrow> rebalanced s (Nd l x R r) k (fixAfterIns x s)"
proof (induction "length k" arbitrary: s l x r k rule: less_induct)
  case less
  note z = less.prems(1) and inv = less.prems(2-)
  let ?t = "Nd l x R r"
  consider "k = []" | "k \<noteq> []" "pcol k = B"
    | (L) p sb k' where "k = FL p R sb # k'" | (R) p sb k' where "k = FR sb p R # k'"
    by (cases k rule: par_of.cases; metis colr.exhaust pcol.simps list.distinct(1))
  then show ?case
  proof cases
    case 1
    with fixAfterIns_top [of s l x R r] zrep_colours(2) [OF z] inv z show ?thesis
      by (intro rebalancedI [of _ "setBlack x s" "Nd l x B r" k])
        (auto simp: rbtree_def kept_def)
  next
    case 2
    have "rbtree (plug ?t k)" using inv 2 by (simp add: rbtree_plug)
    with fixAfterIns_black [OF z 2] z show ?thesis
      by (intro rebalancedI [of _ s ?t k]) auto
  next
    case L
    then have "pcol k' = B" "col sb = B" using inv by auto
    have px: "parent s x = p" using zrep_reads(1) [OF z] L by simp
    note zp = z [unfolded L zrep_FL]
    have rp: "isRed s p" "left (nd s p) = x" "right (nd s p) = rootp sb" "p \<noteq> 0" "parent s p = par_of k'"
      using zrep_reads [OF zp] by simp_all
    consider (LL) g u k2 where "k' = FL g B u # k2" | (RL) g u k2 where "k' = FR u g B # k2"
      using \<open>pcol k' = B\<close> by (cases k' rule: par_of.cases) auto
    then show ?thesis
    proof cases
      case LL
      note zg = zp [unfolded LL zrep_FL]
      have rg: "parent s p = g" "left (nd s g) = p" "right (nd s g) = rootp u"
        using rp(5) LL zrep_reads [OF zg] by simp_all
      show ?thesis
      proof (cases "col u")
        case R
        then obtain u1 y u2 where u: "u = Nd u1 y R u2" by (cases u) auto
        let ?s = "setRed g (setBlack p (setBlack y s))"
        have "isRed s y" "y \<noteq> 0" using zrep_isRed [of s u "FR (Nd ?t p R sb) g B # k2"] zg u
          by (simp_all add: zrep_FR)
        then have "fixAfterIns x s = fixAfterIns g ?s"
          using px rp rg u by (subst fixAfterIns.simps) (simp add: Let_def)
        note rc = recolour_L [OF zg [unfolded u]]
        have "rebalanced ?s (Nd (Nd ?t p B sb) g R (Nd u1 y B u2)) k2 (fixAfterIns g ?s)"
          using rc inv L LL u by (intro less.hyps) auto
        then show ?thesis unfolding \<open>fixAfterIns x s = _\<close>
        proof (rule rebalanced_step)
          show "kept (nodes ?t k) s ?s" by (rule kept_mono [OF conjunct2 [OF rc]]) (auto simp: L LL u)
        qed (simp add: L LL u inord_plug)
      next
        case B
        then have nr: "\<not> (rootp u \<noteq> 0 \<and> isRed s (rootp u))"
          using zrep_isRed [of s u "FR (Nd ?t p R sb) g B # k2"] zg by (simp add: zrep_FR)
        let ?s = "rotRight g (setRed g (setBlack p s))"
        have "fixAfterIns x s = fixAfterIns x ?s"
          using px rp rg nr zrep_neq(1) [OF z L] by (subst fixAfterIns.simps) (auto simp: Let_def)
        note rt = lift_R [OF zg]
        have "rbtree (plug ?t (FL p B (Nd sb g R u) # k2))"
          using inv L LL B \<open>col sb = B\<close> by (auto simp: rbtree_plug)
        then have "fixAfterIns x ?s = Some ?s"
          using rt by (intro fixAfterIns_black [of _ l x R r "FL p B (Nd sb g R u) # k2"])
            (simp_all add: zrep_FL)
        show ?thesis
        proof (rule rebalancedI)
          show "fixAfterIns x s = Some ?s" by (simp add: \<open>fixAfterIns x s = _\<close> \<open>fixAfterIns x ?s = _\<close>)
          show "zrep ?s (Nd ?t p B (Nd sb g R u)) k2" using rt by blast
          show "kept (nodes ?t k) s ?s" by (rule kept_mono [OF conjunct2 [OF rt]]) (auto simp: L LL)
        qed (use \<open>rbtree _\<close> in \<open>simp_all add: L LL inord_plug\<close>)
      qed
    next
      case RL
      note zg = zp [unfolded RL zrep_FR]
      have rg: "parent s p = g" "left (nd s g) = rootp u" "p \<noteq> rootp u"
        using rp(5) RL zrep_reads [OF zg] zrep_neq(2) [OF zp RL] by simp_all
      show ?thesis
      proof (cases "col u")
        case R
        then obtain u1 y u2 where u: "u = Nd u1 y R u2" by (cases u) auto
        let ?s = "setRed g (setBlack p (setBlack y s))"
        have "isRed s y" "y \<noteq> 0" using zrep_isRed [of s u "FL g B (Nd ?t p R sb) # k2"] zg u
          by (simp_all add: zrep_FL)
        then have e: "fixAfterIns x s = fixAfterIns g ?s"
          using px rp rg u by (subst fixAfterIns.simps) (simp add: Let_def)
        note rc = recolour_R [OF zg [unfolded u]]
        have "rebalanced ?s (Nd (Nd u1 y B u2) g R (Nd ?t p B sb)) k2 (fixAfterIns g ?s)"
          using rc inv L RL u by (intro less.hyps) auto
        then show ?thesis unfolding e
        proof (rule rebalanced_step)
          show "kept (nodes ?t k) s ?s" by (rule kept_mono [OF conjunct2 [OF rc]]) (auto simp: L RL u)
        qed (simp add: L RL u inord_plug)
      next
        case B
        then have nr: "\<not> (rootp u \<noteq> 0 \<and> isRed s (rootp u))"
          using zrep_isRed [of s u "FL g B (Nd ?t p R sb) # k2"] zg by (simp add: zrep_FL)
        let ?s1 = "rotRight p s"
        let ?s = "rotLeft g (setRed g (setBlack x ?s1))"
        have e: "fixAfterIns x s = fixAfterIns p ?s"
          using px rp rg nr by (subst fixAfterIns.simps) (auto simp: Let_def)
        note r1 = rotRight_zrep [OF zp]
        note rt = lift_L [OF conjunct1 [OF r1, unfolded RL zrep_FR]]
        have t: "rbtree (plug (Nd r p R sb) (FR (Nd u g R l) x B # k2))"
          using inv L RL B \<open>col sb = B\<close> by (auto simp: rbtree_plug)
        then have e2: "fixAfterIns p ?s = Some ?s"
          using rt by (intro fixAfterIns_black [of _ r p R sb "FR (Nd u g R l) x B # k2"])
            (simp_all add: zrep_FR)
        show ?thesis
        proof (rule rebalancedI)
          show "fixAfterIns x s = Some ?s" by (simp add: e e2)
          show "zrep ?s (Nd (Nd u g R l) x B (Nd r p R sb)) k2" using rt by blast
          show "kept (nodes ?t k) s ?s"
            by (rule kept_trans; rule kept_mono [OF conjunct2 [OF r1]] kept_mono [OF conjunct2 [OF rt]])
              (auto simp: L RL)
        qed (use t in \<open>simp_all add: L RL inord_plug\<close>)
      qed
    qed
  next
    case R
    then have "pcol k' = B" "col sb = B" using inv by auto
    have px: "parent s x = p" using zrep_reads(1) [OF z] R by simp
    note zp = z [unfolded R zrep_FR]
    have rp: "isRed s p" "left (nd s p) = rootp sb" "right (nd s p) = x" "p \<noteq> 0" "parent s p = par_of k'"
      using zrep_reads [OF zp] by simp_all
    consider (RR) g u k2 where "k' = FR u g B # k2" | (LR) g u k2 where "k' = FL g B u # k2"
      using \<open>pcol k' = B\<close> by (cases k' rule: par_of.cases) auto
    then show ?thesis
    proof cases
      case RR
      note zg = zp [unfolded RR zrep_FR]
      have rg: "parent s p = g" "right (nd s g) = p" "left (nd s g) = rootp u" "p \<noteq> rootp u"
        using rp(5) RR zrep_reads [OF zg] zrep_neq(2) [OF zp RR] by simp_all
      show ?thesis
      proof (cases "col u")
        case R
        then obtain u1 y u2 where u: "u = Nd u1 y R u2" by (cases u) auto
        let ?s = "setRed g (setBlack p (setBlack y s))"
        have "isRed s y" "y \<noteq> 0" using zrep_isRed [of s u "FL g B (Nd sb p R ?t) # k2"] zg u
          by (simp_all add: zrep_FL)
        then have e: "fixAfterIns x s = fixAfterIns g ?s"
          using px rp rg u by (subst fixAfterIns.simps) (simp add: Let_def)
        note rc = recolour_R [OF zg [unfolded u]]
        have "rebalanced ?s (Nd (Nd u1 y B u2) g R (Nd sb p B ?t)) k2 (fixAfterIns g ?s)"
          using rc inv \<open>k = _\<close> RR u by (intro less.hyps) auto
        then show ?thesis unfolding e
        proof (rule rebalanced_step)
          show "kept (nodes ?t k) s ?s"
            by (rule kept_mono [OF conjunct2 [OF rc]]) (auto simp: \<open>k = _\<close> RR u)
        qed (simp add: \<open>k = _\<close> RR u inord_plug)
      next
        case B
        then have nr: "\<not> (rootp u \<noteq> 0 \<and> isRed s (rootp u))"
          using zrep_isRed [of s u "FL g B (Nd sb p R ?t) # k2"] zg by (simp add: zrep_FL)
        let ?s = "rotLeft g (setRed g (setBlack p s))"
        have e: "fixAfterIns x s = fixAfterIns x ?s"
          using px rp rg nr zrep_neq(2) [OF z \<open>k = _\<close>] by (subst fixAfterIns.simps) (auto simp: Let_def)
        note rt = lift_L [OF zg]
        have t: "rbtree (plug ?t (FR (Nd u g R sb) p B # k2))"
          using inv \<open>k = _\<close> RR B \<open>col sb = B\<close> by (auto simp: rbtree_plug)
        then have e2: "fixAfterIns x ?s = Some ?s"
          using rt by (intro fixAfterIns_black [of _ l x R r "FR (Nd u g R sb) p B # k2"])
            (simp_all add: zrep_FR)
        show ?thesis
        proof (rule rebalancedI)
          show "fixAfterIns x s = Some ?s" by (simp add: e e2)
          show "zrep ?s (Nd (Nd u g R sb) p B ?t) k2" using rt by blast
          show "kept (nodes ?t k) s ?s"
            by (rule kept_mono [OF conjunct2 [OF rt]]) (auto simp: \<open>k = _\<close> RR)
        qed (use t in \<open>simp_all add: \<open>k = _\<close> RR inord_plug\<close>)
      qed
    next
      case LR
      note zg = zp [unfolded LR zrep_FL]
      have rg: "parent s p = g" "left (nd s g) = p" "right (nd s g) = rootp u"
        using rp(5) LR zrep_reads [OF zg] by simp_all
      show ?thesis
      proof (cases "col u")
        case R
        then obtain u1 y u2 where u: "u = Nd u1 y R u2" by (cases u) auto
        let ?s = "setRed g (setBlack p (setBlack y s))"
        have "isRed s y" "y \<noteq> 0" using zrep_isRed [of s u "FR (Nd sb p R ?t) g B # k2"] zg u
          by (simp_all add: zrep_FR)
        then have e: "fixAfterIns x s = fixAfterIns g ?s"
          using px rp rg u by (subst fixAfterIns.simps) (simp add: Let_def)
        note rc = recolour_L [OF zg [unfolded u]]
        have "rebalanced ?s (Nd (Nd sb p B ?t) g R (Nd u1 y B u2)) k2 (fixAfterIns g ?s)"
          using rc inv \<open>k = _\<close> LR u by (intro less.hyps) auto
        then show ?thesis unfolding e
        proof (rule rebalanced_step)
          show "kept (nodes ?t k) s ?s"
            by (rule kept_mono [OF conjunct2 [OF rc]]) (auto simp: \<open>k = _\<close> LR u)
        qed (simp add: \<open>k = _\<close> LR u inord_plug)
      next
        case B
        then have nr: "\<not> (rootp u \<noteq> 0 \<and> isRed s (rootp u))"
          using zrep_isRed [of s u "FR (Nd sb p R ?t) g B # k2"] zg by (simp add: zrep_FR)
        let ?s1 = "rotLeft p s"
        let ?s = "rotRight g (setRed g (setBlack x ?s1))"
        have e: "fixAfterIns x s = fixAfterIns p ?s"
          using px rp rg nr by (subst fixAfterIns.simps) (auto simp: Let_def)
        note r1 = rotLeft_zrep [OF zp]
        note rt = lift_R [OF conjunct1 [OF r1, unfolded LR zrep_FL]]
        have t: "rbtree (plug (Nd sb p R l) (FL x B (Nd r g R u) # k2))"
          using inv \<open>k = _\<close> LR B \<open>col sb = B\<close> by (auto simp: rbtree_plug)
        then have e2: "fixAfterIns p ?s = Some ?s"
          using rt by (intro fixAfterIns_black [of _ sb p R l "FL x B (Nd r g R u) # k2"])
            (simp_all add: zrep_FL)
        show ?thesis
        proof (rule rebalancedI)
          show "fixAfterIns x s = Some ?s" by (simp add: e e2)
          show "zrep ?s (Nd (Nd sb p R l) x B (Nd r g R u)) k2" using rt by blast
          show "kept (nodes ?t k) s ?s"
            by (rule kept_trans; rule kept_mono [OF conjunct2 [OF r1]] kept_mono [OF conjunct2 [OF rt]])
              (auto simp: \<open>k = _\<close> LR)
        qed (use t in \<open>simp_all add: \<open>k = _\<close> LR inord_plug\<close>)
      qed
    qed
  qed
qed

section \<open>The search\<close>

fun slot_of :: "path \<Rightarrow> slot" where
  "slot_of [] = RootSlot"
| "slot_of (FL a c r # k) = LeftOf a"
| "slot_of (FR l a c # k) = RightOf a"

text \<open>
  Where a node goes in a sequence: behind every node that it does not precede, so behind
  its equals.
\<close>

definition ins_at :: "(ptr \<Rightarrow> ptr \<Rightarrow> bool) \<Rightarrow> ptr \<Rightarrow> ptr list \<Rightarrow> ptr list" where
  "ins_at cmp x ys = takeWhile (\<lambda>y. \<not> cmp x y) ys @ x # dropWhile (\<lambda>y. \<not> cmp x y) ys"

definition cmp_mono :: "(ptr \<Rightarrow> ptr \<Rightarrow> bool) \<Rightarrow> ptr \<Rightarrow> ptr list \<Rightarrow> bool" where
  "cmp_mono cmp x ys \<longleftrightarrow> sorted_wrt (\<lambda>a b. cmp x a \<longrightarrow> cmp x b) ys"

lemma takeWhile_stop: "\<not> P a \<Longrightarrow> takeWhile P (xs @ a # ys) = takeWhile P xs"
  by (induction xs) auto

lemma dropWhile_stop: "\<not> P a \<Longrightarrow> dropWhile P (xs @ a # ys) = dropWhile P xs @ a # ys"
  by (induction xs) auto

lemma slot_get_zrep: "zrep s t k \<Longrightarrow> slot_get (slot_of k) s = rootp t"
  by (cases k rule: slot_of.cases) (auto simp: zrep_def)

lemma RBTree_insert_ok:
  "\<lbrakk>zrep s t k; cmp_mono cmp x (inord t)\<rbrakk> \<Longrightarrow>
    \<exists>k'. RBTree_insert cmp s x (slot_of k) (par_of k) = Some (slot_of k', par_of k') \<and>
      plug Lf k' = plug t k \<and>
      befores k' = befores k @ takeWhile (\<lambda>y. \<not> cmp x y) (inord t) \<and>
      afters k' = dropWhile (\<lambda>y. \<not> cmp x y) (inord t) @ afters k"
proof (induction t arbitrary: k)
  case Lf
  have "RBTree_insert cmp s x (slot_of k) (par_of k) = Some (slot_of k, par_of k)"
    using slot_get_zrep [OF Lf(1)] by (subst RBTree_insert.simps) simp
  then show ?case by auto
next
  case (Nd l a c r)
  have sg: "slot_get (slot_of k) s = a" "a \<noteq> 0"
    using slot_get_zrep [OF Nd.prems(1)] zrep_reads(7) [OF Nd.prems(1)] by simp_all
  define Q where "Q = (\<lambda>a b. cmp x a \<longrightarrow> cmp x b)"
  have "sorted_wrt Q (inord l @ a # inord r)"
    using Nd.prems(2) by (simp add: cmp_mono_def Q_def)
  then have "sorted_wrt Q (inord l) \<and> sorted_wrt Q (inord r) \<and> (\<forall>b\<in>set (inord l). Q b a)"
    by (simp add: sorted_wrt_append)
  then have mono: "cmp_mono cmp x (inord l)" "cmp_mono cmp x (inord r)"
    "\<forall>b\<in>set (inord l). cmp x b \<longrightarrow> cmp x a"
    unfolding cmp_mono_def Q_def by blast+
  show ?case
  proof (cases "cmp x a")
    case True
    have "RBTree_insert cmp s x (slot_of k) (par_of k) =
        RBTree_insert cmp s x (slot_of (FL a c r # k)) (par_of (FL a c r # k))"
      using sg True by (subst RBTree_insert.simps) simp
    moreover obtain k' where "RBTree_insert cmp s x (slot_of (FL a c r # k)) (par_of (FL a c r # k)) =
        Some (slot_of k', par_of k')" "plug Lf k' = plug l (FL a c r # k)"
      "befores k' = befores (FL a c r # k) @ takeWhile (\<lambda>y. \<not> cmp x y) (inord l)"
      "afters k' = dropWhile (\<lambda>y. \<not> cmp x y) (inord l) @ afters (FL a c r # k)"
      using Nd.IH(1) [of "FL a c r # k", unfolded zrep_FL, OF Nd.prems(1) mono(1)] by blast
    ultimately show ?thesis
      using True by (intro exI [of _ k']) (simp add: takeWhile_stop dropWhile_stop)
  next
    case False
    then have nl: "\<forall>b\<in>set (inord l). \<not> cmp x b" using mono(3) by blast
    have "RBTree_insert cmp s x (slot_of k) (par_of k) =
        RBTree_insert cmp s x (slot_of (FR l a c # k)) (par_of (FR l a c # k))"
      using sg False by (subst RBTree_insert.simps) simp
    moreover obtain k' where "RBTree_insert cmp s x (slot_of (FR l a c # k)) (par_of (FR l a c # k)) =
        Some (slot_of k', par_of k')" "plug Lf k' = plug r (FR l a c # k)"
      "befores k' = befores (FR l a c # k) @ takeWhile (\<lambda>y. \<not> cmp x y) (inord r)"
      "afters k' = dropWhile (\<lambda>y. \<not> cmp x y) (inord r) @ afters (FR l a c # k)"
      using Nd.IH(2) [of "FR l a c # k", unfolded zrep_FR, OF Nd.prems(1) mono(2)] by blast
    ultimately show ?thesis
      using False nl by (intro exI [of _ k']) (simp add: takeWhile_append dropWhile_append)
  qed
qed

lemma RBNode_fill:
  "n\<lparr>unionParCol := u, right := r, left := l\<rparr> = \<lparr>unionParCol = u, left = l, right = r\<rparr>"
  "n\<lparr>right := r, left := l, unionParCol := u\<rparr> = \<lparr>unionParCol = u, left = l, right = r\<rparr>"
  by (cases n; simp)+

lemma linkNode_zrep:
  assumes z: "zrep s Lf k" and x: "okp x" "x \<notin> nodes Lf k"
  shows "zrep (linkNode (slot_of k) x (par_of k) s) (Nd Lf x R Lf) k \<and>
    kept (insert x (nodes Lf k)) s (linkNode (slot_of k) x (par_of k) s)"
proof -
  have al: "al (par_of k)" using z by (auto simp: zrep_def intro: cr_al)
  let ?s = "s\<lparr>nd := (nd s)(x := mk (par_of k) R 0 0)\<rparr>"
  have pn: "par_of k AND NOT 1 = par_of k"
    using upc_red [OF al, of R] by simp
  have l: "linkNode (slot_of k) x (par_of k) s = slot_set (slot_of k) x ?s"
    by (simp add: linkNode_def setRed_def set_upc_def set_left_def set_right_def mk_def pn [simplified] RBNode_fill)
  show ?thesis
  proof (cases k rule: slot_of.cases)
    case 1
    show ?thesis using z x unfolding l unfolding 1 by (simp add: zrep_def kept_def)
  next
    case (2 a c r k')
    with z x have "nd ?s a = mk (par_of k') c 0 (rootp r)" "x \<noteq> a" by (auto simp: zrep_def)
    then show ?thesis using z x 2 unfolding l by (auto simp: node_simps zrep_def kept_def)
  next
    case (3 r a c k')
    with z x have "nd ?s a = mk (par_of k') c (rootp r) 0" "x \<noteq> a" by (auto simp: zrep_def)
    then show ?thesis using z x 3 unfolding l by (auto simp: node_simps zrep_def kept_def)
  qed
qed

lemma tree_lock_free: "lock (tlock s) = 0 \<Longrightarrow> tree_lock s = Some (s\<lparr>tlock := (tlock s)\<lparr>lock := 1\<rparr>\<rparr>)"
  by (simp add: tree_lock_def SpinLock_acquire_def SpinLock_try_def cmpxchg_def Let_def)

lemma tree_lock_held: "lock (tlock s) \<noteq> 0 \<Longrightarrow> tree_lock s = None"
  by (simp add: tree_lock_def SpinLock_acquire_def SpinLock_try_def cmpxchg_def Let_def)

lemma rep_tlock [simp]: "rep (s\<lparr>tlock := l\<rparr>) t = rep s t" "rep (tree_unlock s) t = rep s t"
  by (simp_all add: rep_def tree_unlock_def)

lemma rbtree_zrep: "rbtree (plug t k) \<Longrightarrow> invc t \<and> invh t \<and> cctx k \<and> hctx k (bh t)"
  by (simp add: rbtree_plug)

lemma tree_unlock_simps [simp]:
  "nd (tree_unlock s) = nd s" "lock (tlock (tree_unlock s)) = 0" "root (tree_unlock s) = root s"
  by (simp_all add: tree_unlock_def SpinLock_unlock_def)

definition tree_ok :: "rbs \<Rightarrow> ptr list \<Rightarrow> bool" where
  "tree_ok s xs \<longleftrightarrow> (\<exists>t. rep s t \<and> rbtree t \<and> inord t = xs) \<and> lock (tlock s) = 0"

lemma RBTree_insNode_rep:
  assumes s: "rep s t" "rbtree t" "lock (tlock s) = 0" and x: "okp x" "x \<notin> set (inord t)"
    and tree: "tree \<noteq> NULL" and cmp: "cmp_mono cmp x (inord t)"
  shows "\<exists>s' t'. RBTree_insNode cmp tree x s = Some s' \<and> rep s' t' \<and> rbtree t' \<and>
    inord t' = ins_at cmp x (inord t) \<and> lock (tlock s') = 0 \<and>
    (\<forall>q. q \<notin> insert x (set (inord t)) \<longrightarrow> nd s' q = nd s q)"
proof -
  let ?s = "s\<lparr>tlock := (tlock s)\<lparr>lock := 1\<rparr>\<rparr>"
  have nz: "x \<noteq> 0" using x by auto
  show ?thesis
  proof (cases t)
    case Lf
    then have r: "root s = 0" using s by (simp add: rep_def)
    let ?s' = "tree_unlock (s\<lparr>root := x, nd := (nd s)(x := mk 0 B 0 0), tlock := (tlock s)\<lparr>lock := 1\<rparr>\<rparr>)"
    have "RBTree_insNode cmp tree x s = Some ?s'"
      using r s(3) tree nz
      by (simp add: RBTree_insNode_def tree_lock_free Let_def set_left_def set_right_def set_upc_def mk_def RBNode_fill)
    then show ?thesis using Lf x
      by (intro exI [of _ ?s'] exI [of _ "Nd Lf x B Lf"]) (simp add: rep_def rbtree_def ins_at_def)
  next
    case (Nd l a c r)
    have z: "zrep ?s t []" using s(1) by (simp flip: rep_zrep)
    have "root s \<noteq> 0" using s(1) Nd by (auto simp: rep_def)
    obtain k where k: "RBTree_insert cmp ?s x RootSlot 0 = Some (slot_of k, par_of k)"
      "plug Lf k = t" "befores k = takeWhile (\<lambda>y. \<not> cmp x y) (inord t)"
      "afters k = dropWhile (\<lambda>y. \<not> cmp x y) (inord t)"
      using RBTree_insert_ok [OF z cmp] by auto
    let ?s1 = "linkNode (slot_of k) x (par_of k) ?s"
    have "zrep ?s Lf k" using z k(2) by (simp add: zrep_plug)
    moreover have n: "nodes Lf k = set (inord t)" using k(2) inord_plug [of Lf k] by simp
    ultimately have l: "zrep ?s1 (Nd Lf x R Lf) k" "kept (insert x (set (inord t))) ?s ?s1"
      using linkNode_zrep [of ?s k x] x by auto
    have "rebalanced ?s1 (Nd Lf x R Lf) k (fixAfterIns x ?s1)"
      using l(1) rbtree_zrep [of Lf k] s(2) k(2) by (intro fixAfterIns_ok) auto
    then obtain s' t' where f: "fixAfterIns x ?s1 = Some s'" "rep s' t'" "rbtree t'"
      "inord t' = inord (plug (Nd Lf x R Lf) k)" "kept (nodes (Nd Lf x R Lf) k) ?s1 s'"
      unfolding rebalanced_def by blast
    have "RBTree_insNode cmp tree x s = Some (tree_unlock s')"
      using \<open>root s \<noteq> 0\<close> s(3) tree nz k(1) f(1) by (simp add: RBTree_insNode_def tree_lock_free)
    moreover have "inord t' = ins_at cmp x (inord t)"
      using f(4) k(3,4) by (simp add: inord_plug ins_at_def)
    moreover have "nd s' q = nd s q" if "q \<notin> insert x (set (inord t))" for q
      using f(5) l(2) n that by (auto simp: kept_def)
    ultimately show ?thesis using f(2,3)
      by (intro exI [of _ "tree_unlock s'"] exI [of _ t']) simp
  qed
qed

text \<open>The order of the nodes, for a comparator that is a strict weak order on the keys.\<close>

definition ordered :: "(ptr \<Rightarrow> ptr \<Rightarrow> bool) \<Rightarrow> ptr list \<Rightarrow> bool" where
  "ordered cmp xs \<longleftrightarrow> sorted_wrt (\<lambda>a b. \<not> cmp b a) xs"

definition weak_order :: "(ptr \<Rightarrow> ptr \<Rightarrow> bool) \<Rightarrow> bool" where
  "weak_order cmp \<longleftrightarrow> (\<forall>a b. cmp a b \<longrightarrow> \<not> cmp b a) \<and>
     (\<forall>a b c. \<not> cmp a b \<and> \<not> cmp b c \<longrightarrow> \<not> cmp a c)"

lemma ordered_mono: "weak_order cmp \<Longrightarrow> ordered cmp xs \<Longrightarrow> cmp_mono cmp x xs"
  unfolding ordered_def cmp_mono_def weak_order_def
  by (erule sorted_wrt_mono_rel [rotated]) blast

lemma ordered_ins_at:
  assumes w: "weak_order cmp" and o: "ordered cmp xs"
  shows "ordered cmp (ins_at cmp x xs)"
proof -
  let ?P = "\<lambda>y. \<not> cmp x y"
  define Q where "Q = (\<lambda>a b. \<not> cmp b a)"
  have s: "ordered cmp (takeWhile ?P xs @ dropWhile ?P xs)" using o by simp
  have t: "\<forall>y\<in>set (takeWhile ?P xs). \<not> cmp x y" by (auto dest: set_takeWhileD)
  have asym: "\<And>a b. cmp a b \<Longrightarrow> \<not> cmp b a"
    and trans: "\<And>a b c. \<not> cmp a b \<Longrightarrow> \<not> cmp b c \<Longrightarrow> \<not> cmp a c"
    using w unfolding weak_order_def by blast+
  have "\<forall>y\<in>set (dropWhile ?P xs). cmp x y"
  proof (cases "dropWhile ?P xs")
    case (Cons z zs)
    then have "cmp x z" using hd_dropWhile [of ?P xs] by simp
    moreover have "\<forall>y\<in>set zs. \<not> cmp y z" using s Cons by (auto simp: ordered_def sorted_wrt_append)
    ultimately have "cmp x y" if "y \<in> set zs" for y using trans [of x y z] that by blast
    with \<open>cmp x z\<close> Cons show ?thesis by simp
  next
    case Nil
    show ?thesis unfolding Nil by simp
  qed
  then have "\<forall>y\<in>set (dropWhile ?P xs). \<not> cmp y x" using asym by blast
  with t have "\<forall>a\<in>set (takeWhile ?P xs). Q a x" "\<forall>b\<in>set (dropWhile ?P xs). Q x b"
    by (simp_all add: Q_def)
  moreover have "sorted_wrt Q (takeWhile ?P xs @ dropWhile ?P xs)"
    using s by (simp add: ordered_def Q_def)
  then have "sorted_wrt Q (takeWhile ?P xs)" "sorted_wrt Q (dropWhile ?P xs)"
    "\<forall>a\<in>set (takeWhile ?P xs). \<forall>b\<in>set (dropWhile ?P xs). Q a b"
    unfolding sorted_wrt_append by blast+
  ultimately have "sorted_wrt Q (ins_at cmp x xs)"
    unfolding ins_at_def sorted_wrt_append sorted_wrt.simps by auto
  then show ?thesis by (simp add: ordered_def Q_def)
qed

lemma set_ins_at [simp]: "set (ins_at cmp x xs) = insert x (set xs)"
proof -
  have "set (takeWhile (\<lambda>y. \<not> cmp x y) xs) \<union> set (dropWhile (\<lambda>y. \<not> cmp x y) xs) = set xs"
    by (metis set_append takeWhile_dropWhile_id)
  then show ?thesis by (auto simp: ins_at_def)
qed

end
