(* ===== verification/RBTree_Delete.thy ===== *)
theory RBTree_Delete
  imports RBTree_Insert
begin

text \<open>
  \<open>RBTree_delNode\<close> on a represented red-black tree: unlinking a node with at most one
  child, replacing a node with two children by its successor, and \<open>_fixAfterDel\<close>, which
  terminates and restores the invariants.  Minimum, maximum and successor follow.
\<close>

section \<open>Rebalancing after a deletion\<close>

definition invc2 :: "rbt \<Rightarrow> bool" where
  "invc2 t \<longleftrightarrow> (case t of Lf \<Rightarrow> True | Nd l a c r \<Rightarrow> invc l \<and> invc r \<and> (c = B \<longrightarrow> invc t))"

text \<open>The subtree in the hole is one black node short.\<close>

definition short :: "rbs \<Rightarrow> rbt \<Rightarrow> path \<Rightarrow> bool" where
  "short s t k \<longleftrightarrow> zrep s t k \<and> invc2 t \<and> invh t \<and> cctx k \<and> hctx k (bh t + 1)"

lemma invc2_B: "invc2 t \<Longrightarrow> col t = B \<Longrightarrow> invc t"
  by (cases t) (auto simp: invc2_def)

lemma fixDel_end_black:
  assumes "rep s t" "rbtree t"
  shows "fixDel_end (root s) s = Some s"
  using assms setBlack_root [of s t]
  by (cases t) (auto simp: fixDel_end_def rep_def rbtree_def)

lemma root_zrep: "zrep s t k \<Longrightarrow> root s = rootp (plug t k)"
  by (simp add: zrep_plug rep_def)

lemma rootp_in: "rootp t \<in> set (inord t) \<or> t = Lf"
  by (cases t) auto

lemma root_neq:
  assumes z: "zrep s t k" and k: "k \<noteq> []"
  shows "rootp t \<noteq> root s"
proof (cases t)
  case Lf
  have "plug t k \<noteq> Lf"
  proof (cases k rule: par_of.cases)
    case (2 a c r k')
    then show ?thesis by (simp add: plug_Nd)
  next
    case (3 a c r k')
    then show ?thesis by (simp add: plug_Nd)
  qed (use k in simp)
  then have "rootp (plug t k) \<noteq> 0"
    using z zrep_rootp [of s "plug t k" "[]"] by (simp add: zrep_plug)
  with Lf show ?thesis using root_zrep [OF z] by simp
next
  case (Nd l x c r)
  have "rootp (plug t k) \<in> set (befores k @ afters k)"
    using k
  proof (induction t k rule: plug.induct)
    case (2 t a c r k)
    then show ?case by (cases "k = []") auto
  next
    case (3 t l a c k)
    then show ?case by (cases "k = []") auto
  qed simp
  then show ?thesis using z Nd root_zrep [OF z] by (auto simp: zrep_def)
qed

lemma del_end:
  assumes p: "short s t k" and e: "col t = R \<or> k = []"
  shows "rebalanced s t k (fixAfterDel (rootp t) par s)"
proof -
  have z: "zrep s t k" using p by (simp add: short_def)
  have "\<not> (noRed s (rootp t) \<and> rootp t \<noteq> root s)"
  proof (cases "k = []")
    case True
    then show ?thesis using root_zrep [OF z] by simp
  next
    case False
    then show ?thesis using e zrep_noRed [OF z] by simp
  qed
  then have f: "fixAfterDel (rootp t) par s = fixDel_end (rootp t) s"
    by (subst fixAfterDel.simps) (rule if_not_P)
  show ?thesis
  proof (cases t)
    case Lf
    then have "k = []" using e by simp
    with f Lf z show ?thesis
      by (intro rebalancedI [of _ s Lf "[]"]) (auto simp: fixDel_end_def rbtree_def)
  next
    case (Nd l x c r)
    have "x \<noteq> 0" using z Nd zrep_reads(7) by blast
    then have "fixAfterDel (rootp t) par s = Some (setBlack x s)"
      using f Nd by (simp add: fixDel_end_def)
    moreover have "rbtree (plug (Nd l x B r) k)"
    proof (cases c)
      case R
      then show ?thesis using p Nd by (auto simp: rbtree_plug short_def invc2_def)
    next
      case B
      then have "k = []" using e Nd by simp
      with B show ?thesis using p Nd by (auto simp: rbtree_def short_def invc2_def)
    qed
    ultimately show ?thesis using zrep_colours(2) [of s l x c r k] z Nd
      by (intro rebalancedI [of _ "setBlack x s" "Nd l x B r" k]) (auto simp: kept_def inord_plug)
  qed
qed

lemma setRed_child:
  assumes "zrep s (Nd t p c (Nd s1 y d s2)) k"
  shows "zrep (setRed y s) (Nd t p c (Nd s1 y R s2)) k \<and> kept {y} s (setRed y s)"
  by (rule paint_right(2) [OF assms])

text \<open>The final rotation, for a node that is a left child: the sibling's right child is red.\<close>

lemma del_outer_left:
  assumes z: "zrep s (Nd t p c (Nd s1 y d (Nd v1 w R v2))) k"
    and t: "rbtree (plug (Nd (Nd t p B s1) y c (Nd v1 w B v2)) k)"
  shows "rebalanced s (Nd t p c (Nd s1 y d (Nd v1 w R v2))) k (fixDel_left y p s)"
proof -
  let ?s1 = "setCol y (cw c) s" let ?s2 = "setBlack p ?s1" let ?s3 = "setBlack w ?s2"
  let ?s4 = "rotLeft p ?s3"
  have zy: "zrep s (Nd s1 y d (Nd v1 w R v2)) (FR t p c # k)" using z by (simp add: zrep_FR)
  have r: "right (nd s y) = w" "\<not> noRed s w"
    using zrep_reads [OF zy] zrep_noRed [of s "Nd v1 w R v2" "FR s1 y d # FR t p c # k"] zy
    by (simp_all add: zrep_FR)
  have c: "color s p = cw c" using zrep_reads [OF z] by simp
  have 1: "zrep ?s1 (Nd t p c (Nd s1 y c (Nd v1 w R v2))) k \<and> kept {y} s ?s1"
    using zrep_colours(3) [OF zy] by (simp add: zrep_FR)
  note 2 = zrep_colours(2) [OF conjunct1 [OF 1]]
  have 3: "zrep ?s3 (Nd t p B (Nd s1 y c (Nd v1 w B v2))) k \<and> kept {w} ?s2 ?s3"
    using zrep_colours(2) [of ?s2 v1 w R v2 "FR s1 y c # FR t p B # k"] 2 by (simp add: zrep_FR)
  have r2: "right (nd ?s2 y) = w" "w \<noteq> 0"
    using zrep_reads [of ?s2 s1 y c "Nd v1 w R v2" "FR t p B # k"] 2
      zrep_reads(7) [of ?s2 v1 w R v2 "FR s1 y c # FR t p B # k"] by (simp_all add: zrep_FR)
  note 4 = rotLeft_zrep [OF conjunct1 [OF 3]]
  have "fixDel_left y p s = fixDel_end (root ?s4) ?s4"
    unfolding fixDel_left_def r using r(2) by (simp add: r c r2 Let_def)
  moreover have "fixDel_end (root ?s4) ?s4 = Some ?s4"
    using 4 t by (intro fixDel_end_black) (auto simp: zrep_plug)
  ultimately show ?thesis
  proof (intro rebalancedI)
    show "zrep ?s4 (Nd (Nd t p B s1) y c (Nd v1 w B v2)) k" using 4 by blast
    show "kept (nodes (Nd t p c (Nd s1 y d (Nd v1 w R v2))) k) s ?s4"
      using 1 2 3 4 by (simp add: kept_def)
  qed (use t in \<open>simp_all add: inord_plug\<close>)
qed

text \<open>The sibling's left child is red and its right child is not: one more rotation first.\<close>

lemma del_inner_left:
  assumes z: "zrep s (Nd t p c (Nd (Nd u1 z' R u2) y d s2)) k" and s2: "col s2 = B"
    and t: "rbtree (plug (Nd (Nd t p B u1) z' c (Nd u2 y B s2)) k)"
  shows "rebalanced s (Nd t p c (Nd (Nd u1 z' R u2) y d s2)) k (fixDel_left y p s)"
proof -
  let ?s1 = "setBlack z' s" let ?s2 = "setRed y ?s1" let ?s3 = "rotRight y ?s2"
  have zy: "zrep s (Nd (Nd u1 z' R u2) y d s2) (FR t p c # k)" using z by (simp add: zrep_FR)
  have r: "left (nd s y) = z'" "noRed s (right (nd s y))" "z' \<noteq> 0"
    using zrep_reads [OF zy] zrep_noRed [of s s2 "FR (Nd u1 z' R u2) y d # FR t p c # k"] zy s2
      zrep_reads(7) [of s u1 z' R u2 "FL y d s2 # FR t p c # k"]
    by (simp_all add: zrep_FR zrep_FL)
  note 1 = paint_left(1) [OF zy]
  note 2 = zrep_colours(1) [OF conjunct1 [OF 1]]
  note 3 = rotRight_zrep [OF conjunct1 [OF 2]]
  have z3: "zrep ?s3 (Nd t p c (Nd u1 z' B (Nd u2 y R s2))) k" using 3 by (simp add: zrep_FR)
  have r3: "right (nd ?s3 p) = z'" using zrep_reads [OF z3] by simp
  have nr: "\<not> noRed ?s3 (right (nd ?s3 z'))"
    using zrep_reads [of ?s3 u1 z' B "Nd u2 y R s2" "FR t p c # k"]
      zrep_noRed [of ?s3 "Nd u2 y R s2" "FR u1 z' B # FR t p c # k"] z3 by (simp add: zrep_FR)
  have e: "fixDel_left y p s = fixDel_left z' p ?s3"
    unfolding fixDel_left_def [of z' p ?s3] unfolding fixDel_left_def [of y p s]
    using nr by (simp only: r r3 Let_def if_True if_False prod.case simp_thms)
  show ?thesis unfolding e
  proof (rule rebalanced_step [OF del_outer_left [OF z3 t]])
    show "inord (plug (Nd t p c (Nd u1 z' B (Nd u2 y R s2))) k) =
      inord (plug (Nd t p c (Nd (Nd u1 z' R u2) y d s2)) k)" by (simp add: inord_plug)
    show "kept (nodes (Nd t p c (Nd (Nd u1 z' R u2) y d s2)) k) s ?s3"
      using 1 2 3 by (simp add: kept_def)
  qed
qed

text \<open>The mirror images, for a node that is a right child.\<close>

lemma del_outer_right:
  assumes z: "zrep s (Nd (Nd (Nd v1 w R v2) y d s1) p c t) k"
    and t: "rbtree (plug (Nd (Nd v1 w B v2) y c (Nd s1 p B t)) k)"
  shows "rebalanced s (Nd (Nd (Nd v1 w R v2) y d s1) p c t) k (fixDel_right y p s)"
proof -
  let ?s1 = "setCol y (cw c) s" let ?s2 = "setBlack p ?s1" let ?s3 = "setBlack w ?s2"
  let ?s4 = "rotRight p ?s3"
  have zy: "zrep s (Nd (Nd v1 w R v2) y d s1) (FL p c t # k)" using z by (simp add: zrep_FL)
  have r: "left (nd s y) = w" "\<not> noRed s w"
    using zrep_reads [OF zy] zrep_noRed [of s "Nd v1 w R v2" "FL y d s1 # FL p c t # k"] zy
    by (simp_all add: zrep_FL)
  have c: "color s p = cw c" using zrep_reads [OF z] by simp
  have 1: "zrep ?s1 (Nd (Nd (Nd v1 w R v2) y c s1) p c t) k \<and> kept {y} s ?s1"
    using zrep_colours(3) [OF zy] by (simp add: zrep_FL)
  note 2 = zrep_colours(2) [OF conjunct1 [OF 1]]
  have 3: "zrep ?s3 (Nd (Nd (Nd v1 w B v2) y c s1) p B t) k \<and> kept {w} ?s2 ?s3"
    using zrep_colours(2) [of ?s2 v1 w R v2 "FL y c s1 # FL p B t # k"] 2 by (simp add: zrep_FL)
  have r2: "left (nd ?s2 y) = w" "w \<noteq> 0"
    using zrep_reads [of ?s2 "Nd v1 w R v2" y c s1 "FL p B t # k"] 2
      zrep_reads(7) [of ?s2 v1 w R v2 "FL y c s1 # FL p B t # k"] by (simp_all add: zrep_FL)
  note 4 = rotRight_zrep [OF conjunct1 [OF 3]]
  have "fixDel_right y p s = fixDel_end (root ?s4) ?s4"
    unfolding fixDel_right_def r using r(2) by (simp add: r c r2 Let_def)
  moreover have "fixDel_end (root ?s4) ?s4 = Some ?s4"
    using 4 t by (intro fixDel_end_black) (auto simp: zrep_plug)
  ultimately show ?thesis
  proof (intro rebalancedI)
    show "zrep ?s4 (Nd (Nd v1 w B v2) y c (Nd s1 p B t)) k" using 4 by blast
    show "kept (nodes (Nd (Nd (Nd v1 w R v2) y d s1) p c t) k) s ?s4"
      using 1 2 3 4 by (simp add: kept_def)
  qed (use t in \<open>simp_all add: inord_plug\<close>)
qed

lemma del_inner_right:
  assumes z: "zrep s (Nd (Nd s2 y d (Nd u1 z' R u2)) p c t) k" and s2: "col s2 = B"
    and t: "rbtree (plug (Nd (Nd s2 y B u1) z' c (Nd u2 p B t)) k)"
  shows "rebalanced s (Nd (Nd s2 y d (Nd u1 z' R u2)) p c t) k (fixDel_right y p s)"
proof -
  let ?s1 = "setBlack z' s" let ?s2 = "setRed y ?s1" let ?s3 = "rotLeft y ?s2"
  have zy: "zrep s (Nd s2 y d (Nd u1 z' R u2)) (FL p c t # k)" using z by (simp add: zrep_FL)
  have r: "right (nd s y) = z'" "noRed s (left (nd s y))" "z' \<noteq> 0"
    using zrep_reads [OF zy] zrep_noRed [of s s2 "FL y d (Nd u1 z' R u2) # FL p c t # k"] zy s2
      zrep_reads(7) [of s u1 z' R u2 "FR s2 y d # FL p c t # k"]
    by (simp_all add: zrep_FR zrep_FL)
  note 1 = paint_right(1) [OF zy]
  note 2 = zrep_colours(1) [OF conjunct1 [OF 1]]
  note 3 = rotLeft_zrep [OF conjunct1 [OF 2]]
  have z3: "zrep ?s3 (Nd (Nd (Nd s2 y R u1) z' B u2) p c t) k" using 3 by (simp add: zrep_FL)
  have r3: "left (nd ?s3 p) = z'" using zrep_reads [OF z3] by simp
  have nr: "\<not> noRed ?s3 (left (nd ?s3 z'))"
    using zrep_reads [of ?s3 "Nd s2 y R u1" z' B u2 "FL p c t # k"]
      zrep_noRed [of ?s3 "Nd s2 y R u1" "FL z' B u2 # FL p c t # k"] z3 by (simp add: zrep_FL)
  have e: "fixDel_right y p s = fixDel_right z' p ?s3"
    unfolding fixDel_right_def [of z' p ?s3] unfolding fixDel_right_def [of y p s]
    using nr by (simp only: r r3 Let_def if_True if_False prod.case simp_thms)
  show ?thesis unfolding e
  proof (rule rebalanced_step [OF del_outer_right [OF z3 t]])
    show "inord (plug (Nd (Nd (Nd s2 y R u1) z' B u2) p c t) k) =
      inord (plug (Nd (Nd s2 y d (Nd u1 z' R u2)) p c t) k)" by (simp add: inord_plug)
    show "kept (nodes (Nd (Nd s2 y d (Nd u1 z' R u2)) p c t) k) s ?s3"
      using 1 2 3 by (simp add: kept_def)
  qed
qed

text \<open>One turn of the loop with a black sibling.\<close>

lemma del_black_left:
  assumes p: "short s t (FL p c (Nd s1 y B s2) # k)" and t: "col t = B"
    and IH: "\<And>s'. \<lbrakk>short s' (Nd t p c (Nd s1 y R s2)) k; col s1 = B; col s2 = B\<rbrakk> \<Longrightarrow>
      rebalanced s' (Nd t p c (Nd s1 y R s2)) k (fixAfterDel p (par_of k) s')"
  shows "rebalanced s t (FL p c (Nd s1 y B s2) # k) (fixAfterDel (rootp t) p s)"
proof -
  have z: "zrep s t (FL p c (Nd s1 y B s2) # k)" using p by (simp add: short_def)
  then have zp: "zrep s (Nd t p c (Nd s1 y B s2)) k" by (simp add: zrep_FL)
  then have zy: "zrep s (Nd s1 y B s2) (FR t p c # k)" by (simp add: zrep_FR)
  have g: "noRed s (rootp t)" "rootp t \<noteq> root s"
    using zrep_noRed [OF z] t root_neq [OF z] by simp_all
  have rp: "left (nd s p) = rootp t" "right (nd s p) = y" using zrep_reads [OF zp] by simp_all
  have ry: "\<not> isRed s y" "left (nd s y) = rootp s1" "right (nd s y) = rootp s2"
    using zrep_reads [OF zy] by simp_all
  have n1: "noRed s (rootp s1) \<longleftrightarrow> col s1 = B"
    using zrep_noRed [of s s1 "FL y B s2 # FR t p c # k"] zy by (simp add: zrep_FL)
  have n2: "noRed s (rootp s2) \<longleftrightarrow> col s2 = B"
    using zrep_noRed [of s s2 "FR s1 y B # FR t p c # k"] zy by (simp add: zrep_FR)
  have inv: "invc t" "invh t" "cctx (FL p c (Nd s1 y B s2) # k)" "bh s1 = bh t" "bh s2 = bh t"
    "invh s1" "invh s2" "hctx k (bh t + 1 + (if c = B then 1 else 0))"
    using p t by (auto simp: short_def intro: invc2_B)
  have f: "fixAfterDel (rootp t) p s =
     (if col s1 = B \<and> col s2 = B then fixAfterDel p (parent (setRed y s) p) (setRed y s)
      else fixDel_left y p s)"
    using g by (subst fixAfterDel.simps) (simp only: rp ry n1 n2 if_True if_False Let_def simp_thms)
  consider "col s1 = B" "col s2 = B" | v1 w v2 where "s2 = Nd v1 w R v2"
    | u1 z' u2 where "col s2 = B" "s1 = Nd u1 z' R u2"
    by (metis col.elims colr.exhaust)
  then show ?thesis
  proof cases
    case 1
    note r = paint_right(2) [OF zp]
    have "fixAfterDel (rootp t) p s = fixAfterDel p (par_of k) (setRed y s)"
      using f 1 zrep_reads(1) [OF conjunct1 [OF r]] by simp
    moreover have "short (setRed y s) (Nd t p c (Nd s1 y R s2)) k"
      using r inv 1 t by (cases c) (auto simp: short_def invc2_def)
    ultimately show ?thesis
      using rebalanced_step [OF IH [OF _ 1], of "setRed y s" t "FL p c (Nd s1 y B s2) # k" s] r
      by (simp add: inord_plug kept_def)
  next
    case 2
    have "rbtree (plug (Nd (Nd t p B s1) y c (Nd v1 w B v2)) k)"
      using inv t 2 by (cases c) (auto simp: rbtree_plug)
    from del_outer_left [OF zp [unfolded 2] this] show ?thesis
      using f 2 by (simp add: rebalanced_def kept_def Un_assoc insert_commute Un_commute Un_left_commute)
  next
    case 3
    have "rbtree (plug (Nd (Nd t p B u1) z' c (Nd u2 y B s2)) k)"
      using inv t 3 by (cases c) (auto simp: rbtree_plug)
    from del_inner_left [OF zp [unfolded 3(2)] 3(1) this] show ?thesis
      using f 3 by (simp add: rebalanced_def kept_def Un_assoc insert_commute Un_commute Un_left_commute)
  qed
qed

lemma del_black_right:
  assumes p: "short s t (FR (Nd s2 y B s1) p c # k)" and t: "col t = B"
    and IH: "\<And>s'. \<lbrakk>short s' (Nd (Nd s2 y R s1) p c t) k; col s1 = B; col s2 = B\<rbrakk> \<Longrightarrow>
      rebalanced s' (Nd (Nd s2 y R s1) p c t) k (fixAfterDel p (par_of k) s')"
  shows "rebalanced s t (FR (Nd s2 y B s1) p c # k) (fixAfterDel (rootp t) p s)"
proof -
  have z: "zrep s t (FR (Nd s2 y B s1) p c # k)" using p by (simp add: short_def)
  then have zp: "zrep s (Nd (Nd s2 y B s1) p c t) k" by (simp add: zrep_FR)
  then have zy: "zrep s (Nd s2 y B s1) (FL p c t # k)" by (simp add: zrep_FL)
  have g: "noRed s (rootp t)" "rootp t \<noteq> root s"
    using zrep_noRed [OF z] t root_neq [OF z] by simp_all
  have "y \<noteq> rootp t"
    using zy zrep_neq(1) [OF zy refl] by simp
  then have rp: "left (nd s p) = y" "(y = rootp t) = False" using zrep_reads [OF zp] by simp_all
  have ry: "\<not> isRed s y" "right (nd s y) = rootp s1" "left (nd s y) = rootp s2"
    using zrep_reads [OF zy] by simp_all
  have n1: "noRed s (rootp s1) \<longleftrightarrow> col s1 = B"
    using zrep_noRed [of s s1 "FR s2 y B # FL p c t # k"] zy by (simp add: zrep_FR)
  have n2: "noRed s (rootp s2) \<longleftrightarrow> col s2 = B"
    using zrep_noRed [of s s2 "FL y B s1 # FL p c t # k"] zy by (simp add: zrep_FL)
  have inv: "invc t" "invh t" "cctx (FR (Nd s2 y B s1) p c # k)" "bh s1 = bh t" "bh s2 = bh t"
    "invh s1" "invh s2" "hctx k (bh t + 1 + (if c = B then 1 else 0))"
    using p t by (auto simp: short_def intro: invc2_B)
  have f: "fixAfterDel (rootp t) p s =
     (if col s2 = B \<and> col s1 = B then fixAfterDel p (parent (setRed y s) p) (setRed y s)
      else fixDel_right y p s)"
    using g by (subst fixAfterDel.simps) (simp only: rp ry n1 n2 if_True if_False Let_def simp_thms)
  consider "col s1 = B" "col s2 = B" | v1 w v2 where "s2 = Nd v1 w R v2"
    | u1 z' u2 where "col s2 = B" "s1 = Nd u1 z' R u2"
    by (metis col.elims colr.exhaust)
  then show ?thesis
  proof cases
    case 1
    note r = paint_left(2) [OF zp]
    have "fixAfterDel (rootp t) p s = fixAfterDel p (par_of k) (setRed y s)"
      using f 1 zrep_reads(1) [OF conjunct1 [OF r]] by simp
    moreover have "short (setRed y s) (Nd (Nd s2 y R s1) p c t) k"
      using r inv 1 t by (cases c) (auto simp: short_def invc2_def)
    ultimately show ?thesis
      using rebalanced_step [OF IH [OF _ 1], of "setRed y s" t "FR (Nd s2 y B s1) p c # k" s] r
      by (simp add: inord_plug kept_def)
  next
    case 2
    have "rbtree (plug (Nd (Nd v1 w B v2) y c (Nd s1 p B t)) k)"
      using inv t 2 by (cases c) (auto simp: rbtree_plug)
    from del_outer_right [OF zp [unfolded 2] this] show ?thesis
      using f 2 by (simp add: rebalanced_def kept_def Un_assoc insert_commute Un_commute Un_left_commute)
  next
    case 3
    have "rbtree (plug (Nd (Nd s2 y B u1) z' c (Nd u2 p B t)) k)"
      using inv t 3 by (cases c) (auto simp: rbtree_plug)
    from del_inner_right [OF zp [unfolded 3(2)] 3(1) this] show ?thesis
      using f 3 by (simp add: rebalanced_def kept_def Un_assoc insert_commute Un_commute Un_left_commute)
  qed
qed

text \<open>A red sibling is rotated away first; the rest of the turn is that of a black one.\<close>

lemma del_red_left:
  assumes p: "short s t (FL p c (Nd s1 y R s2) # k)" and t: "col t = B"
  shows "\<exists>s'. fixAfterDel (rootp t) p s = fixAfterDel (rootp t) p s' \<and>
    short s' t (FL p R s1 # FL y B s2 # k) \<and> kept (nodes t (FL p c (Nd s1 y R s2) # k)) s s'"
proof -
  let ?s1 = "setRed p (setBlack y s)" let ?s' = "rotLeft p ?s1"
  have z: "zrep s t (FL p c (Nd s1 y R s2) # k)" using p by (simp add: short_def)
  then have zp: "zrep s (Nd t p c (Nd s1 y R s2)) k" by (simp add: zrep_FL)
  then have zy: "zrep s (Nd s1 y R s2) (FR t p c # k)" by (simp add: zrep_FR)
  note 1 = paint_right(1) [OF zp]
  note 2 = zrep_colours(1) [OF conjunct1 [OF 1]]
  note 3 = rotLeft_zrep [OF conjunct1 [OF 2]]
  have inv: "invc t" "invh t" "c = B" "pcol k = B \<or> True" "cctx k" "invc s1" "invc s2" "col s1 = B" "col s2 = B"
    "bh s1 = bh t + 1" "bh s2 = bh t + 1" "invh s1" "invh s2" "hctx k (bh t + 2)"
    using p t by (auto simp: short_def intro: invc2_B) (cases c; auto)+
  have sh: "short ?s' t (FL p R s1 # FL y B s2 # k)"
    using 3 inv t by (auto simp: short_def zrep_FL invc2_def split: rbt.splits)
  then have z': "zrep ?s' t (FL p R s1 # FL y B s2 # k)" by (simp add: short_def)
  obtain w1 w d w2 where s1: "s1 = Nd w1 w B w2" using inv by (cases s1) auto
  have g: "noRed s (rootp t)" "rootp t \<noteq> root s" "noRed ?s' (rootp t)" "rootp t \<noteq> root ?s'"
    using zrep_noRed [OF z] zrep_noRed [OF z'] t root_neq [OF z] root_neq [OF z'] by simp_all
  have rp: "left (nd s p) = rootp t" "right (nd s p) = y" using zrep_reads [OF zp] by simp_all
  have ry: "isRed s y" using zrep_reads [OF zy] by simp
  have rp': "left (nd ?s' p) = rootp t" "right (nd ?s' p) = w"
    using zrep_reads [of ?s' t p R s1 "FL y B s2 # k"] z' s1 by (simp_all add: zrep_FL)
  have rw: "\<not> isRed ?s' w"
    using zrep_reads [of ?s' w1 w B w2 "FR t p R # FL y B s2 # k"] z' s1 by (simp add: zrep_FL zrep_FR)
  have "fixAfterDel (rootp t) p s = fixAfterDel (rootp t) p ?s'"
    unfolding fixAfterDel.simps [of "rootp t" p s] fixAfterDel.simps [of "rootp t" p ?s']
    using g by (simp only: rp ry rp' rw if_True if_False Let_def simp_thms)
  moreover have "kept (nodes t (FL p c (Nd s1 y R s2) # k)) s ?s'"
    using 1 2 3 by (simp add: kept_def)
  ultimately show ?thesis using sh by blast
qed

lemma del_red_right:
  assumes p: "short s t (FR (Nd s2 y R s1) p c # k)" and t: "col t = B"
  shows "\<exists>s'. fixAfterDel (rootp t) p s = fixAfterDel (rootp t) p s' \<and>
    short s' t (FR s1 p R # FR s2 y B # k) \<and> kept (nodes t (FR (Nd s2 y R s1) p c # k)) s s'"
proof -
  let ?s1 = "setRed p (setBlack y s)" let ?s' = "rotRight p ?s1"
  have z: "zrep s t (FR (Nd s2 y R s1) p c # k)" using p by (simp add: short_def)
  then have zp: "zrep s (Nd (Nd s2 y R s1) p c t) k" by (simp add: zrep_FR)
  then have zy: "zrep s (Nd s2 y R s1) (FL p c t # k)" by (simp add: zrep_FL)
  note 1 = paint_left(1) [OF zp]
  note 2 = zrep_colours(1) [OF conjunct1 [OF 1]]
  note 3 = rotRight_zrep [OF conjunct1 [OF 2]]
  have inv: "invc t" "invh t" "c = B" "cctx k" "invc s1" "invc s2" "col s1 = B" "col s2 = B"
    "bh s1 = bh t + 1" "bh s2 = bh t + 1" "invh s1" "invh s2" "hctx k (bh t + 2)"
    using p t by (auto simp: short_def intro: invc2_B) (cases c; auto)+
  have sh: "short ?s' t (FR s1 p R # FR s2 y B # k)"
    using 3 inv t by (auto simp: short_def zrep_FR invc2_def split: rbt.splits)
  then have z': "zrep ?s' t (FR s1 p R # FR s2 y B # k)" by (simp add: short_def)
  obtain w1 w d w2 where s1: "s1 = Nd w1 w B w2" using inv by (cases s1) auto
  have g: "noRed s (rootp t)" "rootp t \<noteq> root s" "noRed ?s' (rootp t)" "rootp t \<noteq> root ?s'"
    using zrep_noRed [OF z] zrep_noRed [OF z'] t root_neq [OF z] root_neq [OF z'] by simp_all
  have "y \<noteq> rootp t" using zrep_neq(1) [OF zy refl] .
  then have rp: "left (nd s p) = y" "(y = rootp t) = False" using zrep_reads [OF zp] by simp_all
  have ry: "isRed s y" using zrep_reads [OF zy] by simp
  have zw: "zrep ?s' (Nd w1 w B w2) (FL p R t # FR s2 y B # k)"
    using z' s1 by (simp add: zrep_FL zrep_FR)
  have "w \<noteq> rootp t" using zrep_neq(1) [OF zw refl] .
  then have rp': "left (nd ?s' p) = w" "(w = rootp t) = False"
    using zrep_reads [of ?s' s1 p R t "FR s2 y B # k"] z' s1 by (simp_all add: zrep_FR)
  have rw: "\<not> isRed ?s' w" using zrep_reads [OF zw] by simp
  have "fixAfterDel (rootp t) p s = fixAfterDel (rootp t) p ?s'"
    unfolding fixAfterDel.simps [of "rootp t" p s] fixAfterDel.simps [of "rootp t" p ?s']
    using g by (simp only: rp ry rp' rw if_True if_False Let_def simp_thms)
  moreover have "kept (nodes t (FR (Nd s2 y R s1) p c # k)) s ?s'"
    using 1 2 3 by (simp add: kept_def)
  ultimately show ?thesis using sh by blast
qed

lemma fixAfterDel_ok: "short s t k \<Longrightarrow> rebalanced s t k (fixAfterDel (rootp t) (par_of k) s)"
proof (induction "length k" arbitrary: s t k rule: less_induct)
  case less
  note p = less.prems
  consider "col t = R \<or> k = []" | (L) a c sb k' where "col t = B" "k = FL a c sb # k'"
    | (R) a c sb k' where "col t = B" "k = FR sb a c # k'"
    by (cases k rule: par_of.cases; metis colr.exhaust)
  then show ?case
  proof cases
    case 1
    with p show ?thesis by (rule del_end)
  next
    case L
    have "bh sb = bh t + 1" using p L by (simp add: short_def)
    then obtain s1 y d s2 where sb: "sb = Nd s1 y d s2" by (cases sb) auto
    show ?thesis
    proof (cases d)
      case B
      show ?thesis unfolding L sb B par_of.simps
      proof (rule del_black_left)
        show "short s t (FL a c (Nd s1 y B s2) # k')" "col t = B" using p L sb B by simp_all
        show "rebalanced s' (Nd t a c (Nd s1 y R s2)) k' (fixAfterDel a (par_of k') s')"
          if "short s' (Nd t a c (Nd s1 y R s2)) k'" for s'
          using less.hyps [OF _ that] L by simp
      qed
    next
      case R
      obtain s' where s': "fixAfterDel (rootp t) a s = fixAfterDel (rootp t) a s'"
        "short s' t (FL a R s1 # FL y B s2 # k')" "kept (nodes t k) s s'"
        using del_red_left [of s t a c s1 y s2 k'] p L sb R by auto
      then obtain w1 w w2 where s1: "s1 = Nd w1 w B w2"
        by (cases s1) (auto simp: short_def)
      have "rebalanced s' t (FL a R s1 # FL y B s2 # k') (fixAfterDel (rootp t) a s')"
        unfolding s1
      proof (rule del_black_left)
        show "rebalanced s2' (Nd t a R (Nd w1 w R w2)) (FL y B s2 # k')
            (fixAfterDel a (par_of (FL y B s2 # k')) s2')"
          if "short s2' (Nd t a R (Nd w1 w R w2)) (FL y B s2 # k')" for s2'
          using del_end [OF that] by simp
      qed (use s'(2) s1 L in simp_all)
      then show ?thesis using s' L sb R
        by (simp add: inord_plug rebalanced_step)
    qed
  next
    case R
    have "bh sb = bh t + 1" using p R by (simp add: short_def)
    then obtain s1 y d s2 where sb: "sb = Nd s2 y d s1" by (cases sb) auto
    show ?thesis
    proof (cases d)
      case B
      show ?thesis unfolding R sb B par_of.simps
      proof (rule del_black_right)
        show "short s t (FR (Nd s2 y B s1) a c # k')" "col t = B" using p R sb B by simp_all
        show "rebalanced s' (Nd (Nd s2 y R s1) a c t) k' (fixAfterDel a (par_of k') s')"
          if "short s' (Nd (Nd s2 y R s1) a c t) k'" for s'
          using less.hyps [OF _ that] R by simp
      qed
    next
      case red: R
      obtain s' where s': "fixAfterDel (rootp t) a s = fixAfterDel (rootp t) a s'"
        "short s' t (FR s1 a R # FR s2 y B # k')" "kept (nodes t k) s s'"
        using del_red_right [of s t s2 y s1 a c k'] p R sb red by auto
      then obtain w1 w w2 where s1: "s1 = Nd w2 w B w1"
        by (cases s1) (auto simp: short_def)
      have "rebalanced s' t (FR s1 a R # FR s2 y B # k') (fixAfterDel (rootp t) a s')"
        unfolding s1
      proof (rule del_black_right)
        show "rebalanced s2' (Nd (Nd w2 w R w1) a R t) (FR s2 y B # k')
            (fixAfterDel a (par_of (FR s2 y B # k')) s2')"
          if "short s2' (Nd (Nd w2 w R w1) a R t) (FR s2 y B # k')" for s2'
          using del_end [OF that] by simp
      qed (use s'(2) s1 R in simp_all)
      then show ?thesis using s' R sb red
        by (simp add: inord_plug rebalanced_step)
    qed
  qed
qed

section \<open>Unlinking\<close>

lemma unlink_zrep:
  assumes t: "tr (nd s) x ch" and c: "cr (nd s) (root s) x k" and x: "okp x" "x \<notin> nodes ch k"
    and d: "distinct (befores k @ inord ch @ afters k)"
    and s1: "s1 = (if rootp ch \<noteq> NULL then setParent (rootp ch) (par_of k) s else s)"
  shows "zrep (relink_child (par_of k) x (rootp ch) s1) ch k \<and>
    kept (nodes ch k) s (relink_child (par_of k) x (rootp ch) s1)"
proof -
  note u = relink_child_def node_simps s1
  define Q where "Q s' \<longleftrightarrow> zrep s' ch k \<and> kept (nodes ch k) s s'" for s'
  have "Q (relink_child (par_of k) x (rootp ch) s1)"
  proof (cases k rule: par_of.cases)
    case 1
    show ?thesis
    proof (cases ch)
      case Lf
      show ?thesis using t c x d unfolding 1 Lf by (clarsimp, simp add: u Lf cong: let_weak_cong, simp add: 1 Lf Q_def zrep_def kept_def)
    next
      case (Nd b1 m g b2)
      show ?thesis using t c x d unfolding 1 Nd by (clarsimp, simp add: u 1 Nd cong: let_weak_cong, simp add: 1 Nd Q_def zrep_def kept_def)
    qed
  next
    case (2 p q r k')
    have al': "al (par_of k')" using c unfolding 2 by (auto intro: cr_al)
    show ?thesis
    proof (cases ch)
      case Lf
      show ?thesis using t c x d al' unfolding 2 Lf by (clarsimp, simp add: u 2 Lf cong: let_weak_cong, simp add: 2 Lf Q_def zrep_def kept_def)
    next
      case (Nd b1 m g b2)
      show ?thesis using t c x d al' unfolding 2 Nd by (clarsimp, simp add: u 2 Nd cong: let_weak_cong, simp add: 2 Nd Q_def zrep_def kept_def)
    qed
  next
    case (3 r p q k')
    have al': "al (par_of k')" "rootp r \<noteq> x"
      using c x unfolding 3 by (auto intro: cr_al dest: neq_rootp)
    show ?thesis
    proof (cases ch)
      case Lf
      show ?thesis using t c x d al' unfolding 3 Lf by (clarsimp, simp add: u 3 Lf cong: let_weak_cong, simp add: 3 Lf Q_def zrep_def kept_def)
    next
      case (Nd b1 m g b2)
      show ?thesis using t c x d al' unfolding 3 Nd by (clarsimp, simp add: u 3 Nd cong: let_weak_cong, simp add: 3 Nd Q_def zrep_def kept_def)
    qed
  qed
  then show ?thesis by (simp only: Q_def)
qed

lemma RBNode_fill3: "n\<lparr>unionParCol := u, left := l, right := r\<rparr> = \<lparr>unionParCol = u, left = l, right = r\<rparr>"
  by (cases n) simp

lemma replace_head:
  assumes "nd s x = mk q c l r" "x \<noteq> y" "s' = s\<lparr>nd := (nd s)(y := mk q c l r)\<rparr>"
  shows "replace_node x y s =
    (let s = s';
         s = (if parent s x \<noteq> NULL
              then if left (nd s (parent s x)) = x
                   then set_left (parent s x) y s
                   else set_right (parent s x) y s
              else s\<lparr>root := y\<rparr>);
         s = setParent (left (nd s x)) y s
     in (if right (nd s x) \<noteq> NULL then setParent (right (nd s x)) y s else s))"
proof -
  have "s' = s\<lparr>nd := (nd s)(y := (nd s y)\<lparr>unionParCol := unionParCol (nd s x), left := left (nd s x), right := right (nd s x)\<rparr>)\<rparr>"
    using assms(1,3) by (simp add: mk_def RBNode_fill3)
  then show ?thesis using assms(2)
    by (simp add: replace_node_def set_upc_def set_left_def set_right_def cong: let_weak_cong)
qed

lemma replace_zrep:
  assumes z: "zrep s (Nd l x c r) k" and l: "l \<noteq> Lf" and y: "okp y" "y \<notin> nodes (Nd l x c r) k"
  shows "zrep (replace_node x y s) (Nd l y c r) k \<and>
    kept (insert y (nodes (Nd l x c r) k)) s (replace_node x y s)"
proof -
  obtain l1 a ca l2 where l: "l = Nd l1 a ca l2" using l by (cases l) auto
  have f: "tr (nd s) (par_of k) (Nd l x c r)" "cr (nd s) (root s) x k"
    "distinct (befores k @ inord (Nd l x c r) @ afters k)"
    using z by (auto simp: zrep_def)
  note n = zrep_node [OF z]
  note h = replace_head [OF n(1) _ refl, of y]
  note u = Let_def node_simps
  define Q where "Q s' \<longleftrightarrow> zrep s' (Nd l y c r) k \<and> kept (insert y (nodes (Nd l x c r) k)) s s'" for s'
  have xy: "x \<noteq> y" using y by auto
  have "Q (replace_node x y s)"
  proof (cases k rule: par_of.cases)
    case 1
    show ?thesis
    proof (cases r)
      case Lf
      show ?thesis using f y xy unfolding h [OF xy] unfolding 1 Lf l by (clarsimp, simp add: u cong: let_weak_cong, simp add: 1 l Lf Q_def zrep_def kept_def)
    next
      case (Nd b1 m g b2)
      show ?thesis using f y xy unfolding h [OF xy] unfolding 1 Nd l by (clarsimp, simp add: u cong: let_weak_cong, simp add: 1 l Nd Q_def zrep_def kept_def)
    qed
  next
    case (2 p q r' k')
    have al': "al (par_of k')" using f unfolding 2 by (auto intro: cr_al)
    show ?thesis
    proof (cases r)
      case Lf
      show ?thesis using f y xy al' unfolding h [OF xy] unfolding 2 Lf l by (clarsimp, simp add: u cong: let_weak_cong, simp add: 2 l Lf Q_def zrep_def kept_def)
    next
      case (Nd b1 m g b2)
      show ?thesis using f y xy al' unfolding h [OF xy] unfolding 2 Nd l by (clarsimp, simp add: u cong: let_weak_cong, simp add: 2 l Nd Q_def zrep_def kept_def)
    qed
  next
    case (3 r' p q k')
    have al': "al (par_of k')" "rootp r' \<noteq> x"
      using f unfolding 3 by (auto intro: cr_al dest: neq_rootp)
    show ?thesis
    proof (cases r)
      case Lf
      show ?thesis using f y xy al' unfolding h [OF xy] unfolding 3 Lf l by (clarsimp, simp add: u cong: let_weak_cong, simp add: 3 l Lf Q_def zrep_def kept_def)
    next
      case (Nd b1 m g b2)
      show ?thesis using f y xy al' unfolding h [OF xy] unfolding 3 Nd l by (clarsimp, simp add: u cong: let_weak_cong, simp add: 3 l Nd Q_def zrep_def kept_def)
    qed
  qed
  then show ?thesis by (simp only: Q_def)
qed

section \<open>The leftmost node\<close>

lemma plug_append: "plug t (k1 @ k2) = plug (plug t k1) k2"
  by (induction t k1 rule: plug.induct) simp_all

lemma zrep_append: "zrep s t (k1 @ k2) \<longleftrightarrow> zrep s (plug t k1) k2"
  by (simp add: zrep_plug plug_append)

lemma befores_append: "befores (k1 @ k2) = befores k2 @ befores k1"
  by (induction k1 rule: befores.induct) simp_all

lemma afters_append: "afters (k1 @ k2) = afters k1 @ afters k2"
  by (induction k1 rule: afters.induct) simp_all

lemma go_left_ok:
  "zrep s (Nd l x c r) k \<Longrightarrow>
    \<exists>kk y d yr. go_left s x = Some y \<and> Nd l x c r = plug (Nd Lf y d yr) kk \<and> befores kk = []"
proof (induction l arbitrary: x c r k)
  case Lf
  have "go_left s x = Some x"
    using zrep_reads [OF Lf] by (subst go_left.simps) simp
  then show ?case by (intro exI [of _ "[]"]) auto
next
  case (Nd l1 a d l2)
  have z: "zrep s (Nd l1 a d l2) (FL x c r # k)" using Nd.prems by (simp add: zrep_FL)
  obtain kk y e yr where "go_left s a = Some y" "Nd l1 a d l2 = plug (Nd Lf y e yr) kk" "befores kk = []"
    using Nd.IH(1) [OF z] by blast
  moreover have "go_left s x = go_left s a"
    using zrep_reads [OF Nd.prems] zrep_reads [OF z] by (subst go_left.simps) simp
  ultimately show ?case
    by (intro exI [of _ "kk @ [FL x c r]"] exI [of _ y] exI [of _ e] exI [of _ yr])
      (auto simp: plug_append befores_append)
qed

section \<open>Deleting a node\<close>

lemma in_inord_split: "x \<in> set (inord t) \<Longrightarrow> \<exists>l c r k'. plug t k = plug (Nd l x c r) (k' @ k)"
proof (induction t arbitrary: k)
  case (Nd l a c r)
  consider "x = a" | "x \<in> set (inord l)" | "x \<in> set (inord r)" using Nd.prems by auto
  then show ?case
  proof cases
    case 1
    then show ?thesis by (intro exI [of _ l] exI [of _ c] exI [of _ r] exI [of _ "[]"]) simp
  next
    case 2
    from Nd.IH(1) [OF this, of "FL a c r # k"] show ?thesis
      by (metis append.assoc append_Cons append_Nil plug.simps(2))
  next
    case 3
    from Nd.IH(2) [OF this, of "FR l a c # k"] show ?thesis
      by (metis append.assoc append_Cons append_Nil plug.simps(3))
  qed
qed simp

lemma zrep_tlock [simp]: "zrep (s\<lparr>tlock := l\<rparr>) t k = zrep s t k"
  by (simp add: zrep_def)

lemma short_or_done:
  assumes z: "zrep s ch k" and i: "invc ch" "invh ch" "cctx k"
    and R: "c = R \<Longrightarrow> hctx k (bh ch) \<and> (col ch = R \<longrightarrow> pcol k = B)"
    and B: "c = B \<Longrightarrow> hctx k (bh ch + 1)"
  shows "rebalanced s ch k (if cw c = RBTree_Col_Black then fixAfterDel (rootp ch) (par_of k) s else Some s)"
proof (cases c)
  case B
  with z i assms(6) have "short s ch k"
    by (cases ch) (auto simp: short_def invc2_def)
  with B fixAfterDel_ok show ?thesis by simp
next
  case R
  with z i assms(5) show ?thesis
    by (intro rebalancedI [of _ s ch k]) (auto simp: rbtree_plug)
qed

lemma unlink_kept_node:
  assumes "okp x" "x \<notin> nodes ch k"
    and "kept (nodes ch k) s s'"
  shows "nd s' x = nd s x"
  using assms by (simp add: kept_def)

lemma root_notin:
  assumes "zrep s ch k" "okp x" "x \<notin> nodes ch k"
  shows "root s \<noteq> x"
proof -
  have "root s = rootp (plug ch k)" using root_zrep [OF assms(1)] .
  moreover have "x \<notin> set (inord (plug ch k))" using assms(3) by (simp add: inord_plug)
  ultimately show ?thesis using neq_rootp [OF assms(2)] by metis
qed

lemma del_one_child:
  assumes z: "zrep s (Nd l x c r) k" and t: "rbtree (plug (Nd l x c r) k)" and e: "l = Lf \<or> r = Lf"
    and ch: "ch = (if l = Lf then r else l)"
  shows "rebalanced s ch k (delNode_body x s)"
proof -
  note n = zrep_reads [OF z]
  have inv: "invc ch" "invh ch" "cctx k" "c = B \<Longrightarrow> hctx k (bh ch + 1)"
    "c = R \<Longrightarrow> hctx k (bh ch) \<and> (col ch = R \<longrightarrow> pcol k = B)"
    using rbtree_zrep [OF t] e ch t by (auto simp: rbtree_plug split: if_splits)
  have c: "rootp ch = (if rootp l = NULL then rootp r else rootp l)"
    using z e ch by (auto simp: zrep_def rootp_0)
  have b: "\<not> (rootp l \<noteq> NULL \<and> rootp r \<noteq> NULL)" using e by auto
  let ?s1 = "if rootp ch \<noteq> NULL then setParent (rootp ch) (par_of k) s else s"
  let ?s2 = "relink_child (par_of k) x (rootp ch) ?s1"
  have x: "okp x" "x \<notin> nodes ch k" "tr (nd s) x ch" "cr (nd s) (root s) x k"
    "distinct (befores k @ inord ch @ afters k)"
    using z e ch by (auto simp: zrep_def)
  note u = unlink_zrep [OF x(3,4,1,2,5) refl]
  have "x \<noteq> root ?s2" using root_notin [OF conjunct1 [OF u] x(1,2)] by simp
  then have f: "delNode_body x s =
      (if cw c = RBTree_Col_Black then fixAfterDel (rootp ch) (par_of k) ?s2 else Some ?s2)"
    unfolding delNode_body_def n using b by (simp only: if_False Let_def simp_thms flip: c)
  show ?thesis unfolding f
  proof (rule rebalanced_step [OF short_or_done])
    show "zrep ?s2 ch k" "kept (nodes ch k) s ?s2" using u by blast+
  qed (use inv in auto)
qed

lemma par_append: "par_of (kk @ k) = (if kk = [] then par_of k else par_of kk)"
  by (cases kk rule: par_of.cases) auto

lemma par_of_in: "kk \<noteq> [] \<Longrightarrow> par_of kk \<in> set (befores kk) \<union> set (afters kk)"
  by (cases kk rule: par_of.cases) auto

lemma pcol_swap: "pcol (kk @ FR l x c # k) = pcol (kk @ FR l y c # k)"
  by (cases kk rule: par_of.cases) auto

lemma cctx_swap: "cctx (kk @ FR l x c # k) = cctx (kk @ FR l y c # k)"
  by (induction kk rule: befores.induct) (auto simp: pcol_swap [of _ l x c k y])

lemma hctx_swap: "hctx (kk @ FR l x c # k) n = hctx (kk @ FR l y c # k) n"
  by (induction kk arbitrary: n rule: befores.induct) auto

lemma del_two_children:
  assumes z: "zrep s (Nd l x c r) k" and t: "rbtree (plug (Nd l x c r) k)" and l: "l \<noteq> Lf" and r: "r \<noteq> Lf"
  shows "\<exists>s3 ch k'. rebalanced s3 ch k' (delNode_body x s) \<and>
    inord (plug ch k') = befores k @ inord l @ inord r @ afters k \<and>
    kept (nodes (Nd l x c r) k) s s3"
proof -
  note n = zrep_reads [OF z]
  obtain r1 rx rc r2 where re: "r = Nd r1 rx rc r2" using r by (cases r) auto
  have zr: "zrep s r (FR l x c # k)" using z by (simp add: zrep_FR)
  obtain kk y d yr where g: "go_left s (rootp r) = Some y" "r = plug (Nd Lf y d yr) kk" "befores kk = []"
    using go_left_ok [OF zr [unfolded re]] unfolding re rootp.simps by blast
  let ?k = "kk @ FR l x c # k" let ?k' = "kk @ FR l y c # k"
  have zy: "zrep s (Nd Lf y d yr) ?k" using zr g(2) by (simp add: zrep_append)
  have ty: "rbtree (plug (Nd Lf y d yr) ?k)" using t g(2) by (simp add: plug_append)
  note m = zrep_reads [OF zy]
  have ne: "rootp l \<noteq> NULL" "rootp r \<noteq> NULL"
    using z l r zrep_rootp [OF zr] by (auto simp: zrep_def rootp_0)
  let ?s1 = "if rootp yr \<noteq> NULL then setParent (rootp yr) (par_of ?k) s else s"
  let ?s2 = "relink_child (par_of ?k) y (rootp yr) ?s1"
  have o: "okp y" "y \<notin> nodes yr ?k" "tr (nd s) y yr" "cr (nd s) (root s) y ?k"
    "distinct (befores ?k @ inord yr @ afters ?k)"
    using zy by (auto simp: zrep_def)
  note u = unlink_zrep [OF o(3,4,1,2,5) refl]
  have y2: "parent ?s2 y = par_of ?k"
    using m(1) unlink_kept_node [OF o(1,2) conjunct2 [OF u]] by (simp add: parent_def)
  have px: "par_of ?k = x \<longleftrightarrow> kk = []"
  proof (cases "kk = []")
    case False
    then have "par_of kk \<in> set (befores kk) \<union> set (afters kk)" by (rule par_of_in)
    then have "par_of kk \<noteq> x" using o(5) by (auto simp: befores_append afters_append)
    with False show ?thesis by (simp add: par_append)
  qed simp
  have zx: "zrep ?s2 (Nd l x c (plug yr kk)) k" using u by (simp add: zrep_append zrep_FR)
  have yn: "y \<notin> nodes (Nd l x c (plug yr kk)) k"
    using o(2) by (auto simp: befores_append afters_append inord_plug)
  let ?s3 = "replace_node x y ?s2"
  note v = replace_zrep [OF zx l o(1) yn]
  have z3: "zrep ?s3 yr ?k'" using v by (simp add: zrep_append zrep_FR)
  have f: "delNode_body x s =
      (if cw d = RBTree_Col_Black then fixAfterDel (rootp yr) (par_of ?k') ?s3 else Some ?s3)"
    unfolding delNode_body_def n using ne px
    by (simp only: g(1) m y2 if_True simp_thms option.case Let_def) (simp add: par_append)
  note inv = rbtree_zrep [OF ty]
  have i: "invc yr" "invh yr" "cctx ?k'" "bh yr = 0" "hctx ?k' (if d = B then 1 else 0)"
    "d = R \<Longrightarrow> col yr = R \<Longrightarrow> pcol ?k' = B"
    using inv cctx_swap [of kk l x c k y] hctx_swap [of kk l x c k _ y] ty
    by (auto simp: rbtree_plug)
  have "rebalanced ?s3 yr ?k' (delNode_body x s)"
    unfolding f by (rule short_or_done) (use z3 i in auto)
  moreover have o': "inord (plug yr ?k') = befores k @ inord l @ inord r @ afters k"
    using g(2,3) by (simp add: inord_plug befores_append afters_append)
  moreover have "kept (nodes (Nd l x c r) k) s ?s3"
  proof (rule kept_trans)
    show "kept (nodes (Nd l x c r) k) s ?s2"
      by (rule kept_mono [OF conjunct2 [OF u]])
        (auto simp: befores_append afters_append g(2,3) inord_plug)
    show "kept (nodes (Nd l x c r) k) ?s2 ?s3"
      by (rule kept_mono [OF conjunct2 [OF v]]) (auto simp: g(2,3) inord_plug)
  qed
  ultimately show ?thesis by blast
qed

lemma nodes_plug: "nodes t k = set (inord (plug t k))"
  by (auto simp: inord_plug)

lemma remove1_mid: "distinct (xs @ x # ys) \<Longrightarrow> remove1 x (xs @ x # ys) = xs @ ys"
  by (simp add: remove1_append_notin)

lemma RBTree_delNode_rep:
  assumes s: "rep s t" "rbtree t" "lock (tlock s) = 0" and x: "x \<in> set (inord t)" and tree: "tree \<noteq> NULL"
  shows "\<exists>s' t'. RBTree_delNode tree x s = Some s' \<and> rep s' t' \<and> rbtree t' \<and>
    inord t' = remove1 x (inord t) \<and> lock (tlock s') = 0 \<and>
    (\<forall>q. q \<notin> set (inord t) \<longrightarrow> nd s' q = nd s q)"
proof -
  obtain l c r k where t: "t = plug (Nd l x c r) k"
    using in_inord_split [OF x, of "[]"] by auto
  let ?s = "s\<lparr>tlock := (tlock s)\<lparr>lock := 1\<rparr>\<rparr>"
  have z: "zrep ?s (Nd l x c r) k" using s(1) t by (simp add: zrep_plug)
  have i: "inord t = befores k @ inord (Nd l x c r) @ afters k" by (simp add: t inord_plug)
  then have d: "distinct ((befores k @ inord l) @ x # (inord r @ afters k))"
    using s(1) by (simp add: rep_def)
  obtain s3 ch k' where b: "rebalanced s3 ch k' (delNode_body x ?s)"
    "inord (plug ch k') = befores k @ inord l @ inord r @ afters k"
    "kept (nodes (Nd l x c r) k) ?s s3"
  proof (cases "l = Lf \<or> r = Lf")
    case True
    show ?thesis
      by (rule that [OF del_one_child [OF z s(2) [unfolded t] True refl]])
        (use True in \<open>auto simp: inord_plug\<close>)
  next
    case False
    then show ?thesis using del_two_children [OF z s(2) [unfolded t]] that by blast
  qed
  obtain s' t' where f: "delNode_body x ?s = Some s'" "rep s' t'" "rbtree t'"
    "inord t' = inord (plug ch k')" "kept (nodes ch k') s3 s'"
    using b(1) unfolding rebalanced_def by blast
  have "x \<noteq> 0" using z zrep_reads(7) by blast
  then have "RBTree_delNode tree x s = Some (tree_unlock s')"
    using tree s(3) f(1) by (simp add: RBTree_delNode_def tree_lock_free)
  moreover have "inord t' = remove1 x (inord t)"
    using f(4) b(2) i remove1_mid [OF d] by simp
  moreover have "nd s' q = nd s q" if "q \<notin> set (inord t)" for q
  proof -
    have "q \<notin> nodes ch k'" unfolding nodes_plug b(2) using that i by simp
    then have "nd s' q = nd s3 q" using f(5) by (simp add: kept_def)
    also have "\<dots> = nd s q" using b(3) that i by (simp add: kept_def)
    finally show ?thesis .
  qed
  ultimately show ?thesis using f(2,3)
    by (intro exI [of _ "tree_unlock s'"] exI [of _ t']) simp
qed

section \<open>Minimum, maximum and successor\<close>

lemma go_left_min: "zrep s (Nd l x c r) k \<Longrightarrow> go_left s x = Some (hd (inord (Nd l x c r)))"
  using go_left_ok [of s l x c r k] by (metis append_self_conv2 append_Cons append_Nil inord.simps inord_plug list.sel(1))

lemma go_right_max: "zrep s (Nd l x c r) k \<Longrightarrow> go_right s x = Some (last (inord (Nd l x c r)))"
proof (induction r arbitrary: l x c k)
  case Lf
  then show ?case using zrep_reads [OF Lf] by (subst go_right.simps) simp
next
  case (Nd r1 a d r2)
  have z: "zrep s (Nd r1 a d r2) (FR l x c # k)" using Nd.prems by (simp add: zrep_FR)
  have "go_right s x = go_right s a"
    using zrep_reads [OF Nd.prems] zrep_reads [OF z] by (subst go_right.simps) simp
  then show ?case using Nd.IH(2) [OF z] by simp
qed

lemma RBTree_getMin_rep:
  assumes s: "rep s t" "lock (tlock s) = 0" and tree: "tree \<noteq> NULL"
  shows "\<exists>s'. RBTree_getMin tree s = Some (if inord t = [] then NULL else hd (inord t), s') \<and>
    rep s' t \<and> lock (tlock s') = 0 \<and> nd s' = nd s"
proof (cases t)
  case Lf
  then show ?thesis using s by (auto simp: RBTree_getMin_def rep_def)
next
  case (Nd l x c r)
  let ?s = "s\<lparr>tlock := (tlock s)\<lparr>lock := 1\<rparr>\<rparr>"
  have z: "zrep ?s (Nd l x c r) []" using s(1) Nd by (simp flip: rep_zrep)
  then have "root s = x" "x \<noteq> 0" using root_zrep [OF z] zrep_reads(7) [OF z] by simp_all
  then have "RBTree_getMin tree s = Some (hd (inord t), tree_unlock ?s)"
    using go_left_min [OF z] Nd tree s(2) by (simp add: RBTree_getMin_def tree_lock_free)
  then show ?thesis using s(1) Nd by (intro exI [of _ "tree_unlock ?s"]) simp
qed

lemma RBTree_getMax_rep:
  assumes s: "rep s t" "lock (tlock s) = 0" and tree: "tree \<noteq> NULL"
  shows "\<exists>s'. RBTree_getMax tree s = Some (if inord t = [] then NULL else last (inord t), s') \<and>
    rep s' t \<and> lock (tlock s') = 0 \<and> nd s' = nd s"
proof (cases t)
  case Lf
  then show ?thesis using s by (auto simp: RBTree_getMax_def rep_def)
next
  case (Nd l x c r)
  let ?s = "s\<lparr>tlock := (tlock s)\<lparr>lock := 1\<rparr>\<rparr>"
  have z: "zrep ?s (Nd l x c r) []" using s(1) Nd by (simp flip: rep_zrep)
  then have "root s = x" "x \<noteq> 0" using root_zrep [OF z] zrep_reads(7) [OF z] by simp_all
  then have "RBTree_getMax tree s = Some (last (inord t), tree_unlock ?s)"
    using go_right_max [OF z] Nd tree s(2) by (simp add: RBTree_getMax_def tree_lock_free)
  then show ?thesis using s(1) Nd by (intro exI [of _ "tree_unlock ?s"]) simp
qed

lemma RBTree_getNext_right:
  assumes s: "zrep s (Nd l x c r) k" "r \<noteq> Lf" "lock (tlock s) = 0" and tree: "tree \<noteq> NULL"
  shows "\<exists>s'. RBTree_getNext tree x s = Some (hd (inord r), s') \<and> nd s' = nd s \<and> lock (tlock s') = 0"
proof -
  let ?s = "s\<lparr>tlock := (tlock s)\<lparr>lock := 1\<rparr>\<rparr>"
  obtain r1 a d r2 where r: "r = Nd r1 a d r2" using s(2) by (cases r) auto
  have z: "zrep ?s r (FR l x c # k)" "zrep ?s (Nd l x c r) k" using s(1) by (simp_all add: zrep_FR)
  have "root s \<noteq> 0"
    using root_zrep [OF s(1)] zrep_rootp [of s "plug (Nd l x c r) k" "[]"] s(1) plug_Nd
    by (simp add: zrep_plug)
  then have "RBTree_getNext tree x s = Some (hd (inord r), tree_unlock ?s)"
    using go_left_min [OF z(1) [unfolded r]] zrep_reads [OF z(2)] zrep_reads(7) [OF z(1) [unfolded r]] r tree s(3)
    by (simp add: RBTree_getNext_def tree_lock_free)
  then show ?thesis by simp
qed

text \<open>
  A left child without a right child: the loop stops at once and the function returns its
  own argument, although the next node in order is the parent.
\<close>

lemma RBTree_getNext_stuck:
  assumes s: "zrep s (Nd l x c Lf) (FL p d e # k)" "lock (tlock s) = 0" and tree: "tree \<noteq> NULL"
  shows "\<exists>s'. RBTree_getNext tree x s = Some (x, s')"
proof -
  let ?s = "s\<lparr>tlock := (tlock s)\<lparr>lock := 1\<rparr>\<rparr>"
  have z: "zrep ?s (Nd l x c Lf) (FL p d e # k)" using s(1) by simp
  have zp: "zrep ?s (Nd (Nd l x c Lf) p d e) k" using z by (simp add: zrep_FL)
  have "root s \<noteq> 0"
    using root_zrep [OF s(1)] zrep_rootp [of s "plug (Nd l x c Lf) (FL p d e # k)" "[]"] s(1) plug_Nd
    by (simp add: zrep_plug)
  moreover have "climb_right ?s x = Some x"
    using zrep_reads [OF z] zrep_reads [OF zp] zrep_neq(1) [OF s(1) refl]
    by (subst climb_right.simps) simp
  ultimately show ?thesis
    using zrep_reads [OF z] tree s(2) by (simp add: RBTree_getNext_def tree_lock_free)
qed

end
