(* ===== verification/RBTree_Queue.thy ===== *)
theory RBTree_Queue
  imports RBTree_Delete
begin

text \<open>
  The interface of the tree: the locale \<open>ordered_queue\<close> with what the scheduler, the timers
  and the page cache rely on, its interpretation on the functions of \<open>rbtree.c\<close>, and the
  properties of insertion, deletion and the successor function.
\<close>

section \<open>The tree as an ordered queue\<close>

text \<open>
  What the users of the tree (the scheduler, the timers, the page cache) rely on: the
  sequence of the nodes, insertion at the place the comparator gives, deletion of a node,
  and the ends of the sequence.
\<close>

locale ordered_queue =
  fixes ins :: "'p \<Rightarrow> 's \<Rightarrow> 's option"
    and del :: "'p \<Rightarrow> 's \<Rightarrow> 's option"
    and minimum :: "'s \<Rightarrow> ('p \<times> 's) option"
    and seq :: "'s \<Rightarrow> 'p list \<Rightarrow> bool"
    and valid :: "'p \<Rightarrow> bool"
    and less :: "'p \<Rightarrow> 'p \<Rightarrow> bool"
  assumes seq_distinct: "seq s xs \<Longrightarrow> distinct xs"
    and ins_law: "\<lbrakk>seq s xs; valid x; x \<notin> set xs; sorted_wrt (\<lambda>a b. \<not> less b a) xs\<rbrakk> \<Longrightarrow>
      \<exists>s' ys zs. ins x s = Some s' \<and> seq s' (ys @ x # zs) \<and> xs = ys @ zs \<and>
        sorted_wrt (\<lambda>a b. \<not> less b a) (ys @ x # zs)"
    and del_law: "\<lbrakk>seq s xs; x \<in> set xs\<rbrakk> \<Longrightarrow> \<exists>s'. del x s = Some s' \<and> seq s' (remove1 x xs)"
    and min_law: "\<lbrakk>seq s xs; xs \<noteq> []\<rbrakk> \<Longrightarrow> \<exists>s'. minimum s = Some (hd xs, s') \<and> seq s' xs"
begin

abbreviation in_order :: "'p list \<Rightarrow> bool" where
  "in_order xs \<equiv> sorted_wrt (\<lambda>a b. \<not> less b a) xs"

text \<open>Taking the minimum out removes the head of the sequence and keeps the order.\<close>

lemma take_min:
  assumes "seq s (x # xs)" "in_order (x # xs)"
  shows "\<exists>s1 s2. minimum s = Some (x, s1) \<and> del x s1 = Some s2 \<and> seq s2 xs \<and> in_order xs"
proof -
  obtain s1 where s1: "minimum s = Some (x, s1)" "seq s1 (x # xs)"
    using min_law [OF assms(1)] by auto
  with del_law [of s1 "x # xs" x] obtain s2 where "del x s1 = Some s2" "seq s2 xs" by auto
  with s1 assms(2) show ?thesis by auto
qed

text \<open>The minimum precedes nothing else: no element is less than the one handed out.\<close>

lemma min_least:
  assumes "seq s xs" "in_order xs" "minimum s = Some (m, s')" "xs \<noteq> []" "y \<in> set xs" "y \<noteq> m"
  shows "\<not> less y m"
proof -
  have "m = hd xs" using min_law [OF assms(1,4)] assms(3) by auto
  then obtain zs where "xs = m # zs" using assms(4) by (cases xs) auto
  with assms(2,5,6) show ?thesis by auto
qed

lemma ins_then_del:
  assumes "seq s xs" "valid x" "x \<notin> set xs" "in_order xs"
  shows "\<exists>s1 s2. ins x s = Some s1 \<and> del x s1 = Some s2 \<and> seq s2 xs"
proof -
  obtain s1 ys zs where s1: "ins x s = Some s1" "seq s1 (ys @ x # zs)" "xs = ys @ zs"
    using ins_law [OF assms] by blast
  have "x \<notin> set ys" using assms(3) s1(3) by simp
  then have "remove1 x (ys @ x # zs) = xs" by (simp add: remove1_append_notin s1(3))
  with del_law [OF s1(2), of x] s1(1) show ?thesis by auto
qed

text \<open>Inserting one after the other never fails and keeps exactly the inserted elements.\<close>

fun ins_all :: "'p list \<Rightarrow> 's \<Rightarrow> 's option" where
  "ins_all [] s = Some s"
| "ins_all (x # xs) s = (case ins x s of None \<Rightarrow> None | Some s' \<Rightarrow> ins_all xs s')"

lemma ins_all_ok:
  "\<lbrakk>seq s xs; in_order xs; distinct es; set es \<inter> set xs = {}; \<forall>e\<in>set es. valid e\<rbrakk>
    \<Longrightarrow> \<exists>s' ys. ins_all es s = Some s' \<and> seq s' ys \<and> in_order ys \<and> set ys = set es \<union> set xs"
proof (induction es arbitrary: s xs)
  case (Cons e es)
  obtain s1 ys zs where s1: "ins e s = Some s1" "seq s1 (ys @ e # zs)" "xs = ys @ zs" "in_order (ys @ e # zs)"
    using ins_law [of s xs e] Cons.prems by auto
  have "\<exists>s' us. ins_all es s1 = Some s' \<and> seq s' us \<and> in_order us \<and> set us = set es \<union> set (ys @ e # zs)"
    by (rule Cons.IH [OF s1(2,4)]) (use Cons.prems s1(3) in auto)
  with s1(1,3) show ?case by auto
qed auto

end

lemma ins_at_split: "\<exists>ys zs. ins_at cmp x xs = ys @ x # zs \<and> xs = ys @ zs"
  unfolding ins_at_def by (metis takeWhile_dropWhile_id)

lemma tree_ok_ins_frame:
  assumes "tree_ok s xs" "okp x" "x \<notin> set xs" "ordered cmp xs" "weak_order cmp" "tree \<noteq> NULL"
  shows "\<exists>s'. RBTree_insNode cmp tree x s = Some s' \<and> tree_ok s' (ins_at cmp x xs) \<and>
    (\<forall>q. q \<notin> insert x (set xs) \<longrightarrow> nd s' q = nd s q)"
proof -
  obtain t where t: "rep s t" "rbtree t" "inord t = xs" "lock (tlock s) = 0"
    using assms(1) by (auto simp: tree_ok_def)
  have "cmp_mono cmp x (inord t)" using ordered_mono [OF assms(5,4)] t(3) by simp
  from RBTree_insNode_rep [OF t(1,2,4) assms(2) _ assms(6) this] t(3) assms(3)
  obtain s' t' where "RBTree_insNode cmp tree x s = Some s'" "rep s' t'" "rbtree t'"
    "inord t' = ins_at cmp x xs" "lock (tlock s') = 0" "\<forall>q. q \<notin> insert x (set xs) \<longrightarrow> nd s' q = nd s q"
    by blast
  then show ?thesis unfolding tree_ok_def by blast
qed

lemma tree_ok_del_frame:
  assumes "tree_ok s xs" "x \<in> set xs" "tree \<noteq> NULL"
  shows "\<exists>s'. RBTree_delNode tree x s = Some s' \<and> tree_ok s' (remove1 x xs) \<and> (\<forall>q. q \<notin> set xs \<longrightarrow> nd s' q = nd s q)"
proof -
  obtain t where t: "rep s t" "rbtree t" "inord t = xs" "lock (tlock s) = 0"
    using assms(1) by (auto simp: tree_ok_def)
  from RBTree_delNode_rep [OF t(1,2,4) _ assms(3)] t(3) assms(2)
  show ?thesis unfolding tree_ok_def by metis
qed

lemma tree_ok_min_frame:
  assumes "tree_ok s xs" "tree \<noteq> NULL"
  shows "\<exists>s'. RBTree_getMin tree s = Some (if xs = [] then NULL else hd xs, s') \<and> tree_ok s' xs \<and> nd s' = nd s"
proof -
  obtain t where t: "rep s t" "rbtree t" "inord t = xs" "lock (tlock s) = 0"
    using assms(1) by (auto simp: tree_ok_def)
  from RBTree_getMin_rep [OF t(1,4) assms(2)] t show ?thesis unfolding tree_ok_def by metis
qed

lemma tree_ok_max_frame:
  assumes "tree_ok s xs" "tree \<noteq> NULL"
  shows "\<exists>s'. RBTree_getMax tree s = Some (if xs = [] then NULL else last xs, s') \<and> tree_ok s' xs \<and> nd s' = nd s"
proof -
  obtain t where t: "rep s t" "rbtree t" "inord t = xs" "lock (tlock s) = 0"
    using assms(1) by (auto simp: tree_ok_def)
  from RBTree_getMax_rep [OF t(1,4) assms(2)] t show ?thesis unfolding tree_ok_def by metis
qed

lemma tree_ok_ins:
  "\<lbrakk>tree_ok s xs; okp x; x \<notin> set xs; ordered cmp xs; weak_order cmp; tree \<noteq> NULL\<rbrakk>
    \<Longrightarrow> \<exists>s'. RBTree_insNode cmp tree x s = Some s' \<and> tree_ok s' (ins_at cmp x xs)"
  using tree_ok_ins_frame by blast

lemma tree_ok_del:
  "\<lbrakk>tree_ok s xs; x \<in> set xs; tree \<noteq> NULL\<rbrakk> \<Longrightarrow> \<exists>s'. RBTree_delNode tree x s = Some s' \<and> tree_ok s' (remove1 x xs)"
  using tree_ok_del_frame by blast

lemma tree_ok_min:
  "\<lbrakk>tree_ok s xs; tree \<noteq> NULL\<rbrakk>
    \<Longrightarrow> \<exists>s'. RBTree_getMin tree s = Some (if xs = [] then NULL else hd xs, s') \<and> tree_ok s' xs"
  using tree_ok_min_frame by blast

lemma tree_ok_cong:
  assumes "tree_ok s xs" "root s' = root s" "tlock s' = tlock s" "\<forall>q\<in>set xs. nd s' q = nd s q"
  shows "tree_ok s' xs"
proof -
  obtain t where t: "rep s t" "rbtree t" "inord t = xs" "lock (tlock s) = 0" using assms(1) by (auto simp: tree_ok_def)
  have "rep s' t" using t(1,3) assms(2,4) tr_cong [of t "nd s'" "nd s" 0] by (simp add: rep_def)
  then show ?thesis using t assms(3) unfolding tree_ok_def by auto
qed

lemma tree_ok_distinct: "tree_ok s xs \<Longrightarrow> distinct xs"
  by (auto simp: tree_ok_def rep_def)

lemma tree_ok_okp: "tree_ok s xs \<Longrightarrow> x \<in> set xs \<Longrightarrow> okp x"
  by (auto simp: tree_ok_def rep_def dest: tr_okp)

lemma tree_ok_empty: "tree_ok (RBTree_init s) []"
  unfolding tree_ok_def
  by (intro conjI exI [of _ Lf]) (simp_all add: RBTree_init_def SpinLock_init_def rep_def rbtree_def)

text \<open>
  With a comparator on keys, as the macro's users give it, the tree at any non-null
  address is such a queue; the address only serves the test for \<open>NULL\<close>.
\<close>

definition by_key :: "(ptr \<Rightarrow> u64) \<Rightarrow> ptr \<Rightarrow> ptr \<Rightarrow> bool" where
  "by_key key a b \<longleftrightarrow> key a < key b"

lemma weak_order_by_key: "weak_order (by_key key)"
  by (auto simp: weak_order_def by_key_def)

text \<open>For every such comparator the tree is an ordered queue; the users of the tree instantiate this.\<close>

lemma rbtree_queue:
  assumes w: "weak_order cmp" and n: "tree \<noteq> NULL"
  shows "ordered_queue (RBTree_insNode cmp tree) (RBTree_delNode tree) (RBTree_getMin tree) tree_ok okp cmp"
proof unfold_locales
  show "tree_ok s xs \<Longrightarrow> distinct xs" for s xs by (rule tree_ok_distinct)
  show "\<exists>s' ys zs. RBTree_insNode cmp tree x s = Some s' \<and> tree_ok s' (ys @ x # zs) \<and>
      xs = ys @ zs \<and> sorted_wrt (\<lambda>a b. \<not> cmp b a) (ys @ x # zs)"
    if "tree_ok s xs" "okp x" "x \<notin> set xs" "sorted_wrt (\<lambda>a b. \<not> cmp b a) xs" for s xs x
  proof -
    note h = that
    have o: "ordered cmp xs" using h(4) by (simp add: ordered_def)
    obtain s' where s': "RBTree_insNode cmp tree x s = Some s'" "tree_ok s' (ins_at cmp x xs)"
      using tree_ok_ins [OF h(1-3) o w n] by auto
    obtain ys zs where y: "ins_at cmp x xs = ys @ x # zs" "xs = ys @ zs" using ins_at_split by blast
    have "ordered cmp (ys @ x # zs)" using ordered_ins_at [OF w o, of x] y(1) by simp
    with s' y show ?thesis unfolding ordered_def by auto
  qed
  show "\<exists>s'. RBTree_delNode tree x s = Some s' \<and> tree_ok s' (remove1 x xs)" if "tree_ok s xs" "x \<in> set xs" for s xs x
    using tree_ok_del [OF that n] .
  show "\<exists>s'. RBTree_getMin tree s = Some (hd xs, s') \<and> tree_ok s' xs" if "tree_ok s xs" "xs \<noteq> []" for s xs
    using tree_ok_min [OF that(1) n] that(2) by simp
qed

interpretation rbq: ordered_queue
  "RBTree_insNode (by_key key) 8" "RBTree_delNode 8" "RBTree_getMin 8" tree_ok okp "by_key key"
  for key :: "ptr \<Rightarrow> u64"
  by (rule rbtree_queue [OF weak_order_by_key]) simp

section \<open>Properties\<close>

text \<open>A tree of three nodes, on which the properties are applied.\<close>

definition sample_tree :: rbs where
  "sample_tree = \<lparr>root = 32, tlock = \<lparr>lock = 0\<rparr>,
     nd = (\<lambda>_. \<lparr>unionParCol = 0, left = 0, right = 0\<rparr>)
       (16 := mk 32 R 0 0, 32 := mk 0 B 16 48, 48 := mk 32 R 0 0)\<rparr>"

lemma okp_samples: "okp 16" "okp 32" "okp 48" "okp 64"
  by (simp_all add: okp_def al_def)

lemma sample_tree_ok: "tree_ok sample_tree [16, 32, 48]"
  unfolding tree_ok_def
  by (intro conjI exI [of _ "Nd (Nd Lf 16 R Lf) 32 B (Nd Lf 48 R Lf)"])
    (simp_all add: sample_tree_def rep_def rbtree_def okp_samples)

lemma sample_ordered: "ordered (by_key (\<lambda>p. p)) [16, 32, 48]"
  by (simp add: ordered_def by_key_def)

text \<open>
  C1: Inserting a node into a red-black tree (\<open>RBTree_insNode\<close>) returns, with the lock free
  again, a heap that represents a red-black tree whose node sequence is the old one with
  the node put behind everything it does not precede; the sequence stays ordered and no
  memory outside the tree's nodes and the new node is written.
\<close>

theorem RBTree_insNode_correct:
  assumes "tree_ok s xs" "okp x" "x \<notin> set xs" "ordered cmp xs" "weak_order cmp" "tree \<noteq> NULL"
  shows "\<exists>s'. RBTree_insNode cmp tree x s = Some s' \<and> tree_ok s' (ins_at cmp x xs) \<and>
    ordered cmp (ins_at cmp x xs) \<and> (\<forall>q. q \<notin> insert x (set xs) \<longrightarrow> nd s' q = nd s q)"
  using tree_ok_ins_frame [OF assms] ordered_ins_at [OF assms(5,4)] by blast

theorem RBTree_insNode_correct_witness:
  "\<exists>s'. RBTree_insNode (by_key (\<lambda>p. p)) 8 64 sample_tree = Some s' \<and> tree_ok s' [16, 32, 48, 64] \<and>
    nd s' 80 = nd sample_tree 80"
proof -
  have "ins_at (by_key (\<lambda>p. p)) 64 [16, 32, 48] = [16, 32, 48, 64]"
    by (simp add: ins_at_def by_key_def)
  with RBTree_insNode_correct [OF sample_tree_ok okp_samples(4) _ sample_ordered weak_order_by_key, of 8]
  show ?thesis by (simp del: One_nat_def) fastforce
qed

text \<open>
  C2: Deleting a node of a red-black tree (\<open>RBTree_delNode\<close>) returns, with the lock free
  again, a heap that represents a red-black tree whose node sequence is the old one without
  that node; no memory outside the old nodes is written.
\<close>

theorem RBTree_delNode_correct:
  assumes "tree_ok s xs" "x \<in> set xs" "tree \<noteq> NULL"
  shows "\<exists>s'. RBTree_delNode tree x s = Some s' \<and> tree_ok s' (remove1 x xs) \<and>
    (\<forall>q. q \<notin> set xs \<longrightarrow> nd s' q = nd s q)"
  by (rule tree_ok_del_frame [OF assms])

theorem RBTree_delNode_correct_witness:
  "\<exists>s'. RBTree_delNode 8 32 sample_tree = Some s' \<and> tree_ok s' [16, 48]"
  using RBTree_delNode_correct [OF sample_tree_ok, of 32 8] by auto

end
