(* ===== verification/Paging.thy ===== *)
theory Paging
  imports Bits
begin

text \<open>
  Physical memory as quadwords, and the walk of the processor through the four levels of
  page tables (Intel SDM, 4-level paging): what the tables written by \<open>DMAS.c\<close> and
  \<open>pgtable.c\<close> mean.  The walk is the specification against which both are proved.
\<close>

type_synonym pmem = "u64 \<Rightarrow> u64"

text \<open>The number of the entry that level \<open>l\<close> (0 for the tables of 4 KB pages) uses for an address.\<close>

definition pt_index :: "nat \<Rightarrow> u64 \<Rightarrow> u64" where
  "pt_index l v = drop_bit (12 + 9 * l) v AND mask 9"

text \<open>The address field of an entry, and an entry's flags.\<close>

definition hw_addr :: "u64 \<Rightarrow> u64" where
  "hw_addr e = e AND 0x000ffffffffff000"

definition present :: "u64 \<Rightarrow> bool" where "present e \<longleftrightarrow> bit e 0"
definition large :: "u64 \<Rightarrow> bool" where "large e \<longleftrightarrow> bit e 7"

definition entry_at :: "pmem \<Rightarrow> u64 \<Rightarrow> nat \<Rightarrow> u64 \<Rightarrow> u64" where
  "entry_at mem tbl l v = mem (hw_addr tbl + 8 * pt_index l v)"

text \<open>The physical address to which the processor translates \<open>v\<close>; \<open>None\<close> is a page fault.\<close>

definition walk :: "pmem \<Rightarrow> u64 \<Rightarrow> u64 \<Rightarrow> u64 option" where
  "walk mem cr3 v =
    (let e4 = entry_at mem cr3 3 v in
     if \<not> present e4 then None else
     let e3 = entry_at mem e4 2 v in
     if \<not> present e3 then None else
     if large e3 then Some ((hw_addr e3 AND NOT (mask 30)) OR (v AND mask 30)) else
     let e2 = entry_at mem e3 1 v in
     if \<not> present e2 then None else
     if large e2 then Some ((hw_addr e2 AND NOT (mask 21)) OR (v AND mask 21)) else
     let e1 = entry_at mem e2 0 v in
     if \<not> present e1 then None
     else Some (hw_addr e1 OR (v AND mask 12)))"

section \<open>Entries\<close>

definition page_addr :: "u64 \<Rightarrow> bool" where
  "page_addr a \<longleftrightarrow> unat a < 2 ^ 52 \<and> 4096 dvd unat a"

lemma page_addr_bit: "page_addr a \<Longrightarrow> bit a n \<Longrightarrow> 12 \<le> n \<and> n < 52"
proof -
  assume p: "page_addr a" and b: "bit a n"
  have u: "bit (unat a) n" using b by (simp add: bit_unsigned_iff)
  obtain c where "unat a = 4096 * c" using p by (auto simp: page_addr_def)
  then have c: "unat a = push_bit 12 c" by (simp add: push_bit_eq_mult)
  have lo: "12 \<le> n" using u unfolding c by (simp add: bit_push_bit_iff)
  moreover have "n < 52"
  proof (rule ccontr)
    assume "\<not> n < 52"
    then have "(2::nat) ^ 52 \<le> 2 ^ n" by (intro power_increasing) auto
    then have "unat a < 2 ^ n" using p unfolding page_addr_def by linarith
    then show False using u by (simp add: bit_iff_odd)
  qed
  ultimately show ?thesis by simp
qed

lemma mask_addr: "(0x000ffffffffff000 :: u64) = mask 52 AND NOT (mask 12)"
  by (simp add: mask_eq_exp_minus_1)

lemma bit_hw_addr: "bit (hw_addr e) n \<longleftrightarrow> bit e n \<and> 12 \<le> n \<and> n < 52"
  unfolding hw_addr_def mask_addr by (auto simp: bit_simps dest: bit_imp_le_length)

lemma hw_addr_id [simp]: "page_addr a \<Longrightarrow> hw_addr a = a"
  by (rule bit_word_eqI) (auto simp: bit_hw_addr dest: page_addr_bit)

lemma hw_addr_or: "page_addr a \<Longrightarrow> f AND NOT (mask 12) = 0 \<Longrightarrow> hw_addr (a OR f) = a"
proof (rule bit_word_eqI)
  fix n assume p: "page_addr a" and f: "f AND NOT (mask 12) = 0"
  have "\<not> bit f n" if "12 \<le> n"
  proof
    assume b: "bit f n"
    then have "bit (f AND NOT (mask 12)) n"
      using that bit_imp_le_length [OF b] by (simp add: bit_simps)
    then show False unfolding f by simp
  qed
  then show "bit (hw_addr (a OR f)) n = bit a n"
    using page_addr_bit [OF p, of n] by (auto simp: bit_hw_addr bit_simps)
qed

lemma bit_or_page: "page_addr a \<Longrightarrow> n < 12 \<Longrightarrow> bit (a OR f) n = bit f n"
  by (auto simp: bit_simps dest: page_addr_bit)

lemma unat_pt_index: "unat (pt_index l v) = unat v div 2 ^ (12 + 9 * l) mod 512"
  unfolding pt_index_def by (simp add: take_bit_eq_mask [symmetric] unsigned_take_bit_eq take_bit_eq_mod unat_div_pow2 unat_mod)

lemma pt_index_less: "unat (pt_index l v) < 512"
  by (simp add: unat_pt_index)

lemma hw_addr_page: "page_addr (hw_addr e)"
proof -
  have "hw_addr e = push_bit 12 (drop_bit 12 (hw_addr e))"
    by (rule bit_word_eqI) (auto simp: bit_simps bit_hw_addr)
  have *: "take_bit 12 (hw_addr e) = 0"
    by (rule bit_word_eqI) (auto simp: bit_simps bit_hw_addr)
  have "unat (hw_addr e) mod 2 ^ 12 = unat (take_bit 12 (hw_addr e))"
    by (simp add: take_bit_eq_mod unat_mod)
  then have "unat (hw_addr e) mod 2 ^ 12 = 0" unfolding * by simp
  then have d: "4096 dvd unat (hw_addr e)" by (simp add: mod_0_imp_dvd)
  have **: "take_bit 52 (hw_addr e) = hw_addr e"
    by (rule bit_word_eqI) (auto simp: bit_simps bit_hw_addr)
  have "unat (take_bit 52 (hw_addr e)) < 2 ^ 52"
    using take_bit_nat_less_exp [of 52 "unat (hw_addr e)"] by (simp add: unsigned_take_bit_eq)
  then show ?thesis using d unfolding ** page_addr_def by simp
qed

section \<open>Arrays of quadwords\<close>

definition write_array :: "u64 \<Rightarrow> (nat \<Rightarrow> u64) \<Rightarrow> nat list \<Rightarrow> pmem \<Rightarrow> pmem" where
  "write_array b f is mem = foldl (\<lambda>mem i. mem(b + 8 * of_nat i := f i)) mem is"

lemma write_array_other:
  "(\<forall>i\<in>set is. a \<noteq> b + 8 * of_nat i) \<Longrightarrow> write_array b f is mem a = mem a"
  by (induction "is" arbitrary: mem) (auto simp: write_array_def)

lemma slot_eq:
  "i < 2 ^ 61 \<Longrightarrow> j < 2 ^ 61 \<Longrightarrow> b + 8 * of_nat i = b + (8 * of_nat j :: u64) \<longleftrightarrow> i = j"
proof -
  assume b: "i < 2 ^ 61" "j < 2 ^ 61"
  have "unat (8 * of_nat i :: u64) = 8 * i" "unat (8 * of_nat j :: u64) = 8 * j"
    using b by (simp_all add: unat_mult_less unat_of_nat)
  then show ?thesis by (metis add_left_cancel mult_cancel1 zero_neq_numeral)
qed

lemma write_array_hit:
  "distinct is \<Longrightarrow> j \<in> set is \<Longrightarrow> \<forall>i\<in>set is. i < 2 ^ 61 \<Longrightarrow>
    write_array b f is mem (b + 8 * of_nat j) = f j"
proof (induction "is" arbitrary: mem)
  case (Cons i "is")
  have step: "write_array b f (i # is) mem = write_array b f is (mem(b + 8 * of_nat i := f i))"
    by (simp add: write_array_def)
  show ?case
  proof (cases "j = i")
    case True
    have "\<forall>k\<in>set is. b + 8 * of_nat j \<noteq> b + 8 * of_nat k"
    proof
      fix k assume k: "k \<in> set is"
      then have "j \<noteq> k" "j < 2 ^ 61" "k < 2 ^ 61" using Cons.prems True by auto
      then show "b + 8 * of_nat j \<noteq> b + 8 * of_nat k" using slot_eq [of j k b] by blast
    qed
    then show ?thesis unfolding step using True by (simp add: write_array_other)
  next
    case False
    then show ?thesis unfolding step using Cons by simp
  qed
qed simp

end
