(* ===== verification/MemDesc.thy ===== *)
theory MemDesc
  imports Paging
begin

text \<open>
  \<open>src/kernel/memory/desc.h\<close>, \<open>DMAS.h\<close>, \<open>DMAS.c\<close> and \<open>initmm.c\<close>: page sizes and alignment,
  the descriptors of pages and zones, the direct mapping area, the construction of the
  zone array from the firmware's memory map, and the bump allocator used before the buddy
  system runs.  The page array of a zone is a function, so that an index past its length
  is a write outside it, as in the code.  The places where the code stops in
  \<open>while (1) IO_hlt()\<close> or reads in front of the array are \<open>None\<close>.
\<close>

section \<open>Sizes, alignment, flags\<close>

definition Page_4KShift :: nat where "Page_4KShift = 12"
definition Page_2MShift :: nat where "Page_2MShift = 21"
definition Page_1GShift :: nat where "Page_1GShift = 30"

definition Page_4KSize :: u64 where "Page_4KSize = push_bit Page_4KShift 1"
definition Page_2MSize :: u64 where "Page_2MSize = push_bit Page_2MShift 1"
definition Page_1GSize :: u64 where "Page_1GSize = push_bit Page_1GShift 1"

definition Page_4KMask :: u64 where "Page_4KMask = Page_4KSize - 1"
definition Page_2MMask :: u64 where "Page_2MMask = Page_2MSize - 1"
definition Page_1GMask :: u64 where "Page_1GMask = Page_1GSize - 1"

definition Page_4KDownAlign :: "u64 \<Rightarrow> u64" where "Page_4KDownAlign a = a AND NOT Page_4KMask"
definition Page_2MDownAlign :: "u64 \<Rightarrow> u64" where "Page_2MDownAlign a = a AND NOT Page_2MMask"
definition Page_1GDownAlign :: "u64 \<Rightarrow> u64" where "Page_1GDownAlign a = a AND NOT Page_1GMask"
definition Page_4KUpAlign :: "u64 \<Rightarrow> u64" where "Page_4KUpAlign a = (a + Page_4KMask) AND NOT Page_4KMask"
definition Page_2MUpAlign :: "u64 \<Rightarrow> u64" where "Page_2MUpAlign a = (a + Page_2MMask) AND NOT Page_2MMask"
definition Page_1GUpAlign :: "u64 \<Rightarrow> u64" where "Page_1GUpAlign a = (a + Page_1GMask) AND NOT Page_1GMask"

definition Page_Flag_Kernel :: u64 where "Page_Flag_Kernel = push_bit 0 1"
definition Page_Flag_KernelInit :: u64 where "Page_Flag_KernelInit = push_bit 1 1"
definition Page_Flag_Active :: u64 where "Page_Flag_Active = push_bit 2 1"
definition Page_Flag_ShareK2U :: u64 where "Page_Flag_ShareK2U = push_bit 3 1"
definition Page_Flag_BuddyHeadPage :: u64 where "Page_Flag_BuddyHeadPage = push_bit 4 1"
definition Page_Flag_KernelShare :: u64 where "Page_Flag_KernelShare = push_bit 5 1"
definition Page_Flag_MMU :: u64 where "Page_Flag_MMU = push_bit 6 1"

definition userAddrStart :: u64 where "userAddrStart = 0x0000000000000000"
definition userAddrEd :: u64 where "userAddrEd = 0x00007fffffffffff"
definition kernelAddrStart :: u64 where "kernelAddrStart = 0xffff800000000000"
definition Init_virtAddrStart :: u64 where "Init_virtAddrStart = 0xffff800000000000"

lemmas page_consts = Page_4KShift_def Page_2MShift_def Page_1GShift_def
  Page_4KSize_def Page_2MSize_def Page_1GSize_def
  Page_4KMask_def Page_2MMask_def Page_1GMask_def

lemmas page_flags = Page_Flag_Kernel_def Page_Flag_KernelInit_def Page_Flag_Active_def
  Page_Flag_ShareK2U_def Page_Flag_BuddyHeadPage_def Page_Flag_KernelShare_def Page_Flag_MMU_def

section \<open>The direct mapping area\<close>

definition DMAS_virtAddrStart :: u64 where "DMAS_virtAddrStart = 0xffff880000000000"
definition DMAS_virtAddrEnd :: u64 where "DMAS_virtAddrEnd = 0xffffC80000000000"
definition DMAS_physAddrStart :: u64 where "DMAS_physAddrStart = 0x0000000000000000"
definition DMAS_physAddrEnd :: u64 where "DMAS_physAddrEnd = 0x0000400000000000"
definition DMAS_size :: u64 where "DMAS_size = 0x0000400000000000"

definition DMAS_virt2Phys :: "u64 \<Rightarrow> u64" where
  "DMAS_virt2Phys virtAddr = virtAddr - DMAS_virtAddrStart + DMAS_physAddrStart"

definition DMAS_phys2Virt :: "u64 \<Rightarrow> u64" where
  "DMAS_phys2Virt physAddr = physAddr - DMAS_physAddrStart + DMAS_virtAddrStart"

lemma DMAS_inverse [simp]:
  "DMAS_virt2Phys (DMAS_phys2Virt p) = p" "DMAS_phys2Virt (DMAS_virt2Phys v) = v"
  by (simp_all add: DMAS_virt2Phys_def DMAS_phys2Virt_def)

lemma DMAS_phys2Virt_eq [simp]: "DMAS_phys2Virt p = DMAS_phys2Virt q \<longleftrightarrow> p = q"
  by (metis DMAS_inverse(1))

lemma DMAS_add: "DMAS_phys2Virt (p + d) = DMAS_phys2Virt p + d"
  by (simp add: DMAS_phys2Virt_def)

section \<open>Descriptors\<close>

text \<open>The links of a page (\<open>listEle\<close>) are in the lists of the theories that use them.\<close>

record Page =
  phyAddr :: u64
  attr :: u16
  buddyId :: u16

record Zone =
  phyAddrSt :: u64
  phyAddrEd :: u64
  pagesAt :: u64
  pages :: "nat \<Rightarrow> Page"
  pagesLength :: u64
  attribute :: u64
  freeCnt :: u64
  usingCnt :: u64

record E820 =
  addr :: u64
  esize :: u64
  etype :: u32

record GlobalMemManageStruct =
  e820 :: "nat \<Rightarrow> E820"
  e820Length :: nat
  zones :: "Zone list"
  zonesAt :: u64
  zonesLength :: nat
  edOfStruct :: u64
  totMemSize :: u64

definition sizeof_Page :: u64 where "sizeof_Page = 32"
definition sizeof_Zone :: u64 where "sizeof_Zone = 56"

definition availVirtAddrSt :: "GlobalMemManageStruct \<Rightarrow> u64" where
  "availVirtAddrSt M = Page_4KUpAlign (edOfStruct M)"

definition availPhysSt :: "GlobalMemManageStruct \<Rightarrow> u64" where
  "availPhysSt M = availVirtAddrSt M - Init_virtAddrStart"

definition e820_st :: "E820 \<Rightarrow> u64" where
  "e820_st e = Page_4KUpAlign (addr e)"

definition e820_ed :: "E820 \<Rightarrow> u64" where
  "e820_ed e = Page_4KDownAlign (addr e + esize e)"

section \<open>Building the zone array\<close>

text \<open>The first loop of \<open>_initArray\<close>: kernel zone, last entry of type 1, number of zones.\<close>

definition initArray_scan :: "GlobalMemManageStruct \<Rightarrow> int \<times> nat \<times> nat \<Rightarrow> nat \<Rightarrow> int \<times> nat \<times> nat" where
  "initArray_scan M = (\<lambda>(kernelZoneId, lstType1, n) i.
     let e = e820 M i; st = e820_st e; ed = e820_ed e in
     if etype e \<noteq> 1 then (kernelZoneId, lstType1, n)
     else if ed \<le> st then (kernelZoneId, lstType1, n)
     else (if st \<le> 0x100000 \<and> availPhysSt M < ed then int i else kernelZoneId, i, n + 1))"

definition initArray_count :: "GlobalMemManageStruct \<Rightarrow> int \<times> nat \<times> nat" where
  "initArray_count M = foldl (initArray_scan M) (- 1, 0, 0) [0..<Suc (e820Length M)]"

text \<open>The entry in which the zone array is built, and the physical address where it starts.\<close>

definition initArray_place :: "GlobalMemManageStruct \<Rightarrow> nat \<Rightarrow> u64 \<Rightarrow> (nat \<times> u64) option" where
  "initArray_place M kz reqSize =
    (let st = (\<lambda>i. Page_4KUpAlign (if i = kz then availPhysSt M else addr (e820 M i)))
     in map_option (\<lambda>i. (i, st i))
          (List.find (\<lambda>i. etype (e820 M i) = 1 \<and> st i + reqSize < e820_ed (e820 M i))
            [kz..<Suc (e820Length M)]))"

definition zero_zone :: Zone where
  "zero_zone = \<lparr>phyAddrSt = 0, phyAddrEd = 0, pagesAt = 0,
     pages = (\<lambda>_. \<lparr>phyAddr = 0, attr = 0, buddyId = 0\<rparr>),
     pagesLength = 0, attribute = 0, freeCnt = 0, usingCnt = 0\<rparr>"

definition initArray_zone :: "GlobalMemManageStruct \<Rightarrow> nat \<Rightarrow> nat \<Rightarrow> u64 \<Rightarrow> nat \<Rightarrow> Zone" where
  "initArray_zone M kz i reqSize j =
    (let e = e820 M j;
         z = zero_zone\<lparr>phyAddrSt := e820_st e, phyAddrEd := e820_ed e, attribute := e820_st e\<rparr>;
         z = (if j < kz then z\<lparr>attribute := phyAddrEd z\<rparr>
              else if j = kz then z\<lparr>attribute := Page_4KUpAlign (availPhysSt M)\<rparr> else z)
     in if j = i then z\<lparr>attribute := attribute z + reqSize\<rparr> else z)"

text \<open>
  The loop that fills the array takes every entry of type 1; the loop that counted them
  left out those without a whole page.
\<close>

definition initArray_zones :: "GlobalMemManageStruct \<Rightarrow> nat \<Rightarrow> nat \<Rightarrow> u64 \<Rightarrow> Zone list" where
  "initArray_zones M kz i reqSize =
    map (initArray_zone M kz i reqSize)
      (filter (\<lambda>j. etype (e820 M j) = 1) [0..<Suc (e820Length M)])"

text \<open>The page array of one zone; \<open>None\<close> when it does not fit and the kernel halts.\<close>

definition initArray_pages :: "Zone \<Rightarrow> Zone option" where
  "initArray_pages z =
    (if attribute z = phyAddrEd z then Some (z\<lparr>pagesAt := 0\<rparr>)
     else
       let reqSize = (phyAddrEd z - phyAddrSt z) div Page_4KSize * sizeof_Page in
       if attribute z + reqSize \<ge> phyAddrEd z then None
       else
         let z = z\<lparr>pagesAt := DMAS_phys2Virt (attribute z),
                   pagesLength := (phyAddrEd z - phyAddrSt z) div Page_4KSize\<rparr>;
             z = z\<lparr>attribute := Page_4KUpAlign (attribute z + reqSize)\<rparr>;
             z = z\<lparr>freeCnt := (phyAddrEd z - attribute z) div Page_4KSize,
                   usingCnt := (attribute z - phyAddrSt z) div Page_4KSize\<rparr>
         in Some (z\<lparr>pages := (\<lambda>j. if j < unat (pagesLength z)
               then (pages z j)\<lparr>phyAddr := phyAddrSt z + push_bit Page_4KShift (of_nat j),
                                attr := ucast (Page_Flag_Kernel OR Page_Flag_KernelInit)\<rparr>
               else pages z j)\<rparr>))"

fun all_some :: "'a option list \<Rightarrow> 'a list option" where
  "all_some [] = Some []"
| "all_some (x # xs) =
    (case x of None \<Rightarrow> None | Some a \<Rightarrow> map_option ((#) a) (all_some xs))"

definition initArray :: "GlobalMemManageStruct \<Rightarrow> GlobalMemManageStruct option" where
  "initArray M =
    (let (kernelZoneId, lstType1, n) = initArray_count M;
         M = M\<lparr>zonesLength := n,
               totMemSize := addr (e820 M lstType1) + esize (e820 M lstType1)\<rparr>;
         reqSize = upAlignTo (sizeof_Zone * of_nat n) Page_4KSize
     in if kernelZoneId < 0 then None
        else let kz = nat kernelZoneId in
          case initArray_place M kz reqSize of None \<Rightarrow> None
          | Some (i, at) \<Rightarrow>
            let zs = initArray_zones M kz i reqSize in
            map_option (\<lambda>zs'. M\<lparr>zonesAt := DMAS_phys2Virt at, zones := zs' @ drop n zs\<rparr>)
              (all_some (map initArray_pages (take n zs))))"

section \<open>The memory map of the firmware\<close>

record EFI_E820MemoryDescriptor =
  address :: u64
  elength :: u64
  mtype :: u32

text \<open>
  The copying loop of \<open>MM_init\<close>.  It advances its pointer before it tests for a bad entry,
  so the test is on the following one, which for the last entry lies behind the array.
\<close>

fun MM_init_copy :: "nat \<Rightarrow> nat \<Rightarrow> (nat \<Rightarrow> EFI_E820MemoryDescriptor) \<Rightarrow> GlobalMemManageStruct \<Rightarrow>
    GlobalMemManageStruct" where
  "MM_init_copy 0 i p M = M"
| "MM_init_copy (Suc n) i p M =
    (let M = M\<lparr>e820 := (e820 M)(i := \<lparr>addr = address (p i), esize = elength (p i), etype = mtype (p i)\<rparr>),
               e820Length := i\<rparr>
     in if mtype (p (i + 1)) > 4 \<or> elength (p (i + 1)) = 0 \<or> mtype (p (i + 1)) < 1 then M
        else MM_init_copy n (i + 1) p M)"

definition MM_init_e820 :: "nat \<Rightarrow> (nat \<Rightarrow> EFI_E820MemoryDescriptor) \<Rightarrow> u64 \<Rightarrow>
    GlobalMemManageStruct \<Rightarrow> GlobalMemManageStruct" where
  "MM_init_e820 entryCount p endOfKernel M =
    (MM_init_copy entryCount 0 p M)\<lparr>edOfStruct := Page_4KUpAlign endOfKernel\<rparr>"

section \<open>The boot allocator\<close>

definition MM_Bs_setPageAttr :: "Page \<Rightarrow> u64 \<Rightarrow> Page" where
  "MM_Bs_setPageAttr page a = page\<lparr>attr := ucast a\<rparr>"

definition MM_Bs_getPageAttr :: "Page \<Rightarrow> u64" where
  "MM_Bs_getPageAttr page = ucast (attr page)"

definition Bs_take :: "u64 \<Rightarrow> u64 \<Rightarrow> Zone \<Rightarrow> Zone" where
  "Bs_take num a z =
    (let st = unat (usingCnt z);
         z = z\<lparr>usingCnt := usingCnt z + num\<rparr>
     in z\<lparr>pages := (\<lambda>j. if st \<le> j \<and> j < st + unat num
            then MM_Bs_setPageAttr (pages z j) a else pages z j)\<rparr>)"

text \<open>A page pointer is the number of its zone and its index in the zone's page array.\<close>

fun Bs_alloc_from :: "u64 \<Rightarrow> u64 \<Rightarrow> nat \<Rightarrow> Zone list \<Rightarrow> ((nat \<times> nat) \<times> Zone list) option" where
  "Bs_alloc_from num a i [] = None"
| "Bs_alloc_from num a i (z # zs) =
    (if freeCnt z < num
     then map_option (\<lambda>(r, zs'). (r, z # zs')) (Bs_alloc_from num a (i + 1) zs)
     else Some ((i, unat (usingCnt z)), Bs_take num a z # zs))"

definition MM_Bs_alloc :: "u64 \<Rightarrow> u64 \<Rightarrow> GlobalMemManageStruct \<Rightarrow>
    (nat \<times> nat) option \<times> GlobalMemManageStruct" where
  "MM_Bs_alloc num a M =
    (case Bs_alloc_from num a 0 (take (zonesLength M) (zones M)) of
       None \<Rightarrow> (None, M)
     | Some (r, zs) \<Rightarrow> (Some r, M\<lparr>zones := zs @ drop (zonesLength M) (zones M)\<rparr>))"

section \<open>The page tables of the direct mapping area\<close>

text \<open>
  \<open>DMAS_init\<close> writes one array of 1 GB entries behind the kernel and hooks its pages into
  the top-level table from entry 272 on.  It writes through the boot mapping of the
  kernel, which takes \<open>Init_virtAddrStart + p\<close> to \<open>p\<close>, and at the end through the
  new mapping; the state is the physical memory.
\<close>

definition Init_virt2Phys :: "u64 \<Rightarrow> u64" where
  "Init_virt2Phys v = v - Init_virtAddrStart"

definition DMAS_pudEntryCnt :: "GlobalMemManageStruct \<Rightarrow> u64" where
  "DMAS_pudEntryCnt M =
    (let e = e820 M (e820Length M); phyAddrEnd = addr e + esize e
     in max_u64 16 (drop_bit Page_1GShift (Page_1GUpAlign phyAddrEnd)))"

definition DMAS_bsSize :: "GlobalMemManageStruct \<Rightarrow> u64" where
  "DMAS_bsSize M = push_bit 30 1 * DMAS_pudEntryCnt M"

definition DMAS_write_pud :: "u64 \<Rightarrow> nat \<Rightarrow> pmem \<Rightarrow> pmem" where
  "DMAS_write_pud ptStart n mem =
    write_array (Init_virt2Phys ptStart)
      (\<lambda>i. (DMAS_physAddrStart + of_nat i * Page_1GSize) OR 0x87) [0..<n] mem"

definition DMAS_write_pgd :: "u64 \<Rightarrow> u64 \<Rightarrow> nat \<Rightarrow> pmem \<Rightarrow> pmem" where
  "DMAS_write_pgd pgd ptStart pudCnt mem =
    write_array (Init_virt2Phys pgd)
      (\<lambda>i. ((ptStart + (of_nat i - 256 - 16) * Page_4KSize) - Init_virtAddrStart) OR 0x07)
      [256 + 16..<256 + 16 + pudCnt] mem"

definition DMAS_init :: "u64 \<Rightarrow> GlobalMemManageStruct \<Rightarrow> pmem \<Rightarrow> GlobalMemManageStruct \<times> pmem" where
  "DMAS_init cr3 M mem =
    (let pudEntryCnt = DMAS_pudEntryCnt M;
         pudCnt = (pudEntryCnt + 511) div 512;
         ptSize = pudCnt * Page_4KSize;
         ptStart = Page_4KUpAlign (edOfStruct M);
         mem = DMAS_write_pud ptStart (unat (upAlignTo pudEntryCnt 512)) mem;
         M = M\<lparr>edOfStruct := Page_4KUpAlign (ptStart + ptSize)\<rparr>;
         pgd = cr3 + Init_virtAddrStart;
         mem = DMAS_write_pgd pgd ptStart (unat pudCnt) mem;
         ptStart = DMAS_phys2Virt 0x103000;
         mem = write_array (DMAS_virt2Phys ptStart) (\<lambda>i. 0) [24..<512] mem
     in (M, mem))"

section \<open>Alignment\<close>

lemma page_values [simp]:
  "Page_4KSize = 4096" "Page_4KMask = mask 12" "Page_2MMask = mask 21" "Page_1GMask = mask 30"
  "Page_2MSize = 2097152" "Page_1GSize = 1073741824"
  by (simp_all add: page_consts mask_eq_exp_minus_1 push_bit_eq_mult)

lemma and_not_mask: "(a :: 'a::len word) AND NOT (mask n) = push_bit n (drop_bit n a)"
  by (rule bit_word_eqI) (auto simp: bit_simps)

lemma unat_and_not_mask:
  "unat ((a :: 'a::len word) AND NOT (mask n)) = unat a div 2 ^ n * 2 ^ n"
proof -
  have le: "unat a div 2 ^ n * 2 ^ n \<le> unat a" by (rule div_times_less_eq_dividend)
  then have "unat a div 2 ^ n * 2 ^ n < 2 ^ LENGTH('a)"
    using unsigned_less [of a] by (rule le_less_trans)
  then have "push_bit n (unat a div 2 ^ n) < 2 ^ LENGTH('a)"
    by (simp add: push_bit_eq_mult)
  then have "unat (push_bit n (drop_bit n a)) = push_bit n (unat a div 2 ^ n)"
    by (simp add: unsigned_push_bit_eq unat_div_pow2 take_bit_nat_eq_self)
  then show ?thesis
    unfolding and_not_mask by (simp add: push_bit_eq_mult)
qed

lemma unat_4KDown: "unat (Page_4KDownAlign a) = unat a div 4096 * 4096"
  unfolding Page_4KDownAlign_def page_values by (simp add: unat_and_not_mask)

lemma unat_1GDown: "unat (Page_1GDownAlign a) = unat a div 1073741824 * 1073741824"
  unfolding Page_1GDownAlign_def page_values by (simp add: unat_and_not_mask)

lemma unat_mask12: "unat (mask 12 :: u64) = 4095"
  by (simp add: mask_eq_exp_minus_1)

lemma unat_4KUp: "unat a + 4095 < 2 ^ 64 \<Longrightarrow> unat (Page_4KUpAlign a) = (unat a + 4095) div 4096 * 4096"
  unfolding Page_4KUpAlign_def page_values by (simp add: unat_and_not_mask unat_plus_less unat_mask12)

lemma unat_1GUp:
  "unat a + 1073741823 < 2 ^ 64 \<Longrightarrow>
    unat (Page_1GUpAlign a) = (unat a + 1073741823) div 1073741824 * 1073741824"
  unfolding Page_1GUpAlign_def page_values
  by (simp add: unat_and_not_mask unat_plus_less) (simp add: mask_eq_exp_minus_1 unat_plus_less)

lemma dvd_4KUp: "4096 dvd unat (Page_4KUpAlign a)"
  unfolding Page_4KUpAlign_def page_values by (simp add: unat_and_not_mask)

lemma dvd_4KDown: "4096 dvd unat (Page_4KDownAlign a)"
  by (simp add: unat_4KDown)

lemma le_4KUp: "unat a + 4095 < 2 ^ 64 \<Longrightarrow> a \<le> Page_4KUpAlign a"
  using unat_4KUp [of a] ceil_mult [of 4096 "unat a"] by (simp add: word_le_nat_alt)

lemma up_4K_less: "unat a + 4095 < 2 ^ 64 \<Longrightarrow> unat (Page_4KUpAlign a) < unat a + 4096"
  using unat_4KUp [of a] div_times_less_eq_dividend [of "unat a + 4095" 4096] by linarith

section \<open>The page arrays of the zones\<close>

text \<open>
  A zone that has its page array: the counts cover the zone, the array describes its pages
  in order, and the array itself lies in the pages that count as used.
\<close>

definition zone_ok :: "Zone \<Rightarrow> bool" where
  "zone_ok z \<longleftrightarrow>
     unat (usingCnt z) + unat (freeCnt z) = unat (pagesLength z) \<and>
     unat (phyAddrEd z) = unat (phyAddrSt z) + 4096 * unat (pagesLength z) \<and>
     (\<forall>j<unat (pagesLength z). unat (phyAddr (pages z j)) = unat (phyAddrSt z) + 4096 * j) \<and>
     unat (DMAS_virt2Phys (pagesAt z)) + 32 * unat (pagesLength z) \<le>
       unat (phyAddrSt z) + 4096 * unat (usingCnt z) \<and>
     unat (phyAddrSt z) \<le> unat (DMAS_virt2Phys (pagesAt z))"

lemma initArray_pages_ok:
  assumes r: "initArray_pages z = Some z'" and ne: "attribute z \<noteq> phyAddrEd z"
    and a: "4096 dvd unat (phyAddrSt z)" "4096 dvd unat (phyAddrEd z)" "4096 dvd unat (attribute z)"
    and o: "phyAddrSt z \<le> attribute z" "attribute z < phyAddrEd z"
    and b: "unat (phyAddrEd z) + 4096 < 2 ^ 63"
  shows "zone_ok z'"
proof -
  let ?st = "unat (phyAddrSt z)" and ?ed = "unat (phyAddrEd z)" and ?at = "unat (attribute z)"
  have o': "?st \<le> ?at" "?at < ?ed" using o by (simp_all add: word_le_nat_alt word_less_nat_alt)
  define n where "n = (?ed - ?st) div 4096"
  have ed: "?ed = ?st + 4096 * n"
    using a(1,2) o' unfolding n_def by (simp add: dvd_diff_nat)
  define req where "req = (phyAddrEd z - phyAddrSt z) div Page_4KSize * sizeof_Page"
  have len: "unat ((phyAddrEd z - phyAddrSt z) div Page_4KSize) = n"
    using o' by (simp add: unat_div unat_minus_le word_le_nat_alt n_def)
  have req: "unat req = 32 * n"
  proof -
    have "n * 32 < 2 ^ 64" using b ed by simp
    then show ?thesis unfolding req_def sizeof_Page_def using len by (subst unat_mult_less) simp_all
  qed
  have fit: "\<not> attribute z + req \<ge> phyAddrEd z"
    using r ne by (auto simp: initArray_pages_def req_def Let_def split: if_splits)
  have sum: "unat (attribute z + req) = ?at + 32 * n"
    using b o' ed req by (subst unat_plus_less) simp_all
  then have less: "?at + 32 * n < ?ed" using fit by (simp add: word_le_nat_alt)
  define at' where "at' = Page_4KUpAlign (attribute z + req)"
  have up: "unat at' = (?at + 32 * n + 4095) div 4096 * 4096"
    unfolding at'_def using sum b less by (subst unat_4KUp) simp_all
  have ge: "?at + 32 * n \<le> unat at'"
    unfolding up using ceil_mult [of 4096 "?at + 32 * n"] by simp
  have le: "unat at' \<le> ?ed"
  proof -
    obtain e where e: "?ed = 4096 * e" using a(2) by blast
    have "(?at + 32 * n + 4095) div 4096 \<le> e" using less e by linarith
    then show ?thesis unfolding up e by simp
  qed
  obtain u where u: "unat at' = ?st + 4096 * u"
  proof -
    have "4096 dvd unat at' - ?st" using a(1) unfolding up by (intro dvd_diff_nat) simp_all
    then obtain u where "unat at' - ?st = 4096 * u" by blast
    moreover have "?st \<le> unat at'" using ge o' by linarith
    ultimately have "unat at' = ?st + 4096 * u" by linarith
    then show ?thesis by (rule that)
  qed
  let ?z = "z\<lparr>pagesAt := DMAS_phys2Virt (attribute z),
      pagesLength := (phyAddrEd z - phyAddrSt z) div Page_4KSize, attribute := at',
      freeCnt := (phyAddrEd z - at') div Page_4KSize, usingCnt := (at' - phyAddrSt z) div Page_4KSize,
      pages := (\<lambda>j. if j < n
        then (pages z j)\<lparr>phyAddr := phyAddrSt z + push_bit Page_4KShift (of_nat j),
                         attr := ucast (Page_Flag_Kernel OR Page_Flag_KernelInit)\<rparr>
        else pages z j)\<rparr>"
  have "initArray_pages z = Some ?z"
    unfolding initArray_pages_def Let_def req_def [symmetric] at'_def
    using ne fit len by (simp cong: if_cong)
  with r have z': "z' = ?z" by simp
  have free: "unat (freeCnt z') = n - u" and used: "unat (usingCnt z') = u"
    using le u ed ge o' by (simp_all add: z' unat_div unat_minus_le word_le_nat_alt)
  have un: "u \<le> n" using le u ed by linarith
  have ph: "unat (phyAddrSt z + push_bit Page_4KShift (of_nat j)) = ?st + 4096 * j" if "j < n" for j
  proof -
    have "unat (of_nat j * 4096 :: u64) = j * 4096"
    proof -
      have "unat (of_nat j :: u64) = j" using that b ed by (simp add: unat_of_nat)
      then show ?thesis using that b ed by (subst unat_mult_less) simp_all
    qed
    then show ?thesis using that b ed
      by (simp add: page_consts push_bit_eq_mult) (subst unat_plus_less; simp)
  qed
  show ?thesis
    unfolding zone_ok_def
  proof (intro conjI allI impI)
    show "unat (usingCnt z') + unat (freeCnt z') = unat (pagesLength z')"
      using free used un len by (simp add: z')
    show "unat (phyAddrEd z') = unat (phyAddrSt z') + 4096 * unat (pagesLength z')"
      using ed len by (simp add: z')
    show "unat (phyAddr (pages z' j)) = unat (phyAddrSt z') + 4096 * j" if "j < unat (pagesLength z')" for j
      using that len ph by (simp add: z')
    show "unat (DMAS_virt2Phys (pagesAt z')) + 32 * unat (pagesLength z') \<le>
        unat (phyAddrSt z') + 4096 * unat (usingCnt z')"
      unfolding used using ge u len by (simp add: z')
    show "unat (phyAddrSt z') \<le> unat (DMAS_virt2Phys (pagesAt z'))"
      using o' by (simp add: z')
  qed
qed

text \<open>What the counting loop finds.\<close>

definition usable :: "GlobalMemManageStruct \<Rightarrow> nat \<Rightarrow> bool" where
  "usable M i \<longleftrightarrow> etype (e820 M i) = 1 \<and> e820_st (e820 M i) < e820_ed (e820 M i)"

lemma initArray_scan_usable:
  "usable M i \<Longrightarrow> initArray_scan M (k, l, n) i =
     (if e820_st (e820 M i) \<le> 0x100000 \<and> availPhysSt M < e820_ed (e820 M i) then int i else k, i, n + 1)"
  "\<not> usable M i \<Longrightarrow> initArray_scan M (k, l, n) i = (k, l, n)"
  by (auto simp: initArray_scan_def usable_def Let_def)

lemma initArray_count_gen:
  "foldl (initArray_scan M) (- 1, 0, 0) [0..<m] = (k, l, n) \<Longrightarrow>
    n = length (filter (usable M) [0..<m]) \<and>
    (0 \<le> k \<longrightarrow> nat k < m \<and> usable M (nat k) \<and> e820_st (e820 M (nat k)) \<le> 0x100000 \<and>
       availPhysSt M < e820_ed (e820 M (nat k)))"
proof (induction m arbitrary: k l n)
  case (Suc m)
  obtain k' l' n' where p: "foldl (initArray_scan M) (- 1, 0, 0) [0..<m] = (k', l', n')"
    by (metis prod_cases3)
  note ih = Suc.IH [OF p]
  have "initArray_scan M (k', l', n') m = (k, l, n)" using Suc.prems p by simp
  then show ?case using ih
    by (cases "usable M m") (auto simp: initArray_scan_usable split: if_splits)
qed simp

lemma initArray_count_spec:
  assumes "initArray_count M = (k, l, n)"
  shows "n = length (filter (usable M) [0..<Suc (e820Length M)])"
    and "0 \<le> k \<Longrightarrow> nat k \<le> e820Length M \<and> usable M (nat k) \<and>
      e820_st (e820 M (nat k)) \<le> 0x100000 \<and> availPhysSt M < e820_ed (e820 M (nat k))"
  using initArray_count_gen [of M "Suc (e820Length M)" k l n] assms
  unfolding initArray_count_def by auto

lemma all_some_Some:
  "all_some xs = Some ys \<longleftrightarrow> length xs = length ys \<and> (\<forall>i<length xs. xs ! i = Some (ys ! i))"
proof (induction xs arbitrary: ys)
  case (Cons x xs)
  show ?case
  proof
    assume "all_some (x # xs) = Some ys"
    then obtain a zs where "x = Some a" "all_some xs = Some zs" "ys = a # zs"
      by (auto split: option.splits)
    with Cons.IH [of zs] show "length (x # xs) = length ys \<and> (\<forall>i<length (x # xs). (x # xs) ! i = Some (ys ! i))"
      by (auto simp: nth_Cons split: nat.split)
  next
    assume r: "length (x # xs) = length ys \<and> (\<forall>i<length (x # xs). (x # xs) ! i = Some (ys ! i))"
    then obtain b zs where "ys = b # zs" by (cases ys) auto
    with r have "x = Some b" "length xs = length zs" "\<forall>i<length xs. xs ! i = Some (zs ! i)"
      by (auto dest: spec [of _ "Suc _"])
    with Cons.IH [of zs] \<open>ys = b # zs\<close> show "all_some (x # xs) = Some ys" by simp
  qed
qed auto

text \<open>A memory map whose usable entries do not wrap around and hold at least one page.\<close>

definition sane_map :: "GlobalMemManageStruct \<Rightarrow> bool" where
  "sane_map M \<longleftrightarrow> e820Length M < 32 \<and> 0x100000 \<le> availPhysSt M \<and>
     unat (availPhysSt M) + 4095 < 2 ^ 64 \<and>
     (\<forall>i\<le>e820Length M. etype (e820 M i) = 1 \<longrightarrow>
        e820_st (e820 M i) < e820_ed (e820 M i) \<and> unat (e820_ed (e820 M i)) + 4096 < 2 ^ 63)"

lemma dvd_add_word:
  assumes "d dvd unat (a :: u64)" "d dvd unat b" "unat a + unat b < 2 ^ 64"
  shows "d dvd unat (a + b)"
  using assms by (subst unat_plus_less) simp_all

lemma availPhys_dvd: "4096 dvd unat (availPhysSt M)"
proof -
  have "availPhysSt M = Page_4KUpAlign (edOfStruct M) + 0x0000800000000000"
    by (simp add: availPhysSt_def availVirtAddrSt_def Init_virtAddrStart_def)
  moreover have "(4096 :: nat) dvd 2 ^ 64" by simp
  ultimately show ?thesis
    using dvd_4KUp [of "edOfStruct M"]
    by (simp add: unat_word_ariths dvd_mod)
qed

lemma availPhys_fix: "unat (availPhysSt M) + 4095 < 2 ^ 64 \<Longrightarrow> Page_4KUpAlign (availPhysSt M) = availPhysSt M"
proof -
  assume b: "unat (availPhysSt M) + 4095 < 2 ^ 64"
  obtain c where c: "unat (availPhysSt M) = 4096 * c" using availPhys_dvd by blast
  have "unat (Page_4KUpAlign (availPhysSt M)) = unat (availPhysSt M)"
    unfolding unat_4KUp [OF b] c by simp
  then show ?thesis by (simp add: word_unat_eq_iff)
qed

lemma reqSize_dvd: "n < 64 \<Longrightarrow> 4096 dvd unat (upAlignTo (sizeof_Zone * of_nat n) Page_4KSize)"
proof -
  assume n: "n < 64"
  then have "unat (of_nat n :: u64) = n" by (simp add: unat_of_nat)
  then have "unat (sizeof_Zone * of_nat n) = 56 * n"
    unfolding sizeof_Zone_def using n by (subst unat_mult_less) simp_all
  then show ?thesis using upAlignTo_spec [of Page_4KSize "sizeof_Zone * of_nat n"] n by simp
qed

lemma initArray_place_spec:
  assumes "initArray_place M kz reqSize = Some (i, at)"
  shows "i \<le> e820Length M" "kz \<le> i" "etype (e820 M i) = 1"
    "at = Page_4KUpAlign (if i = kz then availPhysSt M else addr (e820 M i))"
    "at + reqSize < e820_ed (e820 M i)"
  using assms by (auto simp: initArray_place_def Let_def find_Some_iff simp del: upt_Suc)

lemma zone_step_ok:
  assumes M: "sane_map M" and j: "j \<le> e820Length M" "etype (e820 M j) = 1"
    and kz: "kz \<le> e820Length M" "e820_st (e820 M kz) \<le> 0x100000" "availPhysSt M < e820_ed (e820 M kz)"
    and p: "initArray_place M kz reqSize = Some (i, at)" and rq: "4096 dvd unat reqSize"
    and rs: "unat reqSize < 2 ^ 32"
    and r: "initArray_pages (initArray_zone M kz i reqSize j) = Some z"
  shows "if j < kz then pagesLength z = 0 \<and> pagesAt z = 0 else zone_ok z"
proof -
  note pl = initArray_place_spec [OF p]
  let ?z = "initArray_zone M kz i reqSize j"
  have m: "e820_st (e820 M j) < e820_ed (e820 M j)" "unat (e820_ed (e820 M j)) + 4096 < 2 ^ 63"
    "0x100000 \<le> availPhysSt M" "unat (availPhysSt M) + 4095 < 2 ^ 64"
    using M j by (auto simp: sane_map_def)
  show ?thesis
  proof (cases "j < kz")
    case True
    then have "attribute ?z = phyAddrEd ?z" "pagesLength ?z = 0"
      using pl(2) by (auto simp: initArray_zone_def Let_def zero_zone_def)
    with r True show ?thesis by (auto simp: initArray_pages_def)
  next
    case False
    have ends: "phyAddrSt ?z = e820_st (e820 M j)" "phyAddrEd ?z = e820_ed (e820 M j)"
      by (auto simp: initArray_zone_def Let_def)
    define base where "base = (if j = kz then availPhysSt M else e820_st (e820 M j))"
    have at: "attribute ?z = (if j = i then base + reqSize else base)"
      using False availPhys_fix [OF m(4)] by (auto simp: initArray_zone_def Let_def base_def)
    have base: "e820_st (e820 M j) \<le> base" "base < e820_ed (e820 M j)" "4096 dvd unat base"
      using m kz availPhys_dvd [of M] dvd_4KUp [of "addr (e820 M j)"]
      by (auto simp: base_def e820_st_def)
    have fit: "base + reqSize < e820_ed (e820 M j)" if "j = i"
      using pl(4,5) that availPhys_fix [OF m(4)] by (auto simp: base_def e820_st_def split: if_splits)
    have nw: "unat base + unat reqSize < 2 ^ 64"
      using base(2) m(2) rs by (simp add: word_less_nat_alt)
    have attr: "phyAddrSt ?z \<le> attribute ?z" "attribute ?z < phyAddrEd ?z" "4096 dvd unat (attribute ?z)"
      unfolding ends at using base fit nw rq
      by (auto simp: word_le_nat_alt word_less_nat_alt unat_plus_less)
    have "zone_ok z"
    proof (rule initArray_pages_ok [OF r])
      show "attribute ?z \<noteq> phyAddrEd ?z" using attr(2) by auto
      show "4096 dvd unat (phyAddrSt ?z)" "4096 dvd unat (phyAddrEd ?z)"
        unfolding ends by (simp_all add: e820_st_def e820_ed_def dvd_4KUp dvd_4KDown del: page_values)
      show "unat (phyAddrEd ?z) + 4096 < 2 ^ 63" using m(2) ends by simp
    qed (use attr in auto)
    with False show ?thesis by simp
  qed
qed

lemma initArray_ok:
  assumes r: "initArray M = Some M'" and M: "sane_map M"
  shows "length (zones M') = zonesLength M' \<and>
    (\<forall>z\<in>set (zones M'). zone_ok z \<or> (pagesLength z = 0 \<and> pagesAt z = 0))"
proof -
  obtain k l n where c: "initArray_count M = (k, l, n)" by (metis prod_cases3)
  let ?M = "M\<lparr>zonesLength := n, totMemSize := addr (e820 M l) + esize (e820 M l)\<rparr>"
  let ?rq = "upAlignTo (sizeof_Zone * of_nat n) Page_4KSize"
  have k: "0 \<le> k" using r c by (auto simp: initArray_def Let_def split: if_splits)
  note sp = initArray_count_spec [OF c] 
  have same: "availPhysSt ?M = availPhysSt M" "e820 ?M = e820 M" "e820Length ?M = e820Length M"
    by (simp_all add: availPhysSt_def availVirtAddrSt_def)
  have n: "n = length (filter (\<lambda>j. etype (e820 M j) = 1) [0..<Suc (e820Length M)])"
    unfolding sp(1) using M
    by (intro arg_cong [of _ _ length] filter_cong) (auto simp: usable_def sane_map_def)
  have n32: "n \<le> 32"
    using n length_filter_le [of "\<lambda>j. etype (e820 M j) = 1" "[0..<Suc (e820Length M)]"] M
    by (simp add: sane_map_def)
  define zs where "zs i = initArray_zones ?M (nat k) i ?rq" for i
  obtain i at zs' where p: "initArray_place ?M (nat k) ?rq = Some (i, at)"
    and a: "all_some (map initArray_pages (take n (zs i))) = Some zs'"
    and M': "M' = ?M\<lparr>zonesAt := DMAS_phys2Virt at, zones := zs' @ drop n (zs i)\<rparr>"
    using r c k unfolding initArray_def Let_def zs_def by (auto split: option.splits)
  have len: "length (zs i) = n" unfolding zs_def initArray_zones_def same n by (simp del: upt_Suc)
  then have zz: "zones M' = zs'" "length zs' = n"
    using a M' by (simp_all add: all_some_Some)
  have rq: "4096 dvd unat ?rq" using reqSize_dvd n32 by simp
  have rs: "unat ?rq < 2 ^ 32"
  proof -
    have "unat (of_nat n :: u64) = n" using n32 by (simp add: unat_of_nat)
    then have "unat (sizeof_Zone * of_nat n) = 56 * n"
      unfolding sizeof_Zone_def using n32 by (subst unat_mult_less) simp_all
    then show ?thesis using upAlignTo_spec [of Page_4KSize "sizeof_Zone * of_nat n"] n32 by simp
  qed
  have "zone_ok z \<or> (pagesLength z = 0 \<and> pagesAt z = 0)" if "z \<in> set zs'" for z
  proof -
    obtain m where m: "m < n" "z = zs' ! m" using \<open>z \<in> set zs'\<close> zz(2) by (auto simp: in_set_conv_nth)
    let ?js = "filter (\<lambda>j. etype (e820 ?M j) = 1) [0..<Suc (e820Length ?M)]"
    have "initArray_pages (zs i ! m) = Some z"
      using a m len by (simp add: all_some_Some)
    moreover have "zs i ! m = initArray_zone ?M (nat k) i ?rq (?js ! m)"
      unfolding zs_def initArray_zones_def using m(1) len
      by (intro nth_map) (simp add: zs_def initArray_zones_def del: upt_Suc)
    ultimately have "initArray_pages (initArray_zone ?M (nat k) i ?rq (?js ! m)) = Some z" by simp
    moreover have "?js ! m \<in> set ?js"
      using m(1) len by (intro nth_mem) (simp add: zs_def initArray_zones_def del: upt_Suc)
    then have "?js ! m \<le> e820Length ?M" "etype (e820 ?M (?js ! m)) = 1" by (auto simp del: upt_Suc)
    moreover have "sane_map ?M" using M by (simp add: sane_map_def same)
    ultimately show ?thesis
      using zone_step_ok [of ?M "?js ! m" "nat k" ?rq i at z] p rq rs sp(2) [OF k]
      by (auto simp: same split: if_splits)
  qed
  with zz M' show ?thesis by auto
qed

section \<open>What the tables of the direct mapping area mean\<close>

text \<open>The layout the boot code provides: the tables lie above the boot tables, apart from the top-level table.\<close>

definition DMAS_tables :: "GlobalMemManageStruct \<Rightarrow> u64" where
  "DMAS_tables M = Init_virt2Phys (Page_4KUpAlign (edOfStruct M))"

definition DMAS_layout :: "u64 \<Rightarrow> GlobalMemManageStruct \<Rightarrow> bool" where
  "DMAS_layout cr3 M \<longleftrightarrow>
     unat (DMAS_pudEntryCnt M) \<le> 65536 \<and> page_addr cr3 \<and> cr3 \<noteq> 0x103000 \<and>
     0x104000 \<le> unat (DMAS_tables M) \<and> unat (DMAS_tables M) + 4096 * 128 < 2 ^ 52 \<and>
     (unat cr3 + 4096 \<le> unat (DMAS_tables M) \<or> unat (DMAS_tables M) + 4096 * 128 \<le> unat cr3)"

lemma DMAS_tables_dvd: "4096 dvd unat (DMAS_tables M)"
proof -
  have "DMAS_tables M = Page_4KUpAlign (edOfStruct M) + 0x0000800000000000"
    by (simp add: DMAS_tables_def Init_virt2Phys_def Init_virtAddrStart_def)
  moreover have "(4096 :: nat) dvd 2 ^ 64" by simp
  ultimately show ?thesis
    using dvd_4KUp [of "edOfStruct M"] by (simp add: unat_word_ariths dvd_mod)
qed

lemma unat_DMAS: "unat p < 2 ^ 46 \<Longrightarrow> unat (DMAS_phys2Virt p) = unat p + 0xffff880000000000"
  unfolding DMAS_phys2Virt_def DMAS_physAddrStart_def DMAS_virtAddrStart_def
  by (simp add: unat_plus_less)

lemma DMAS_index3:
  assumes "unat p < 2 ^ 46"
  shows "unat (pt_index 3 (DMAS_phys2Virt p)) = 272 + unat p div 2 ^ 39"
proof -
  have "unat (pt_index 3 (DMAS_phys2Virt p)) = (unat p + 33554192 * 2 ^ 39) div 2 ^ 39 mod 512"
    unfolding unat_pt_index unat_DMAS [OF assms] by simp
  also have "(unat p + 33554192 * 2 ^ 39) div 2 ^ 39 = 33554192 + unat p div 2 ^ 39"
    by (rule div_mult_self1) simp
  also have "33554192 + unat p div 2 ^ 39 = (272 + unat p div 2 ^ 39) + 65535 * 512" by simp
  also have "((272 + unat p div 2 ^ 39) + 65535 * 512) mod 512 = (272 + unat p div 2 ^ 39) mod 512"
    by (rule mod_mult_self1)
  also have "272 + unat p div 2 ^ 39 < 512" using assms by simp
  then have "(272 + unat p div 2 ^ 39) mod 512 = 272 + unat p div 2 ^ 39" by (rule mod_less)
  finally show ?thesis .
qed

lemma DMAS_index2:
  assumes "unat p < 2 ^ 46"
  shows "unat (pt_index 2 (DMAS_phys2Virt p)) = unat p div 2 ^ 30 mod 512"
proof -
  have "unat (pt_index 2 (DMAS_phys2Virt p)) = (unat p + 17179746304 * 2 ^ 30) div 2 ^ 30 mod 512"
    unfolding unat_pt_index unat_DMAS [OF assms] by simp
  also have "(unat p + 17179746304 * 2 ^ 30) div 2 ^ 30 = 17179746304 + unat p div 2 ^ 30"
    by (rule div_mult_self1) simp
  also have "17179746304 + unat p div 2 ^ 30 = unat p div 2 ^ 30 + 33554192 * 512" by simp
  also have "(unat p div 2 ^ 30 + 33554192 * 512) mod 512 = unat p div 2 ^ 30 mod 512"
    by (rule mod_mult_self1)
  finally show ?thesis .
qed

lemma unat_and_mask: "unat ((a :: 'a::len word) AND mask n) = unat a mod 2 ^ n"
  by (simp add: take_bit_eq_mask [symmetric] unsigned_take_bit_eq) (simp add: take_bit_eq_mod)

lemma DMAS_low30:
  assumes "unat p < 2 ^ 46" shows "DMAS_phys2Virt p AND mask 30 = p AND mask 30"
proof -
  have "unat (DMAS_phys2Virt p AND mask 30) = (unat p + 17179746304 * 2 ^ 30) mod 2 ^ 30"
    unfolding unat_and_mask unat_DMAS [OF assms] by simp
  also have "\<dots> = unat p mod 2 ^ 30" by (rule mod_mult_self1)
  finally show ?thesis by (simp add: word_unat_eq_iff unat_and_mask)
qed

lemma write_array_page:
  assumes "b \<le> a" "unat a < unat b + 8 * n" "8 dvd unat a" "8 dvd unat b" 
    "unat b + 8 * n < 2 ^ 64" "is = [0..<n]"
  shows "write_array b f is mem a = f ((unat a - unat b) div 8)"
proof -
  let ?j = "(unat a - unat b) div 8"
  have le: "unat b \<le> unat a" using assms(1) by (simp add: word_le_nat_alt)
  have d: "unat a - unat b = 8 * ?j" using assms(3,4) by (simp add: dvd_diff_nat)
  have j: "?j < n" using d assms(2) le by linarith
  have "unat (8 * of_nat ?j :: u64) = 8 * ?j"
    using j assms(5) by (simp add: unat_mult_less unat_of_nat)
  then have "unat (b + 8 * of_nat ?j) = unat a"
    using d le unat_u64_less [of a] by (subst unat_plus_less) simp_all
  then have "a = b + 8 * of_nat ?j" by (simp add: word_unat_eq_iff)
  then have "write_array b f is mem a = write_array b f is mem (b + 8 * of_nat ?j)" by simp
  also have "\<dots> = f ?j"
  proof (rule write_array_hit)
    have "i < 2 ^ 61" if "i < n" for i using that assms(5) by simp
    then show "\<forall>i\<in>set is. i < 2 ^ 61" using assms(6) by simp
  qed (use j assms(6) in auto)
  finally show ?thesis .
qed

lemma write_array_outside:
  assumes "unat a < unat b \<or> unat b + 8 * n \<le> unat a" "unat b + 8 * n < 2 ^ 64" "set is \<subseteq> {..<n}"
  shows "write_array b f is mem a = mem a"
proof (rule write_array_other, intro ballI)
  fix i assume "i \<in> set is"
  then have i: "i < n" using assms(3) by auto
  have "unat (8 * of_nat i :: u64) = 8 * i"
    using i assms(2) by (simp add: unat_mult_less unat_of_nat)
  then have "unat (b + 8 * of_nat i) = unat b + 8 * i"
    using i assms(2) by (subst unat_plus_less) simp_all
  then show "a \<noteq> b + 8 * of_nat i" using i assms(1) by auto
qed

lemma page_addrI: "unat a = 4096 * k \<Longrightarrow> k < 2 ^ 40 \<Longrightarrow> page_addr a"
  by (simp add: page_addr_def)

lemma DMAS_cnt:
  assumes "unat (DMAS_pudEntryCnt M) \<le> 65536"
  shows "16 \<le> unat (DMAS_pudEntryCnt M)"
    "unat ((DMAS_pudEntryCnt M + 511) div 512) = (unat (DMAS_pudEntryCnt M) + 511) div 512"
    "unat (upAlignTo (DMAS_pudEntryCnt M) 512) = 512 * ((unat (DMAS_pudEntryCnt M) + 511) div 512)"
proof -
  show "16 \<le> unat (DMAS_pudEntryCnt M)"
    by (simp add: DMAS_pudEntryCnt_def Let_def max_u64_def word_le_nat_alt word_less_nat_alt)
  show "unat ((DMAS_pudEntryCnt M + 511) div 512) = (unat (DMAS_pudEntryCnt M) + 511) div 512"
    using assms by (simp add: unat_div unat_plus_less)
  show "unat (upAlignTo (DMAS_pudEntryCnt M) 512) = 512 * ((unat (DMAS_pudEntryCnt M) + 511) div 512)"
    using assms unfolding upAlignTo_def
    by (simp add: unat_div unat_plus_less unat_minus_le unat_mult_less word_le_nat_alt)
qed

text \<open>The theorem on the tables.\<close>

lemma DMAS_init_mem:
  "snd (DMAS_init cr3 M mem) =
    write_array 0x103000 (\<lambda>i. 0) [24..<512]
      (write_array cr3 (\<lambda>i. (DMAS_tables M + (of_nat i - 272) * 4096) OR 0x07)
        [272..<272 + unat ((DMAS_pudEntryCnt M + 511) div 512)]
        (write_array (DMAS_tables M) (\<lambda>i. (of_nat i * 0x40000000) OR 0x87)
          [0..<unat (upAlignTo (DMAS_pudEntryCnt M) 512)] mem))"
proof -
  have "((Page_4KUpAlign (edOfStruct M) + (of_nat i - 256 - 16) * 4096) - Init_virtAddrStart) OR 0x07 =
      (DMAS_tables M + (of_nat i - 272) * 4096) OR 0x07" for i
    by (simp add: DMAS_tables_def Init_virt2Phys_def algebra_simps)
  then show ?thesis
    by (simp add: DMAS_init_def Let_def DMAS_write_pud_def DMAS_write_pgd_def DMAS_physAddrStart_def
        Init_virt2Phys_def DMAS_tables_def)
qed

lemma low_flags: "(0x07 :: u64) AND NOT (mask 12) = 0" "(0x87 :: u64) AND NOT (mask 12) = 0"
  by (simp_all add: mask_eq_exp_minus_1)

text \<open>
  C3: After \<open>DMAS_init\<close> has written its tables (with the boot layout: tables above the
  boot tables, at most 64 TB), the processor translates the address \<open>DMAS_phys2Virt p\<close> to
  \<open>p\<close>, for every physical address below the size the kernel records in \<open>MM_DMAS_bsSize\<close>.
\<close>

theorem DMAS_init_walks:
  assumes L: "DMAS_layout cr3 M" and p: "unat p < unat (DMAS_bsSize M)"
  shows "walk (snd (DMAS_init cr3 M mem)) cr3 (DMAS_phys2Virt p) = Some p"
proof -
  let ?P = "unat (DMAS_tables M)" and ?n = "unat (DMAS_pudEntryCnt M)" and ?c = "unat cr3"
  define v where "v = DMAS_phys2Virt p"
  define mem' where "mem' = snd (DMAS_init cr3 M mem)"
  have l: "?n \<le> 65536" "page_addr cr3" "cr3 \<noteq> 0x103000" "0x104000 \<le> ?P" "?P + 4096 * 128 < 2 ^ 52"
      "?c + 4096 \<le> ?P \<or> ?P + 4096 * 128 \<le> ?c"
    using L by (simp_all add: DMAS_layout_def)
  note cnt = DMAS_cnt [OF l(1)]
  define k where "k = (?n + 511) div 512"
  have k: "k \<le> 128" "?n \<le> 512 * k" using l(1) by (simp_all add: k_def)
  have bs: "unat (DMAS_bsSize M) = 2 ^ 30 * ?n"
    using l(1) unfolding DMAS_bsSize_def by (simp add: push_bit_eq_mult unat_mult_less)
  have p46: "unat p < 2 ^ 46" using p l(1) unfolding bs by simp
  define i where "i = unat p div 2 ^ 39"
  define j where "j = unat p div 2 ^ 30"
  have jn: "j < 512 * k" using p bs k(2) unfolding j_def by (simp add: div_less_iff_less_mult)
  have ij: "i = j div 512" by (simp add: i_def j_def div_mult2_eq [symmetric])
  have ik: "i < k" using jn unfolding ij by (simp add: div_less_iff_less_mult)
  have i3: "unat (pt_index 3 v) = 272 + i" unfolding v_def i_def by (rule DMAS_index3 [OF p46])
  have i2: "unat (pt_index 2 v) = j mod 512" unfolding v_def j_def by (rule DMAS_index2 [OF p46])
  have c: "?c < 2 ^ 52" "4096 dvd ?c" using l(2) by (simp_all add: page_addr_def)
  have c103: "?c + 4096 \<le> 0x103000 \<or> 0x104000 \<le> ?c"
  proof -
    obtain x where x: "?c = 4096 * x" using c(2) by blast
    have "?c \<noteq> unat (0x103000 :: u64)" using l(3) unfolding word_unat_eq_iff .
    then have "?c \<noteq> 0x103000" by simp
    then have "x < 259 \<or> 259 < x" using x by auto
    then show ?thesis using x by auto
  qed
  have Pd: "8 dvd ?P" using DMAS_tables_dvd [of M] by (rule dvd_trans [rotated]) simp
  have ev: "unat (8 * pt_index l v) = 8 * unat (pt_index l v)" for l
    using pt_index_less [of l v] by (simp add: unat_mult_less)
  have e4: "entry_at mem' cr3 3 v = (DMAS_tables M + of_nat i * 4096) OR 0x07"
  proof -
    have ix: "pt_index 3 v = of_nat (272 + i)"
      using ik k(1) unfolding word_unat_eq_iff i3 unat_of_nat by simp
    have a: "unat (cr3 + 8 * pt_index 3 v) = ?c + 8 * (272 + i)"
      using c ik k(1) i3 by (simp add: unat_plus_less ev)
    have "entry_at mem' cr3 3 v = write_array cr3 (\<lambda>i. (DMAS_tables M + (of_nat i - 272) * 4096) OR 0x07)
        [272..<272 + k] (write_array (DMAS_tables M) (\<lambda>i. (of_nat i * 0x40000000) OR 0x87)
          [0..<512 * k] mem) (cr3 + 8 * pt_index 3 v)"
      unfolding mem'_def DMAS_init_mem entry_at_def cnt(2,3) k_def [symmetric] hw_addr_id [OF l(2)]
    proof (rule write_array_outside [where n = 512])
      show "unat (cr3 + 8 * pt_index 3 v) < unat (0x103000 :: u64) \<or>
          unat (0x103000 :: u64) + 8 * 512 \<le> unat (cr3 + 8 * pt_index 3 v)"
        unfolding a using c103 ik k(1) by auto
    qed auto
    also have "\<dots> = (DMAS_tables M + (of_nat (272 + i) - 272) * 4096) OR 0x07"
      unfolding ix by (rule write_array_hit) (use ik k(1) in auto)
    finally show ?thesis by (simp add: algebra_simps)
  qed
  have i4096: "unat (of_nat i * 4096 :: u64) = 4096 * i"
    using ik k(1) by (simp add: unat_mult_less unat_of_nat)
  then have t: "unat (DMAS_tables M + of_nat i * 4096) = ?P + 4096 * i"
    using l(5) ik k(1) by (simp add: unat_plus_less)
  have pt: "page_addr (DMAS_tables M + of_nat i * 4096)"
    using l(5) ik k(1) DMAS_tables_dvd [of M] unfolding page_addr_def t by auto
  have j_split: "4096 * i + 8 * (j mod 512) = 8 * j"
    using mult_div_mod_eq [of 512 j] unfolding ij by linarith
  have a2: "unat (DMAS_tables M + of_nat i * 4096 + 8 * pt_index 2 v) = ?P + 8 * j"
    using t j_split l(5) jn k(1) i2 by (subst unat_plus_less) (simp_all add: ev)
  have e3: "entry_at mem' (entry_at mem' cr3 3 v) 2 v = (of_nat j * 0x40000000) OR 0x87"
  proof -
    let ?a = "DMAS_tables M + of_nat i * 4096 + 8 * pt_index 2 v"
    have "entry_at mem' (entry_at mem' cr3 3 v) 2 v = mem' ?a"
      unfolding entry_at_def [of _ "entry_at mem' cr3 3 v"] unfolding e4 hw_addr_or [OF pt low_flags(1)] ..
    also have "\<dots> = write_array cr3 (\<lambda>i. (DMAS_tables M + (of_nat i - 272) * 4096) OR 0x07)
        [272..<272 + k] (write_array (DMAS_tables M) (\<lambda>i. (of_nat i * 0x40000000) OR 0x87)
          [0..<512 * k] mem) ?a"
      unfolding mem'_def DMAS_init_mem cnt(2,3) k_def [symmetric]
      by (rule write_array_outside [where n = 512]) (use a2 l(4) in auto)
    also have "\<dots> = write_array (DMAS_tables M) (\<lambda>i. (of_nat i * 0x40000000) OR 0x87) [0..<512 * k] mem ?a"
      by (rule write_array_outside [where n = 512]) (use a2 l(6) jn k(1) c in auto)
    also have "\<dots> = (of_nat ((unat ?a - ?P) div 8) * 0x40000000) OR 0x87"
    proof (rule write_array_page)
      show "DMAS_tables M \<le> ?a" unfolding word_le_nat_alt a2 by simp
      show "unat ?a < ?P + 8 * (512 * k)" unfolding a2 using jn by simp
      show "8 dvd unat ?a" "8 dvd ?P" unfolding a2 using Pd by simp_all
      show "?P + 8 * (512 * k) < 2 ^ 64" using l(5) k(1) by simp
    qed simp
    finally show ?thesis unfolding a2 by simp
  qed
  have j46: "j < 2 ^ 16" using jn k(1) by simp
  have uj: "unat (of_nat j * 0x40000000 :: u64) = j * 2 ^ 30"
    using j46 by (simp add: unat_mult_less unat_of_nat)
  have pj: "page_addr (of_nat j * 0x40000000)"
    unfolding page_addr_def uj using j46 by auto
  have b: "of_nat j * 0x40000000 = p AND NOT (mask 30)"
    unfolding word_unat_eq_iff uj unat_and_not_mask by (simp add: j_def)
  have "walk mem' cr3 v = Some (((of_nat j * 0x40000000) AND NOT (mask 30)) OR (v AND mask 30))"
    unfolding walk_def Let_def e3
    by (simp add: e4 present_def large_def bit_or_page [OF pt] bit_or_page [OF pj]
        hw_addr_or [OF pj low_flags(2)])
  also have "((of_nat j * 0x40000000) AND NOT (mask 30)) OR (v AND mask 30) = p"
    unfolding b v_def DMAS_low30 [OF p46] by (rule bit_word_eqI) (auto simp: bit_simps dest: bit_imp_le_length)
  finally show ?thesis by (simp add: v_def mem'_def)
qed

definition sample_memory :: GlobalMemManageStruct where
  "sample_memory =
    \<lparr>e820 = (\<lambda>i. if i = 0 then \<lparr>addr = 0, esize = 0x9f000, etype = 1\<rparr>
               else if i = 1 then \<lparr>addr = 0x100000, esize = 0x3ff00000, etype = 1\<rparr>
               else \<lparr>addr = 0x40000000, esize = 0x1000, etype = 2\<rparr>),
     e820Length = 2, zones = [], zonesAt = 0, zonesLength = 0,
     edOfStruct = 0xffff800000200000, totMemSize = 0\<rparr>"

theorem DMAS_init_walks_witness:
  "walk (snd (DMAS_init 0x101000 sample_memory (\<lambda>_. 0))) 0x101000 (DMAS_phys2Virt 0x12345678) = Some 0x12345678"
proof -
  have st: "Page_4KUpAlign (edOfStruct sample_memory) = 0xffff800000200000"
    by (simp add: sample_memory_def Page_4KUpAlign_def mask_eq_exp_minus_1)
  have t: "DMAS_tables sample_memory = 0x200000"
    unfolding DMAS_tables_def st by (simp add: Init_virt2Phys_def Init_virtAddrStart_def)
  have c: "DMAS_pudEntryCnt sample_memory = 16"
    by (simp add: DMAS_pudEntryCnt_def sample_memory_def Page_1GUpAlign_def mask_eq_exp_minus_1
        Page_1GShift_def max_u64_def drop_bit_eq_div)
  have "DMAS_layout 0x101000 sample_memory"
    by (simp add: DMAS_layout_def t c page_addr_def)
  moreover have "unat (0x12345678 :: u64) < unat (DMAS_bsSize sample_memory)"
    by (simp add: DMAS_bsSize_def c push_bit_eq_mult)
  ultimately show ?thesis by (rule DMAS_init_walks)
qed

section \<open>What the boot allocator returns\<close>

lemma Bs_alloc_from_spec:
  "Bs_alloc_from num a i zs = Some (r, zs') \<Longrightarrow>
     \<exists>k<length zs. r = (i + k, unat (usingCnt (zs ! k))) \<and> num \<le> freeCnt (zs ! k) \<and>
       (\<forall>j<k. freeCnt (zs ! j) < num) \<and> zs' = zs[k := Bs_take num a (zs ! k)]"
proof (induction zs arbitrary: i zs')
  case (Cons z zs)
  show ?case
  proof (cases "freeCnt z < num")
    case True
    with Cons.prems obtain zs'' where r: "Bs_alloc_from num a (i + 1) zs = Some (r, zs'')" "zs' = z # zs''"
      by auto
    from Cons.IH [OF r(1)] obtain k where "k < length zs" "r = (i + 1 + k, unat (usingCnt (zs ! k)))"
      "num \<le> freeCnt (zs ! k)" "\<forall>j<k. freeCnt (zs ! j) < num" "zs'' = zs[k := Bs_take num a (zs ! k)]"
      by blast
    then show ?thesis using True r(2)
      by (intro exI [of _ "Suc k"]) (auto simp: nth_Cons split: nat.split)
  next
    case False
    then show ?thesis using Cons.prems by (intro exI [of _ 0]) auto
  qed
qed simp

lemma Bs_alloc_from_None:
  "Bs_alloc_from num a i zs = None \<longleftrightarrow> (\<forall>z\<in>set zs. freeCnt z < num)"
  by (induction zs arbitrary: i) auto

lemma Bs_take_simps [simp]:
  "usingCnt (Bs_take num a z) = usingCnt z + num" "freeCnt (Bs_take num a z) = freeCnt z"
  "pagesLength (Bs_take num a z) = pagesLength z"
  by (simp_all add: Bs_take_def Let_def)

lemma MM_Bs_alloc_Some:
  assumes "MM_Bs_alloc num a M = (Some (k, st), M')" "zonesLength M = length (zones M)"
  shows "k < zonesLength M" "st = unat (usingCnt (zones M ! k))" "num \<le> freeCnt (zones M ! k)"
    "zones M' = (zones M)[k := Bs_take num a (zones M ! k)]" "zonesLength M' = zonesLength M"
proof -
  obtain zs where r: "Bs_alloc_from num a 0 (zones M) = Some ((k, st), zs)"
    and M': "M' = M\<lparr>zones := zs\<rparr>"
    using assms by (auto simp: MM_Bs_alloc_def split: option.splits)
  from Bs_alloc_from_spec [OF r] show "k < zonesLength M" "st = unat (usingCnt (zones M ! k))"
    "num \<le> freeCnt (zones M ! k)" "zones M' = (zones M)[k := Bs_take num a (zones M ! k)]"
    "zonesLength M' = zonesLength M"
    using assms(2) M' by auto
qed

text \<open>A run of the boot allocator and the ranges it hands out.\<close>

fun Bs_run :: "u64 \<Rightarrow> u64 list \<Rightarrow> GlobalMemManageStruct \<Rightarrow> (nat \<times> nat \<times> nat) list \<times> GlobalMemManageStruct" where
  "Bs_run a [] M = ([], M)"
| "Bs_run a (n # ns) M =
    (case MM_Bs_alloc n a M of
       (None, M') \<Rightarrow> Bs_run a ns M'
     | (Some (k, st), M') \<Rightarrow> apfst ((#) (k, st, st + unat n)) (Bs_run a ns M'))"

definition zone_used :: "GlobalMemManageStruct \<Rightarrow> nat \<Rightarrow> nat" where
  "zone_used M k = unat (usingCnt (zones M ! k))"


lemma Bs_take_always:
  assumes "zones M = z # zs" "zonesLength M = Suc (length zs)" "n \<le> freeCnt z"
  shows "MM_Bs_alloc n a M = (Some (0, unat (usingCnt z)), M\<lparr>zones := Bs_take n a z # zs\<rparr>)"
  using assms by (simp add: MM_Bs_alloc_def not_less [symmetric])


text \<open>
  C5: On a memory map whose usable entries do not wrap around, \<open>_initArray\<close> (when it does
  not halt) builds as many zones as it announces, and each zone either has no page array (a
  zone below the kernel) or a page array that covers it: the counters add up to the
  zone's pages, entry \<open>j\<close> describes the page at \<open>phyAddrSt + 4096 * j\<close>, and the array itself
  lies inside the pages that count as used.
\<close>

theorem initArray_builds_zones:
  assumes "initArray M = Some M'" "sane_map M"
  shows "length (zones M') = zonesLength M' \<and>
    (\<forall>z\<in>set (zones M'). zone_ok z \<or> (pagesLength z = 0 \<and> pagesAt z = 0))"
  by (rule initArray_ok [OF assms])

lemma sample_values:
  "e820_st (e820 sample_memory 0) = 0" "e820_ed (e820 sample_memory 0) = 0x9f000"
  "e820_st (e820 sample_memory (Suc 0)) = 0x100000" "e820_ed (e820 sample_memory (Suc 0)) = 0x40000000"
  "etype (e820 sample_memory 0) = 1" "etype (e820 sample_memory (Suc 0)) = 1" "etype (e820 sample_memory 2) = 2"
  "addr (e820 sample_memory 0) = 0" "addr (e820 sample_memory (Suc 0)) = 0x100000"
  "esize (e820 sample_memory (Suc 0)) = 0x3ff00000"
  "availPhysSt sample_memory = 0x200000" "e820Length sample_memory = 2"
  by (simp_all add: sample_memory_def e820_st_def e820_ed_def Page_4KUpAlign_def Page_4KDownAlign_def
      mask_eq_exp_minus_1 availPhysSt_def availVirtAddrSt_def Init_virtAddrStart_def)

lemma sample_initArray:
  "\<exists>M'. initArray sample_memory = Some M' \<and> zonesLength M' = 2"
proof -
  have up: "[0..<Suc 2] = [0, Suc 0, 2]" "[Suc 0..<Suc 2] = [Suc 0, 2]" by (simp_all add: upt_rec)
  have c: "initArray_count sample_memory = (1, 1, 2)"
    unfolding initArray_count_def sample_values up
    by (simp add: sample_values initArray_scan_def Let_def)
  have rq: "upAlignTo (sizeof_Zone * of_nat 2) Page_4KSize = 4096"
    by (simp add: upAlignTo_def sizeof_Zone_def)
  let ?M = "sample_memory\<lparr>zonesLength := 2, totMemSize := 0x40000000\<rparr>"
  have same: "e820 ?M = e820 sample_memory" "e820Length ?M = 2" "availPhysSt ?M = 0x200000"
    using sample_values by (simp_all add: availPhysSt_def availVirtAddrSt_def)
  have al: "Page_4KUpAlign 0x200000 = 0x200000"
    by (simp add: Page_4KUpAlign_def mask_eq_exp_minus_1)
  have pl: "initArray_place ?M 1 4096 = Some (1, 0x200000)"
    unfolding initArray_place_def same One_nat_def up(2) by (simp add: sample_values al)
  have zs: "initArray_zones ?M 1 1 4096 = [initArray_zone ?M 1 1 4096 0, initArray_zone ?M 1 1 4096 1]"
    unfolding initArray_zones_def same up by (simp add: sample_values)
  have z0: "initArray_pages (initArray_zone ?M 1 1 4096 0) \<noteq> None"
    by (simp add: initArray_pages_def initArray_zone_def same sample_values Let_def zero_zone_def)
  have z1: "initArray_pages (initArray_zone ?M 1 1 4096 1) \<noteq> None"
    unfolding initArray_pages_def initArray_zone_def same Let_def
    by (simp add: sample_values al zero_zone_def sizeof_Page_def)
  show ?thesis
    unfolding initArray_def c
    using z0 z1 by (auto simp: Let_def sample_values pl [unfolded One_nat_def] zs [unfolded One_nat_def]
        rq [simplified])
qed

theorem initArray_builds_zones_witness:
  "\<exists>M'. initArray sample_memory = Some M' \<and> length (zones M') = 2 \<and>
     (\<forall>z\<in>set (zones M'). zone_ok z \<or> (pagesLength z = 0 \<and> pagesAt z = 0))"
proof -
  have "\<forall>i\<le>2. etype (e820 sample_memory i) = 1 \<longrightarrow> i = 0 \<or> i = Suc 0"
    using sample_values(7) by (auto simp: numeral_2_eq_2 le_Suc_eq)
  then have s: "sane_map sample_memory"
    by (auto simp: sane_map_def sample_values)
  from sample_initArray obtain M' where r: "initArray sample_memory = Some M'" "zonesLength M' = 2" by blast
  from initArray_builds_zones [OF r(1) s] r show ?thesis by simp
qed

end
