(* ===== verification/Buddy.thy ===== *)
theory Buddy
  imports MemDesc Locks
begin

text \<open>
  The buddy allocator, \<open>src/kernel/memory/buddy.c\<close>.  A page pointer is the number of a
  \<open>Page\<close> structure (its address divided by the size of the structure), so \<open>page + n\<close> is
  addition.  The ring of \<open>listEle\<close> members behind \<open>freeList[ord]\<close> is the list of its
  pages from the head on: inserting before the head appends (\<open>ring_insBefore\<close> of
  \<open>ListDs\<close>), unlinking is \<open>remove1\<close> (\<open>kl_unlink_remove1\<close>), and \<open>[]\<close> is the null pointer.
  The same holds for the usage lists of the tasks.  \<open>None\<close> is a held lock or the loop
  \<open>while (1) IO_hlt()\<close>.
\<close>

definition Buddy_maxOrder :: nat where "Buddy_maxOrder = 15"

record Buddy =
  pg :: "nat \<Rightarrow> Page"
  freeList :: "nat \<Rightarrow> nat list"
  bitmapAt :: "nat \<Rightarrow> ptr"
  bm :: "nat \<Rightarrow> nat \<Rightarrow> u64"
  buddyLock :: SpinLock
  pageUsage :: "nat \<Rightarrow> nat list"
  totUsage :: "nat \<Rightarrow> u64"

section \<open>Pages and positions\<close>

definition order_field :: u64 where "order_field = push_bit 8 (push_bit 4 1 - 1)"

definition Page_order :: "Page \<Rightarrow> nat" where
  "Page_order page = unat (drop_bit 8 (ucast (attr page) :: u64) AND (push_bit 4 1 - 1))"

definition Page_setOrder :: "nat \<Rightarrow> Page \<Rightarrow> Page" where
  "Page_setOrder ord page =
    page\<lparr>attr := ucast ((ucast (attr page) AND NOT order_field) OR push_bit 8 (of_nat ord) :: u64)\<rparr>"

definition set_pg :: "nat \<Rightarrow> (Page \<Rightarrow> Page) \<Rightarrow> Buddy \<Rightarrow> Buddy" where
  "set_pg p f s = s\<lparr>pg := (pg s)(p := f (pg s p))\<rparr>"

definition MM_Buddy_getOrder :: "nat \<Rightarrow> Buddy \<Rightarrow> nat" where
  "MM_Buddy_getOrder p s = Page_order (pg s p)"

definition MM_Buddy_setOrder :: "nat \<Rightarrow> nat \<Rightarrow> Buddy \<Rightarrow> Buddy" where
  "MM_Buddy_setOrder p ord = set_pg p (Page_setOrder ord)"

definition recordUsage :: "u64 \<Rightarrow> bool" where
  "recordUsage pageAttr \<longleftrightarrow> pageAttr AND Page_Flag_KernelShare = 0"

definition parentPos :: "u16 \<Rightarrow> u16" where "parentPos pos = drop_bit 1 pos"
definition lChildPos :: "u16 \<Rightarrow> u16" where "lChildPos pos = push_bit 1 pos"
definition rChildPos :: "u16 \<Rightarrow> u16" where "rChildPos pos = push_bit 1 pos OR 1"
definition isLeft :: "u16 \<Rightarrow> bool" where "isLeft pos \<longleftrightarrow> pos AND 1 = 0"
definition isRight :: "u16 \<Rightarrow> bool" where "isRight pos \<longleftrightarrow> pos AND 1 \<noteq> 0"

definition MM_Buddy_getBuddy :: "nat \<Rightarrow> Buddy \<Rightarrow> nat" where
  "MM_Buddy_getBuddy p s =
    (if isLeft (buddyId (pg s p)) then p + 2 ^ MM_Buddy_getOrder p s else p - 2 ^ MM_Buddy_getOrder p s)"

section \<open>Free lists and bitmaps\<close>

definition rmFreePageFrame :: "nat \<Rightarrow> nat \<Rightarrow> Buddy \<Rightarrow> Buddy" where
  "rmFreePageFrame ord p s = s\<lparr>freeList := (freeList s)(ord := remove1 p (freeList s ord))\<rparr>"

definition insNewFreePageFrame :: "nat \<Rightarrow> nat \<Rightarrow> Buddy \<Rightarrow> Buddy" where
  "insNewFreePageFrame ord p s =
    (if freeList s ord = [] then s\<lparr>freeList := (freeList s)(ord := [p])\<rparr>
     else s\<lparr>freeList := (freeList s)(ord := freeList s ord @ [p])\<rparr>)"

text \<open>The position of the pair of a page frame in the bitmap of its order.\<close>

definition pairPos :: "nat \<Rightarrow> Buddy \<Rightarrow> u64" where
  "pairPos p s =
    drop_bit Page_4KShift (phyAddr (pg s p)) -
      (if isRight (buddyId (pg s p)) then push_bit (MM_Buddy_getOrder p s) 1 else 0)"

definition getBit :: "nat \<Rightarrow> Buddy \<Rightarrow> u64" where
  "getBit p s =
    (if buddyId (pg s p) = 1 then 1
     else let pos = pairPos p s; ord = MM_Buddy_getOrder p s in
       drop_bit (unat (pos mod 64)) (bm s ord (unat (pos div 64))) AND 1)"

definition revBit :: "nat \<Rightarrow> Buddy \<Rightarrow> Buddy" where
  "revBit p s =
    (if buddyId (pg s p) = 1 then s
     else let pos = pairPos p s; ord = MM_Buddy_getOrder p s; q = unat (pos div 64) in
       s\<lparr>bm := (bm s)(ord := (bm s ord)(q := bm s ord q XOR push_bit (unat (pos mod 64)) 1))\<rparr>)"

section \<open>Allocation\<close>

definition divPageFrame_step :: "nat \<Rightarrow> nat \<Rightarrow> Buddy \<Rightarrow> Buddy" where
  "divPageFrame_step p i s =
    (let rPage = p + 2 ^ (i - 1);
         s = set_pg rPage (\<lambda>g. g\<lparr>buddyId := rChildPos (buddyId (pg s p))\<rparr>) s;
         s = set_pg p (\<lambda>g. g\<lparr>buddyId := lChildPos (buddyId g)\<rparr>) s;
         s = MM_Buddy_setOrder rPage (i - 1) s;
         s = MM_Buddy_setOrder p (i - 1) s;
         s = set_pg rPage (\<lambda>g. g\<lparr>attr := attr g OR ucast Page_Flag_BuddyHeadPage\<rparr>) s;
         s = insNewFreePageFrame (i - 1) rPage s
     in revBit rPage s)"

fun divPageFrame :: "nat \<Rightarrow> nat \<Rightarrow> nat \<Rightarrow> Buddy \<Rightarrow> Buddy" where
  "divPageFrame p 0 to s = s"
| "divPageFrame p (Suc i) to s =
    (if to < Suc i then divPageFrame p i to (divPageFrame_step p (Suc i) s) else s)"

definition Buddy_lock :: "Buddy \<Rightarrow> Buddy option" where
  "Buddy_lock s = map_option (\<lambda>l. s\<lparr>buddyLock := l\<rparr>) (SpinLock_acquire (buddyLock s))"

definition Buddy_unlock :: "Buddy \<Rightarrow> Buddy" where
  "Buddy_unlock s = s\<lparr>buddyLock := SpinLock_unlock (buddyLock s)\<rparr>"

definition recordAlloc :: "nat \<Rightarrow> nat \<Rightarrow> nat \<Rightarrow> Buddy \<Rightarrow> Buddy" where
  "recordAlloc cur p log2Size s =
    s\<lparr>pageUsage := (pageUsage s)(cur := pageUsage s cur @ [p]),
      totUsage := (totUsage s)(cur := totUsage s cur + push_bit (log2Size + 12) 1)\<rparr>"

text \<open>Removing the frame, dividing it and marking it as allocated, common to both allocators.\<close>

definition takeFrame :: "nat \<Rightarrow> nat \<Rightarrow> nat \<Rightarrow> u64 \<Rightarrow> Buddy \<Rightarrow> Buddy" where
  "takeFrame ord p log2Size a s =
    (let s = rmFreePageFrame ord p s;
         s = revBit p s;
         s = divPageFrame p ord log2Size s;
         s = set_pg p (\<lambda>g. g\<lparr>attr := ucast (a OR Page_Flag_BuddyHeadPage)\<rparr>) s
     in MM_Buddy_setOrder p log2Size s)"

definition alignError :: "nat \<Rightarrow> u64 \<Rightarrow> Buddy \<Rightarrow> bool" where
  "alignError p log2Size s \<longleftrightarrow> scast (log2 (lowbit (phyAddr (pg s p))) - 12) < log2Size"

definition MM_Buddy_alloc :: "nat \<Rightarrow> u64 \<Rightarrow> u64 \<Rightarrow> Buddy \<Rightarrow> (nat option \<times> Buddy) option" where
  "MM_Buddy_alloc cur log2Size a s =
    (case Buddy_lock s of None \<Rightarrow> None | Some s \<Rightarrow>
     if log2Size > of_nat Buddy_maxOrder then Some (None, Buddy_unlock s)
     else
       (case List.find (\<lambda>ord. freeList s ord \<noteq> []) [unat log2Size..<Suc Buddy_maxOrder] of
          None \<Rightarrow> Some (None, Buddy_unlock s)
        | Some ord \<Rightarrow>
            let p = hd (freeList s ord);
                s = takeFrame ord p (unat log2Size) a s
            in if alignError p log2Size s then None
               else
                 let s = Buddy_unlock s;
                     s = (if recordUsage a then recordAlloc cur p (unat log2Size) s else s)
                 in Some (Some p, s)))"

text \<open>\<open>MM_Buddy_alloc4G\<close> looks for the first frame below 4 GB in each list.\<close>

definition below4G :: "Buddy \<Rightarrow> nat \<Rightarrow> nat option" where
  "below4G s ord = List.find (\<lambda>p. phyAddr (pg s p) < push_bit 32 1) (freeList s ord)"

definition MM_Buddy_alloc4G :: "nat \<Rightarrow> u64 \<Rightarrow> u64 \<Rightarrow> Buddy \<Rightarrow> (nat option \<times> Buddy) option" where
  "MM_Buddy_alloc4G cur log2Size a s =
    (case Buddy_lock s of None \<Rightarrow> None | Some s \<Rightarrow>
     if log2Size > of_nat Buddy_maxOrder then Some (None, Buddy_unlock s)
     else
       (case List.find (\<lambda>ord. below4G s ord \<noteq> None) [unat log2Size..<Suc Buddy_maxOrder] of
          None \<Rightarrow> Some (None, Buddy_unlock s)
        | Some ord \<Rightarrow>
            let p = the (below4G s ord);
                s = takeFrame ord p (unat log2Size) a s;
                s = (if recordUsage a then recordAlloc cur p (unat log2Size) s else s)
            in Some (Some p, Buddy_unlock s)))"

section \<open>Freeing\<close>

fun free_merge :: "nat \<Rightarrow> nat \<Rightarrow> nat \<Rightarrow> Buddy \<Rightarrow> nat \<times> Buddy" where
  "free_merge 0 i p s = (p, s)"
| "free_merge (Suc n) i p s =
    (let s = revBit p s in
     if getBit p s \<noteq> 0 then (p, s)
     else
       let buddy = MM_Buddy_getBuddy p s;
           s = rmFreePageFrame i buddy s;
           rChild = (if isRight (buddyId (pg s p)) then p else buddy);
           lChild = (if isRight (buddyId (pg s p)) then buddy else p);
           s = set_pg rChild (\<lambda>g. g\<lparr>attr := 0\<rparr>) s;
           s = set_pg lChild (\<lambda>g. g\<lparr>attr := ucast Page_Flag_BuddyHeadPage\<rparr>) s;
           s = set_pg rChild (\<lambda>g. g\<lparr>buddyId := 0\<rparr>) s;
           s = set_pg lChild (\<lambda>g. g\<lparr>buddyId := parentPos (buddyId g)\<rparr>) s;
           s = MM_Buddy_setOrder rChild 0 s;
           s = MM_Buddy_setOrder lChild (i + 1) s
       in free_merge n (i + 1) lChild s)"

definition forgetUsage :: "nat \<Rightarrow> nat \<Rightarrow> Buddy \<Rightarrow> Buddy" where
  "forgetUsage cur p s =
    s\<lparr>totUsage := (totUsage s)(cur := totUsage s cur - push_bit (MM_Buddy_getOrder p s + 12) 1),
      pageUsage := (\<lambda>t. remove1 p (pageUsage s t))\<rparr>"

definition MM_Buddy_free :: "nat \<Rightarrow> nat option \<Rightarrow> Buddy \<Rightarrow> Buddy option" where
  "MM_Buddy_free cur pp s =
    (case Buddy_lock s of None \<Rightarrow> None | Some s \<Rightarrow>
     (case pp of None \<Rightarrow> Some (Buddy_unlock s)
      | Some p \<Rightarrow>
        if (ucast (attr (pg s p)) AND Page_Flag_BuddyHeadPage) = 0 then Some (Buddy_unlock s)
        else
          let s = (if recordUsage (ucast (attr (pg s p))) then forgetUsage cur p s else s);
              ord = MM_Buddy_getOrder p s;
              s = set_pg p (\<lambda>g. g\<lparr>attr := ucast Page_Flag_BuddyHeadPage\<rparr>) s;
              s = MM_Buddy_setOrder p ord s;
              (p, s) = free_merge (Suc Buddy_maxOrder - ord) ord p s
          in Some (Buddy_unlock (insNewFreePageFrame (MM_Buddy_getOrder p s) p s))))"

text \<open>Dividing an allocated frame for its owner.\<close>

definition MM_Buddy_divPageFrame :: "nat \<Rightarrow> nat \<Rightarrow> Buddy \<Rightarrow> nat option \<times> Buddy" where
  "MM_Buddy_divPageFrame cur p s =
    (let ord = MM_Buddy_getOrder p s in
     if ord = 0 then (None, s)
     else
       let rPage = p + 2 ^ (ord - 1);
           s = set_pg rPage (\<lambda>g. g\<lparr>attr := attr (pg s p)\<rparr>) s;
           s = set_pg rPage (\<lambda>g. g\<lparr>buddyId := rChildPos (buddyId (pg s p))\<rparr>) s;
           s = set_pg p (\<lambda>g. g\<lparr>buddyId := lChildPos (buddyId g)\<rparr>) s;
           s = MM_Buddy_setOrder rPage (ord - 1) s;
           s = MM_Buddy_setOrder p (ord - 1) s;
           s = (if recordUsage (ucast (attr (pg s p)))
                then s\<lparr>pageUsage := (pageUsage s)(cur := pageUsage s cur @ [rPage])\<rparr> else s)
       in (Some rPage, s))"

section \<open>Initialisation\<close>

definition bitsSize :: "GlobalMemManageStruct \<Rightarrow> u64" where
  "bitsSize M = upAlignTo (drop_bit Page_4KShift (Page_4KUpAlign (totMemSize M))) 64 div 8"

definition Bs_phys :: "GlobalMemManageStruct \<Rightarrow> nat \<times> nat \<Rightarrow> u64" where
  "Bs_phys M p = phyAddr (pages (zones M ! fst p) (snd p))"

definition bitmap_attr :: u64 where
  "bitmap_attr = Page_Flag_Active OR Page_Flag_Kernel OR Page_Flag_KernelInit"

text \<open>One page for the bitmaps of several orders: the loop over \<open>i\<close> with its inner loop over \<open>j\<close>.\<close>

fun init_shared :: "nat \<Rightarrow> u64 \<Rightarrow> u64 \<Rightarrow> nat \<Rightarrow> (nat \<Rightarrow> ptr) \<Rightarrow> GlobalMemManageStruct \<Rightarrow>
    ((nat \<Rightarrow> ptr) \<times> GlobalMemManageStruct) option" where
  "init_shared 0 bits num i at M = Some (at, M)"
| "init_shared (Suc n) bits num i at M =
    (if i > Buddy_maxOrder then Some (at, M)
     else (case MM_Bs_alloc 1 bitmap_attr M of (None, _) \<Rightarrow> None
       | (Some p, M') \<Rightarrow>
           init_shared n bits num (i + unat num)
             (\<lambda>k. if i \<le> k \<and> k < i + unat num \<and> k < Buddy_maxOrder
                  then DMAS_phys2Virt (Bs_phys M' p + bits * of_nat (k - i)) else at k) M'))"

fun init_own :: "nat list \<Rightarrow> u64 \<Rightarrow> (nat \<Rightarrow> ptr) \<Rightarrow> GlobalMemManageStruct \<Rightarrow>
    ((nat \<Rightarrow> ptr) \<times> GlobalMemManageStruct) option" where
  "init_own [] regPage at M = Some (at, M)"
| "init_own (i # is) regPage at M =
    (case MM_Bs_alloc regPage bitmap_attr M of (None, _) \<Rightarrow> None
     | (Some p, M') \<Rightarrow> init_own is regPage (at(i := DMAS_phys2Virt (Bs_phys M' p))) M')"

definition init_bitmaps :: "GlobalMemManageStruct \<Rightarrow> ((nat \<Rightarrow> ptr) \<times> GlobalMemManageStruct) option" where
  "init_bitmaps M =
    (let bits = bitsSize M in
     if bits = 0 then None
     else if Page_4KSize > bits then init_shared (Suc Buddy_maxOrder) bits (Page_4KSize div bits) 0 (\<lambda>_. NULL) M
     else init_own [0..<Suc Buddy_maxOrder] (Page_4KUpAlign bits div Page_4KSize) (\<lambda>_. NULL) M)"

text \<open>The order of the next frame: as its address allows, then as the zone allows.\<close>

definition frame_order :: "u64 \<Rightarrow> nat" where
  "frame_order phy =
    (let f = Bit_ffs (lowbit phy) - 13; f = (if f > 0 then f else 0)
     in if f > of_nat Buddy_maxOrder then Buddy_maxOrder else unat f)"

fun fit_order :: "nat \<Rightarrow> nat \<Rightarrow> nat \<Rightarrow> nat" where
  "fit_order len pos ord =
    (if pos + 2 ^ ord > len then (case ord of 0 \<Rightarrow> 0 | Suc ord' \<Rightarrow> fit_order len pos ord') else ord)"

declare fit_order.simps [simp del]

text \<open>The pages of a zone as page numbers, and the frames of one zone put into the lists.\<close>

definition page_base :: "Zone \<Rightarrow> nat" where
  "page_base z = unat (pagesAt z) div unat sizeof_Page"

definition init_frame :: "nat \<Rightarrow> nat \<Rightarrow> Buddy \<Rightarrow> Buddy" where
  "init_frame p ord s =
    (let s = set_pg p (\<lambda>g. g\<lparr>attr := ucast Page_Flag_BuddyHeadPage\<rparr>) s;
         s = MM_Buddy_setOrder p ord s;
         s = set_pg p (\<lambda>g. g\<lparr>buddyId := 1\<rparr>) s
     in insNewFreePageFrame ord p s)"

function init_zone :: "nat \<Rightarrow> nat \<Rightarrow> nat \<Rightarrow> Buddy \<times> u64 \<Rightarrow> Buddy \<times> u64" where
  "init_zone base len pos st =
    (if pos < len
     then let ord = fit_order len pos (frame_order (phyAddr (pg (fst st) (base + pos)))) in
       init_zone base len (pos + 2 ^ ord)
         (init_frame (base + pos) ord (fst st), snd st + push_bit (ord + Page_4KShift) 1)
     else st)"
  by pat_completeness auto
termination
  by (relation "measure (\<lambda>(base, len, pos, st). len - pos)") (auto simp: Let_def intro!: diff_less_mono2)

declare init_zone.simps [simp del]

definition page_view :: "GlobalMemManageStruct \<Rightarrow> nat \<Rightarrow> Page" where
  "page_view M p =
    (case List.find (\<lambda>z. page_base z \<le> p \<and> p < page_base z + unat (pagesLength z))
        (take (zonesLength M) (zones M)) of
       None \<Rightarrow> \<lparr>phyAddr = 0, attr = 0, buddyId = 0\<rparr>
     | Some z \<Rightarrow> pages z (p - page_base z))"

definition init_zones :: "Zone list \<Rightarrow> Buddy \<times> u64 \<Rightarrow> Buddy \<times> u64" where
  "init_zones zs st =
    foldl (\<lambda>st z. if usingCnt z = pagesLength z then st
                else init_zone (page_base z) (unat (pagesLength z)) (unat (usingCnt z)) st) st zs"

definition MM_Buddy_init :: "Buddy \<Rightarrow> GlobalMemManageStruct \<Rightarrow> (Buddy \<times> GlobalMemManageStruct) option" where
  "MM_Buddy_init s M =
    map_option (\<lambda>(at, M).
      let s = s\<lparr>buddyLock := SpinLock_init (buddyLock s), bitmapAt := at,
                bm := (\<lambda>ord q. if 8 * q < unat (bitsSize M) then 0 else bm s ord q),
                freeList := (\<lambda>_. []), pg := page_view M\<rparr>;
          (s, tot) = init_zones (drop 1 (take (zonesLength M) (zones M))) (s, 0)
      in (s, M\<lparr>totMemSize := tot\<rparr>)) (init_bitmaps M)"

end
