(* ===== verification/Buddy_Inv.thy ===== *)
theory Buddy_Inv
  imports Buddy
begin

text \<open>
  The correctness of the buddy allocator.  The blocks are the nodes of binary trees whose
  roots are the frames that \<open>MM_Buddy_init\<close> builds; \<open>buddy_inv roots F U s\<close> says that
  the free blocks \<open>F\<close> and the used blocks \<open>U\<close> do not overlap, that their head pages
  carry their order and number, that the free lists hold the free blocks of each order, and
  that the bit of each pair is the parity of its free halves.  Every operation is a sequence
  of four changes of \<open>F\<close> and \<open>U\<close>: \<open>inv_take\<close>, \<open>inv_give\<close>, \<open>inv_split\<close> and
  \<open>inv_join\<close>.
\<close>

section \<open>Blocks as nodes of binary trees\<close>

text \<open>
  A frame that \<open>MM_Buddy_init\<close> puts into a free list is the root of a binary tree of blocks:
  \<open>Node r R d j\<close> is the block number \<open>j\<close> at depth \<open>d\<close> below the root of order \<open>R\<close>
  that starts at page \<open>r\<close>.  Its \<open>buddyId\<close> is \<open>2 ^ d + j\<close>, its order \<open>R - d\<close>.
\<close>

datatype node = Node (rt: nat) (rord: nat) (dep: nat) (idx: nat)

definition ordr :: "node \<Rightarrow> nat" where "ordr n = rord n - dep n"

definition head :: "node \<Rightarrow> nat" where "head n = rt n + idx n * 2 ^ ordr n"

definition span :: "node \<Rightarrow> nat set" where "span n = {head n..<head n + 2 ^ ordr n}"

definition lch :: "node \<Rightarrow> node" where "lch n = Node (rt n) (rord n) (dep n + 1) (2 * idx n)"

definition rch :: "node \<Rightarrow> node" where "rch n = Node (rt n) (rord n) (dep n + 1) (2 * idx n + 1)"

definition par :: "node \<Rightarrow> node" where "par n = Node (rt n) (rord n) (dep n - 1) (idx n div 2)"

definition sib :: "node \<Rightarrow> node" where
  "sib n = Node (rt n) (rord n) (dep n) (if even (idx n) then idx n + 1 else idx n - 1)"

definition valid :: "(nat \<times> nat) set \<Rightarrow> node \<Rightarrow> bool" where
  "valid roots n \<longleftrightarrow> (rt n, rord n) \<in> roots \<and> dep n \<le> rord n \<and> idx n < 2 ^ dep n"

lemma node_sel [simp]:
  "rt (lch n) = rt n" "rord (lch n) = rord n" "dep (lch n) = Suc (dep n)" "idx (lch n) = 2 * idx n"
  "rt (rch n) = rt n" "rord (rch n) = rord n" "dep (rch n) = Suc (dep n)" "idx (rch n) = Suc (2 * idx n)"
  "rt (par n) = rt n" "rord (par n) = rord n" "dep (par n) = dep n - 1" "idx (par n) = idx n div 2"
  "rt (sib n) = rt n" "rord (sib n) = rord n" "dep (sib n) = dep n"
  by (simp_all add: lch_def rch_def par_def sib_def)

lemma head_in_span [simp]: "head n \<in> span n"
  by (simp add: span_def)

lemma ordr_ch [simp]: "ordr (lch n) = ordr n - 1" "ordr (rch n) = ordr n - 1"
  by (simp_all add: ordr_def)

lemma pow_split: "0 < k \<Longrightarrow> (2::nat) ^ k = 2 ^ (k - 1) + 2 ^ (k - 1)"
  by (cases k) simp_all

lemma head_ch:
  assumes "0 < ordr n"
  shows "head (lch n) = head n" "head (rch n) = head n + 2 ^ (ordr n - 1)"
  using assms pow_split [OF assms] by (simp_all add: head_def algebra_simps)

lemma span_ch:
  assumes "0 < ordr n"
  shows "span n = span (lch n) \<union> span (rch n)" "span (lch n) \<inter> span (rch n) = {}"
  using pow_split [OF assms] by (auto simp: span_def head_ch [OF assms])

lemma valid_ch: "valid roots n \<Longrightarrow> 0 < ordr n \<Longrightarrow> valid roots (lch n) \<and> valid roots (rch n)"
  by (auto simp: valid_def ordr_def)

lemma valid_par: "valid roots n \<Longrightarrow> 0 < dep n \<Longrightarrow> valid roots (par n)"
  by (cases n; cases "dep n") (auto simp: valid_def less_mult_imp_div_less)

lemma par_ch [simp]: "par (lch n) = n" "par (rch n) = n"
  by (cases n; simp add: lch_def rch_def par_def)+

lemma ch_par:
  assumes "0 < dep n"
  shows "even (idx n) \<Longrightarrow> lch (par n) = n" "odd (idx n) \<Longrightarrow> rch (par n) = n"
    "even (idx n) \<Longrightarrow> rch (par n) = sib n" "odd (idx n) \<Longrightarrow> lch (par n) = sib n"
  using assms by (cases n; auto simp: lch_def rch_def par_def sib_def elim!: evenE oddE)+

lemma sib_ne: "sib n \<noteq> n"
  by (cases n) (auto simp: sib_def elim: oddE)

lemma ordr_par: "valid roots n \<Longrightarrow> 0 < dep n \<Longrightarrow> ordr (par n) = Suc (ordr n)"
  by (auto simp: ordr_def valid_def)

lemma ordr_sib [simp]: "ordr (sib n) = ordr n"
  by (simp add: ordr_def)

lemma valid_sib: "valid roots n \<Longrightarrow> 0 < dep n \<Longrightarrow> valid roots (sib n)"
  using valid_par [of roots n] valid_ch [of roots "par n"] ordr_par [of roots n] ch_par [of n]
  by (cases "even (idx n)") auto

lemma node_in_root: "valid roots n \<Longrightarrow> span n \<subseteq> {rt n..<rt n + 2 ^ rord n}"
proof -
  assume v: "valid roots n"
  then have "Suc (idx n) * 2 ^ ordr n \<le> 2 ^ dep n * 2 ^ ordr n"
    by (intro mult_right_mono) (auto simp: valid_def)
  also have "\<dots> = 2 ^ rord n" using v by (simp add: ordr_def valid_def power_add [symmetric])
  finally show ?thesis by (auto simp: span_def head_def)
qed

section \<open>The root frames\<close>

definition ppn :: "(nat \<Rightarrow> u64) \<Rightarrow> nat \<Rightarrow> nat" where
  "ppn phy p = unat (phy p) div 4096"

definition roots_ok :: "(nat \<times> nat) set \<Rightarrow> (nat \<Rightarrow> u64) \<Rightarrow> bool" where
  "roots_ok roots phy \<longleftrightarrow>
     (\<forall>(r, R)\<in>roots. R \<le> Buddy_maxOrder \<and> 2 ^ (R + 12) dvd unat (phy r) \<and>
        (\<forall>k<2 ^ R. unat (phy (r + k)) = unat (phy r) + 4096 * k)) \<and>
     (\<forall>(r, R)\<in>roots. \<forall>(r', R')\<in>roots. (r, R) \<noteq> (r', R') \<longrightarrow> {r..<r + 2 ^ R} \<inter> {r'..<r' + 2 ^ R'} = {}) \<and>
     inj_on (ppn phy) (\<Union>(r, R)\<in>roots. {r..<r + 2 ^ R})"

lemma roots_okD:
  assumes "roots_ok roots phy" "(r, R) \<in> roots"
  shows "R \<le> 15" "2 ^ (R + 12) dvd unat (phy r)" "k < 2 ^ R \<Longrightarrow> unat (phy (r + k)) = unat (phy r) + 4096 * k"
  using assms by (auto simp: roots_ok_def Buddy_maxOrder_def)

lemma roots_disj:
  "roots_ok roots phy \<Longrightarrow> (r, R) \<in> roots \<Longrightarrow> (r', R') \<in> roots \<Longrightarrow> x \<in> {r..<r + 2 ^ R} \<Longrightarrow>
    x \<in> {r'..<r' + 2 ^ R'} \<Longrightarrow> (r, R) = (r', R')"
proof (rule ccontr)
  assume ok: "roots_ok roots phy" and r: "(r, R) \<in> roots" "(r', R') \<in> roots"
    and x: "x \<in> {r..<r + 2 ^ R}" "x \<in> {r'..<r' + 2 ^ R'}" and ne: "(r, R) \<noteq> (r', R')"
  have "\<forall>(r, R)\<in>roots. \<forall>(r', R')\<in>roots. (r, R) \<noteq> (r', R') \<longrightarrow> {r..<r + 2 ^ R} \<inter> {r'..<r' + 2 ^ R'} = {}"
    using ok by (simp add: roots_ok_def)
  from bspec [OF this r(1), unfolded prod.case, THEN bspec, OF r(2), unfolded prod.case] ne
  have "{r..<r + 2 ^ R} \<inter> {r'..<r' + 2 ^ R'} = {}" by blast
  then show False using x by blast
qed

lemma same_head:
  assumes ok: "roots_ok roots phy" and v: "valid roots n" "valid roots m"
    and od: "ordr n = ordr m" and h: "ppn phy (head n) = ppn phy (head m)"
  shows "n = m"
proof -
  have n: "head n \<in> {rt n..<rt n + 2 ^ rord n}" and m: "head m \<in> {rt m..<rt m + 2 ^ rord m}"
    using node_in_root [OF v(1)] node_in_root [OF v(2)] head_in_span by blast+
  have r: "(rt n, rord n) \<in> roots" "(rt m, rord m) \<in> roots" using v by (auto simp: valid_def)
  have inj: "inj_on (ppn phy) (\<Union>(r, R)\<in>roots. {r..<r + 2 ^ R})" using ok by (simp add: roots_ok_def)
  have eq: "head n = head m"
  proof (rule inj_onD [OF inj h])
    show "head n \<in> (\<Union>(r, R)\<in>roots. {r..<r + 2 ^ R})" by (rule UN_I [OF r(1)]) (use n in simp)
    show "head m \<in> (\<Union>(r, R)\<in>roots. {r..<r + 2 ^ R})" by (rule UN_I [OF r(2)]) (use m in simp)
  qed
  have "(rt n, rord n) = (rt m, rord m)"
    by (rule roots_disj [OF ok r n]) (use m eq in simp)
  then have "rt n = rt m" "rord n = rord m" by auto
  moreover from this have "dep n = dep m" using od v by (auto simp: ordr_def valid_def)
  moreover from eq \<open>rt n = rt m\<close> od have "idx n = idx m" by (simp add: head_def)
  ultimately show ?thesis by (cases n; cases m) simp
qed

lemma phy_head:
  assumes ok: "roots_ok roots phy" and v: "valid roots n"
  shows "unat (phy (head n)) = unat (phy (rt n)) + 4096 * (idx n * 2 ^ ordr n)"
    "2 ^ (ordr n + 12) dvd unat (phy (head n))"
    "ppn phy (head n) = ppn phy (rt n) + idx n * 2 ^ ordr n"
proof -
  have r: "(rt n, rord n) \<in> roots" using v by (simp add: valid_def)
  have "head n < rt n + 2 ^ rord n" using subsetD [OF node_in_root [OF v] head_in_span] by simp
  then show 1: "unat (phy (head n)) = unat (phy (rt n)) + 4096 * (idx n * 2 ^ ordr n)"
    using roots_okD(3) [OF ok r] by (simp add: head_def)
  have "(2::nat) ^ (ordr n + 12) dvd 2 ^ (rord n + 12)" by (rule le_imp_power_dvd) (simp add: ordr_def)
  then have "2 ^ (ordr n + 12) dvd unat (phy (rt n))" using roots_okD(2) [OF ok r] by (rule dvd_trans)
  then show "2 ^ (ordr n + 12) dvd unat (phy (head n))"
    unfolding 1 by (simp add: power_add mult.assoc dvd_add)
  show "ppn phy (head n) = ppn phy (rt n) + idx n * 2 ^ ordr n" unfolding ppn_def 1 by simp
qed

section \<open>The invariant\<close>

definition bbit :: "Buddy \<Rightarrow> nat \<Rightarrow> nat \<Rightarrow> bool" where
  "bbit s k q = bit (bm s k (q div 64)) (q mod 64)"

definition headok :: "Buddy \<Rightarrow> node \<Rightarrow> bool" where
  "headok s n \<longleftrightarrow>
     bit (attr (pg s (head n))) 4 \<and> Page_order (pg s (head n)) = ordr n \<and>
     buddyId (pg s (head n)) = of_nat (2 ^ dep n + idx n)"

definition phys :: "Buddy \<Rightarrow> nat \<Rightarrow> u64" where "phys s p = phyAddr (pg s p)"

definition disj :: "node set \<Rightarrow> bool" where
  "disj N \<longleftrightarrow> (\<forall>n\<in>N. \<forall>m\<in>N. n \<noteq> m \<longrightarrow> span n \<inter> span m = {})"

definition pair :: "node set \<Rightarrow> node \<Rightarrow> bool" where
  "pair F m \<longleftrightarrow> (lch m \<in> F) \<noteq> (rch m \<in> F)"

definition buddy_inv :: "(nat \<times> nat) set \<Rightarrow> node set \<Rightarrow> node set \<Rightarrow> Buddy \<Rightarrow> bool" where
  "buddy_inv roots F U s \<longleftrightarrow>
     roots_ok roots (phys s) \<and>
     (\<forall>n\<in>F \<union> U. valid roots n \<and> headok s n) \<and> disj (F \<union> U) \<and> F \<inter> U = {} \<and>
     (\<forall>k. distinct (freeList s k) \<and> set (freeList s k) = head ` {n \<in> F. ordr n = k}) \<and>
     (\<forall>n. valid roots n \<and> 0 < ordr n \<longrightarrow>
        bbit s (ordr n - 1) (ppn (phys s) (head n)) = pair F n)"

lemma invD:
  assumes "buddy_inv roots F U s"
  shows "roots_ok roots (phys s)" "n \<in> F \<union> U \<Longrightarrow> valid roots n" "n \<in> F \<union> U \<Longrightarrow> headok s n"
    "disj (F \<union> U)" "F \<inter> U = {}" "distinct (freeList s k)"
    "set (freeList s k) = head ` {n \<in> F. ordr n = k}"
    "valid roots n \<Longrightarrow> 0 < ordr n \<Longrightarrow>
      bbit s (ordr n - 1) (ppn (phys s) (head n)) = pair F n"
  using assms by (auto simp: buddy_inv_def)

section \<open>Words\<close>

lemma id_less: "roots_ok roots phy \<Longrightarrow> valid roots n \<Longrightarrow> 2 ^ dep n + idx n < 65536"
proof -
  assume "roots_ok roots phy" and v: "valid roots n"
  then have "rord n \<le> 15" using roots_okD(1) by (auto simp: valid_def)
  then have "dep n \<le> 15" using v by (simp add: valid_def)
  then have "(2::nat) ^ dep n \<le> 2 ^ 15" by (intro power_increasing) simp_all
  then show ?thesis using v by (simp add: valid_def)
qed

lemma ordr_le: "roots_ok roots phy \<Longrightarrow> valid roots n \<Longrightarrow> ordr n \<le> 15"
  using roots_okD(1) [of roots phy "rt n" "rord n"] by (auto simp: valid_def ordr_def)

lemma and_1_bit: "(w :: 'a::len word) AND 1 = (if bit w 0 then 1 else 0)"
  by (rule bit_word_eqI) (auto simp: bit_simps intro: Nat.gr0I)

lemma u16_odd: "isRight (of_nat k) \<longleftrightarrow> odd k" "isLeft (of_nat k) \<longleftrightarrow> even k"
  unfolding isRight_def isLeft_def and_1_bit by (simp_all add: bit_of_nat_iff bit_0)

lemma u16_children:
  "lChildPos (of_nat k) = of_nat (2 * k)" "rChildPos (of_nat k) = of_nat (2 * k + 1)"
  "k < 65536 \<Longrightarrow> parentPos (of_nat k) = of_nat (k div 2)"
proof -
  show l: "lChildPos (of_nat k) = of_nat (2 * k)" by (simp add: lChildPos_def push_bit_eq_mult)
  have "push_bit 1 (of_nat k :: u16) OR 1 = push_bit 1 (of_nat k) + 1"
    by (rule disjunctive_add [symmetric]) (simp only: bit_push_bit_iff bit_1_iff, auto)
  then show "rChildPos (of_nat k) = of_nat (2 * k + 1)"
    by (simp add: rChildPos_def push_bit_eq_mult algebra_simps)
  assume "k < 65536"
  then show "parentPos (of_nat k) = of_nat (k div 2)"
    by (simp add: word_unat_eq_iff parentPos_def unat_div_pow2 unat_of_nat)
qed

lemma order_field_mask: "order_field = push_bit 8 (mask 4)" "(push_bit 4 1 - 1 :: u64) = mask 4"
  by (simp_all add: order_field_def push_bit_eq_mult mask_eq_exp_minus_1)

lemma bit_small_nat: "k < 2 ^ n \<Longrightarrow> bit (k :: nat) i \<Longrightarrow> i < n"
proof (rule ccontr)
  assume k: "k < 2 ^ n" "bit k i" and i: "\<not> i < n"
  from i have "(2::nat) ^ n \<le> 2 ^ i" by (intro power_increasing) auto
  with k show False by (simp add: bit_iff_odd)
qed

lemma setOrder_bits:
  assumes "k < 16"
  shows "bit (attr (Page_setOrder k g)) i \<longleftrightarrow>
    i < 16 \<and> (if 8 \<le> i \<and> i < 12 then bit k (i - 8) else bit (attr g) i)"
  using bit_small_nat [of k 4 "i - 8"] assms
  by (auto simp: Page_setOrder_def order_field_mask bit_simps bit_of_nat_iff dest: bit_imp_le_length)

lemma Page_order_set: "k < 16 \<Longrightarrow> Page_order (Page_setOrder k g) = k"
proof -
  assume k: "k < 16"
  have "drop_bit 8 (ucast (attr (Page_setOrder k g)) :: u64) AND mask 4 = of_nat k"
    using bit_small_nat [of k 4] k
    by (intro bit_word_eqI) (auto simp: bit_simps setOrder_bits bit_of_nat_iff)
  then show ?thesis unfolding Page_order_def order_field_mask using k by (simp add: unat_of_nat)
qed

lemma Page_setOrder_bit: "k < 16 \<Longrightarrow> bit (attr (Page_setOrder k g)) 4 = bit (attr g) 4"
  by (auto simp: setOrder_bits)

lemma Page_order_ext:
  "(\<And>i. 8 \<le> i \<Longrightarrow> i < 12 \<Longrightarrow> bit (attr g) i = bit (attr h) i) \<Longrightarrow> Page_order g = Page_order h"
proof -
  assume a: "\<And>i. 8 \<le> i \<Longrightarrow> i < 12 \<Longrightarrow> bit (attr g) i = bit (attr h) i"
  have "drop_bit 8 (ucast (attr g) :: u64) AND mask 4 = drop_bit 8 (ucast (attr h)) AND mask 4"
    using a by (intro bit_word_eqI) (auto simp: bit_simps)
  then show ?thesis by (simp only: Page_order_def order_field_mask)
qed

lemma HeadPage_bit: "bit Page_Flag_BuddyHeadPage i \<longleftrightarrow> i = 4"
  unfolding Page_Flag_BuddyHeadPage_def by (simp only: bit_push_bit_iff bit_1_iff) auto

lemma HeadPage_bits: "bit (ucast Page_Flag_BuddyHeadPage :: u16) i \<longleftrightarrow> i = 4"
  by (auto simp: bit_ucast_iff HeadPage_bit)

lemma HeadPage_test: "(ucast (a :: u16) AND Page_Flag_BuddyHeadPage) = 0 \<longleftrightarrow> \<not> bit a 4"
proof -
  have "(ucast a AND Page_Flag_BuddyHeadPage) = (if bit a 4 then Page_Flag_BuddyHeadPage else 0)"
    by (rule bit_word_eqI) (auto simp: bit_simps HeadPage_bit)
  then show ?thesis by (simp add: Page_Flag_BuddyHeadPage_def push_bit_eq_mult)
qed

lemma Page_setOrder_sel [simp]: "buddyId (Page_setOrder k g) = buddyId g" "phyAddr (Page_setOrder k g) = phyAddr g"
  by (simp_all add: Page_setOrder_def)

section \<open>The pair bits\<close>

lemma headokD:
  assumes "headok s n"
  shows "bit (attr (pg s (head n))) 4" "MM_Buddy_getOrder (head n) s = ordr n"
    "buddyId (pg s (head n)) = of_nat (2 ^ dep n + idx n)"
  using assms by (simp_all add: headok_def MM_Buddy_getOrder_def)

lemma root_id:
  assumes "roots_ok roots phy" "valid roots n" "headok s n"
  shows "buddyId (pg s (head n)) = 1 \<longleftrightarrow> dep n = 0"
proof -
  have l: "2 ^ dep n + idx n < 65536" using id_less [OF assms(1,2)] .
  have "buddyId (pg s (head n)) = 1 \<longleftrightarrow> 2 ^ dep n + idx n = 1"
    unfolding headokD(3) [OF assms(3)] word_unat_eq_iff unat_of_nat using l by simp
  also have "\<dots> \<longleftrightarrow> dep n = 0"
  proof
    assume e: "2 ^ dep n + idx n = 1"
    have "(2::nat) ^ 1 \<le> 2 ^ dep n" if "dep n \<noteq> 0" using that by (intro power_increasing) auto
    with e show "dep n = 0" by fastforce
  qed (use assms(2) in \<open>simp add: valid_def\<close>)
  finally show ?thesis .
qed

lemma id_parity:
  "headok s n \<Longrightarrow> 0 < dep n \<Longrightarrow> isRight (buddyId (pg s (head n))) \<longleftrightarrow> odd (idx n)"
  "headok s n \<Longrightarrow> 0 < dep n \<Longrightarrow> isLeft (buddyId (pg s (head n))) \<longleftrightarrow> even (idx n)"
  unfolding headokD(3) u16_odd by simp_all

lemma pairPos_spec:
  assumes r: "roots_ok roots (phys s)" and v: "valid roots n" and h: "headok s n" and d: "0 < dep n"
  shows "unat (pairPos (head n) s) = ppn (phys s) (head (par n))"
proof -
  let ?o = "ordr n"
  have p: "unat (drop_bit Page_4KShift (phyAddr (pg s (head n)))) = ppn (phys s) (head n)"
    by (simp add: unat_div_pow2 Page_4KShift_def ppn_def phys_def)
  have pn: "ppn (phys s) (head n) = ppn (phys s) (rt n) + idx n * 2 ^ ?o"
    using phy_head(3) [OF r v] .
  have pp: "ppn (phys s) (head (par n)) = ppn (phys s) (rt n) + idx n div 2 * 2 ^ Suc ?o"
    using phy_head(3) [OF r valid_par [OF v d]] ordr_par [OF v d] by simp
  have o15: "?o \<le> 15" by (rule ordr_le [OF r v])
  then have one: "unat (push_bit ?o 1 :: u64) = 2 ^ ?o" "unat (2 ^ ?o :: u64) = 2 ^ ?o"
    by (simp_all add: push_bit_eq_mult unat_exp2)
  show ?thesis
  proof (cases "odd (idx n)")
    case True
    then obtain i where i: "idx n = Suc (2 * i)" by (auto elim: oddE)
    have le: "push_bit ?o 1 \<le> drop_bit Page_4KShift (phyAddr (pg s (head n)))"
      unfolding word_le_nat_alt one(1) p pn i by simp
    show ?thesis
      unfolding pairPos_def id_parity(1) [OF h d] headokD(2) [OF h]
      using True le by (simp add: unat_minus_le one p pn pp i)
  next
    case False
    then obtain i where i: "idx n = 2 * i" by (auto elim: evenE)
    then show ?thesis
      unfolding pairPos_def id_parity(1) [OF h d] headokD(2) [OF h] using False by (simp add: p pn pp)
  qed
qed

lemma revBit_sel [simp]:
  "pg (revBit p s) = pg s" "freeList (revBit p s) = freeList s" "buddyLock (revBit p s) = buddyLock s"
  "phys (revBit p s) = phys s" "headok (revBit p s) n = headok s n"
  by (simp_all add: revBit_def Let_def phys_def headok_def fun_eq_iff)

lemma revBit_root: "buddyId (pg s p) = 1 \<Longrightarrow> revBit p s = s"
  by (simp add: revBit_def)

lemma revBit_bit:
  assumes "buddyId (pg s p) \<noteq> 1"
  shows "bbit (revBit p s) k q =
    (if k = MM_Buddy_getOrder p s \<and> q = unat (pairPos p s) then \<not> bbit s k q else bbit s k q)"
proof -
  let ?pos = "unat (pairPos p s)"
  have "unat (pairPos p s mod 64) = ?pos mod 64" "unat (pairPos p s div 64) = ?pos div 64"
    by (simp_all add: unat_mod unat_div)
  then have r: "bbit (revBit p s) k q = (if k = MM_Buddy_getOrder p s \<and> q div 64 = ?pos div 64
      then bit (bm s k (q div 64) XOR push_bit (?pos mod 64) 1) (q mod 64) else bbit s k q)"
    using assms by (auto simp: revBit_def bbit_def Let_def)
  have "bit (push_bit (?pos mod 64) 1 :: u64) (q mod 64) \<longleftrightarrow> q mod 64 = ?pos mod 64"
    by (simp only: bit_push_bit_iff bit_1_iff) auto
  moreover have "q div 64 = ?pos div 64 \<and> q mod 64 = ?pos mod 64 \<longleftrightarrow> q = ?pos"
    by (metis div_mult_mod_eq)
  ultimately show ?thesis unfolding r by (auto simp: bit_xor_iff bbit_def)
qed

lemma getBit_bit:
  assumes "buddyId (pg s p) \<noteq> 1"
  shows "getBit p s \<noteq> 0 \<longleftrightarrow> bbit s (MM_Buddy_getOrder p s) (unat (pairPos p s))"
  using assms by (simp add: getBit_def Let_def bbit_def and_1_bit bit_drop_bit_eq unat_mod unat_div)

lemma getBit_root: "buddyId (pg s p) = 1 \<Longrightarrow> getBit p s \<noteq> 0"
  by (simp add: getBit_def)

text \<open>Toggling the bit of a block, as seen by the invariant.\<close>

lemma revBit_inv_bit:
  assumes r: "roots_ok roots (phys s)" and v: "valid roots n" and h: "headok s n" and d: "0 < dep n"
    and m: "valid roots m" "0 < ordr m"
  shows "bbit (revBit (head n) s) (ordr m - 1) (ppn (phys s) (head m)) =
    (bbit s (ordr m - 1) (ppn (phys s) (head m)) \<noteq> (m = par n))"
proof -
  have ne: "buddyId (pg s (head n)) \<noteq> 1" using root_id [OF r v h] d by simp
  have "ordr m - 1 = ordr n \<and> ppn (phys s) (head m) = ppn (phys s) (head (par n)) \<longleftrightarrow> m = par n"
    using same_head [OF r m(1) valid_par [OF v d]] ordr_par [OF v d] m(2) by auto
  then show ?thesis
    unfolding revBit_bit [OF ne] headokD(2) [OF h] pairPos_spec [OF r v h d] by auto
qed

section \<open>The four changes of the block sets\<close>

lemma disj_mono: "disj N \<Longrightarrow> M \<subseteq> N \<Longrightarrow> disj M"
  by (auto simp: disj_def)

lemma disjD: "disj N \<Longrightarrow> n \<in> N \<Longrightarrow> m \<in> N \<Longrightarrow> n \<noteq> m \<Longrightarrow> span n \<inter> span m = {}"
  by (simp add: disj_def)

lemma disj_heads: "disj N \<Longrightarrow> n \<in> N \<Longrightarrow> m \<in> N \<Longrightarrow> head n = head m \<Longrightarrow> n = m"
  unfolding disj_def using head_in_span [of n] head_in_span [of m] by (metis disjoint_iff)

lemma inv_bits_ch:
  assumes "valid roots n" "0 < dep n"
  shows "lch (par n) = n \<and> rch (par n) = sib n \<or> lch (par n) = sib n \<and> rch (par n) = n"
  using ch_par [OF assms(2)] by blast

lemma par_sib: "0 < dep n \<Longrightarrow> par (sib n) = par n"
  using ch_par [of n] par_ch [of "par n"] by metis

lemma ch_eq_par:
  "0 < dep n \<Longrightarrow> lch m = n \<or> rch m = n \<longleftrightarrow> m = par n"
  "0 < dep n \<Longrightarrow> lch m = sib n \<or> rch m = sib n \<longleftrightarrow> m = par n"
proof -
  assume d: "0 < dep n"
  show "lch m = n \<or> rch m = n \<longleftrightarrow> m = par n" using ch_par [OF d] par_ch [of m] by metis
  show "lch m = sib n \<or> rch m = sib n \<longleftrightarrow> m = par n"
    using ch_par [OF d] par_ch [of m] par_sib [OF d] by metis
qed

text \<open>Removing a block from the free blocks, or adding it, changes the parity of its pair only.\<close>

lemma pair_remove:
  assumes "0 < dep n" "n \<in> F" shows "pair (F - {n}) m = (pair F m \<noteq> (m = par n))"
proof (cases "m = par n")
  case True
  then show ?thesis
    using inv_bits_ch [OF _ assms(1), of _] ch_par [OF assms(1)] sib_ne [of n] assms(2)
    by (cases "even (idx n)") (auto simp: pair_def)
next
  case False
  then have "lch m \<noteq> n" "rch m \<noteq> n" using ch_eq_par(1) [OF assms(1), of m] by blast+
  with False show ?thesis by (simp add: pair_def)
qed

lemma pair_insert:
  assumes "0 < dep n" "n \<notin> F" shows "pair (insert n F) m = (pair F m \<noteq> (m = par n))"
proof -
  have "pair (insert n F - {n}) m = (pair (insert n F) m \<noteq> (m = par n))"
    using assms by (intro pair_remove) auto
  then show ?thesis using assms(2) by auto
qed

lemma pair_root: "dep n = 0 \<Longrightarrow> pair (F - {n}) m = pair F m \<and> pair (insert n F) m = pair F m"
proof -
  assume "dep n = 0"
  then have "lch m \<noteq> n" "rch m \<noteq> n" by (metis node_sel(3) node_sel(7) nat.distinct(1))+
  then show ?thesis by (simp add: pair_def)
qed

text \<open>Taking a free block, with the new value of its pair bit.\<close>

lemma list_remove:
  assumes "distinct xs" "set xs = head ` {m \<in> F. ordr m = k}" "disj F" "n \<in> F"
  shows "set (if k = ordr n then remove1 (head n) xs else xs) = head ` {m \<in> F - {n}. ordr m = k}"
  using assms disj_heads [OF assms(3) _ assms(4)] by (auto simp: set_remove1_eq)

lemma inv_take:
  assumes i: "buddy_inv roots F U s" and n: "n \<in> F"
  shows "buddy_inv roots (F - {n}) (insert n U) (revBit (head n) (rmFreePageFrame (ordr n) (head n) s))"
proof -
  let ?s = "rmFreePageFrame (ordr n) (head n) s"
  let ?s' = "revBit (head n) ?s"
  note r = invD(1) [OF i] and v = invD(2) [OF i UnI1, OF n] and h = invD(3) [OF i UnI1, OF n]
  have same: "pg ?s = pg s" "phys ?s = phys s" "bm ?s = bm s" "headok ?s m = headok s m" for m
    by (simp_all add: rmFreePageFrame_def phys_def headok_def fun_eq_iff)
  have un: "F - {n} \<union> insert n U = F \<union> U" using n by auto
  have bits: "bbit ?s' (ordr m - 1) (ppn (phys s) (head m)) = pair (F - {n}) m"
    if m: "valid roots m" "0 < ordr m" for m
  proof (cases "0 < dep n")
    case True
    have "bbit ?s' (ordr m - 1) (ppn (phys s) (head m)) = (pair F m \<noteq> (m = par n))"
      using revBit_inv_bit [of roots ?s n m] r v h True m invD(8) [OF i m] same by (simp add: bbit_def)
    then show ?thesis using pair_remove [OF True n] by simp
  next
    case False
    then have "?s' = ?s" using root_id [OF r v h] same by (simp add: revBit_root)
    then show ?thesis using invD(8) [OF i m] same pair_root [of n F m] False by (simp add: bbit_def)
  qed
  show ?thesis
    unfolding buddy_inv_def un
  proof (intro conjI)
    show "\<forall>k. distinct (freeList ?s' k) \<and> set (freeList ?s' k) = head ` {m \<in> F - {n}. ordr m = k}"
    proof
      fix k
      have "disj F" using invD(4) [OF i] by (rule disj_mono) auto
      from list_remove [OF invD(6,7) [OF i] this n, of k]
      show "distinct (freeList ?s' k) \<and> set (freeList ?s' k) = head ` {m \<in> F - {n}. ordr m = k}"
        using invD(6) [OF i, of k] by (auto simp: rmFreePageFrame_def)
    qed
    show "\<forall>m. valid roots m \<and> 0 < ordr m \<longrightarrow> bbit ?s' (ordr m - 1) (ppn (phys ?s') (head m)) = pair (F - {n}) m"
      using bits same by simp
  qed (use r invD(2,3,4,5) [OF i] same n in auto)
qed

text \<open>Putting a used block back.\<close>

lemma insNew_list: "freeList (insNewFreePageFrame k p s) = (freeList s)(k := freeList s k @ [p])"
  by (simp add: insNewFreePageFrame_def)

lemma insNew_sel [simp]:
  "pg (insNewFreePageFrame k p s) = pg s" "bm (insNewFreePageFrame k p s) = bm s"
  "buddyLock (insNewFreePageFrame k p s) = buddyLock s"
  "phys (insNewFreePageFrame k p s) = phys s" "headok (insNewFreePageFrame k p s) n = headok s n"
  by (simp_all add: insNewFreePageFrame_def phys_def headok_def fun_eq_iff)

lemma inv_give:
  assumes i: "buddy_inv roots F U s" and n: "n \<in> U"
  shows "buddy_inv roots (insert n F) (U - {n}) (insNewFreePageFrame (ordr n) (head n) (revBit (head n) s))"
proof -
  let ?s = "insNewFreePageFrame (ordr n) (head n) (revBit (head n) s)"
  note r = invD(1) [OF i] and v = invD(2) [OF i UnI2, OF n] and h = invD(3) [OF i UnI2, OF n]
  have nF: "n \<notin> F" using invD(5) [OF i] n by auto
  have un: "insert n F \<union> (U - {n}) = F \<union> U" using n by auto
  have bits: "bbit ?s (ordr m - 1) (ppn (phys s) (head m)) = pair (insert n F) m"
    if m: "valid roots m" "0 < ordr m" for m
  proof (cases "0 < dep n")
    case True
    have "bbit ?s (ordr m - 1) (ppn (phys s) (head m)) = (pair F m \<noteq> (m = par n))"
      using revBit_inv_bit [OF r v h True m] invD(8) [OF i m] by (simp add: bbit_def)
    then show ?thesis using pair_insert [OF True nF] by simp
  next
    case False
    then have "revBit (head n) s = s" using root_id [OF r v h] by (simp add: revBit_root)
    then show ?thesis using invD(8) [OF i m] pair_root [of n F m] False by (simp add: bbit_def)
  qed
  have fresh: "head n \<notin> head ` {m \<in> F. ordr m = k}" for k
    using disj_heads [OF invD(4) [OF i], of n] n nF by auto
  show ?thesis
    unfolding buddy_inv_def un
  proof (intro conjI)
    show "\<forall>k. distinct (freeList ?s k) \<and> set (freeList ?s k) = head ` {m \<in> insert n F. ordr m = k}"
    proof
      fix k
      have "distinct (freeList ?s k)"
        using invD(6,7) [OF i, of k] fresh [of k] by (auto simp: insNew_list)
      moreover have "set (freeList ?s k) = head ` {m \<in> insert n F. ordr m = k}"
        using invD(7) [OF i, of k] by (auto simp: insNew_list)
      ultimately show "distinct (freeList ?s k) \<and> set (freeList ?s k) = head ` {m \<in> insert n F. ordr m = k}" ..
    qed
    show "\<forall>m. valid roots m \<and> 0 < ordr m \<longrightarrow> bbit ?s (ordr m - 1) (ppn (phys ?s) (head m)) = pair (insert n F) m"
      using bits by simp
  qed (use r invD(2,3,4,5) [OF i] n nF in auto)
qed

text \<open>Changes of the pages of used blocks.\<close>

definition same_but :: "nat set \<Rightarrow> Buddy \<Rightarrow> Buddy \<Rightarrow> bool" where
  "same_but P s s' \<longleftrightarrow> freeList s' = freeList s \<and> bm s' = bm s \<and> phys s' = phys s \<and>
     (\<forall>p. p \<notin> P \<longrightarrow> pg s' p = pg s p)"

lemma headok_same: "same_but P s s' \<Longrightarrow> head m \<notin> P \<Longrightarrow> headok s' m = headok s m"
  by (simp add: same_but_def headok_def)

lemma inv_used:
  assumes i: "buddy_inv roots F U s" and s: "same_but P s s'"
    and N: "N \<subseteq> U" and N': "\<forall>m\<in>N'. valid roots m \<and> headok s' m" "disj N'"
    and sp: "\<Union> (span ` N') = \<Union> (span ` N)" and P: "P \<subseteq> \<Union> (span ` N)"
  shows "buddy_inv roots F (U - N \<union> N') s'"
proof -
  have D: "disj (F \<union> U)" using invD(4) [OF i] .
  have apart: "span m \<inter> \<Union> (span ` N) = {}" if "m \<in> F \<union> (U - N)" for m
  proof -
    have m: "m \<notin> N" using that invD(5) [OF i] N by auto
    have "span m \<inter> span x = {}" if x: "x \<in> N" for x
    proof (rule disjD [OF D])
      show "m \<in> F \<union> U" using \<open>m \<in> F \<union> (U - N)\<close> by blast
      show "x \<in> F \<union> U" using x N by blast
      show "m \<noteq> x" using x m by blast
    qed
    then show ?thesis by blast
  qed
  have old: "valid roots m \<and> headok s' m" if "m \<in> F \<union> (U - N)" for m
  proof -
    have "head m \<notin> P" using apart [OF that] P head_in_span [of m] by blast
    then show ?thesis using invD(2,3) [OF i, of m] that headok_same [OF s] by auto
  qed
  have new: "span m \<inter> span x = {}" if "m \<in> F \<union> (U - N)" "x \<in> N'" for m x
    using apart [OF that(1)] sp that(2) by blast
  have D': "disj (F \<union> (U - N \<union> N'))"
    unfolding disj_def
  proof (intro ballI impI)
    fix x y assume x: "x \<in> F \<union> (U - N \<union> N')" and y: "y \<in> F \<union> (U - N \<union> N')" and ne: "x \<noteq> y"
    have od: "span x \<inter> span y = {}" if "x \<in> F \<union> U" "y \<in> F \<union> U"
      using disjD [OF D that ne] .
    have n: "span x \<inter> span y = {}" if "x \<in> N'" "y \<in> N'"
      using disjD [OF N'(2) that ne] .
    show "span x \<inter> span y = {}"
    proof (cases "x \<in> N'"; cases "y \<in> N'")
      assume "x \<notin> N'" "y \<notin> N'" then show ?thesis using od x y by blast
    next
      assume a: "x \<notin> N'" "y \<in> N'"
      then have "x \<in> F \<union> (U - N)" using x by blast
      then show ?thesis using new a(2) by blast
    next
      assume a: "x \<in> N'" "y \<notin> N'"
      then have "y \<in> F \<union> (U - N)" using y by blast
      from new [OF this a(1)] show ?thesis by (simp add: Int_commute)
    qed (rule n)
  qed
  have E: "F \<inter> (U - N \<union> N') = {}"
  proof -
    have "m \<notin> N'" if "m \<in> F" for m
      using new [of m m] that head_in_span [of m] by blast
    then show ?thesis using invD(5) [OF i] by blast
  qed
  have sm: "freeList s' = freeList s" "bm s' = bm s" "phys s' = phys s" using s by (auto simp: same_but_def)
  have b: "bbit s' = bbit s" by (simp add: bbit_def fun_eq_iff sm)
  show ?thesis
    unfolding buddy_inv_def b sm
  proof (intro conjI)
    show "\<forall>n\<in>F \<union> (U - N \<union> N'). valid roots n \<and> headok s' n" using old N'(1) by blast
    show "\<forall>n. valid roots n \<and> 0 < ordr n \<longrightarrow> bbit s (ordr n - 1) (ppn (phys s) (head n)) = pair F n"
      using invD(8) [OF i] by blast
    show "\<forall>k. distinct (freeList s k) \<and> set (freeList s k) = head ` {n \<in> F. ordr n = k}"
      using invD(6,7) [OF i] by blast
  qed (rule invD(1) [OF i] D' E)+
qed

text \<open>The concrete page updates.\<close>

lemma set_pg_sel [simp]:
  "freeList (set_pg p f s) = freeList s" "bm (set_pg p f s) = bm s" "buddyLock (set_pg p f s) = buddyLock s"
  "pg (set_pg p f s) q = (if q = p then f (pg s p) else pg s q)"
  by (simp_all add: set_pg_def)

lemma setOrder_sel [simp]:
  "freeList (MM_Buddy_setOrder p k s) = freeList s" "bm (MM_Buddy_setOrder p k s) = bm s"
  "buddyLock (MM_Buddy_setOrder p k s) = buddyLock s"
  "pg (MM_Buddy_setOrder p k s) q = (if q = p then Page_setOrder k (pg s p) else pg s q)"
  by (simp_all add: MM_Buddy_setOrder_def)

lemma valid_ordr: "roots_ok roots phy \<Longrightarrow> valid roots n \<Longrightarrow> ordr n < 16"
  using ordr_le [of roots phy n] by simp

lemma inv_split:
  assumes i: "buddy_inv roots F U s" and n: "n \<in> U" and k: "0 < ordr n"
    and s: "same_but {head n, head n + 2 ^ (ordr n - 1)} s s'" "headok s' (lch n)" "headok s' (rch n)"
  shows "buddy_inv roots F (U - {n} \<union> {lch n, rch n}) s'"
proof (rule inv_used [OF i s(1)])
  show "\<forall>m\<in>{lch n, rch n}. valid roots m \<and> headok s' m"
    using valid_ch [OF invD(2) [OF i UnI2, OF n] k] s by simp
  show "disj {lch n, rch n}" using span_ch(2) [OF k] by (auto simp: disj_def)
  show "\<Union> (span ` {lch n, rch n}) = \<Union> (span ` {n})" using span_ch(1) [OF k] by simp
  show "{head n, head n + 2 ^ (ordr n - 1)} \<subseteq> \<Union> (span ` {n})"
    using pow_split [OF k] by (simp add: span_def)
qed (use n in simp)

lemma inv_join:
  assumes i: "buddy_inv roots F U s" and n: "n \<in> U" "sib n \<in> U" and d: "0 < dep n"
    and s: "same_but {head n, head (sib n)} s s'" "headok s' (par n)"
  shows "buddy_inv roots F (U - {n, sib n} \<union> {par n}) s'"
proof (rule inv_used [OF i s(1)])
  note v = invD(2) [OF i UnI2, OF n(1)]
  show "\<forall>m\<in>{par n}. valid roots m \<and> headok s' m" using valid_par [OF v d] s by simp
  have "0 < ordr (par n)" using ordr_par [OF v d] by simp
  then show "\<Union> (span ` {par n}) = \<Union> (span ` {n, sib n})"
    using span_ch(1) [of "par n"] inv_bits_ch [OF v d] by (elim disjE conjE) (simp_all add: Un_commute)
  show "{head n, head (sib n)} \<subseteq> \<Union> (span ` {n, sib n})" by simp
qed (use n in \<open>auto simp: disj_def\<close>)

lemma inv_mark:
  assumes i: "buddy_inv roots F U s" and n: "n \<in> U"
    and s: "same_but {head n} s s'" "headok s' n"
  shows "buddy_inv roots F U s'"
proof -
  have "buddy_inv roots F (U - {n} \<union> {n}) s'"
    by (rule inv_used [OF i s(1)]) (use invD(2) [OF i UnI2, OF n] s n in \<open>auto simp: disj_def\<close>)
  then show ?thesis using n by (simp add: insert_absorb)
qed

section \<open>Allocation\<close>

lemma revBit_insNew: "revBit p (insNewFreePageFrame k q s) = insNewFreePageFrame k q (revBit p s)"
  by (simp add: revBit_def insNewFreePageFrame_def pairPos_def MM_Buddy_getOrder_def Let_def)

lemma phys_set:
  "phyAddr (f (pg s p)) = phyAddr (pg s p) \<Longrightarrow> phys (set_pg p f s) = phys s"
  "phys (MM_Buddy_setOrder p k s) = phys s"
  by (auto simp: phys_def fun_eq_iff)

lemma child_id:
  "2 * (2 ^ dep n + idx n) = 2 ^ dep (lch n) + idx (lch n)"
  "2 * (2 ^ dep n + idx n) + 1 = 2 ^ dep (rch n) + idx (rch n)"
  by simp_all

lemma not_in_used:
  assumes i: "buddy_inv roots F U s" and n: "n \<in> U" and m: "span m \<subseteq> span n" "m \<noteq> n"
  shows "m \<notin> F \<union> U"
  using disjD [OF invD(4) [OF i], of m n] n m head_in_span [of m] by blast

lemma ch_ne: "lch n \<noteq> n" "rch n \<noteq> n" "lch n \<noteq> rch n"
  by (cases n, simp add: lch_def rch_def)+

lemma HeadPage_or_order: "Page_order (g\<lparr>attr := attr g OR ucast Page_Flag_BuddyHeadPage\<rparr>) = Page_order g"
  by (rule Page_order_ext) (auto simp: bit_or_iff HeadPage_bits)

lemma inv_div_step:
  assumes i: "buddy_inv roots F U s" and n: "n \<in> U" and k: "0 < ordr n"
  shows "buddy_inv roots (insert (rch n) F) (U - {n} \<union> {lch n}) (divPageFrame_step (head n) (ordr n) s)"
proof -
  let ?p = "head n" and ?r = "head n + 2 ^ (ordr n - 1)" and ?k = "ordr n - 1"
  note r = invD(1) [OF i] and v = invD(2) [OF i UnI2, OF n] and h = invD(3) [OF i UnI2, OF n]
  have k16: "?k < 16" using valid_ordr [OF r v] by simp
  define s1 where "s1 = set_pg ?r (\<lambda>g. g\<lparr>buddyId := rChildPos (buddyId (pg s ?p))\<rparr>) s"
  define s2 where "s2 = set_pg ?p (\<lambda>g. g\<lparr>buddyId := lChildPos (buddyId g)\<rparr>) s1"
  define s3 where "s3 = MM_Buddy_setOrder ?p ?k (MM_Buddy_setOrder ?r ?k s2)"
  define s4 where "s4 = set_pg ?r (\<lambda>g. g\<lparr>attr := attr g OR ucast Page_Flag_BuddyHeadPage\<rparr>) s3"
  have st: "divPageFrame_step ?p (ordr n) s = insNewFreePageFrame ?k ?r (revBit ?r s4)"
    unfolding divPageFrame_step_def Let_def s1_def [symmetric] s2_def [symmetric] s3_def [symmetric]
      s4_def [symmetric] by (rule revBit_insNew)
  have ne: "?r \<noteq> ?p" by simp
  have pl: "pg s4 ?p = Page_setOrder ?k ((pg s ?p)\<lparr>buddyId := lChildPos (buddyId (pg s ?p))\<rparr>)"
    using ne by (simp add: s4_def s3_def s2_def s1_def)
  have pr: "pg s4 ?r = (Page_setOrder ?k ((pg s ?r)\<lparr>buddyId := rChildPos (buddyId (pg s ?p))\<rparr>))
      \<lparr>attr := attr (Page_setOrder ?k ((pg s ?r)\<lparr>buddyId := rChildPos (buddyId (pg s ?p))\<rparr>)) OR
        ucast Page_Flag_BuddyHeadPage\<rparr>"
    using ne by (simp add: s4_def s3_def s2_def s1_def)
  have hl: "headok s4 (lch n)"
    unfolding headok_def head_ch(1) [OF k] pl ordr_ch
    using headokD(1,3) [OF h] u16_children(1) child_id(1) [of n]
    by (simp add: Page_order_set [OF k16] Page_setOrder_bit [OF k16] del: One_nat_def node_sel of_nat_add of_nat_mult of_nat_power)
  have hr: "headok s4 (rch n)"
    unfolding headok_def head_ch(2) [OF k] pr ordr_ch HeadPage_or_order
    using headokD(3) [OF h] u16_children(2) child_id(2) [of n]
    by (simp add: Page_order_set [OF k16] HeadPage_bits bit_or_iff del: One_nat_def node_sel of_nat_add of_nat_mult of_nat_power)
  have sb: "same_but {?p, ?r} s s4"
    by (simp add: same_but_def s4_def s3_def s2_def s1_def phys_set)
  have "buddy_inv roots F (U - {n} \<union> {lch n, rch n}) s4" by (rule inv_split [OF i n k sb hl hr])
  from inv_give [OF this, of "rch n"]
  have g: "buddy_inv roots (insert (rch n) F) (U - {n} \<union> {lch n, rch n} - {rch n})
      (insNewFreePageFrame ?k ?r (revBit ?r s4))"
    by (simp add: head_ch(2) [OF k])
  have "rch n \<notin> U"
    using not_in_used [OF i n, of "rch n"] span_ch(1) [OF k] ch_ne(2) by blast
  then have "U - {n} \<union> {lch n, rch n} - {rch n} = U - {n} \<union> {lch n}" using ch_ne(3) [of n] by auto
  with g st show ?thesis by simp
qed

lemma inv_div:
  assumes "buddy_inv roots F U s" "n \<in> U" "ordr n = i" "to \<le> i"
  shows "\<exists>F' n'. buddy_inv roots F' (U - {n} \<union> {n'}) (divPageFrame (head n) i to s) \<and>
    head n' = head n \<and> ordr n' = to \<and> F \<subseteq> F' \<and>
    \<Union> (span ` F') = \<Union> (span ` F) \<union> (span n - span n')"
  using assms
proof (induction i arbitrary: F U s n)
  case 0
  then show ?case by (intro exI [of _ F] exI [of _ n]) (auto simp: insert_absorb)
next
  case (Suc i)
  show ?case
  proof (cases "to < Suc i")
    case False
    then show ?thesis using Suc.prems by (intro exI [of _ F] exI [of _ n]) (auto simp: insert_absorb)
  next
    case True
    let ?s = "divPageFrame_step (head n) (Suc i) s"
    have k: "0 < ordr n" using Suc.prems(3) by simp
    have i1: "buddy_inv roots (insert (rch n) F) (U - {n} \<union> {lch n}) ?s"
      using inv_div_step [OF Suc.prems(1,2) k] Suc.prems(3) by simp
    have "lch n \<in> U - {n} \<union> {lch n}" "ordr (lch n) = i" "to \<le> i"
      using Suc.prems(3) True by auto
    from Suc.IH [OF i1 this] obtain F' n' where f:
      "buddy_inv roots F' (U - {n} \<union> {lch n} - {lch n} \<union> {n'}) (divPageFrame (head (lch n)) i to ?s)"
      "head n' = head (lch n)" "ordr n' = to" "insert (rch n) F \<subseteq> F'"
      "\<Union> (span ` F') = \<Union> (span ` insert (rch n) F) \<union> (span (lch n) - span n')"
      by blast
    have "lch n \<notin> U"
      using not_in_used [OF Suc.prems(1,2), of "lch n"] span_ch(1) [OF k] ch_ne(1) by blast
    then have U: "U - {n} \<union> {lch n} - {lch n} \<union> {n'} = U - {n} \<union> {n'}" by blast
    have sub: "span n' \<subseteq> span (lch n)"
      using f(2,3) \<open>ordr (lch n) = i\<close> \<open>to \<le> i\<close> power_increasing [of to i "2::nat"] by (auto simp: span_def)
    have "\<Union> (span ` F') = \<Union> (span ` F) \<union> (span n - span n')"
      unfolding f(5) using span_ch [OF k] sub by auto
    then show ?thesis using f U True head_ch(1) [OF k] by (intro exI [of _ F'] exI [of _ n']) auto
  qed
qed

lemma inv_takeFrame:
  assumes i: "buddy_inv roots F U s" and n: "n \<in> F" and to: "to \<le> ordr n"
  shows "\<exists>F' n'. buddy_inv roots F' (insert n' U) (takeFrame (ordr n) (head n) to a s) \<and>
    n' \<notin> U \<and> head n' = head n \<and> ordr n' = to \<and> F - {n} \<subseteq> F' \<and>
    \<Union> (span ` F') \<union> span n' = \<Union> (span ` F)"
proof -
  define s1 where "s1 = revBit (head n) (rmFreePageFrame (ordr n) (head n) s)"
  have i1: "buddy_inv roots (F - {n}) (insert n U) s1"
    unfolding s1_def by (rule inv_take [OF i n])
  have nU: "n \<notin> U" using invD(5) [OF i] n by auto
  then have U: "insert n U - {n} = U" by simp
  from inv_div [OF i1 _ refl to] obtain F' n' where f:
    "buddy_inv roots F' (U \<union> {n'}) (divPageFrame (head n) (ordr n) to s1)"
    "head n' = head n" "ordr n' = to" "F - {n} \<subseteq> F'"
    "\<Union> (span ` F') = \<Union> (span ` (F - {n})) \<union> (span n - span n')"
    unfolding U by blast
  define s2 where "s2 = divPageFrame (head n) (ordr n) to s1"
  define s3 where "s3 = MM_Buddy_setOrder (head n) to
      (set_pg (head n) (\<lambda>g. g\<lparr>attr := ucast (a OR Page_Flag_BuddyHeadPage)\<rparr>) s2)"
  have tk: "takeFrame (ordr n) (head n) to a s = s3"
    by (simp add: takeFrame_def Let_def s3_def s2_def s1_def)
  have f1: "buddy_inv roots F' (insert n' U) s2" using f(1) by (simp add: s2_def)
  have h: "headok s2 n'" and v: "valid roots n'" using invD(2,3) [OF f1, of n'] by auto
  have to16: "to < 16" using valid_ordr [OF invD(1) [OF f1] v] f(3) by simp
  have "same_but {head n'} s2 s3"
    by (simp add: same_but_def s3_def phys_set f(2))
  moreover have "headok s3 n'"
    using headokD(3) [OF h] f(2,3) to16
    by (simp add: headok_def s3_def Page_order_set Page_setOrder_bit bit_or_iff bit_ucast_iff HeadPage_bit)
  ultimately have "buddy_inv roots F' (insert n' U) s3"
    using inv_mark [OF f1, of n'] by simp
  moreover have "n' \<notin> U"
  proof
    assume "n' \<in> U"
    then have "span n \<inter> span n' = {}"
      using disjD [OF invD(4) [OF i], of n n'] n nU by blast
    moreover have "head n \<in> span n \<inter> span n'"
      using f(2) head_in_span [of n] head_in_span [of n'] by simp
    ultimately show False by blast
  qed
  moreover have "\<Union> (span ` F') \<union> span n' = \<Union> (span ` F)"
  proof -
    have "span n' \<subseteq> span n"
      using f(2,3) to power_increasing [of to "ordr n" "2::nat"] by (auto simp: span_def)
    then show ?thesis unfolding f(5) using n by auto
  qed
  ultimately show ?thesis using f tk by blast
qed

lemma lowbit_dvd:
  assumes "2 ^ k dvd unat (x :: u64)" "x \<noteq> 0" "k < 64"
  shows "k \<le> unat (log2 (lowbit x))" "unat (log2 (lowbit x)) < 64"
proof -
  have ne: "lowbit x \<noteq> 0"
  proof
    assume "lowbit x = 0"
    then have "x + - x = x OR - x" by (intro disjunctive_add_eq_or) (simp add: lowbit_def)
    then have z: "x OR - x = 0" by simp
    have "\<not> bit x i" for i
      using arg_cong [OF z, of "\<lambda>w. bit w i"] by (simp add: bit_or_iff)
    then have "x = 0" by (intro bit_word_eqI) simp
    then show False using assms(2) by simp
  qed
  obtain c where "unat x = 2 ^ k * c" using assms(1) by blast
  then have c: "unat x = push_bit k c" by (simp add: push_bit_eq_mult mult.commute)
  have low: "k \<le> i" if "bit x i" for i
  proof -
    have "bit (unat x) i" using that by (simp add: bit_unsigned_iff)
    then show ?thesis unfolding c by (simp add: bit_push_bit_iff)
  qed
  have lb: "k \<le> i" if "bit (lowbit x) i" for i
    using that low [of i] by (simp add: lowbit_def bit_and_iff)
  have "lowbit x = push_bit k (drop_bit k (lowbit x))"
  proof (rule bit_word_eqI)
    fix i assume "i < LENGTH(64)"
    then show "bit (lowbit x) i = bit (push_bit k (drop_bit k (lowbit x))) i"
      using lb [of i] by (cases "k \<le> i") (auto simp: bit_push_bit_iff bit_drop_bit_eq)
  qed
  then have "unat (lowbit x) = unat (push_bit k (drop_bit k (lowbit x)))" by simp
  then have d: "2 ^ k dvd unat (lowbit x)"
    by (simp add: unsigned_push_bit_eq take_bit_push_bit) (simp add: push_bit_eq_mult)
  have "unat (lowbit x) \<noteq> 0" using ne by (simp add: unat_eq_0)
  with d have "2 ^ k \<le> unat (lowbit x)" by (intro dvd_imp_le) simp_all
  also have "unat (lowbit x) < 2 ^ (unat (log2 (lowbit x)) + 1)" using log2_bounds [OF ne] by simp
  finally have "k < unat (log2 (lowbit x)) + 1" by (rule power_less_imp_less_exp [rotated]) simp
  then show "k \<le> unat (log2 (lowbit x))" by simp
  show "unat (log2 (lowbit x)) < 64" by (rule log2_le [OF ne])
qed

lemma scast_small:
  assumes "unat (w :: i32) < 2 ^ 31" shows "unat (scast w :: u64) = unat w"
proof -
  have b: "\<not> bit w i" if "31 \<le> i" for i
    using bit_small_nat [OF assms, of i] that by (auto simp: bit_unsigned_iff)
  have "(scast w :: u64) = ucast w"
    using b by (intro bit_word_eqI) (auto simp: bit_signed_iff bit_ucast_iff min_def)
  then show ?thesis
    using assms by (simp add: unat_ucast_mod)
qed

lemma alignError_no:
  assumes r: "roots_ok roots (phys s)" and v: "valid roots n" and k: "ordr n = unat log2Size"
  shows "\<not> alignError (head n) log2Size s"
proof (cases "phyAddr (pg s (head n)) = 0")
  case True
  have "log2 (lowbit 0) = 0" by (simp add: lowbit_def log2_def log2_step_def)
  moreover have "unat log2Size < 16" using valid_ordr [OF r v] k by simp
  ultimately show ?thesis
    by (simp add: alignError_def True word_less_nat_alt)
next
  case False
  let ?L = "log2 (lowbit (phyAddr (pg s (head n))))"
  have o15: "ordr n \<le> 15" by (rule ordr_le [OF r v])
  have "2 ^ (ordr n + 12) dvd unat (phyAddr (pg s (head n)))"
    using phy_head(2) [OF r v] by (simp add: phys_def)
  from lowbit_dvd [OF this False] o15
  have L: "ordr n + 12 \<le> unat ?L" "unat ?L < 64" by simp_all
  then have u: "unat (?L - 12) = unat ?L - 12"
    by (subst unat_minus_le) (simp_all add: word_le_nat_alt)
  have "unat (scast (?L - 12) :: u64) = unat ?L - 12"
    using scast_small [of "?L - 12"] u L by simp
  then show ?thesis using L k by (simp add: alignError_def word_less_nat_alt)
qed

section \<open>The allocators\<close>

lemma lock_inv [simp]:
  "buddy_inv roots F U (s\<lparr>buddyLock := l\<rparr>) = buddy_inv roots F U s"
  "buddy_inv roots F U (Buddy_unlock s) = buddy_inv roots F U s"
  "buddy_inv roots F U (recordAlloc cur p k s) = buddy_inv roots F U s"
  "buddy_inv roots F U (forgetUsage cur p s) = buddy_inv roots F U s"
  by (auto simp: buddy_inv_def phys_def [abs_def] headok_def bbit_def Buddy_unlock_def recordAlloc_def forgetUsage_def)

lemma Buddy_lock_free: "lock (buddyLock s) = 0 \<Longrightarrow> Buddy_lock s = Some (s\<lparr>buddyLock := (buddyLock s)\<lparr>lock := 1\<rparr>\<rparr>)"
  by (simp add: Buddy_lock_def SpinLock_acquire_free)

text \<open>Everything the allocators share: a free block of a sufficient order is taken.\<close>

lemma alloc_step:
  assumes i: "buddy_inv roots F U s" and p: "p \<in> set (freeList s k)" and to: "unat log2Size \<le> k"
  shows "\<exists>F' n. buddy_inv roots F' (insert n U) (takeFrame k p (unat log2Size) a s) \<and>
    n \<notin> U \<and> head n = p \<and> ordr n = unat log2Size \<and> \<Union> (span ` F') \<union> span n = \<Union> (span ` F) \<and>
    \<not> alignError p log2Size (takeFrame k p (unat log2Size) a s) \<and>
    2 ^ (unat log2Size + 12) dvd unat (phyAddr (pg s p))"
proof -
  obtain m where m: "m \<in> F" "ordr m = k" "head m = p" using p invD(7) [OF i, of k] by auto
  let ?s = "takeFrame k p (unat log2Size) a s"
  from inv_takeFrame [OF i m(1), of "unat log2Size" a] to m obtain F' n where
    f: "buddy_inv roots F' (insert n U) ?s" "n \<notin> U" "head n = p" "ordr n = unat log2Size"
       "\<Union> (span ` F') \<union> span n = \<Union> (span ` F)" by auto
  have v: "valid roots n" using invD(2) [OF f(1), of n] by simp
  have al: "\<not> alignError p log2Size ?s" using alignError_no [OF invD(1) [OF f(1)] v f(4)] f(3) by simp
  have vm: "valid roots m" using invD(2) [OF i, of m] m(1) by simp
  have "2 ^ (ordr m + 12) dvd unat (phys s (head m))" by (rule phy_head(2) [OF invD(1) [OF i] vm])
  then have "2 ^ (k + 12) dvd unat (phyAddr (pg s p))" using m by (simp add: phys_def)
  moreover have "(2::nat) ^ (unat log2Size + 12) dvd 2 ^ (k + 12)" using to by (intro le_imp_power_dvd) simp
  ultimately have "2 ^ (unat log2Size + 12) dvd unat (phyAddr (pg s p))" by (rule dvd_trans [rotated])
  with f al show ?thesis by blast
qed

definition unlocked :: "Buddy \<Rightarrow> bool" where "unlocked s \<longleftrightarrow> lock (buddyLock s) = 0"

lemma div_lock [simp]: "buddyLock (divPageFrame_step p i s) = buddyLock s"
  by (simp add: divPageFrame_step_def Let_def)

lemma divs_lock [simp]: "buddyLock (divPageFrame p i to s) = buddyLock s"
  by (induction p i to s rule: divPageFrame.induct) simp_all

lemma unlock_unlocked [simp]: "unlocked (Buddy_unlock s)"
  by (simp add: unlocked_def Buddy_unlock_def SpinLock_unlock_def)

lemma record_unlocked [simp]: "unlocked (recordAlloc cur p k s) = unlocked s"
  by (simp add: unlocked_def recordAlloc_def)

text \<open>
  What an allocation promises: the block returned was free, has the requested order, is
  aligned to its size and apart from every block in use; everything else stays as it was.
\<close>

definition alloc_post :: "(nat \<times> nat) set \<Rightarrow> node set \<Rightarrow> node set \<Rightarrow> u64 \<Rightarrow> Buddy \<Rightarrow> nat \<Rightarrow> Buddy \<Rightarrow> bool" where
  "alloc_post roots F U log2Size s p s' \<longleftrightarrow>
     (\<exists>F' n. buddy_inv roots F' (insert n U) s' \<and> unlocked s' \<and> n \<notin> U \<and> head n = p \<and>
        ordr n = unat log2Size \<and> \<Union> (span ` F') \<union> span n = \<Union> (span ` F) \<and>
        2 ^ (unat log2Size + 12) dvd unat (phyAddr (pg s p)))"

lemma alloc_big: "(log2Size :: u64) > of_nat Buddy_maxOrder \<longleftrightarrow> 15 < unat log2Size"
  by (simp add: word_less_nat_alt Buddy_maxOrder_def)

lemma alloc_spec:
  assumes i: "buddy_inv roots F U s" and l: "unlocked s"
  shows "\<exists>r s'. MM_Buddy_alloc cur log2Size a s = Some (r, s') \<and>
    (case r of
       Some p \<Rightarrow> alloc_post roots F U log2Size s p s'
     | None \<Rightarrow> buddy_inv roots F U s' \<and> unlocked s' \<and> (\<forall>n\<in>F. ordr n < unat log2Size))"
proof -
  define s0 where "s0 = s\<lparr>buddyLock := (buddyLock s)\<lparr>lock := 1\<rparr>\<rparr>"
  have lk: "Buddy_lock s = Some s0" using l by (simp add: s0_def unlocked_def Buddy_lock_free)
  have i0: "buddy_inv roots F U s0" using i by (simp add: s0_def)
  have small: "ordr n \<le> 15" if "n \<in> F" for n
    using ordr_le [OF invD(1) [OF i] invD(2) [OF i]] that by auto
  show ?thesis
  proof (cases "15 < unat log2Size")
    case True
    then have "MM_Buddy_alloc cur log2Size a s = Some (None, Buddy_unlock s0)"
      by (simp add: MM_Buddy_alloc_def lk alloc_big)
    moreover have "\<forall>n\<in>F. ordr n < unat log2Size" using small True by fastforce
    ultimately show ?thesis using i0 by simp
  next
    case False
    note nb = False
    show ?thesis
    proof (cases "List.find (\<lambda>ord. freeList s0 ord \<noteq> []) [unat log2Size..<Suc Buddy_maxOrder]")
      case None
      then have "MM_Buddy_alloc cur log2Size a s = Some (None, Buddy_unlock s0)"
        using nb by (simp add: MM_Buddy_alloc_def lk alloc_big)
      moreover have "ordr n < unat log2Size" if n: "n \<in> F" for n
      proof (rule ccontr)
        assume "\<not> ordr n < unat log2Size"
        then have "freeList s0 (ordr n) = []"
          using None small [OF n] unfolding find_order(2) Buddy_maxOrder_def by auto
        moreover have "head n \<in> set (freeList s0 (ordr n))" using invD(7) [OF i0, of "ordr n"] n by auto
        ultimately show False by simp
      qed
      ultimately show ?thesis using i0 by simp
    next
      case (Some k)
      let ?p = "hd (freeList s0 k)"
      have k: "unat log2Size \<le> k" "freeList s0 k \<noteq> []" using Some unfolding find_order(1) by auto
      from alloc_step [OF i0 _ k(1), of ?p a] k(2) obtain F' n where f:
        "buddy_inv roots F' (insert n U) (takeFrame k ?p (unat log2Size) a s0)" "n \<notin> U" "head n = ?p"
        "ordr n = unat log2Size" "\<Union> (span ` F') \<union> span n = \<Union> (span ` F)"
        "\<not> alignError ?p log2Size (takeFrame k ?p (unat log2Size) a s0)"
        "2 ^ (unat log2Size + 12) dvd unat (phyAddr (pg s0 ?p))" by auto
      define s1 where "s1 = Buddy_unlock (takeFrame k ?p (unat log2Size) a s0)"
      define s2 where "s2 = (if recordUsage a then recordAlloc cur ?p (unat log2Size) s1 else s1)"
      have "MM_Buddy_alloc cur log2Size a s = Some (Some ?p, s2)"
        using nb f(6) Some by (simp add: MM_Buddy_alloc_def lk alloc_big Let_def s1_def s2_def)
      moreover have "buddy_inv roots F' (insert n U) s2" "unlocked s2"
        using f(1) by (simp_all add: s2_def s1_def)
      moreover have "pg s0 = pg s" by (simp add: s0_def)
      ultimately show ?thesis using f unfolding alloc_post_def by auto
    qed
  qed
qed

lemma alloc4G_spec:
  assumes i: "buddy_inv roots F U s" and l: "unlocked s"
  shows "\<exists>r s'. MM_Buddy_alloc4G cur log2Size a s = Some (r, s') \<and>
    (case r of
       Some p \<Rightarrow> alloc_post roots F U log2Size s p s' \<and> unat (phyAddr (pg s p)) < 2 ^ 32
     | None \<Rightarrow> buddy_inv roots F U s' \<and> unlocked s' \<and>
         (\<forall>n\<in>F. unat log2Size \<le> ordr n \<longrightarrow> 2 ^ 32 \<le> unat (phyAddr (pg s (head n)))))"
proof -
  define s0 where "s0 = s\<lparr>buddyLock := (buddyLock s)\<lparr>lock := 1\<rparr>\<rparr>"
  have lk: "Buddy_lock s = Some s0" using l by (simp add: s0_def unlocked_def Buddy_lock_free)
  have i0: "buddy_inv roots F U s0" and pg: "pg s0 = pg s" using i by (simp_all add: s0_def)
  have small: "ordr n \<le> 15" if "n \<in> F" for n
    using ordr_le [OF invD(1) [OF i] invD(2) [OF i]] that by auto
  have G: "(x :: u64) < push_bit 32 1 \<longleftrightarrow> unat x < 2 ^ 32" for x
    by (simp add: word_less_nat_alt push_bit_eq_mult)
  show ?thesis
  proof (cases "15 < unat log2Size")
    case True
    then have "MM_Buddy_alloc4G cur log2Size a s = Some (None, Buddy_unlock s0)"
      by (simp add: MM_Buddy_alloc4G_def lk alloc_big)
    moreover have "\<forall>n\<in>F. \<not> unat log2Size \<le> ordr n" using small True by fastforce
    ultimately show ?thesis using i0 by simp
  next
    case False
    note nb = False
    show ?thesis
    proof (cases "List.find (\<lambda>ord. below4G s0 ord \<noteq> None) [unat log2Size..<Suc Buddy_maxOrder]")
      case None
      then have "MM_Buddy_alloc4G cur log2Size a s = Some (None, Buddy_unlock s0)"
        using nb by (simp add: MM_Buddy_alloc4G_def lk alloc_big)
      moreover have "2 ^ 32 \<le> unat (phyAddr (pg s (head n)))" if n: "n \<in> F" "unat log2Size \<le> ordr n" for n
      proof -
        have "below4G s0 (ordr n) = None"
          using None small [OF n(1)] n(2) unfolding find_order(2) Buddy_maxOrder_def by auto
        moreover have "head n \<in> set (freeList s0 (ordr n))" using invD(7) [OF i0, of "ordr n"] n by auto
        ultimately show ?thesis by (auto simp: below4G_def find_None_iff pg word_less_nat_alt not_less)
      qed
      ultimately show ?thesis using i0 by simp
    next
      case (Some k)
      then have k: "unat log2Size \<le> k" "below4G s0 k \<noteq> None" unfolding find_order(1) by auto
      then obtain p where p: "below4G s0 k = Some p" by auto
      then have ps: "p \<in> set (freeList s0 k)" "unat (phyAddr (pg s p)) < 2 ^ 32"
        by (auto simp: below4G_def find_Some_iff pg word_less_nat_alt)
      from alloc_step [OF i0 ps(1) k(1), of a] obtain F' n where f:
        "buddy_inv roots F' (insert n U) (takeFrame k p (unat log2Size) a s0)" "n \<notin> U" "head n = p"
        "ordr n = unat log2Size" "\<Union> (span ` F') \<union> span n = \<Union> (span ` F)"
        "2 ^ (unat log2Size + 12) dvd unat (phyAddr (pg s0 p))" by auto
      define s1 where "s1 = takeFrame k p (unat log2Size) a s0"
      define s2 where "s2 = Buddy_unlock (if recordUsage a then recordAlloc cur p (unat log2Size) s1 else s1)"
      have "MM_Buddy_alloc4G cur log2Size a s = Some (Some p, s2)"
        using nb Some p by (simp add: MM_Buddy_alloc4G_def lk alloc_big Let_def s1_def s2_def)
      moreover have "buddy_inv roots F' (insert n U) s2" "unlocked s2"
        using f(1) by (simp_all add: s2_def s1_def)
      ultimately show ?thesis using f ps(2) pg unfolding alloc_post_def by auto
    qed
  qed
qed

section \<open>Freeing\<close>

lemma sib_head:
  assumes "0 < dep n"
  shows "head (sib n) = (if even (idx n) then head n + 2 ^ ordr n else head n - 2 ^ ordr n)"
  by (auto simp: head_def sib_def ordr_def algebra_simps elim!: oddE)

lemma par_id: 
  assumes "0 < dep n" shows "(2 ^ dep n + idx n) div 2 = 2 ^ dep (par n) + idx (par n)"
proof -
  obtain d where "dep n = Suc d" using assms by (cases "dep n") auto
  then show ?thesis by simp
qed

lemma head_par: "0 < dep n \<Longrightarrow> valid roots n \<Longrightarrow> head (par n) = (if even (idx n) then head n else head (sib n))"
  using head_ch(1) [of "par n"] ordr_par [of roots n] ch_par [of n] by (cases "even (idx n)") simp_all

lemma getBit_after_rev:
  assumes i: "buddy_inv roots F U s" and n: "n \<in> U"
  shows "getBit (head n) (revBit (head n) s) \<noteq> 0 \<longleftrightarrow> dep n = 0 \<or> sib n \<notin> F"
proof -
  note r = invD(1) [OF i] and v = invD(2) [OF i UnI2, OF n] and h = invD(3) [OF i UnI2, OF n]
  show ?thesis
  proof (cases "dep n = 0")
    case True
    then have "buddyId (pg s (head n)) = 1" using root_id [OF r v h] by simp
    then show ?thesis using True by (simp add: revBit_root getBit_root)
  next
    case False
    then have d: "0 < dep n" by simp
    let ?s = "revBit (head n) s"
    have ne: "buddyId (pg ?s (head n)) \<noteq> 1" using root_id [OF r v h] d by simp
    have pp: "pairPos (head n) ?s = pairPos (head n) s" "MM_Buddy_getOrder (head n) ?s = ordr n"
      using headokD(2) [OF h] by (simp_all add: pairPos_def MM_Buddy_getOrder_def)
    have op: "ordr (par n) - 1 = ordr n" "0 < ordr (par n)" using ordr_par [OF v d] by simp_all
    have "n \<notin> F" using invD(5) [OF i] n by auto
    then have "pair F (par n) \<longleftrightarrow> sib n \<in> F" using inv_bits_ch [OF v d] by (auto simp: pair_def)
    moreover have "bbit ?s (ordr n) (ppn (phys s) (head (par n))) = (\<not> pair F (par n))"
      using revBit_inv_bit [OF r v h d valid_par [OF v d] op(2)] invD(8) [OF i valid_par [OF v d] op(2)] op(1)
      by simp
    ultimately show ?thesis
      unfolding getBit_bit [OF ne] pp pairPos_spec [OF r v h d] using d by simp
  qed
qed

lemma revBit_sib:
  assumes r: "roots_ok roots (phys s)" and v: "valid roots n" and h: "headok s n" "headok s (sib n)" and d: "0 < dep n"
  shows "revBit (head (sib n)) s = revBit (head n) s"
proof -
  have vs: "valid roots (sib n)" by (rule valid_sib [OF v d])
  have "pairPos (head (sib n)) s = pairPos (head n) s"
    using pairPos_spec [OF r v h(1) d] pairPos_spec [OF r vs h(2)] d par_sib [OF d]
    by (simp add: word_unat_eq_iff)
  moreover have "buddyId (pg s (head n)) \<noteq> 1" "buddyId (pg s (head (sib n))) \<noteq> 1"
    using root_id [OF r v h(1)] root_id [OF r vs h(2)] d by simp_all
  ultimately show ?thesis using headokD(2) [OF h(1)] headokD(2) [OF h(2)] by (simp add: revBit_def Let_def)
qed

lemma revBit_rm: "revBit p (rmFreePageFrame k q s) = rmFreePageFrame k q (revBit p s)"
  by (simp add: revBit_def rmFreePageFrame_def pairPos_def MM_Buddy_getOrder_def Let_def)

lemma rm_sel [simp]:
  "pg (rmFreePageFrame k q s) = pg s" "buddyLock (rmFreePageFrame k q s) = buddyLock s"
  "headok (rmFreePageFrame k q s) n = headok s n"
  by (simp_all add: rmFreePageFrame_def headok_def)

definition merge_pages :: "nat \<Rightarrow> nat \<Rightarrow> nat \<Rightarrow> Buddy \<Rightarrow> Buddy" where
  "merge_pages i rChild lChild s =
    MM_Buddy_setOrder lChild (i + 1) (MM_Buddy_setOrder rChild 0
      (set_pg lChild (\<lambda>g. g\<lparr>buddyId := parentPos (buddyId g)\<rparr>)
      (set_pg rChild (\<lambda>g. g\<lparr>buddyId := 0\<rparr>)
      (set_pg lChild (\<lambda>g. g\<lparr>attr := ucast Page_Flag_BuddyHeadPage\<rparr>)
      (set_pg rChild (\<lambda>g. g\<lparr>attr := 0\<rparr>) s)))))"

lemma free_merge_Suc:
  "free_merge (Suc m) i p s =
    (let s = revBit p s in
     if getBit p s \<noteq> 0 then (p, s)
     else let buddy = MM_Buddy_getBuddy p s; s = rmFreePageFrame i buddy s;
              rChild = (if isRight (buddyId (pg s p)) then p else buddy);
              lChild = (if isRight (buddyId (pg s p)) then buddy else p)
          in free_merge m (i + 1) lChild (merge_pages i rChild lChild s))"
  by (simp add: merge_pages_def Let_def)

lemma merge_step:
  assumes i: "buddy_inv roots F U s" and n: "n \<in> U" and d: "0 < dep n" and sF: "sib n \<in> F"
    and s': "s' = merge_pages (ordr n) (if odd (idx n) then head n else head (sib n))
      (if odd (idx n) then head (sib n) else head n) (rmFreePageFrame (ordr n) (head (sib n)) (revBit (head n) s))"
  shows "buddy_inv roots (F - {sib n}) (U - {n} \<union> {par n}) s'"
proof -
  note r = invD(1) [OF i] and v = invD(2) [OF i UnI2, OF n] and h = invD(3) [OF i UnI2, OF n]
  have hs: "headok s (sib n)" and vs: "valid roots (sib n)" using invD(2,3) [OF i, of "sib n"] sF by auto
  define s1 where "s1 = rmFreePageFrame (ordr n) (head (sib n)) (revBit (head n) s)"
  have "s1 = revBit (head (sib n)) (rmFreePageFrame (ordr (sib n)) (head (sib n)) s)"
    using revBit_sib [OF r v h hs d] by (simp add: s1_def revBit_rm)
  then have i1: "buddy_inv roots (F - {sib n}) (insert (sib n) U) s1"
    using inv_take [OF i sF] by simp
  have sU: "sib n \<notin> U" using invD(5) [OF i] sF by auto
  let ?r = "if odd (idx n) then head n else head (sib n)"
  let ?l = "if odd (idx n) then head (sib n) else head n"
  let ?m = "if odd (idx n) then sib n else n"
  have ne: "?r \<noteq> ?l" using sib_head [OF d] disj_heads [OF invD(4) [OF i], of n "sib n"] n sF sib_ne [of n] by auto
  have lm: "?l = head ?m" "dep ?m = dep n" "par ?m = par n" "headok s ?m" "valid roots ?m" "even (idx ?m)"
    using par_sib [OF d] h hs v vs by (auto simp: sib_def)
  have "(pg s1) = pg s" by (simp add: s1_def)
  then have pl: "pg s' ?l = Page_setOrder (Suc (ordr n)) ((pg s ?l)\<lparr>attr := ucast Page_Flag_BuddyHeadPage,
      buddyId := parentPos (buddyId (pg s ?l))\<rparr>)"
    unfolding s' s1_def [symmetric] merge_pages_def using ne by (simp split del: if_split)
  have sb: "same_but {?l, ?r} s1 s'"
    unfolding s' s1_def [symmetric] merge_pages_def
    by (simp add: same_but_def phys_set split del: if_split)
  have k16: "Suc (ordr n) < 16"
    using valid_ordr [OF r valid_par [OF v d]] ordr_par [OF v d] by simp
  have hp: "head (par n) = ?l" using head_par [OF d v] by simp
  have "headok s' (par n)"
    unfolding headok_def hp pl
    using headokD(3) [OF lm(4)] lm(1,2,3) par_id [of ?m] d ordr_par [OF v d] id_less [OF r lm(5)]
    by (simp add: Page_order_set [OF k16] Page_setOrder_bit [OF k16] HeadPage_bits u16_children(3)
        del: Suc_eq_plus1 of_nat_add of_nat_power split del: if_split)
  moreover have "{?l, ?r} = {head n, head (sib n)}" by auto
  ultimately have "buddy_inv roots (F - {sib n}) (insert (sib n) U - {n, sib n} \<union> {par n}) s'"
    using inv_join [OF i1 _ _ d] n sb by simp
  moreover have "insert (sib n) U - {n, sib n} = U - {n}" using sU by auto
  ultimately show ?thesis by simp
qed

lemma free_merge_spec:
  assumes "buddy_inv roots F U s" "n \<in> U" "ordr n = i" "16 \<le> m + i"
  shows "\<exists>F' n' s'. free_merge m i (head n) s = (head n', s') \<and>
    buddy_inv roots (insert n' F') (U - {n}) (insNewFreePageFrame (MM_Buddy_getOrder (head n') s') (head n') s') \<and>
    n' \<notin> F' \<and> F' \<subseteq> F \<and> \<Union> (span ` F') \<union> span n' = \<Union> (span ` F) \<union> span n \<and>
    (dep n' = 0 \<or> sib n' \<notin> F') \<and> buddyLock s' = buddyLock s"
  using assms
proof (induction m arbitrary: F U s n i)
  case 0
  then show ?case
    using ordr_le [OF invD(1) [OF 0(1)] invD(2) [OF 0(1) UnI2, OF 0(2)]] by simp
next
  case (Suc m)
  note i = Suc.prems(1) and n = Suc.prems(2)
  note r = invD(1) [OF i] and v = invD(2) [OF i UnI2, OF n] and h = invD(3) [OF i UnI2, OF n]
  let ?s = "revBit (head n) s"
  note gb = getBit_after_rev [OF i n]
  show ?case
  proof (cases "dep n = 0 \<or> sib n \<notin> F")
    case True
    then have "free_merge (Suc m) i (head n) s = (head n, ?s)"
      using gb by (simp add: Let_def)
    moreover have "MM_Buddy_getOrder (head n) ?s = ordr n"
      using headokD(2) [OF h] by (simp add: MM_Buddy_getOrder_def)
    moreover have "n \<notin> F" using invD(5) [OF i] n by auto
    ultimately show ?thesis
      using inv_give [OF i n] True by (intro exI [of _ F] exI [of _ n] exI [of _ ?s]) auto
  next
    case False
    then have d: "0 < dep n" and sF: "sib n \<in> F" by auto
    have b: "MM_Buddy_getBuddy (head n) ?s = head (sib n)"
      using headokD(2) [OF h] id_parity(2) [OF h d] sib_head [OF d]
      by (simp add: MM_Buddy_getBuddy_def MM_Buddy_getOrder_def)
    define s' where "s' = merge_pages (ordr n) (if odd (idx n) then head n else head (sib n))
      (if odd (idx n) then head (sib n) else head n) (rmFreePageFrame (ordr n) (head (sib n)) ?s)"
    have i': "buddy_inv roots (F - {sib n}) (U - {n} \<union> {par n}) s'"
      by (rule merge_step [OF i n d sF s'_def])
    have lc: "(if odd (idx n) then head (sib n) else head n) = head (par n)"
      using head_par [OF d v] by simp
    have f: "free_merge (Suc m) i (head n) s = free_merge m (i + 1) (head (par n)) s'"
      unfolding free_merge_Suc Let_def b
      using gb False id_parity(1) [OF h d] Suc.prems(3) lc by (simp add: s'_def)
    have op: "ordr (par n) = i + 1" using ordr_par [OF v d] Suc.prems(3) by simp
    have "0 < ordr (par n)" using op by simp
    then have sp: "span (par n) = span n \<union> span (sib n)"
      using span_ch(1) [of "par n"] inv_bits_ch [OF v d] by (elim disjE conjE) (simp_all add: Un_commute)
    have "par n \<in> U - {n} \<union> {par n}" "16 \<le> m + (i + 1)" using Suc.prems(4) by auto
    from Suc.IH [OF i' this(1) op this(2)] obtain F' n' s'' where g:
      "free_merge m (i + 1) (head (par n)) s' = (head n', s'')"
      "buddy_inv roots (insert n' F') (U - {n} \<union> {par n} - {par n})
        (insNewFreePageFrame (MM_Buddy_getOrder (head n') s'') (head n') s'')"
      "n' \<notin> F'" "F' \<subseteq> F - {sib n}"
      "\<Union> (span ` F') \<union> span n' = \<Union> (span ` (F - {sib n})) \<union> span (par n)"
      "dep n' = 0 \<or> sib n' \<notin> F'" "buddyLock s'' = buddyLock s'"
      by (elim exE conjE) (rule that, assumption+)
    have "par n \<notin> U"
    proof
      assume p: "par n \<in> U"
      have "par n \<noteq> n" using d by (cases n) (auto simp: par_def)
      from disjD [OF invD(4) [OF i] _ _ this] p n have "span (par n) \<inter> span n = {}" by blast
      then show False using sp head_in_span [of n] by blast
    qed
    then have U: "U - {n} \<union> {par n} - {par n} = U - {n}" by auto
    have "\<Union> (span ` F') \<union> span n' = \<Union> (span ` F) \<union> span n"
      unfolding g(5) sp using sF by auto
    moreover have "buddyLock s' = buddyLock s" by (simp add: s'_def merge_pages_def)
    moreover have "F' \<subseteq> F" using g(4) by blast
    ultimately show ?thesis using g(1,2,3,6,7) unfolding f U by metis
  qed
qed

lemma free_spec:
  assumes i: "buddy_inv roots F U s" and l: "unlocked s" and n: "n \<in> U"
  shows "\<exists>F' n' s'. MM_Buddy_free cur (Some (head n)) s = Some s' \<and> unlocked s' \<and>
    buddy_inv roots (insert n' F') (U - {n}) s' \<and> n' \<notin> F' \<and> F' \<subseteq> F \<and>
    \<Union> (span ` F') \<union> span n' = \<Union> (span ` F) \<union> span n \<and> (dep n' = 0 \<or> sib n' \<notin> F')"
proof -
  define s0 where "s0 = s\<lparr>buddyLock := (buddyLock s)\<lparr>lock := 1\<rparr>\<rparr>"
  define s1 where "s1 = (if recordUsage (ucast (attr (pg s0 (head n)))) then forgetUsage cur (head n) s0 else s0)"
  define s2 where "s2 = MM_Buddy_setOrder (head n) (ordr n)
    (set_pg (head n) (\<lambda>g. g\<lparr>attr := ucast Page_Flag_BuddyHeadPage\<rparr>) s1)"
  have lk: "Buddy_lock s = Some s0" using l by (simp add: s0_def unlocked_def Buddy_lock_free)
  have i1: "buddy_inv roots F U s1" using i by (simp add: s1_def s0_def)
  note r = invD(1) [OF i1] and v = invD(2) [OF i1 UnI2, OF n] and h = invD(3) [OF i1 UnI2, OF n]
  have k16: "ordr n < 16" by (rule valid_ordr [OF r v])
  have "same_but {head n} s1 s2" by (simp add: same_but_def s2_def phys_set)
  moreover have "headok s2 n"
    using headokD(3) [OF h] by (simp add: headok_def s2_def Page_order_set [OF k16] Page_setOrder_bit [OF k16] HeadPage_bits)
  ultimately have i2: "buddy_inv roots F U s2" by (rule inv_mark [OF i1 n])
  have m: "16 \<le> Suc Buddy_maxOrder - ordr n + ordr n" using k16 by (simp add: Buddy_maxOrder_def)
  from free_merge_spec [OF i2 n refl m] obtain F' n' s' where g:
    "free_merge (Suc Buddy_maxOrder - ordr n) (ordr n) (head n) s2 = (head n', s')"
    "buddy_inv roots (insert n' F') (U - {n}) (insNewFreePageFrame (MM_Buddy_getOrder (head n') s') (head n') s')"
    "n' \<notin> F'" "F' \<subseteq> F" "\<Union> (span ` F') \<union> span n' = \<Union> (span ` F) \<union> span n"
    "dep n' = 0 \<or> sib n' \<notin> F'"
    by (elim exE conjE) (rule that, assumption+)
  have a: "\<not> (ucast (attr (pg s0 (head n))) AND Page_Flag_BuddyHeadPage) = 0"
    unfolding HeadPage_test using invD(3) [OF i UnI2, OF n] by (simp add: s0_def headok_def)
  have od: "MM_Buddy_getOrder (head n) s1 = ordr n" by (rule headokD(2) [OF h])
  have "MM_Buddy_free cur (Some (head n)) s =
      Some (Buddy_unlock (insNewFreePageFrame (MM_Buddy_getOrder (head n') s') (head n') s'))"
    unfolding MM_Buddy_free_def lk option.case if_not_P [OF a] Let_def s1_def [symmetric] od
      s2_def [symmetric] g(1) prod.case ..
  then show ?thesis using g by auto
qed

lemma free_invalid:
  assumes "unlocked s" "\<not> bit (attr (pg s p)) 4"
  shows "MM_Buddy_free cur (Some p) s = Some s \<and> MM_Buddy_free cur None s = Some s"
proof -
  have "Buddy_unlock (s\<lparr>buddyLock := (buddyLock s)\<lparr>lock := 1\<rparr>\<rparr>) = s"
    using assms(1) by (simp add: Buddy_unlock_def SpinLock_unlock_def unlocked_def)
  then show ?thesis
    using assms by (simp add: MM_Buddy_free_def unlocked_def Buddy_lock_free HeadPage_test)
qed

section \<open>Dividing an allocated frame\<close>

lemma divPageFrame_spec:
  assumes i: "buddy_inv roots F U s" and n: "n \<in> U"
  shows "if ordr n = 0 then MM_Buddy_divPageFrame cur (head n) s = (None, s)
    else \<exists>s'. MM_Buddy_divPageFrame cur (head n) s = (Some (head (rch n)), s') \<and>
      buddy_inv roots F (U - {n} \<union> {lch n, rch n}) s' \<and> head (lch n) = head n"
proof (cases "ordr n = 0")
  case True
  then show ?thesis using headokD(2) [OF invD(3) [OF i UnI2, OF n]] by (simp add: MM_Buddy_divPageFrame_def)
next
  case False
  then have k: "0 < ordr n" by simp
  let ?p = "head n" and ?r = "head n + 2 ^ (ordr n - 1)" and ?k = "ordr n - 1"
  note r = invD(1) [OF i] and v = invD(2) [OF i UnI2, OF n] and h = invD(3) [OF i UnI2, OF n]
  have k16: "?k < 16" using valid_ordr [OF r v] by simp
  define s1 where "s1 = set_pg ?r (\<lambda>g. g\<lparr>attr := attr (pg s ?p)\<rparr>) s"
  define s2 where "s2 = set_pg ?r (\<lambda>g. g\<lparr>buddyId := rChildPos (buddyId (pg s1 ?p))\<rparr>) s1"
  define s3 where "s3 = set_pg ?p (\<lambda>g. g\<lparr>buddyId := lChildPos (buddyId g)\<rparr>) s2"
  define s4 where "s4 = MM_Buddy_setOrder ?p ?k (MM_Buddy_setOrder ?r ?k s3)"
  define s5 where "s5 = (if recordUsage (ucast (attr (pg s4 ?p)))
    then s4\<lparr>pageUsage := (pageUsage s4)(cur := pageUsage s4 cur @ [?r])\<rparr> else s4)"
  have st: "MM_Buddy_divPageFrame cur ?p s = (Some ?r, s5)"
    unfolding MM_Buddy_divPageFrame_def headokD(2) [OF h] Let_def if_not_P [OF False]
      s1_def [symmetric] s2_def [symmetric] s3_def [symmetric] s4_def [symmetric] s5_def [symmetric] ..
  have ne: "?r \<noteq> ?p" by simp
  have pl: "pg s4 ?p = Page_setOrder ?k ((pg s ?p)\<lparr>buddyId := lChildPos (buddyId (pg s ?p))\<rparr>)"
    and pr: "pg s4 ?r = Page_setOrder ?k ((pg s ?r)\<lparr>attr := attr (pg s ?p),
      buddyId := rChildPos (buddyId (pg s ?p))\<rparr>)"
    using ne by (simp_all add: s4_def s3_def s2_def s1_def)
  have hl: "headok s4 (lch n)"
    unfolding headok_def head_ch(1) [OF k] pl ordr_ch
    using headokD(1,3) [OF h] u16_children(1) child_id(1) [of n]
    by (simp add: Page_order_set [OF k16] Page_setOrder_bit [OF k16] del: One_nat_def node_sel of_nat_add of_nat_mult of_nat_power)
  have hr: "headok s4 (rch n)"
    unfolding headok_def head_ch(2) [OF k] pr ordr_ch
    using headokD(1,3) [OF h] u16_children(2) child_id(2) [of n]
    by (simp add: Page_order_set [OF k16] Page_setOrder_bit [OF k16] del: One_nat_def node_sel of_nat_add of_nat_mult of_nat_power)
  have sb: "same_but {?p, ?r} s s4"
    by (simp add: same_but_def s4_def s3_def s2_def s1_def phys_set)
  have "buddy_inv roots F (U - {n} \<union> {lch n, rch n}) s4" by (rule inv_split [OF i n k sb hl hr])
  moreover have "buddy_inv roots F (U - {n} \<union> {lch n, rch n}) s5 = buddy_inv roots F (U - {n} \<union> {lch n, rch n}) s4"
    by (simp add: s5_def buddy_inv_def phys_def [abs_def] headok_def bbit_def)
  ultimately show ?thesis using st False head_ch [OF k] by simp
qed

section \<open>Initialisation\<close>

text \<open>The state while \<open>MM_Buddy_init\<close> fills the lists: every block is a free root.\<close>

definition cover :: "(nat \<times> nat) set \<Rightarrow> nat set" where
  "cover roots = (\<Union>(r, R)\<in>roots. {r..<r + 2 ^ R})"

definition root_node :: "nat \<times> nat \<Rightarrow> node" where
  "root_node rR = Node (fst rR) (snd rR) 0 0"

definition fresh :: "(nat \<times> nat) set \<Rightarrow> Buddy \<Rightarrow> bool" where
  "fresh roots s \<longleftrightarrow> roots_ok roots (phys s) \<and> (\<forall>rR\<in>roots. headok s (root_node rR)) \<and>
     (\<forall>k. distinct (freeList s k) \<and> set (freeList s k) = {r. (r, k) \<in> roots})"

definition clear_bits :: "nat \<Rightarrow> Buddy \<Rightarrow> bool" where
  "clear_bits B s \<longleftrightarrow> (\<forall>k. \<forall>q<B. \<not> bbit s k q)"

lemma root_node_sel [simp]:
  "rt (root_node (r, R)) = r" "rord (root_node (r, R)) = R" "dep (root_node (r, R)) = 0"
  "idx (root_node (r, R)) = 0" "ordr (root_node (r, R)) = R" "head (root_node (r, R)) = r"
  "span (root_node (r, R)) = {r..<r + 2 ^ R}"
  by (simp_all add: root_node_def ordr_def head_def span_def)

lemma fresh_inv:
  assumes f: "fresh roots s" and c: "clear_bits B s" and b: "\<forall>p\<in>cover roots. ppn (phys s) p < B"
  shows "buddy_inv roots (root_node ` roots) {} s" "\<Union> (span ` root_node ` roots) = cover roots"
proof -
  have ok: "roots_ok roots (phys s)" using f by (simp add: fresh_def)
  show "\<Union> (span ` root_node ` roots) = cover roots" by (auto simp: cover_def)
  show "buddy_inv roots (root_node ` roots) {} s"
    unfolding buddy_inv_def
  proof (intro conjI)
    show "\<forall>n\<in>root_node ` roots \<union> {}. valid roots n \<and> headok s n"
      using f by (auto simp: fresh_def valid_def)
    show "disj (root_node ` roots \<union> {})"
      unfolding disj_def
    proof (intro ballI impI)
      fix n m assume "n \<in> root_node ` roots \<union> {}" "m \<in> root_node ` roots \<union> {}" and ne: "n \<noteq> m"
      then obtain r R r' R' where n: "n = root_node (r, R)" "(r, R) \<in> roots"
        and m: "m = root_node (r', R')" "(r', R') \<in> roots" by force
      show "span n \<inter> span m = {}"
        using roots_disj [OF ok n(2) m(2)] ne n(1) m(1) by fastforce
    qed
    show "\<forall>k. distinct (freeList s k) \<and> set (freeList s k) = head ` {n \<in> root_node ` roots. ordr n = k}"
    proof
      fix k
      have "head ` {n \<in> root_node ` roots. ordr n = k} = {r. (r, k) \<in> roots}" by force
      then show "distinct (freeList s k) \<and> set (freeList s k) = head ` {n \<in> root_node ` roots. ordr n = k}"
        using f by (simp add: fresh_def)
    qed
    show "\<forall>n. valid roots n \<and> 0 < ordr n \<longrightarrow>
        bbit s (ordr n - 1) (ppn (phys s) (head n)) = pair (root_node ` roots) n"
    proof (intro allI impI)
      fix n assume n: "valid roots n \<and> 0 < ordr n"
      then have v: "valid roots n" and r: "(rt n, rord n) \<in> roots" by (auto simp: valid_def)
      have "head n \<in> {rt n..<rt n + 2 ^ rord n}" using subsetD [OF node_in_root [OF v] head_in_span] .
      then have "head n \<in> cover roots" unfolding cover_def using r by (intro UN_I [OF r]) simp
      then have "\<not> bbit s (ordr n - 1) (ppn (phys s) (head n))"
        using b c by (auto simp: clear_bits_def)
      moreover have "\<not> pair (root_node ` roots) n"
      proof -
        have "dep m = 0" if "m \<in> root_node ` roots" for m using that by auto
        then have "lch n \<notin> root_node ` roots" "rch n \<notin> root_node ` roots"
          by (metis node_sel(3) nat.distinct(1), metis node_sel(7) nat.distinct(1))
        then show ?thesis by (simp add: pair_def)
      qed
      ultimately show "bbit s (ordr n - 1) (ppn (phys s) (head n)) = pair (root_node ` roots) n" by simp
    qed
  qed (use ok in auto)
qed

lemma init_frame_sel [simp]:
  "bm (init_frame p k s) = bm s" "phys (init_frame p k s) = phys s" "buddyLock (init_frame p k s) = buddyLock s"
  by (simp_all add: init_frame_def Let_def phys_set)

lemma clear_frame [simp]: "clear_bits B (init_frame p k s) = clear_bits B s"
  by (simp add: clear_bits_def bbit_def)

lemma fresh_step:
  assumes f: "fresh roots s" and new: "cover roots \<inter> {p..<p + 2 ^ k} = {}"
    and inj: "inj_on (ppn (phys s)) (cover roots \<union> {p..<p + 2 ^ k})"
    and k: "k \<le> 15" "2 ^ (k + 12) dvd unat (phys s p)"
    and lin: "\<forall>j<2 ^ k. unat (phys s (p + j)) = unat (phys s p) + 4096 * j"
  shows "fresh (insert (p, k) roots) (init_frame p k s)" "cover (insert (p, k) roots) = cover roots \<union> {p..<p + 2 ^ k}"
proof -
  let ?s = "init_frame p k s"
  show cov: "cover (insert (p, k) roots) = cover roots \<union> {p..<p + 2 ^ k}" by (auto simp: cover_def)
  have ok: "roots_ok roots (phys s)" using f by (simp add: fresh_def)
  have apart: "{r..<r + 2 ^ R} \<inter> {p..<p + 2 ^ k} = {}" if "(r, R) \<in> roots" for r R
    using new that unfolding cover_def by blast
  have ok': "roots_ok (insert (p, k) roots) (phys s)"
    unfolding roots_ok_def
  proof (intro conjI)
    show "\<forall>(r, R)\<in>insert (p, k) roots. R \<le> Buddy_maxOrder \<and> 2 ^ (R + 12) dvd unat (phys s r) \<and>
        (\<forall>k<2 ^ R. unat (phys s (r + k)) = unat (phys s r) + 4096 * k)"
      using ok k lin by (auto simp: roots_ok_def Buddy_maxOrder_def)
    show "\<forall>(r, R)\<in>insert (p, k) roots. \<forall>(r', R')\<in>insert (p, k) roots.
        (r, R) \<noteq> (r', R') \<longrightarrow> {r..<r + 2 ^ R} \<inter> {r'..<r' + 2 ^ R'} = {}"
    proof -
      have "{r..<r + 2 ^ R} \<inter> {r'..<r' + 2 ^ R'} = {}"
        if a: "(r, R) \<in> insert (p, k) roots" "(r', R') \<in> insert (p, k) roots" and ne: "(r, R) \<noteq> (r', R')"
        for r R r' R'
      proof (cases "(r, R) \<in> roots \<and> (r', R') \<in> roots")
        case True
        then show ?thesis using roots_disj [OF ok, of r R r' R'] ne by blast
      next
        case False
        then show ?thesis using a ne apart [of r R] apart [of r' R'] by blast
      qed
      then show ?thesis by blast
    qed
    show "inj_on (ppn (phys s)) (\<Union>(r, R)\<in>insert (p, k) roots. {r..<r + 2 ^ R})"
      using inj cov by (simp add: cover_def)
  qed
  have pp: "p \<notin> cover roots" using new by auto
  have hd_ok: "headok ?s (root_node rR)" if m: "rR \<in> insert (p, k) roots" for rR
  proof (cases "rR = (p, k)")
    case True
    have "pg ?s p = (Page_setOrder k ((pg s p)\<lparr>attr := ucast Page_Flag_BuddyHeadPage\<rparr>))\<lparr>buddyId := 1\<rparr>"
      by (simp add: init_frame_def Let_def)
    moreover have "Page_order (g\<lparr>buddyId := 1\<rparr>) = Page_order g" for g by (simp add: Page_order_def)
    ultimately show ?thesis
      using k(1) True by (simp add: headok_def Page_order_set Page_setOrder_bit HeadPage_bits)
  next
    case False
    obtain r R where rR: "rR = (r, R)" by fastforce
    then have "(r, R) \<in> roots" using m False by auto
    then have "r \<in> cover roots" unfolding cover_def by (intro UN_I) auto
    then have "pg ?s r = pg s r" using pp by (auto simp: init_frame_def Let_def)
    then show ?thesis using f \<open>(r, R) \<in> roots\<close> rR by (auto simp: headok_def fresh_def)
  qed
  have fl: "freeList ?s = (freeList s)(k := freeList s k @ [p])"
    by (simp add: init_frame_def Let_def insNew_list)
  have "(p, k) \<notin> roots"
  proof
    assume "(p, k) \<in> roots"
    then have "p \<in> cover roots" unfolding cover_def by (intro UN_I) auto
    then show False using pp by simp
  qed
  then have "\<forall>j. distinct (freeList ?s j) \<and> set (freeList ?s j) = {r. (r, j) \<in> insert (p, k) roots}"
    using f fl by (auto simp: fresh_def)
  then show "fresh (insert (p, k) roots) ?s" using ok' hd_ok by (simp add: fresh_def)
qed

lemma fit_order_le:
  "pos < len \<Longrightarrow> pos + 2 ^ fit_order len pos k \<le> len \<and> fit_order len pos k \<le> k"
  by (induction k) (subst fit_order.simps; auto split: if_splits simp: fit_order.simps [of len pos 0])+

lemma dvd_of_bits: "(\<And>j. j < k \<Longrightarrow> \<not> bit (x :: u64) j) \<Longrightarrow> 2 ^ k dvd unat x"
proof -
  assume "\<And>j. j < k \<Longrightarrow> \<not> bit x j"
  then have "take_bit k x = 0" by (intro bit_word_eqI) (auto simp: bit_take_bit_iff)
  then have "unat x mod 2 ^ k = 0" by (metis take_bit_eq_mod unsigned_0 unsigned_take_bit_eq)
  then show ?thesis by (rule mod_0_imp_dvd)
qed

lemma lowbit_least:
  assumes "bit (x :: u64) t" "\<And>j. j < t \<Longrightarrow> \<not> bit x j" shows "bit (lowbit x) t"
proof -
  have t: "t < 64" using bit_imp_le_length [OF assms(1)] by simp
  define y where "y = drop_bit t x"
  have x: "x = push_bit t y"
  proof (rule bit_word_eqI)
    fix n assume "n < LENGTH(64)"
    then show "bit x n = bit (push_bit t y) n"
      using assms(2) [of n] by (cases "t \<le> n") (auto simp: y_def bit_push_bit_iff bit_drop_bit_eq)
  qed
  have "bit y 0" using assms(1) by (simp add: y_def bit_drop_bit_eq)
  then have "bit (- y) 0" by (simp add: bit_0)
  moreover have "- x = push_bit t (- y)" unfolding x by (simp add: push_bit_eq_mult)
  ultimately have "bit (- x) t" using t by (simp add: bit_push_bit_iff)
  then show ?thesis using assms(1) by (simp add: lowbit_def bit_and_iff)
qed

lemma lowbit_low:
  assumes "\<And>j. j < k \<Longrightarrow> \<not> bit (lowbit x) j" "j < k" shows "\<not> bit (x :: u64) j"
proof (rule ccontr)
  assume "\<not> \<not> bit x j"
  then have "\<not> (\<forall>i<k. \<not> bit x i)" using assms(2) by auto
  then obtain t where t: "t < k" "\<forall>i<t. \<not> bit x i" "\<not> \<not> bit x t" by (rule first_difference)
  then show False using lowbit_least [of x t] assms(1) [of t] by auto
qed

lemma frame_order_dvd:
  assumes d: "4096 dvd unat phy"
  shows "frame_order phy \<le> 15 \<and> 2 ^ (frame_order phy + 12) dvd unat phy"
proof -
  let ?w = "Bit_ffs (lowbit phy)"
  have le: "frame_order phy \<le> 15"
    by (auto simp: frame_order_def Let_def Buddy_maxOrder_def word_less_nat_alt not_less)
  show ?thesis
  proof (cases "phy = 0")
    case True
    then show ?thesis using le by simp
  next
    case False
    have "lowbit phy \<noteq> 0"
    proof
      assume z: "lowbit phy = 0"
      have "\<not> bit phy j" for j by (rule lowbit_low [of "Suc j"]) (simp_all add: z)
      then have "phy = 0" by (intro bit_word_eqI) simp
      then show False using False by simp
    qed
    then have f: "1 \<le> unat ?w" "bit (lowbit phy) (unat ?w - 1)" "\<And>j. j < unat ?w - 1 \<Longrightarrow> \<not> bit (lowbit phy) j"
      using Bit_ffs_spec [of "lowbit phy"] by (auto simp: Let_def)
    have "bit phy (unat ?w - 1)" using f(2) by (simp add: lowbit_def bit_and_iff)
    then have b: "bit (unat phy) (unat ?w - 1)" by (simp add: bit_unsigned_iff)
    obtain c where "unat phy = 4096 * c" using d by blast
    then have "unat phy = push_bit 12 c" by (simp add: push_bit_eq_mult)
    then have "12 \<le> unat ?w - 1" using b by (simp add: bit_push_bit_iff)
    then have w: "13 \<le> unat ?w" using f(1) by simp
    have u: "unat (?w - 13) = unat ?w - 13" using w by (subst unat_minus_le) (simp_all add: word_le_nat_alt)
    have "frame_order phy + 12 \<le> unat ?w - 1"
      using u w le by (auto simp: frame_order_def Let_def Buddy_maxOrder_def word_less_nat_alt)
    moreover have "2 ^ (unat ?w - 1) dvd unat phy"
      using lowbit_low [of "unat ?w - 1" phy] f(3) by (intro dvd_of_bits) blast
    ultimately show ?thesis using le power_le_dvd [of 2 "unat ?w - 1" "unat phy" "frame_order phy + 12"] by simp
  qed
qed

lemma init_zone_fresh:
  assumes "fresh roots s" "cover roots \<inter> {base + pos..<base + len} = {}"
    "inj_on (ppn (phys s)) (cover roots \<union> {base + pos..<base + len})"
    "\<forall>j<len. unat (phys s (base + j)) = a + 4096 * j" "4096 dvd a"
  shows "\<exists>roots' s'. fst (init_zone base len pos (s, t)) = s' \<and> fresh roots' s' \<and>
    cover roots' = cover roots \<union> {base + pos..<base + len} \<and> phys s' = phys s \<and> bm s' = bm s \<and>
    buddyLock s' = buddyLock s"
  using assms
proof (induction "len - pos" arbitrary: pos s t roots rule: less_induct)
  case less
  show ?case
  proof (cases "pos < len")
    case False
    then have "init_zone base len pos (s, t) = (s, t)" by (simp add: init_zone.simps)
    then show ?thesis using less.prems False by (intro exI [of _ roots] exI [of _ s]) simp
  next
    case True
    let ?p = "base + pos"
    define k where "k = fit_order len pos (frame_order (phyAddr (pg s ?p)))"
    have ph: "unat (phys s ?p) = a + 4096 * pos" using less.prems(4) True by simp
    have "4096 dvd unat (phyAddr (pg s ?p))" using ph less.prems(5) by (simp add: phys_def)
    note fo = frame_order_dvd [OF this]
    have k: "pos + 2 ^ k \<le> len" "k \<le> frame_order (phyAddr (pg s ?p))"
      using fit_order_le [OF True] by (simp_all add: k_def)
    have kd: "2 ^ (k + 12) dvd unat (phys s ?p)"
      using fo k(2) power_le_dvd [of 2 "frame_order (phyAddr (pg s ?p)) + 12" "unat (phys s ?p)" "k + 12"]
      by (simp add: phys_def)
    have sub: "{?p..<?p + 2 ^ k} \<subseteq> {base + pos..<base + len}" using k(1) by auto
    have split: "{base + pos..<base + len} = {?p..<?p + 2 ^ k} \<union> {base + (pos + 2 ^ k)..<base + len}"
      using k(1) by auto
    have lin: "\<forall>j<2 ^ k. unat (phys s (?p + j)) = unat (phys s ?p) + 4096 * j"
    proof (intro allI impI)
      fix j :: nat assume "j < 2 ^ k"
      then have "pos + j < len" using k(1) by simp
      then have "unat (phys s (base + (pos + j))) = a + 4096 * (pos + j)" using less.prems(4) by blast
      then show "unat (phys s (?p + j)) = unat (phys s ?p) + 4096 * j" using ph by (simp add: add.assoc)
    qed
    have new: "cover roots \<inter> {?p..<?p + 2 ^ k} = {}" using less.prems(2) sub by blast
    have inj: "inj_on (ppn (phys s)) (cover roots \<union> {?p..<?p + 2 ^ k})"
      by (rule inj_on_subset [OF less.prems(3)]) (use sub in blast)
    have k15: "k \<le> 15" using fo k(2) by linarith
    note st = fresh_step [OF less.prems(1) new inj k15 kd lin]
    let ?s = "init_frame ?p k s"
    have u: "init_zone base len pos (s, t) = init_zone base len (pos + 2 ^ k) (?s, t + push_bit (k + Page_4KShift) 1)"
      using True by (subst init_zone.simps) (simp add: k_def Let_def)
    have dj: "{?p..<?p + 2 ^ k} \<inter> {base + (pos + 2 ^ k)..<base + len} = {}" by auto
    have "\<exists>roots' s'. fst (init_zone base len (pos + 2 ^ k) (?s, t + push_bit (k + Page_4KShift) 1)) = s' \<and>
      fresh roots' s' \<and> cover roots' = cover (insert (?p, k) roots) \<union> {base + (pos + 2 ^ k)..<base + len} \<and>
      phys s' = phys ?s \<and> bm s' = bm ?s \<and> buddyLock s' = buddyLock ?s"
    proof (rule less.hyps)
      have "0 < (2::nat) ^ k" by simp
      then show "len - (pos + 2 ^ k) < len - pos" using True by linarith
      show "cover (insert (?p, k) roots) \<inter> {base + (pos + 2 ^ k)..<base + len} = {}"
        unfolding st(2) using less.prems(2) dj split by blast
      show "inj_on (ppn (phys ?s)) (cover (insert (?p, k) roots) \<union> {base + (pos + 2 ^ k)..<base + len})"
        unfolding st(2) using less.prems(3) split by (simp add: Un_assoc)
      show "\<forall>j<len. unat (phys ?s (base + j)) = a + 4096 * j" using less.prems(4) by simp
    qed (use st(1) less.prems(5) in auto)
    then show ?thesis unfolding u st(2) split by (simp add: Un_assoc)
  qed
qed

definition zone_area :: "Zone \<Rightarrow> nat set" where
  "zone_area z = {page_base z + unat (usingCnt z)..<page_base z + unat (pagesLength z)}"

text \<open>
  Zones whose page arrays and frames do not overlap, with page numbers covered by the
  bitmaps (\<open>B\<close> bits each).
\<close>

definition zones_apart :: "nat \<Rightarrow> (nat \<Rightarrow> u64) \<Rightarrow> Zone list \<Rightarrow> bool" where
  "zones_apart B phy zs \<longleftrightarrow>
     sorted_wrt (\<lambda>z z'. zone_area z \<inter> zone_area z' = {}) zs \<and>
     inj_on (ppn phy) (\<Union> (zone_area ` set zs)) \<and> (\<forall>p\<in>\<Union> (zone_area ` set zs). ppn phy p < B) \<and>
     (\<forall>z\<in>set zs. 4096 dvd unat (phy (page_base z)) \<and>
        (\<forall>j<unat (pagesLength z). unat (phy (page_base z + j)) = unat (phy (page_base z)) + 4096 * j))"

lemma init_zones_fresh:
  assumes "fresh roots s" "cover roots \<inter> \<Union> (zone_area ` set zs) = {}"
    "inj_on (ppn (phys s)) (cover roots \<union> \<Union> (zone_area ` set zs))"
    "sorted_wrt (\<lambda>z z'. zone_area z \<inter> zone_area z' = {}) zs"
    "\<forall>z\<in>set zs. 4096 dvd unat (phys s (page_base z)) \<and>
        (\<forall>j<unat (pagesLength z). unat (phys s (page_base z + j)) = unat (phys s (page_base z)) + 4096 * j)"
  shows "\<exists>roots' s'. fst (init_zones zs (s, t)) = s' \<and> fresh roots' s' \<and>
    cover roots' = cover roots \<union> \<Union> (zone_area ` set zs) \<and> phys s' = phys s \<and> bm s' = bm s \<and>
    buddyLock s' = buddyLock s"
  using assms
proof (induction zs arbitrary: roots s t)
  case Nil
  then show ?case by (intro exI [of _ roots] exI [of _ s]) (simp add: init_zones_def)
next
  case (Cons z zs)
  obtain s1 t1 where st: "(if usingCnt z = pagesLength z then (s, t)
      else init_zone (page_base z) (unat (pagesLength z)) (unat (usingCnt z)) (s, t)) = (s1, t1)"
    by fastforce
  have u: "init_zones (z # zs) (s, t) = init_zones zs (s1, t1)"
    using st by (simp add: init_zones_def)
  have "\<exists>r1. fresh r1 s1 \<and> cover r1 = cover roots \<union> zone_area z \<and> phys s1 = phys s \<and> bm s1 = bm s \<and>
      buddyLock s1 = buddyLock s"
  proof (cases "usingCnt z = pagesLength z")
    case True
    then show ?thesis using st Cons.prems(1) by (intro exI [of _ roots]) (simp add: zone_area_def)
  next
    case False
    then have f: "fst (init_zone (page_base z) (unat (pagesLength z)) (unat (usingCnt z)) (s, t)) = s1"
      using st by simp
    have "cover roots \<inter> zone_area z = {}" using Cons.prems(2) by auto
    moreover have "inj_on (ppn (phys s)) (cover roots \<union> zone_area z)"
      by (rule inj_on_subset [OF Cons.prems(3)]) auto
    ultimately show ?thesis
      using init_zone_fresh [OF Cons.prems(1), of "page_base z" "unat (usingCnt z)" "unat (pagesLength z)"
          "unat (phys s (page_base z))" t] Cons.prems(5) f
      by (simp add: zone_area_def)
  qed
  then obtain r1 where r1: "fresh r1 s1" "cover r1 = cover roots \<union> zone_area z" "phys s1 = phys s"
    "bm s1 = bm s" "buddyLock s1 = buddyLock s" by blast
  have "\<exists>roots' s'. fst (init_zones zs (s1, t1)) = s' \<and> fresh roots' s' \<and>
    cover roots' = cover r1 \<union> \<Union> (zone_area ` set zs) \<and> phys s' = phys s1 \<and> bm s' = bm s1 \<and>
    buddyLock s' = buddyLock s1"
  proof (rule Cons.IH [OF r1(1)])
    show "cover r1 \<inter> \<Union> (zone_area ` set zs) = {}"
      unfolding r1(2) using Cons.prems(2,4) by auto
    show "inj_on (ppn (phys s1)) (cover r1 \<union> \<Union> (zone_area ` set zs))"
      unfolding r1(2,3) using Cons.prems(3) by (simp add: Un_assoc)
  qed (use Cons.prems(4,5) r1(3) in auto)
  then show ?case unfolding u r1(2,3,4,5) by (simp add: Un_assoc)
qed

lemma init_zones_inv:
  assumes "\<forall>k. freeList s k = []" "clear_bits B s" "zones_apart B (phys s) zs"
  shows "\<exists>roots. buddy_inv roots (root_node ` roots) {} (fst (init_zones zs (s, t))) \<and>
    \<Union> (span ` root_node ` roots) = \<Union> (zone_area ` set zs) \<and>
    buddyLock (fst (init_zones zs (s, t))) = buddyLock s"
proof -
  have f: "fresh {} s" using assms(1) by (simp add: fresh_def roots_ok_def)
  have e: "cover {} = {}" by (simp add: cover_def)
  have "\<exists>roots' s'. fst (init_zones zs (s, t)) = s' \<and> fresh roots' s' \<and>
    cover roots' = cover {} \<union> \<Union> (zone_area ` set zs) \<and> phys s' = phys s \<and> bm s' = bm s \<and>
    buddyLock s' = buddyLock s"
    by (rule init_zones_fresh [OF f]) (use assms(3) in \<open>simp_all add: e zones_apart_def\<close>)
  then obtain roots s' where r: "fst (init_zones zs (s, t)) = s'" "fresh roots s'"
    "cover roots = \<Union> (zone_area ` set zs)" "phys s' = phys s" "bm s' = bm s" "buddyLock s' = buddyLock s"
    unfolding e Un_empty_left by (elim exE conjE) (rule that, assumption+)
  have c: "clear_bits B s'" using assms(2) r(5) by (simp add: clear_bits_def bbit_def)
  have b: "\<forall>p\<in>cover roots. ppn (phys s') p < B" using assms(3) r(3,4) by (simp add: zones_apart_def)
  from fresh_inv [OF r(2) c b] show ?thesis using r(1,3,6) by (intro exI [of _ roots]) simp
qed

section \<open>Properties\<close>


text \<open>A machine of 16 pages with one zone, whose first 8 pages are in use.\<close>

definition sample_zone :: Zone where
  "sample_zone = \<lparr>phyAddrSt = 0, phyAddrEd = 0x10000, pagesAt = 0, pages = (\<lambda>_. \<lparr>phyAddr = 0, attr = 0, buddyId = 0\<rparr>),
     pagesLength = 16, attribute = 0x8000, freeCnt = 8, usingCnt = 8\<rparr>"

definition empty_buddy :: Buddy where
  "empty_buddy = \<lparr>pg = (\<lambda>p. \<lparr>phyAddr = of_nat (4096 * p), attr = 0, buddyId = 0\<rparr>), freeList = (\<lambda>_. []),
     bitmapAt = (\<lambda>_. NULL), bm = (\<lambda>_ _. 0), buddyLock = \<lparr>lock = 0\<rparr>, pageUsage = (\<lambda>_. []), totUsage = (\<lambda>_. 0)\<rparr>"

lemma sample_phys: "p < 16 \<Longrightarrow> unat (phys empty_buddy p) = 4096 * p"
  unfolding phys_def empty_buddy_def by (simp del: of_nat_mult add: unat_of_nat)

lemma sample_zones: "zones_apart 16 (phys empty_buddy) [sample_zone]"
proof -
  have "zone_area sample_zone = {8..<16}" "page_base sample_zone = 0"
    by (simp_all add: zone_area_def sample_zone_def page_base_def)
  then show ?thesis
    by (auto simp: zones_apart_def sample_phys ppn_def inj_on_def sample_zone_def)
qed

lemma empty_clear: "clear_bits B empty_buddy" "\<forall>k. freeList empty_buddy k = []"
  by (simp_all add: clear_bits_def bbit_def empty_buddy_def)


text \<open>The same machine after its frame of 8 pages has been put into the list of order 3.\<close>

definition sample_buddy :: Buddy where
  "sample_buddy = init_frame 8 3 empty_buddy"

definition sample_root :: node where
  "sample_root = root_node (8, 3)"

lemma sample_buddy_inv: "buddy_inv {(8, 3)} {sample_root} {} sample_buddy" "unlocked sample_buddy"
proof -
  have f: "fresh {} empty_buddy" by (simp add: fresh_def roots_ok_def empty_clear)
  have e: "cover {} = {}" by (simp add: cover_def)
  have "fresh {(8, 3)} (init_frame 8 3 empty_buddy)"
    by (rule fresh_step(1) [OF f]) (auto simp: e sample_phys ppn_def inj_on_def)
  moreover have "clear_bits 16 sample_buddy" by (simp add: sample_buddy_def empty_clear)
  moreover have "\<forall>p\<in>cover {(8, 3)}. ppn (phys sample_buddy) p < 16"
    by (auto simp: cover_def sample_buddy_def ppn_def sample_phys)
  ultimately show "buddy_inv {(8, 3)} {sample_root} {} sample_buddy"
    using fresh_inv(1) [of "{(8, 3)}" sample_buddy 16] by (simp add: sample_buddy_def sample_root_def)
  show "unlocked sample_buddy" by (simp add: unlocked_def sample_buddy_def) (simp add: empty_buddy_def)
qed

definition used_buddy :: Buddy where
  "used_buddy = revBit 8 (rmFreePageFrame 3 8 sample_buddy)"

lemma used_buddy_inv: "buddy_inv {(8, 3)} {} {sample_root} used_buddy" "unlocked used_buddy"
proof -
  have "head sample_root = 8" "ordr sample_root = 3" by (simp_all add: sample_root_def)
  then show "buddy_inv {(8, 3)} {} {sample_root} used_buddy"
    using inv_take [OF sample_buddy_inv(1), of sample_root] by (simp add: used_buddy_def)
  show "unlocked used_buddy" using sample_buddy_inv(2) by (simp add: unlocked_def used_buddy_def)
qed

text \<open>
  C7: \<open>MM_Buddy_alloc\<close> on a state that satisfies the invariant always returns, with the lock
  free.  Either it returns a block of the requested order that was free, is aligned to its
  size (so the alignment check never stops the kernel) and overlaps no used block, and the
  invariant holds with the block used; or no free block is large enough and the invariant
  is kept.
\<close>

theorem MM_Buddy_alloc_correct:
  assumes "buddy_inv roots F U s" "unlocked s"
  shows "\<exists>r s'. MM_Buddy_alloc cur log2Size a s = Some (r, s') \<and>
    (case r of
       Some p \<Rightarrow> alloc_post roots F U log2Size s p s'
     | None \<Rightarrow> buddy_inv roots F U s' \<and> unlocked s' \<and> (\<forall>n\<in>F. ordr n < unat log2Size))"
  by (rule alloc_spec [OF assms])

theorem MM_Buddy_alloc_correct_witness:
  "\<exists>p s'. MM_Buddy_alloc 0 1 0x5 sample_buddy = Some (Some p, s') \<and>
    alloc_post {(8, 3)} {sample_root} {} 1 sample_buddy p s'"
proof -
  obtain r s' where r: "MM_Buddy_alloc 0 1 0x5 sample_buddy = Some (r, s')"
    "case r of Some p \<Rightarrow> alloc_post {(8, 3)} {sample_root} {} 1 sample_buddy p s'
     | None \<Rightarrow> buddy_inv {(8, 3)} {sample_root} {} s' \<and> unlocked s' \<and> (\<forall>n\<in>{sample_root}. ordr n < unat (1 :: u64))"
    using MM_Buddy_alloc_correct [OF sample_buddy_inv, of 0 1 "0x5"] by blast
  then show ?thesis by (cases r) (auto simp: sample_root_def)
qed

text \<open>
  \<open>MM_Buddy_alloc4G\<close> does the same with a block whose physical address is below 4 GB,
  and fails only when every free block that is large enough lies at or above 4 GB.
\<close>

theorem MM_Buddy_alloc4G_correct:
  assumes "buddy_inv roots F U s" "unlocked s"
  shows "\<exists>r s'. MM_Buddy_alloc4G cur log2Size a s = Some (r, s') \<and>
    (case r of
       Some p \<Rightarrow> alloc_post roots F U log2Size s p s' \<and> unat (phyAddr (pg s p)) < 2 ^ 32
     | None \<Rightarrow> buddy_inv roots F U s' \<and> unlocked s' \<and>
         (\<forall>n\<in>F. unat log2Size \<le> ordr n \<longrightarrow> 2 ^ 32 \<le> unat (phyAddr (pg s (head n)))))"
  by (rule alloc4G_spec [OF assms])

theorem MM_Buddy_alloc4G_correct_witness:
  "\<exists>s'. MM_Buddy_alloc4G 0 20 0x5 sample_buddy = Some (None, s') \<and>
    buddy_inv {(8, 3)} {sample_root} {} s'"
proof -
  obtain r s' where r: "MM_Buddy_alloc4G 0 20 0x5 sample_buddy = Some (r, s')"
    "case r of Some p \<Rightarrow> alloc_post {(8, 3)} {sample_root} {} 20 sample_buddy p s' \<and>
         unat (phyAddr (pg sample_buddy p)) < 2 ^ 32
     | None \<Rightarrow> buddy_inv {(8, 3)} {sample_root} {} s' \<and> unlocked s' \<and>
         (\<forall>n\<in>{sample_root}. unat (20 :: u64) \<le> ordr n \<longrightarrow> 2 ^ 32 \<le> unat (phyAddr (pg sample_buddy (head n))))"
    using MM_Buddy_alloc4G_correct [OF sample_buddy_inv, of 0 20 "0x5"] by blast
  moreover have "r = None"
    using r(1) by (auto simp: MM_Buddy_alloc4G_def alloc_big split: option.splits)
  ultimately show ?thesis by auto
qed

text \<open>
  C8: \<open>MM_Buddy_free\<close> of a used block always returns.  The block is merged with its free
  buddies into one free block that has no free buddy, nothing else changes: the free pages
  are those free before and those of the block, the other used blocks stay, and the
  invariant holds.
\<close>

theorem MM_Buddy_free_correct:
  assumes "buddy_inv roots F U s" "unlocked s" "n \<in> U"
  shows "\<exists>F' n' s'. MM_Buddy_free cur (Some (head n)) s = Some s' \<and> unlocked s' \<and>
    buddy_inv roots (insert n' F') (U - {n}) s' \<and> n' \<notin> F' \<and> F' \<subseteq> F \<and>
    \<Union> (span ` F') \<union> span n' = \<Union> (span ` F) \<union> span n \<and> (dep n' = 0 \<or> sib n' \<notin> F')"
  by (rule free_spec [OF assms])

theorem MM_Buddy_free_correct_witness:
  "\<exists>F' n' s'. MM_Buddy_free 0 (Some 8) used_buddy = Some s' \<and>
    buddy_inv {(8, 3)} (insert n' F') {} s' \<and> \<Union> (span ` F') \<union> span n' = {8..<16}"
  using MM_Buddy_free_correct [OF used_buddy_inv, of sample_root 0] by (simp add: sample_root_def) blast

text \<open>
  \<open>MM_Buddy_divPageFrame\<close> refuses a block of one page and otherwise replaces a used
  block by its two halves, both used, and keeps the invariant; so both halves can be freed
  separately.
\<close>

theorem MM_Buddy_divPageFrame_correct:
  assumes "buddy_inv roots F U s" "n \<in> U"
  shows "if ordr n = 0 then MM_Buddy_divPageFrame cur (head n) s = (None, s)
    else \<exists>s'. MM_Buddy_divPageFrame cur (head n) s = (Some (head (rch n)), s') \<and>
      buddy_inv roots F (U - {n} \<union> {lch n, rch n}) s' \<and> head (lch n) = head n"
  by (rule divPageFrame_spec [OF assms])

theorem MM_Buddy_divPageFrame_correct_witness:
  "\<exists>s'. MM_Buddy_divPageFrame 0 8 used_buddy = (Some 12, s') \<and>
    buddy_inv {(8, 3)} {} {lch sample_root, rch sample_root} s'"
proof -
  have "0 < ordr sample_root" by (simp add: sample_root_def)
  from head_ch(2) [OF this] have "head (rch sample_root) = 12" by (simp add: sample_root_def)
  then show ?thesis
    using MM_Buddy_divPageFrame_correct [OF used_buddy_inv(1), of sample_root 0] by (auto simp: sample_root_def)
qed

end
