(* ===== verification/Slab.thy ===== *)
theory Slab
  imports Buddy
begin

text \<open>
  The slab allocator, \<open>src/kernel/memory/SLAB.c\<close> and \<open>SLAB.h\<close>.  A cache keeps the ring of
  its slabs as the list of their addresses from the head slab on; the slab structures are a
  heap of their own, the colour map of a slab a function from quadword number to quadword.
  \<open>None\<close> is a held lock or one of the loops that never end.  \<open>kmalloc\<close> and
  \<open>Slab_pushNewSlab\<close> call each other (the structure and the colour map of a slab of large
  blocks come from \<open>kmalloc\<close>), and so do \<open>kfree\<close> and \<open>Slab_destroySlab\<close>; the depth of these
  calls is bounded by fuel, and \<open>None\<close> when it runs out.  Two levels are enough, because
  both blocks belong to the classes below 5, which allocate nothing.
\<close>

record Slab =
  spage :: nat
  susing :: u64
  sfree :: u64
  svirtAddr :: ptr
  colLen :: u64
  colCnt :: u64
  colMapAt :: ptr
  colMap :: "nat \<Rightarrow> u64"

record SlabCache =
  csize :: u64
  cusing :: u64
  cfree :: u64
  slabs :: "ptr list"

record KmallocUsage =
  kaddr :: ptr
  kdtor :: ptr
  ksize :: u64
  kself :: ptr

record SlabSys =
  buddy :: Buddy
  caches :: "nat \<Rightarrow> SlabCache"
  slabAt :: "ptr \<Rightarrow> Slab"
  slabLock :: SpinLock
  kmallocUsage :: "nat \<Rightarrow> KmallocUsage list"
  kmem :: "ptr \<Rightarrow> u8"
  intrOn :: bool

definition MM_Slab_maxSize :: u64 where "MM_Slab_maxSize = 1048576"
definition Slab_Flag_Inner :: u64 where "Slab_Flag_Inner = push_bit 0 1"
definition Slab_Flag_Private :: u64 where "Slab_Flag_Private = push_bit 1 1"
definition Slab_Flag_Clear :: u64 where "Slab_Flag_Clear = push_bit 2 1"

definition sizeof_Slab :: u64 where "sizeof_Slab = 72"
definition sizeof_KmallocUsage :: u64 where "sizeof_KmallocUsage = 40"

definition Slab_kmallocCache :: "nat \<Rightarrow> SlabCache" where
  "Slab_kmallocCache cid = \<lparr>csize = push_bit (cid + 5) 1, cusing = 0, cfree = 0, slabs = []\<rparr>"

definition alloc2MPage :: "nat \<Rightarrow> Buddy \<Rightarrow> (nat option \<times> Buddy) option" where
  "alloc2MPage cur = MM_Buddy_alloc cur 9 (Page_Flag_Kernel OR Page_Flag_KernelShare)"

definition set_slab :: "ptr \<Rightarrow> (Slab \<Rightarrow> Slab) \<Rightarrow> SlabSys \<Rightarrow> SlabSys" where
  "set_slab p f s = s\<lparr>slabAt := (slabAt s)(p := f (slabAt s p))\<rparr>"

definition set_cache :: "nat \<Rightarrow> (SlabCache \<Rightarrow> SlabCache) \<Rightarrow> SlabSys \<Rightarrow> SlabSys" where
  "set_cache cid f s = s\<lparr>caches := (caches s)(cid := f (caches s cid))\<rparr>"

section \<open>Colour maps\<close>

text \<open>All words of the map are set to ones, then the bits of the blocks are cleared.\<close>

definition fresh_map :: "u64 \<Rightarrow> u64 \<Rightarrow> (nat \<Rightarrow> u64) \<Rightarrow> nat \<Rightarrow> u64" where
  "fresh_map len cnt m =
    foldl (\<lambda>m j. m(j div 64 := bitset0 (m (j div 64)) (j mod 64)))
      (\<lambda>q. if q < unat len then - 1 else m q) [0..<unat cnt]"

definition colLen_of :: "u64 \<Rightarrow> u64" where
  "colLen_of cnt = upAlignTo cnt 64 div 64"

text \<open>The search of \<open>kmalloc\<close> for a free block; a full word advances the counter by 65.\<close>

function scan_free :: "nat \<Rightarrow> (nat \<Rightarrow> u64) \<Rightarrow> nat \<Rightarrow> nat option" where
  "scan_free cnt m j =
    (if j < cnt then
       if m (j div 64) = 0xffffffffffffffff then scan_free cnt m (j + 64 + 1)
       else if bit (m (j div 64)) (j mod 64) then scan_free cnt m (j + 1)
       else Some j
     else None)"
  by pat_completeness auto
termination by (relation "measure (\<lambda>(cnt, m, j). cnt - j)") auto

declare scan_free.simps [simp del]

section \<open>Initialisation\<close>

definition init_totSize :: u64 where
  "init_totSize = Page_4KUpAlign (foldl (\<lambda>t cid. t + colLen_of (Page_2MSize div csize (Slab_kmallocCache cid)) * 8)
     (16 * sizeof_Slab) [0..<16])"

fun log2_atleast :: "nat \<Rightarrow> nat \<Rightarrow> u64 \<Rightarrow> nat" where
  "log2_atleast 0 k x = k"
| "log2_atleast (Suc n) k x = (if push_bit k 1 < x then log2_atleast n (k + 1) x else k)"

fun init_caches :: "nat \<Rightarrow> nat list \<Rightarrow> u64 \<Rightarrow> SlabSys \<Rightarrow> SlabSys option" where
  "init_caches cur [] virtAddr s = Some s"
| "init_caches cur (i # is) virtAddr s =
    (let slab = virtAddr; virtAddr = virtAddr + sizeof_Slab in
     case alloc2MPage cur (buddy s) of None \<Rightarrow> None
     | Some (None, b) \<Rightarrow> None
     | Some (Some p, b) \<Rightarrow>
        let cnt = Page_2MSize div csize (caches s i);
            len = colLen_of cnt;
            s = s\<lparr>buddy := b\<rparr>;
            s = set_slab slab (\<lambda>g. \<lparr>spage = p, susing = 0, sfree = cnt,
                  svirtAddr = DMAS_phys2Virt (phyAddr (pg b p)), colLen = len, colCnt = cnt,
                  colMapAt = virtAddr, colMap = fresh_map len cnt (colMap g)\<rparr>) s;
            s = set_cache i (\<lambda>c. c\<lparr>slabs := [slab], cfree := cnt\<rparr>) s
        in init_caches cur is (virtAddr + len * 8) s)"

definition MM_Slab_init :: "nat \<Rightarrow> SlabSys \<Rightarrow> SlabSys option" where
  "MM_Slab_init cur s =
    (let s = s\<lparr>slabLock := SpinLock_init (slabLock s), caches := Slab_kmallocCache\<rparr>;
         k = log2_atleast 64 0 (drop_bit Page_4KShift init_totSize)
     in case MM_Buddy_alloc cur (of_nat k) (Page_Flag_Kernel OR Page_Flag_KernelShare) (buddy s) of
          None \<Rightarrow> None
        | Some (None, b) \<Rightarrow> None
        | Some (Some p, b) \<Rightarrow>
            init_caches cur [0..<16] (DMAS_phys2Virt (phyAddr (pg b p))) (s\<lparr>buddy := b\<rparr>))"

section \<open>Allocation\<close>

text \<open>
  Choosing the slab: the first with a free block from the head on, or the head.  The slab is
  moved behind the head unless it is there already; when it is the head itself, unlinking it
  and inserting it behind itself leaves a ring of one (\<open>List_insBehind_self\<close>).
\<close>

definition pick_slab :: "(ptr \<Rightarrow> Slab) \<Rightarrow> ptr list \<Rightarrow> ptr" where
  "pick_slab at ring = (case List.find (\<lambda>p. sfree (at p) > 0) ring of Some p \<Rightarrow> p | None \<Rightarrow> hd ring)"

fun move_front :: "ptr \<Rightarrow> ptr list \<Rightarrow> ptr list" where
  "move_front p [] = []"
| "move_front p [h] = [h]"
| "move_front p (h # n # rest) =
    (if p = n then h # n # rest
     else if p = h then [h]
     else h # p # remove1 p (n # rest))"

definition slab_lock :: "u64 \<Rightarrow> SlabSys \<Rightarrow> SlabSys option" where
  "slab_lock arg s =
    (if arg AND Slab_Flag_Inner = 0 then map_option (\<lambda>l. s\<lparr>slabLock := l\<rparr>) (SpinLock_acquire (slabLock s))
     else Some s)"

definition slab_unlock :: "u64 \<Rightarrow> SlabSys \<Rightarrow> SlabSys" where
  "slab_unlock arg s =
    (if arg AND Slab_Flag_Inner = 0 then s\<lparr>slabLock := SpinLock_unlock (slabLock s)\<rparr> else s)"

definition size_class :: "(nat \<Rightarrow> SlabCache) \<Rightarrow> u64 \<Rightarrow> nat option" where
  "size_class cs sz = List.find (\<lambda>cid. \<not> csize (cs cid) < sz) [0..<16]"

definition clear_mem :: "ptr \<Rightarrow> u64 \<Rightarrow> SlabSys \<Rightarrow> SlabSys" where
  "clear_mem a n s = s\<lparr>kmem := (\<lambda>q. if unat (q - a) < unat n then 0 else kmem s q)\<rparr>"

text \<open>The new slab's structure and map, filled in, initialised and linked.\<close>

definition link_slab :: "nat \<Rightarrow> ptr \<Rightarrow> Slab \<Rightarrow> SlabSys \<Rightarrow> SlabSys" where
  "link_slab cid slab g s =
    (let s = set_slab slab (\<lambda>_. g\<lparr>colMap := fresh_map (colLen g) (colCnt g) (colMap g)\<rparr>) s
     in set_cache cid (\<lambda>c. c\<lparr>slabs := (case slabs c of [] \<Rightarrow> [slab] | h # t \<Rightarrow> h # slab # t),
                            cfree := cfree c + sfree g\<rparr>) s)"

text \<open>
  One call of \<open>kmalloc\<close> without the recording of private blocks, which happens after the
  lock has been released; \<open>newSlab\<close> is \<open>Slab_pushNewSlab\<close>.
\<close>

definition take_block :: "nat \<Rightarrow> ptr \<Rightarrow> nat \<Rightarrow> SlabSys \<Rightarrow> SlabSys" where
  "take_block cid slab j s =
    (let s = set_slab slab (\<lambda>g. g\<lparr>colMap := (colMap g)(j div 64 := bitset1 (colMap g (j div 64)) (j mod 64)),
               susing := susing g + 1, sfree := sfree g - 1\<rparr>) s
     in set_cache cid (\<lambda>c. c\<lparr>cusing := cusing c + 1, cfree := cfree c - 1\<rparr>) s)"

definition block_addr :: "nat \<Rightarrow> ptr \<Rightarrow> nat \<Rightarrow> SlabSys \<Rightarrow> ptr" where
  "block_addr cid slab j s = svirtAddr (slabAt s slab) + of_nat j * csize (caches s cid)"

definition choose_slab :: "(nat \<Rightarrow> SlabSys \<Rightarrow> SlabSys option) \<Rightarrow> nat \<Rightarrow> SlabSys \<Rightarrow> (ptr \<times> SlabSys) option" where
  "choose_slab newSlab cid s =
    (if cfree (caches s cid) > 0 then
       let slab = pick_slab (slabAt s) (slabs (caches s cid))
       in Some (slab, set_cache cid (\<lambda>c. c\<lparr>slabs := move_front slab (slabs c)\<rparr>) s)
     else map_option (\<lambda>s. (case slabs (caches s cid) of h # n # _ \<Rightarrow> n | h # [] \<Rightarrow> h | [] \<Rightarrow> NULL, s)) (newSlab cid s))"

definition kmalloc_step :: "(nat \<Rightarrow> SlabSys \<Rightarrow> SlabSys option) \<Rightarrow> u64 \<Rightarrow> u64 \<Rightarrow> SlabSys \<Rightarrow> (ptr \<times> SlabSys) option" where
  "kmalloc_step newSlab sz arg s =
    (let prev = intrOn s in
     case slab_lock arg (s\<lparr>intrOn := False\<rparr>) of None \<Rightarrow> None
     | Some s \<Rightarrow>
       if sz > MM_Slab_maxSize then Some (NULL, slab_unlock arg s)
       else
         (case size_class (caches s) sz of None \<Rightarrow> None
          | Some cid \<Rightarrow>
            (case choose_slab newSlab cid s of None \<Rightarrow> None
             | Some (slab, s) \<Rightarrow>
               (case scan_free (unat (colCnt (slabAt s slab))) (colMap (slabAt s slab)) 0 of
                  None \<Rightarrow> Some (NULL, (slab_unlock arg s)\<lparr>intrOn := prev\<rparr>)
                | Some j \<Rightarrow>
                    let s = take_block cid slab j s;
                        ad = block_addr cid slab j s;
                        s = (slab_unlock arg s)\<lparr>intrOn := prev\<rparr>;
                        s = (if arg AND Slab_Flag_Clear \<noteq> 0 then clear_mem ad sz s else s)
                    in Some (ad, s)))))"

text \<open>
  \<open>Slab_pushNewSlab\<close>: small blocks keep structure and map at the end of their own 2 MB page;
  large ones take them from \<open>kmalloc\<close>.
\<close>

definition small_slab :: "nat \<Rightarrow> nat \<Rightarrow> ptr \<Rightarrow> SlabSys \<Rightarrow> SlabSys" where
  "small_slab cid p va s =
    (let sz = csize (caches s cid);
         structSize = sizeof_Slab + upAlignTo (Page_2MSize div sz) 64 div 64 * 8;
         slab = va + Page_2MSize - structSize;
         cnt = (Page_2MSize - structSize) div sz
     in link_slab cid slab \<lparr>spage = p, susing = 0, sfree = cnt, svirtAddr = va, colLen = colLen_of cnt,
          colCnt = cnt, colMapAt = slab + sizeof_Slab, colMap = colMap (slabAt s slab)\<rparr> s)"

definition large_slab :: "(u64 \<Rightarrow> u64 \<Rightarrow> SlabSys \<Rightarrow> (ptr \<times> SlabSys) option) \<Rightarrow> nat \<Rightarrow> nat \<Rightarrow> ptr \<Rightarrow>
    SlabSys \<Rightarrow> SlabSys option" where
  "large_slab malloc cid p va s =
    (case malloc sizeof_Slab Slab_Flag_Inner s of None \<Rightarrow> None
     | Some (slab, s) \<Rightarrow>
       let cnt = Page_2MSize div csize (caches s cid); len = colLen_of cnt in
       (case malloc (len * 8) Slab_Flag_Inner s of None \<Rightarrow> None
        | Some (colMem, s) \<Rightarrow>
          Some (link_slab cid slab \<lparr>spage = p, susing = 0, sfree = cnt, svirtAddr = va, colLen = len,
            colCnt = cnt, colMapAt = colMem, colMap = colMap (slabAt s slab)\<rparr> s)))"

definition pushNewSlab_step :: "(u64 \<Rightarrow> u64 \<Rightarrow> SlabSys \<Rightarrow> (ptr \<times> SlabSys) option) \<Rightarrow> nat \<Rightarrow> nat \<Rightarrow>
    SlabSys \<Rightarrow> SlabSys option" where
  "pushNewSlab_step malloc cur cid s =
    (case alloc2MPage cur (buddy s) of None \<Rightarrow> None
     | Some (None, b) \<Rightarrow> Some (s\<lparr>buddy := b\<rparr>)
     | Some (Some p, b) \<Rightarrow>
       let s = s\<lparr>buddy := b\<rparr>; va = DMAS_phys2Virt (phyAddr (pg b p)) in
       if cid < 5 then Some (small_slab cid p va s) else large_slab malloc cid p va s)"

fun kmalloc_fuel :: "nat \<Rightarrow> nat \<Rightarrow> u64 \<Rightarrow> u64 \<Rightarrow> SlabSys \<Rightarrow> (ptr \<times> SlabSys) option" where
  "kmalloc_fuel 0 cur sz arg s = None"
| "kmalloc_fuel (Suc n) cur sz arg s =
    kmalloc_step (pushNewSlab_step (kmalloc_fuel n cur) cur) sz arg s"

definition Slab_pushNewSlab :: "nat \<Rightarrow> nat \<Rightarrow> SlabSys \<Rightarrow> SlabSys option" where
  "Slab_pushNewSlab cur = pushNewSlab_step (kmalloc_fuel 2 cur) cur"

definition addUsage :: "nat \<Rightarrow> ptr \<Rightarrow> ptr \<Rightarrow> u64 \<Rightarrow> SlabSys \<Rightarrow> SlabSys option" where
  "addUsage cur ad dtor sz s =
    map_option (\<lambda>(u, s).
      s\<lparr>kmallocUsage := (kmallocUsage s)(cur := kmallocUsage s cur @ [\<lparr>kaddr = ad, kdtor = dtor, ksize = sz, kself = u\<rparr>]),
        buddy := (buddy s)\<lparr>totUsage := (totUsage (buddy s))(cur := totUsage (buddy s) cur + sz)\<rparr>\<rparr>)
      (kmalloc_fuel 3 cur sizeof_KmallocUsage 0 s)"

definition kmalloc :: "nat \<Rightarrow> u64 \<Rightarrow> u64 \<Rightarrow> ptr \<Rightarrow> SlabSys \<Rightarrow> (ptr \<times> SlabSys) option" where
  "kmalloc cur sz arg dtor s =
    (case kmalloc_fuel 3 cur sz arg s of None \<Rightarrow> None
     | Some (ad, s) \<Rightarrow>
        if ad \<noteq> NULL \<and> arg AND Slab_Flag_Private \<noteq> 0 then
          (case size_class (caches s) sz of None \<Rightarrow> None
           | Some cid \<Rightarrow> map_option (\<lambda>s. (ad, s)) (addUsage cur ad dtor (csize (caches s cid)) s))
        else Some (ad, s))"

section \<open>Freeing\<close>

definition owns :: "SlabSys \<Rightarrow> nat \<Rightarrow> ptr \<Rightarrow> ptr \<Rightarrow> bool" where
  "owns s cid ad slab \<longleftrightarrow>
     svirtAddr (slabAt s slab) \<le> ad \<and>
     ad < svirtAddr (slabAt s slab) + colCnt (slabAt s slab) * csize (caches s cid)"

definition find_slab :: "SlabSys \<Rightarrow> ptr \<Rightarrow> (nat \<times> ptr) option" where
  "find_slab s ad =
    List.find (\<lambda>(cid, slab). owns s cid ad slab) (concat (map (\<lambda>cid. map (Pair cid) (slabs (caches s cid))) [0..<16]))"

definition give_block :: "nat \<Rightarrow> ptr \<Rightarrow> nat \<Rightarrow> SlabSys \<Rightarrow> SlabSys" where
  "give_block cid slab j s =
    (let s = set_slab slab (\<lambda>g. g\<lparr>colMap := (colMap g)(j div 64 := bitset0 (colMap g (j div 64)) (j mod 64)),
               sfree := sfree g + 1, susing := susing g - 1\<rparr>) s
     in set_cache cid (\<lambda>c. c\<lparr>cfree := cfree c + 1, cusing := cusing c - 1\<rparr>) s)"

definition destroySlab_step :: "(ptr \<Rightarrow> u64 \<Rightarrow> SlabSys \<Rightarrow> SlabSys option) \<Rightarrow> nat \<Rightarrow> nat \<Rightarrow> ptr \<Rightarrow>
    SlabSys \<Rightarrow> SlabSys option" where
  "destroySlab_step free cur cid slab s =
    (let s = set_cache cid (\<lambda>c. c\<lparr>slabs := remove1 slab (slabs c), cfree := cfree c - sfree (slabAt s slab)\<rparr>) s;
         free_page = (\<lambda>s. map_option (\<lambda>b. s\<lparr>buddy := b\<rparr>) (MM_Buddy_free cur (Some (spage (slabAt s slab))) (buddy s)))
     in if cid < 5 then free_page s
        else case free (colMapAt (slabAt s slab)) Slab_Flag_Inner s of None \<Rightarrow> None
          | Some s \<Rightarrow> (case free_page s of None \<Rightarrow> None | Some s \<Rightarrow> free slab Slab_Flag_Inner s))"

definition kfree_step :: "(nat \<Rightarrow> ptr \<Rightarrow> SlabSys \<Rightarrow> SlabSys option) \<Rightarrow> ptr \<Rightarrow> u64 \<Rightarrow> SlabSys \<Rightarrow> SlabSys option" where
  "kfree_step destroy ad arg s =
    (let prev = intrOn s in
     case slab_lock arg (s\<lparr>intrOn := False\<rparr>) of None \<Rightarrow> None
     | Some s \<Rightarrow>
       (case find_slab s ad of None \<Rightarrow> None
        | Some (cid, slab) \<Rightarrow>
          let offset = (ad - svirtAddr (slabAt s slab)) div csize (caches s cid);
              s = give_block cid slab (unat offset) s
          in map_option (\<lambda>s. (slab_unlock arg s)\<lparr>intrOn := prev\<rparr>)
               (if susing (slabAt s slab) = 0 \<and> cfree (caches s cid) \<ge> colCnt (slabAt s slab) * 3 div 2 \<and>
                   hd (slabs (caches s cid)) \<noteq> slab
                then destroy cid slab s else Some s)))"

fun kfree_fuel :: "nat \<Rightarrow> nat \<Rightarrow> ptr \<Rightarrow> u64 \<Rightarrow> SlabSys \<Rightarrow> SlabSys option" where
  "kfree_fuel 0 cur ad arg s = None"
| "kfree_fuel (Suc n) cur ad arg s = kfree_step (destroySlab_step (kfree_fuel n cur) cur) ad arg s"

definition Slab_destroySlab :: "nat \<Rightarrow> nat \<Rightarrow> ptr \<Rightarrow> SlabSys \<Rightarrow> SlabSys option" where
  "Slab_destroySlab cur = destroySlab_step (kfree_fuel 2 cur) cur"

text \<open>
  \<open>_delUsage\<close> runs the destructor, which is code of the caller: \<open>run\<close> gives the meaning of a
  function pointer.
\<close>

definition delUsage :: "(ptr \<Rightarrow> ptr \<Rightarrow> SlabSys \<Rightarrow> SlabSys option) \<Rightarrow> nat \<Rightarrow> ptr \<Rightarrow> SlabSys \<Rightarrow> SlabSys option" where
  "delUsage run cur ad s =
    (case List.find (\<lambda>u. kaddr u = ad) (kmallocUsage s cur) of None \<Rightarrow> None
     | Some u \<Rightarrow>
       (case (if kdtor u \<noteq> NULL then run (kdtor u) ad s else Some s) of None \<Rightarrow> None
        | Some s \<Rightarrow>
          let s = s\<lparr>buddy := (buddy s)\<lparr>totUsage := (totUsage (buddy s))(cur := totUsage (buddy s) cur - ksize u)\<rparr>,
                    kmallocUsage := (kmallocUsage s)(cur := remove1 u (kmallocUsage s cur))\<rparr>
          in kfree_fuel 3 cur (kself u) 0 s))"

definition kfree :: "(ptr \<Rightarrow> ptr \<Rightarrow> SlabSys \<Rightarrow> SlabSys option) \<Rightarrow> nat \<Rightarrow> ptr \<Rightarrow> u64 \<Rightarrow> SlabSys \<Rightarrow> SlabSys option" where
  "kfree run cur ad arg s =
    (case (if arg AND Slab_Flag_Private \<noteq> 0 then delUsage run cur ad s else Some s) of None \<Rightarrow> None
     | Some s \<Rightarrow> kfree_fuel 3 cur ad arg s)"

end
