(* ===== verification/Slab_Props.thy ===== *)
theory Slab_Props
  imports Slab Buddy_Inv
begin

text \<open>
  What the slab allocator guarantees: the search for a free block, the colour maps of new
  slabs, the size classes, one allocation and one release in terms of the set of taken
  blocks, and the bound on the mutual recursion of \<open>kmalloc\<close> and \<open>Slab_pushNewSlab\<close>.
\<close>

section \<open>Searching for a free block\<close>

text \<open>The blocks in use: pairs of a slab and a block number.\<close>

definition taken :: "SlabSys \<Rightarrow> (ptr \<times> nat) set" where
  "taken s = {(p, j). j < unat (colCnt (slabAt s p)) \<and> bit (colMap (slabAt s p) (j div 64)) (j mod 64)}"

lemma scan_free_Some:
  "scan_free cnt m j = Some k \<Longrightarrow> j \<le> k \<and> k < cnt \<and> \<not> bit (m (k div 64)) (k mod 64)"
proof (induction cnt m j rule: scan_free.induct)
  case (1 cnt m j)
  show ?case
  proof (cases "j < cnt")
    case False
    then show ?thesis using 1(3) by (simp add: scan_free.simps)
  next
    case True
    show ?thesis
    proof (cases "m (j div 64) = 0xffffffffffffffff")
      case full: True
      then have "scan_free cnt m (j + 64 + 1) = Some k" using 1(3) True by (subst (asm) scan_free.simps) simp
      from 1(1) [OF True full this] show ?thesis by simp
    next
      case nf: False
      show ?thesis
      proof (cases "bit (m (j div 64)) (j mod 64)")
        case b: True
        then have "scan_free cnt m (j + 1) = Some k" using 1(3) True nf by (subst (asm) scan_free.simps) simp
        from 1(2) [OF True nf b this] show ?thesis by simp
      next
        case False
        then have "k = j" using 1(3) True nf by (subst (asm) scan_free.simps) simp
        then show ?thesis using True False by simp
      qed
    qed
  qed
qed

text \<open>Without a full word the search is complete; a full word makes it skip a block.\<close>

lemma scan_free_complete:
  assumes "\<forall>q. m q \<noteq> 0xffffffffffffffff" "j \<le> k" "k < cnt" "\<not> bit (m (k div 64)) (k mod 64)"
  shows "scan_free cnt m j \<noteq> None"
  using assms
proof (induction "k - j" arbitrary: j)
  case 0
  then show ?case by (subst scan_free.simps) simp
next
  case (Suc n)
  show ?case
  proof (cases "bit (m (j div 64)) (j mod 64)")
    case True
    then have "j \<noteq> k" using Suc.prems by auto
    then have "scan_free cnt m (j + 1) \<noteq> None" using Suc.hyps(1) [of "j + 1"] Suc.hyps(2) Suc.prems by simp
    then show ?thesis using Suc.prems True by (subst scan_free.simps) simp
  next
    case False
    then show ?thesis using Suc.prems by (subst scan_free.simps) simp
  qed
qed

lemma scan_free_misses:
  defines "m \<equiv> \<lambda>q. if q = 0 then 0xffffffffffffffff else 0xfffffffffffffffe :: u64"
  shows "\<not> bit (m (64 div 64)) (64 mod 64) \<and> scan_free 66 m 0 = None"
proof -
  have b: "bit (0xfffffffffffffffe :: u64) (Suc 0)" by simp
  have "scan_free 66 m 66 = None" by (subst scan_free.simps) simp
  then have "scan_free 66 m 65 = None"
    by (subst scan_free.simps) (simp add: m_def b)
  then have "scan_free 66 m 0 = None"
    by (subst scan_free.simps) (simp add: m_def)
  then show ?thesis by (simp add: m_def)
qed

section \<open>Fresh colour maps\<close>

lemma clear_bits_fold:
  "bit (foldl (\<lambda>m j. m(j div 64 := bitset0 (m (j div 64)) (j mod 64))) m [0..<n] q) b \<longleftrightarrow>
     bit (m q :: u64) b \<and> \<not> (64 * q + b < n \<and> b < 64)"
proof (induction n)
  case (Suc n)
  have "64 * q + b = n \<and> b < 64 \<longleftrightarrow> q = n div 64 \<and> b = n mod 64" by auto
  then show ?case using Suc by (auto simp: less_Suc_eq)
qed simp

lemma fresh_map_bit:
  assumes "j < 64 * unat len" shows "bit (fresh_map len cnt m (j div 64)) (j mod 64) \<longleftrightarrow> unat cnt \<le> j"
proof -
  have "j div 64 < unat len" using assms by (simp add: div_less_iff_less_mult mult.commute)
  then show ?thesis
    unfolding fresh_map_def clear_bits_fold by (auto simp: bit_minus_1_iff mult.commute)
qed

lemma colLen_enough: "unat cnt + 64 \<le> 2 ^ 64 \<Longrightarrow> unat cnt \<le> 64 * unat (colLen_of cnt)"
proof -
  assume b: "unat cnt + 64 \<le> 2 ^ 64"
  from upAlignTo_spec [of 64 cnt] b have d: "64 dvd unat (upAlignTo cnt 64)" "cnt \<le> upAlignTo cnt 64" by simp_all
  then show ?thesis by (auto simp: colLen_of_def unat_div word_le_nat_alt)
qed

section \<open>Size classes\<close>

definition std_sizes :: "(nat \<Rightarrow> SlabCache) \<Rightarrow> bool" where
  "std_sizes cs \<longleftrightarrow> (\<forall>k<16. csize (cs k) = push_bit (k + 5) 1)"

lemma std_size: "std_sizes cs \<Longrightarrow> k < 16 \<Longrightarrow> unat (csize (cs k)) = 2 ^ (k + 5)"
  by (simp add: std_sizes_def push_bit_eq_mult unat_exp2)

lemma size_class_spec:
  assumes "std_sizes cs"
  shows "size_class cs sz = Some k \<longleftrightarrow>
    k < 16 \<and> unat sz \<le> 2 ^ (k + 5) \<and> (k \<noteq> 0 \<longrightarrow> 2 ^ (k + 4) < unat sz)"
proof -
  have n: "\<not> csize (cs i) < sz \<longleftrightarrow> unat sz \<le> 2 ^ (i + 5)" if "i < 16" for i
    using std_size [OF assms that] by (simp add: word_less_nat_alt not_less)
  have "size_class cs sz = Some k \<longleftrightarrow> k < 16 \<and> \<not> csize (cs k) < sz \<and> (\<forall>j<k. \<not> \<not> csize (cs j) < sz)"
    unfolding size_class_def by (simp add: find_upt_Some)
  also have "\<dots> \<longleftrightarrow> k < 16 \<and> unat sz \<le> 2 ^ (k + 5) \<and> (\<forall>j<k. \<not> unat sz \<le> 2 ^ (j + 5))"
  proof (cases "k < 16")
    case True
    then have "(\<forall>j<k. \<not> \<not> csize (cs j) < sz) \<longleftrightarrow> (\<forall>j<k. \<not> unat sz \<le> 2 ^ (j + 5))"
      using n by auto
    then show ?thesis using n [OF True] True by simp
  qed simp
  also have "(\<forall>j<k. \<not> unat sz \<le> 2 ^ (j + 5)) \<longleftrightarrow> (k \<noteq> 0 \<longrightarrow> 2 ^ (k + 4) < unat sz)"
  proof
    assume a: "\<forall>j<k. \<not> unat sz \<le> 2 ^ (j + 5)"
    show "k \<noteq> 0 \<longrightarrow> 2 ^ (k + 4) < unat sz"
    proof
      assume "k \<noteq> 0"
      then obtain i where "k = Suc i" by (cases k) auto
      then show "2 ^ (k + 4) < unat sz" using a by (simp add: not_le add.commute)
    qed
  next
    assume a: "k \<noteq> 0 \<longrightarrow> 2 ^ (k + 4) < unat sz"
    show "\<forall>j<k. \<not> unat sz \<le> 2 ^ (j + 5)"
    proof (intro allI impI)
      fix j assume j: "j < k"
      then have "(2::nat) ^ (j + 5) \<le> 2 ^ (k + 4)" by (intro power_increasing) simp_all
      then show "\<not> unat sz \<le> 2 ^ (j + 5)" using a j by linarith
    qed
  qed
  finally show ?thesis .
qed

lemma size_class_total:
  assumes "std_sizes cs" "sz \<le> MM_Slab_maxSize" shows "\<exists>k<16. size_class cs sz = Some k"
proof -
  have "\<exists>k. unat sz \<le> 2 ^ (k + 5)"
    using assms(2) by (intro exI [of _ 15]) (simp add: MM_Slab_maxSize_def word_le_nat_alt)
  then obtain k where k: "unat sz \<le> 2 ^ (k + 5)" "\<forall>j<k. \<not> unat sz \<le> 2 ^ (j + 5)"
    using exists_least_iff [of "\<lambda>k. unat sz \<le> 2 ^ (k + 5)"] by auto
  have "\<not> 15 < k" using k(2) assms(2) by (auto simp: MM_Slab_maxSize_def word_le_nat_alt)
  then have "k < 16" by simp
  moreover have "2 ^ (k + 4) < unat sz" if "k \<noteq> 0"
  proof -
    have "\<exists>i. k = Suc i" using that by (cases k) auto
    then obtain i where "k = Suc i" ..
    then show ?thesis using k(2) by (simp add: not_le add.commute)
  qed
  ultimately show ?thesis using k(1) size_class_spec [OF assms(1), of sz k] by auto
qed

lemma size_class_max:
  assumes "std_sizes cs" "size_class cs sz = Some i" shows "sz \<le> MM_Slab_maxSize"
proof -
  have i: "i < 16" "unat sz \<le> 2 ^ (i + 5)" using assms(2) size_class_spec [OF assms(1)] by auto
  have "(2::nat) ^ (i + 5) \<le> 2 ^ 20" using i(1) by (intro power_increasing) simp_all
  then show ?thesis using i(2) by (simp add: MM_Slab_maxSize_def word_le_nat_alt)
qed

section \<open>One allocation\<close>

lemma take_block_sel [simp]:
  "csize (caches (take_block i p j s) k) = csize (caches s k)"
  "svirtAddr (slabAt (take_block i p j s) q) = svirtAddr (slabAt s q)"
  "colCnt (slabAt (take_block i p j s) q) = colCnt (slabAt s q)"
  "intrOn (take_block i p j s) = intrOn s" "slabLock (take_block i p j s) = slabLock s"
  "slabs (caches (take_block i p j s) k) = slabs (caches s k)"
  by (simp_all add: take_block_def set_slab_def set_cache_def Let_def)

lemma div_mod_64: "(i :: nat) div 64 = j div 64 \<and> i mod 64 = j mod 64 \<longleftrightarrow> i = j"
  by (metis div_mult_mod_eq)

lemma map_set1:
  "bit ((m(j div 64 := bitset1 (m (j div 64)) (j mod 64))) (l div 64)) (l mod 64) \<longleftrightarrow>
    l = j \<or> bit (m (l div 64) :: u64) (l mod 64)"
  using div_mod_64 [of l j] by (cases "l div 64 = j div 64") simp_all

lemma map_set0:
  "bit ((m(j div 64 := bitset0 (m (j div 64)) (j mod 64))) (l div 64)) (l mod 64) \<longleftrightarrow>
    l \<noteq> j \<and> bit (m (l div 64) :: u64) (l mod 64)"
  using div_mod_64 [of l j] by (cases "l div 64 = j div 64") simp_all

lemma in_taken: "(q, l) \<in> taken s \<longleftrightarrow>
    l < unat (colCnt (slabAt s q)) \<and> bit (colMap (slabAt s q) (l div 64)) (l mod 64)"
  by (simp add: taken_def)

lemma take_block_taken:
  assumes "j < unat (colCnt (slabAt s p))" shows "taken (take_block i p j s) = insert (p, j) (taken s)"
proof -
  define cm where "cm = (colMap (slabAt s p))(j div 64 := bitset1 (colMap (slabAt s p) (j div 64)) (j mod 64))"
  have cm: "bit (cm (l div 64)) (l mod 64) \<longleftrightarrow> l = j \<or> bit (colMap (slabAt s p) (l div 64)) (l mod 64)" for l
    unfolding cm_def by (rule map_set1)
  have at: "slabAt (take_block i p j s) = (slabAt s)(p := (slabAt s p)\<lparr>
      colMap := cm, susing := susing (slabAt s p) + 1, sfree := sfree (slabAt s p) - 1\<rparr>)"
    by (simp add: take_block_def set_slab_def set_cache_def Let_def cm_def)
  have "(q, l) \<in> taken (take_block i p j s) \<longleftrightarrow> (q, l) = (p, j) \<or> (q, l) \<in> taken s" for q l
    unfolding in_taken at using assms cm by (cases "q = p"; cases "l = j") simp_all
  then show ?thesis by auto
qed

lemma taken_cong: "slabAt s' = slabAt s \<Longrightarrow> taken s' = taken s"
  by (simp add: taken_def)

lemma unlock_sel [simp]:
  "slabAt (slab_unlock a s) = slabAt s" "caches (slab_unlock a s) = caches s" "intrOn (slab_unlock a s) = intrOn s"
  by (simp_all add: slab_unlock_def)

lemma slab_lock_sel:
  "slab_lock a s = Some s0 \<Longrightarrow> slabAt s0 = slabAt s \<and> caches s0 = caches s \<and> intrOn s0 = intrOn s"
  by (auto simp: slab_lock_def split: if_splits)

lemma clear_mem_sel [simp]:
  "slabAt (clear_mem a n s) = slabAt s" "caches (clear_mem a n s) = caches s" "intrOn (clear_mem a n s) = intrOn s"
  by (simp_all add: clear_mem_def)

text \<open>What one call does, in terms of the state \<open>s1\<close> in which the slab has been chosen.\<close>

lemma kmalloc_step_cases:
  assumes r: "kmalloc_step newSlab sz arg s = Some (a, s')" and std: "std_sizes (caches s)"
  obtains (big) "MM_Slab_maxSize < sz" "a = NULL" "taken s' = taken s" "\<not> intrOn s'"
  | (full) i p s0 s1 where "size_class (caches s) sz = Some i" "slab_lock arg (s\<lparr>intrOn := False\<rparr>) = Some s0"
      "choose_slab newSlab i s0 = Some (p, s1)" "a = NULL"
      "scan_free (unat (colCnt (slabAt s1 p))) (colMap (slabAt s1 p)) 0 = None"
      "taken s' = taken s1" "intrOn s' = intrOn s"
  | (block) i p j s0 s1 where "size_class (caches s) sz = Some i" "slab_lock arg (s\<lparr>intrOn := False\<rparr>) = Some s0"
      "choose_slab newSlab i s0 = Some (p, s1)"
      "j < unat (colCnt (slabAt s1 p))" "(p, j) \<notin> taken s1" "taken s' = insert (p, j) (taken s1)"
      "a = block_addr i p j s1" "intrOn s' = intrOn s"
proof (cases "MM_Slab_maxSize < sz")
  case True
  obtain s0 where s0: "slab_lock arg (s\<lparr>intrOn := False\<rparr>) = Some s0" "slabAt s0 = slabAt s" "intrOn s0 = False"
  proof (cases "slab_lock arg (s\<lparr>intrOn := False\<rparr>)")
    case None
    have "kmalloc_step newSlab sz arg s = None"
      unfolding kmalloc_step_def Let_def None option.case ..
    then show thesis using r by simp
  next
    case (Some t)
    have "slabAt t = slabAt s" "caches t = caches s" "intrOn t = False"
      using slab_lock_sel [OF Some] by simp_all
    then show thesis using that Some by blast
  qed
  have "kmalloc_step newSlab sz arg s = Some (NULL, slab_unlock arg s0)"
    unfolding kmalloc_step_def Let_def s0(1) option.case if_P [OF True] ..
  then have "a = NULL" "s' = slab_unlock arg s0" using r by simp_all
  moreover from this have "taken s' = taken s" using s0(2) by (intro taken_cong) simp
  ultimately show ?thesis using big True s0 by simp
next
  case False
  obtain s0 where s0: "slab_lock arg (s\<lparr>intrOn := False\<rparr>) = Some s0" "slabAt s0 = slabAt s" "caches s0 = caches s"
  proof (cases "slab_lock arg (s\<lparr>intrOn := False\<rparr>)")
    case None
    have "kmalloc_step newSlab sz arg s = None"
      unfolding kmalloc_step_def Let_def None option.case ..
    then show thesis using r by simp
  next
    case (Some t)
    have "slabAt t = slabAt s" "caches t = caches s" "intrOn t = False"
      using slab_lock_sel [OF Some] by simp_all
    then show thesis using that Some by blast
  qed
  have "sz \<le> MM_Slab_maxSize" using False by simp
  from size_class_total [OF std this] obtain i where i: "size_class (caches s) sz = Some i" by blast
  have st: "kmalloc_step newSlab sz arg s =
     (case choose_slab newSlab i s0 of None \<Rightarrow> None
             | Some (slab, s1) \<Rightarrow>
               (case scan_free (unat (colCnt (slabAt s1 slab))) (colMap (slabAt s1 slab)) 0 of
                  None \<Rightarrow> Some (NULL, (slab_unlock arg s1)\<lparr>intrOn := intrOn s\<rparr>)
                | Some j \<Rightarrow>
                    let s2 = take_block i slab j s1; ad = block_addr i slab j s2;
                        s2 = (slab_unlock arg s2)\<lparr>intrOn := intrOn s\<rparr>;
                        s2 = (if arg AND Slab_Flag_Clear \<noteq> 0 then clear_mem ad sz s2 else s2)
                    in Some (ad, s2)))"
    unfolding kmalloc_step_def Let_def s0(1) option.case if_not_P [OF False] s0(3) i ..
  obtain p s1 where c: "choose_slab newSlab i s0 = Some (p, s1)"
    using r unfolding st by (cases "choose_slab newSlab i s0") auto
  show ?thesis
  proof (cases "scan_free (unat (colCnt (slabAt s1 p))) (colMap (slabAt s1 p)) 0")
    case None
    then have "a = NULL" "s' = (slab_unlock arg s1)\<lparr>intrOn := intrOn s\<rparr>" using r unfolding st c by simp_all
    moreover from this have "taken s' = taken s1" by (intro taken_cong) simp
    ultimately show ?thesis using full [OF i s0(1) c _ None] by simp
  next
    case (Some j)
    from scan_free_Some [OF this] have j: "j < unat (colCnt (slabAt s1 p))"
      "\<not> bit (colMap (slabAt s1 p) (j div 64)) (j mod 64)" by auto
    define s2 where "s2 = take_block i p j s1"
    have a: "a = block_addr i p j s2" and s': "slabAt s' = slabAt s2" "intrOn s' = intrOn s"
      using r unfolding st c by (auto simp: Some Let_def s2_def [symmetric] split: if_splits)
    have "taken s' = insert (p, j) (taken s1)"
      using taken_cong [OF s'(1)] take_block_taken [OF j(1)] by (simp add: s2_def)
    moreover have "(p, j) \<notin> taken s1" using j(2) by (simp add: taken_def)
    moreover have "a = block_addr i p j s1" using a by (simp add: s2_def block_addr_def)
    ultimately show ?thesis using block [OF i s0(1) c j(1)] s'(2) by simp
  qed
qed

section \<open>The depth of the calls\<close>

text \<open>Blocks of the small classes never need \<open>kmalloc\<close> for their slabs, so one level is enough.\<close>

lemma push_small: "i < 5 \<Longrightarrow> pushNewSlab_step f cur i s = pushNewSlab_step g cur i s"
  unfolding pushNewSlab_step_def Let_def by (simp split: option.split)

lemma kmalloc_step_cong:
  assumes "\<And>i s'. size_class (caches s) sz = Some i \<Longrightarrow> caches s' = caches s \<Longrightarrow> f i s' = g i s'"
  shows "kmalloc_step f sz arg s = kmalloc_step g sz arg s"
proof -
  have "choose_slab f i s0 = choose_slab g i s0"
    if "slab_lock arg (s\<lparr>intrOn := False\<rparr>) = Some s0" "size_class (caches s0) sz = Some i" for i s0
  proof -
    have "caches s0 = caches s" using slab_lock_sel [OF that(1)] by simp
    then have "f i s0 = g i s0" using assms that(2) by simp
    then show ?thesis by (simp add: choose_slab_def)
  qed
  then show ?thesis
    unfolding kmalloc_step_def Let_def by (auto split: option.split)
qed

lemma small_class: "std_sizes cs \<Longrightarrow> unat sz \<le> 512 \<Longrightarrow> size_class cs sz = Some i \<Longrightarrow> i < 5"
proof -
  assume s: "std_sizes cs" "unat sz \<le> 512" "size_class cs sz = Some i"
  have "i \<noteq> 0 \<longrightarrow> 2 ^ (i + 4) < unat sz" using s(3) size_class_spec [OF s(1)] by blast
  then have "i \<noteq> 0 \<Longrightarrow> (2::nat) ^ (i + 4) < 2 ^ 9" using s(2) by simp
  then show "i < 5" using power_less_imp_less_exp [of "2::nat" "i + 4" 9] by (cases "i = 0") auto
qed

lemma kmalloc_small:
  assumes "std_sizes (caches s)" "unat sz \<le> 512"
  shows "kmalloc_fuel (Suc n) cur sz arg s = kmalloc_fuel 1 cur sz arg s"
  unfolding One_nat_def kmalloc_fuel.simps
  by (rule kmalloc_step_cong, rule push_small, erule small_class [OF assms])

lemma link_sizes: "csize (caches (link_slab i p g s) k) = csize (caches s k)"
  by (simp add: link_slab_def set_slab_def set_cache_def Let_def)

lemma std_cong: "(\<And>k. csize (cs' k) = csize (cs k)) \<Longrightarrow> std_sizes cs' = std_sizes cs"
  by (simp add: std_sizes_def)

lemma choose_sizes:
  assumes "choose_slab f i s = Some (p, s')" "\<And>s1. f i s = Some s1 \<Longrightarrow> \<forall>k. csize (caches s1 k) = csize (caches s k)"
  shows "csize (caches s' k) = csize (caches s k)"
  using assms by (auto simp: choose_slab_def Let_def set_cache_def split: if_splits)

lemma kmalloc_step_sizes:
  assumes r: "kmalloc_step f sz arg s = Some (a, s')"
    and f: "\<And>i s1 s2. f i s1 = Some s2 \<Longrightarrow> \<forall>k. csize (caches s2 k) = csize (caches s1 k)"
  shows "csize (caches s' k) = csize (caches s k)"
proof -
  obtain s0 where s0: "slab_lock arg (s\<lparr>intrOn := False\<rparr>) = Some s0" "caches s0 = caches s"
  proof (cases "slab_lock arg (s\<lparr>intrOn := False\<rparr>)")
    case None
    have "kmalloc_step f sz arg s = None" unfolding kmalloc_step_def Let_def None option.case ..
    then show thesis using r by simp
  next
    case (Some t)
    then show thesis using that slab_lock_sel [OF Some] by simp
  qed
  have ch: "csize (caches s2 k) = csize (caches s k)" if "choose_slab f i s0 = Some (p, s2)" for i p s2
    using choose_sizes [OF that] f s0(2) by metis
  show ?thesis
    using r unfolding kmalloc_step_def Let_def s0(1) option.case s0(2)
    by (auto simp: s0(2) ch split: if_splits option.splits)
qed

definition keeps_sizes :: "(u64 \<Rightarrow> u64 \<Rightarrow> SlabSys \<Rightarrow> (ptr \<times> SlabSys) option) \<Rightarrow> bool" where
  "keeps_sizes malloc \<longleftrightarrow>
    (\<forall>n a s p s'. malloc n a s = Some (p, s') \<longrightarrow> (\<forall>k. csize (caches s' k) = csize (caches s k)))"

lemma large_sizes:
  assumes m: "keeps_sizes malloc" and r: "large_slab malloc i p va s = Some s'"
  shows "csize (caches s' k) = csize (caches s k)"
proof -
  obtain q s1 where 1: "malloc sizeof_Slab Slab_Flag_Inner s = Some (q, s1)"
    using r by (cases "malloc sizeof_Slab Slab_Flag_Inner s") (auto simp: large_slab_def)
  obtain c s2 where 2: "malloc (colLen_of (Page_2MSize div csize (caches s1 i)) * 8) Slab_Flag_Inner s1 = Some (c, s2)"
    using r unfolding large_slab_def Let_def 1 option.case prod.case
    by (cases "malloc (colLen_of (Page_2MSize div csize (caches s1 i)) * 8) Slab_Flag_Inner s1") auto
  have "csize (caches s' k) = csize (caches s2 k)"
    using r unfolding large_slab_def Let_def 1 option.case prod.case 2 by (auto simp: link_sizes)
  then show ?thesis using m 1 2 unfolding keeps_sizes_def by metis
qed

lemma push_sizes:
  assumes m: "keeps_sizes malloc" and r: "pushNewSlab_step malloc cur i s = Some s'"
  shows "csize (caches s' k) = csize (caches s k)"
  using r large_sizes [OF m, of i] unfolding pushNewSlab_step_def Let_def
  by (auto simp: link_sizes small_slab_def Let_def split: option.splits if_splits)

lemma kmalloc_sizes: "keeps_sizes (kmalloc_fuel n cur)"
proof (induction n)
  case 0
  show ?case by (simp add: keeps_sizes_def)
next
  case (Suc n)
  show ?case
    unfolding keeps_sizes_def kmalloc_fuel.simps
    using kmalloc_step_sizes push_sizes [OF Suc] by metis
qed

lemma large_cong:
  assumes fg: "\<And>n s1. unat n \<le> 512 \<Longrightarrow> std_sizes (caches s1) \<Longrightarrow> f n Slab_Flag_Inner s1 = g n Slab_Flag_Inner s1"
    and k: "keeps_sizes g" and std: "std_sizes (caches s)" and i: "5 \<le> i" "i < 16"
  shows "large_slab f i p va s = large_slab g i p va s"
proof (cases "g sizeof_Slab Slab_Flag_Inner s")
  case None
  then show ?thesis using fg [OF _ std, of sizeof_Slab] by (simp add: large_slab_def sizeof_Slab_def)
next
  case (Some r)
  obtain q s1 where q: "g sizeof_Slab Slab_Flag_Inner s = Some (q, s1)" using Some by (cases r) auto
  then have f1: "f sizeof_Slab Slab_Flag_Inner s = Some (q, s1)"
    using fg [OF _ std, of sizeof_Slab] by (simp add: sizeof_Slab_def)
  have std1: "std_sizes (caches s1)"
    using std_cong [of "caches s1" "caches s"] q k std unfolding keeps_sizes_def by blast
  define len where "len = colLen_of (Page_2MSize div csize (caches s1 i))"
  have "unat (len * 8) \<le> 512"
  proof -
    have sz: "unat (csize (caches s1 i)) = 2 ^ (i + 5)" by (rule std_size [OF std1 i(2)])
    have le: "(2::nat) ^ 10 \<le> 2 ^ (i + 5)" using i(1) by (intro power_increasing) simp_all
    have "unat (Page_2MSize div csize (caches s1 i)) = 2097152 div 2 ^ (i + 5)" by (simp add: unat_div sz)
    also have "\<dots> \<le> 2097152 div 2 ^ 10" using le by (intro div_le_mono2) simp_all
    finally have c: "unat (Page_2MSize div csize (caches s1 i)) \<le> 2048" by simp
    then have "unat (upAlignTo (Page_2MSize div csize (caches s1 i)) 64) < 2048 + 64"
      using upAlignTo_spec [of 64 "Page_2MSize div csize (caches s1 i)"] by simp
    then have "unat len \<le> 32" by (simp add: len_def colLen_of_def unat_div)
    then show ?thesis by (simp add: unat_mult_less)
  qed
  from fg [OF this std1] show ?thesis
    unfolding large_slab_def Let_def q f1 option.case prod.case len_def by simp
qed

lemma kmalloc_depth:
  assumes std: "std_sizes (caches s)"
  shows "kmalloc_fuel (Suc (Suc n)) cur sz arg s = kmalloc_fuel 2 cur sz arg s"
proof -
  have p: "pushNewSlab_step (kmalloc_fuel (Suc m) cur) cur i s1 = pushNewSlab_step (kmalloc_fuel 1 cur) cur i s1"
    if i: "i < 16" and s1: "caches s1 = caches s" for i s1 m
  proof (cases "i < 5")
    case True
    then show ?thesis by (rule push_small)
  next
    case False
    have "large_slab (kmalloc_fuel (Suc m) cur) i p va s2 = large_slab (kmalloc_fuel 1 cur) i p va s2"
      if "std_sizes (caches s2)" for p va s2
    proof (rule large_cong [OF _ kmalloc_sizes that])
      show "kmalloc_fuel (Suc m) cur n Slab_Flag_Inner s1 = kmalloc_fuel 1 cur n Slab_Flag_Inner s1"
        if "unat n \<le> 512" "std_sizes (caches s1)" for n s1
        using that by (intro kmalloc_small)
    qed (use False i in simp_all)
    then show ?thesis
      using False std s1 unfolding pushNewSlab_step_def Let_def by (simp split: option.split)
  qed
  have "kmalloc_step (pushNewSlab_step (kmalloc_fuel (Suc n) cur) cur) sz arg s =
      kmalloc_step (pushNewSlab_step (kmalloc_fuel 1 cur) cur) sz arg s"
  proof (rule kmalloc_step_cong)
    fix i and s' :: SlabSys assume "size_class (caches s) sz = Some i" "caches s' = caches s"
    then show "pushNewSlab_step (kmalloc_fuel (Suc n) cur) cur i s' = pushNewSlab_step (kmalloc_fuel 1 cur) cur i s'"
      using size_class_spec [OF std, of sz i] by (intro p) auto
  qed
  moreover have "kmalloc_fuel 2 cur sz arg s = kmalloc_step (pushNewSlab_step (kmalloc_fuel 1 cur) cur) sz arg s"
    using kmalloc_fuel.simps(2) [of 1] by (simp only: Suc_1)
  ultimately show ?thesis using kmalloc_fuel.simps(2) [of "Suc n"] by simp
qed

section \<open>Properties\<close>

text \<open>
  C9: Three levels of calls are enough for \<open>kmalloc\<close>: with the sizes of
  \<open>Slab_kmallocCache\<close>, more fuel than two gives the same result, so \<open>kmalloc\<close> and
  \<open>Slab_pushNewSlab\<close> do not call each other forever and \<open>None\<close> never means lack of fuel.
\<close>

theorem kmalloc_depth_bounded:
  assumes "std_sizes (caches s)"
  shows "kmalloc_fuel (Suc (Suc n)) cur sz arg s = kmalloc_fuel 2 cur sz arg s"
  by (rule kmalloc_depth [OF assms])

definition empty_slabs :: SlabSys where
  "empty_slabs = \<lparr>buddy = empty_buddy, caches = Slab_kmallocCache,
     slabAt = (\<lambda>_. \<lparr>spage = 0, susing = 0, sfree = 0, svirtAddr = 0, colLen = 0, colCnt = 0, colMapAt = 0, colMap = (\<lambda>_. 0)\<rparr>),
     slabLock = \<lparr>lock = 0\<rparr>, kmallocUsage = (\<lambda>_. []), kmem = (\<lambda>_. 0), intrOn = True\<rparr>"

lemma std_kmallocCache: "std_sizes Slab_kmallocCache"
  by (simp add: std_sizes_def Slab_kmallocCache_def)

lemma empty_slabs_std: "std_sizes (caches empty_slabs)"
  by (simp add: empty_slabs_def std_kmallocCache)

theorem kmalloc_depth_bounded_witness:
  "kmalloc_fuel 3 0 4096 0 empty_slabs = kmalloc_fuel 2 0 4096 0 empty_slabs"
  using kmalloc_depth_bounded [OF empty_slabs_std, of 1 0 4096 0] by (simp add: numeral_3_eq_3)


text \<open>One slab of class 0 (32 bytes) with four blocks, the first of which is taken.\<close>

definition one_slab :: SlabSys where
  "one_slab = empty_slabs\<lparr>
     slabAt := (\<lambda>_. \<lparr>spage = 0, susing = 1, sfree = 3, svirtAddr = 0x1000, colLen = 1, colCnt = 4,
       colMapAt = 0x2000, colMap = (\<lambda>_. 0xfffffffffffffff1)\<rparr>),
     caches := Slab_kmallocCache(0 := \<lparr>csize = 32, cusing = 1, cfree = 3, slabs = [0x900]\<rparr>)\<rparr>"

lemma one_slab_std: "std_sizes (caches one_slab)"
  using std_kmallocCache by (auto simp: std_sizes_def one_slab_def)

lemma one_slab_alloc: "\<exists>s'. kmalloc_step ns 20 0 one_slab = Some (0x1020, s')"
proof -
  let ?m = "\<lambda>_::nat. 0xfffffffffffffff1 :: u64"
  have b: "bit (0xfffffffffffffff1 :: u64) 0" "\<not> bit (0xfffffffffffffff1 :: u64) 1" by (simp_all add: bit_0)
  have "scan_free 4 ?m 1 = Some 1" using b by (subst scan_free.simps) simp
  then have sc: "scan_free 4 ?m 0 = Some 1" using b by (subst scan_free.simps) simp
  have sz: "size_class (caches one_slab) 20 = Some 0"
    unfolding size_class_spec [OF one_slab_std] by simp
  have lk: "slab_lock 0 (one_slab\<lparr>intrOn := False\<rparr>) = Some (one_slab\<lparr>intrOn := False, slabLock := \<lparr>lock = 1\<rparr>\<rparr>)"
    by (simp add: slab_lock_def one_slab_def empty_slabs_def SpinLock_acquire_free)
  have ch: "choose_slab ns 0 (one_slab\<lparr>intrOn := False, slabLock := \<lparr>lock = 1\<rparr>\<rparr>) =
      Some (0x900, one_slab\<lparr>intrOn := False, slabLock := \<lparr>lock = 1\<rparr>\<rparr>)"
    by (simp add: choose_slab_def one_slab_def set_cache_def pick_slab_def)
  have "\<not> MM_Slab_maxSize < 20" by (simp add: MM_Slab_maxSize_def)
  then show ?thesis
    unfolding kmalloc_step_def Let_def lk option.case
    by (simp add: sz ch) (simp add: one_slab_def sc block_addr_def)
qed




text \<open>
  The search for a free block returns only free blocks, and finds one whenever there is
  one and no word of the colour map is full.
\<close>

theorem scan_free_correct:
  "(\<forall>k. scan_free cnt m j = Some k \<longrightarrow> j \<le> k \<and> k < cnt \<and> \<not> bit (m (k div 64)) (k mod 64)) \<and>
   ((\<forall>q. m q \<noteq> 0xffffffffffffffff) \<longrightarrow> (\<exists>k. j \<le> k \<and> k < cnt \<and> \<not> bit (m (k div 64)) (k mod 64)) \<longrightarrow>
      scan_free cnt m j \<noteq> None)"
  using scan_free_Some scan_free_complete by blast

theorem scan_free_correct_witness:
  "scan_free 4 (\<lambda>_. 1) 0 \<noteq> None"
proof -
  have "\<exists>k. (0::nat) \<le> k \<and> k < 4 \<and> \<not> bit (1 :: u64) (k mod 64)"
    by (intro exI [of _ 1]) (simp add: bit_1_iff)
  then show ?thesis using scan_free_correct [of 4 "\<lambda>_. 1" 0] by simp
qed

lemma give_block_sel [simp]:
  "colCnt (slabAt (give_block i p j s) q) = colCnt (slabAt s q)"
  "slabs (caches (give_block i p j s) k) = slabs (caches s k)" "intrOn (give_block i p j s) = intrOn s"
  by (simp_all add: give_block_def set_slab_def set_cache_def Let_def)

lemma give_block_taken: "taken (give_block i p j s) = taken s - {(p, j)}"
proof -
  define cm where "cm = (colMap (slabAt s p))(j div 64 := bitset0 (colMap (slabAt s p) (j div 64)) (j mod 64))"
  have cm: "bit (cm (l div 64)) (l mod 64) \<longleftrightarrow> l \<noteq> j \<and> bit (colMap (slabAt s p) (l div 64)) (l mod 64)" for l
    unfolding cm_def by (rule map_set0)
  have at: "slabAt (give_block i p j s) = (slabAt s)(p := (slabAt s p)\<lparr>
      colMap := cm, sfree := sfree (slabAt s p) + 1, susing := susing (slabAt s p) - 1\<rparr>)"
    by (simp add: give_block_def set_slab_def set_cache_def Let_def cm_def)
  have "(q, l) \<in> taken (give_block i p j s) \<longleftrightarrow> (q, l) \<noteq> (p, j) \<and> (q, l) \<in> taken s" for q l
    unfolding in_taken at using cm by (cases "q = p"; cases "l = j") simp_all
  then show ?thesis by auto
qed

lemma block_offset:
  assumes "j * unat (csize (caches s i)) < 2 ^ 64" "0 < unat (csize (caches s i))"
  shows "unat ((block_addr i p j s - svirtAddr (slabAt s p)) div csize (caches s i)) = j"
proof -
  have "j * 1 \<le> j * unat (csize (caches s i))" using assms(2) by (intro mult_le_mono) simp_all
  then have "j < 2 ^ 64" using assms(1) by linarith
  then have u: "unat (of_nat j :: u64) = j" by (simp add: unat_of_nat)
  have "unat (of_nat j * csize (caches s i)) = j * unat (csize (caches s i))"
    using assms(1) u by (subst unat_mult_less) simp_all
  then show ?thesis using assms(2) by (simp add: block_addr_def unat_div)
qed


lemma one_slab_find: "find_slab one_slab 0x1000 = Some (0, 0x900)"
proof -
  have "[0..<16] = 0 # [1..<16]" by (simp add: upt_rec)
  then show ?thesis
    by (simp only: find_slab_def list.map concat.simps) (simp add: one_slab_def owns_def)
qed


end
