(* ===== verification/PgTable.thy ===== *)
theory PgTable
  imports Buddy_Inv
begin

text \<open>
  \<open>src/kernel/memory/pgtable.c\<close>: the pool of pages for page tables, mapping, lookup,
  unmapping and the recursive release of an address space.  Tables are reached through the
  direct mapping area, so an entry is the quadword of physical memory at
  \<open>DMAS_virt2Phys\<close> of its address.  The pool is a stack with its top first; \<open>None\<close> in it
  is a null pointer.  A result \<open>None\<close> is a held lock, an access outside the pool array or a
  loop \<open>while (1) IO_hlt()\<close>.
\<close>

definition PGTable_maxCacheSize :: nat where "PGTable_maxCacheSize = 0x1100"
definition PGTable_minCacheSize :: i32 where "PGTable_minCacheSize = 0x100"

definition PageTable_MapSize_4K :: u32 where "PageTable_MapSize_4K = push_bit 0 1"
definition PageTable_MapSize_2M :: u32 where "PageTable_MapSize_2M = push_bit 1 1"
definition PageTable_MapSize_1G :: u32 where "PageTable_MapSize_1G = push_bit 2 1"

definition MM_PageTable_Flag_Presented :: u64 where "MM_PageTable_Flag_Presented = push_bit 0 1"
definition MM_PageTable_Flag_Writable :: u64 where "MM_PageTable_Flag_Writable = push_bit 1 1"
definition MM_PageTable_Flag_UserPage :: u64 where "MM_PageTable_Flag_UserPage = push_bit 2 1"

record PtSys =
  ptmem :: pmem
  ptbuddy :: Buddy
  cachePool :: "nat option list"
  cacheSize :: i32
  ptLock :: SpinLock
  ptzones :: "Zone list"

definition getPldIndex :: "u64 \<Rightarrow> u64" where "getPldIndex v = drop_bit 12 v AND 0x1ff"
definition getPmdIndex :: "u64 \<Rightarrow> u64" where "getPmdIndex v = drop_bit 21 v AND 0x1ff"
definition getPudIndex :: "u64 \<Rightarrow> u64" where "getPudIndex v = drop_bit 30 v AND 0x1ff"
definition getPgdIndex :: "u64 \<Rightarrow> u64" where "getPgdIndex v = drop_bit 39 v AND 0x1ff"

text \<open>The address of entry \<open>i\<close> of the table that an entry \<open>e\<close> points to, and its physical place.\<close>

definition tbl_entry :: "u64 \<Rightarrow> u64 \<Rightarrow> ptr" where
  "tbl_entry e i = DMAS_phys2Virt (e AND NOT 0xfff) + 8 * i"

definition rd :: "PtSys \<Rightarrow> ptr \<Rightarrow> u64" where
  "rd s v = ptmem s (DMAS_virt2Phys v)"

definition wr :: "ptr \<Rightarrow> u64 \<Rightarrow> PtSys \<Rightarrow> PtSys" where
  "wr v x s = s\<lparr>ptmem := (ptmem s)(DMAS_virt2Phys v := x)\<rparr>"

section \<open>The pool\<close>

text \<open>Dividing a frame down to one page, pushing the right halves.\<close>

fun pool_div :: "nat \<Rightarrow> nat \<Rightarrow> nat \<Rightarrow> nat option list \<Rightarrow> Buddy \<Rightarrow> nat option list \<times> Buddy" where
  "pool_div 0 cur p st b = (st, b)"
| "pool_div (Suc n) cur p st b =
    (if MM_Buddy_getOrder p b > 0 then
       let (r, b) = MM_Buddy_divPageFrame cur p b in pool_div n cur p (r # st) b
     else (st, b))"

definition table_attr :: u64 where
  "table_attr = Page_Flag_Active OR Page_Flag_Kernel OR Page_Flag_KernelShare"

definition zero_page :: "u64 \<Rightarrow> pmem \<Rightarrow> pmem" where
  "zero_page a mem = write_array a (\<lambda>_. 0) [0..<512] mem"

text \<open>The end of an allocation: the table is cleared after the lock is released.\<close>

definition table_finish :: "nat \<Rightarrow> PtSys \<Rightarrow> u64 \<times> PtSys" where
  "table_finish p s =
    (let s = s\<lparr>ptLock := SpinLock_unlock (ptLock s)\<rparr>; a = phyAddr (pg (ptbuddy s) p);
         s = s\<lparr>ptmem := zero_page (DMAS_virt2Phys (DMAS_phys2Virt a)) (ptmem s)\<rparr>;
         s = s\<lparr>ptbuddy := set_pg p (\<lambda>g. g\<lparr>attr := attr g OR ucast Page_Flag_MMU\<rparr>) (ptbuddy s)\<rparr>
     in (a, s))"

definition MM_PageTable_alloc :: "nat \<Rightarrow> PtSys \<Rightarrow> (u64 \<times> PtSys) option" where
  "MM_PageTable_alloc cur s =
    (case SpinLock_acquire (ptLock s) of None \<Rightarrow> None | Some l \<Rightarrow>
     let s = s\<lparr>ptLock := l\<rparr> in
     (case cachePool s of [] \<Rightarrow> None | None # _ \<Rightarrow> None
      | Some p # rest \<Rightarrow>
        let (st, b) = pool_div 16 cur p rest (ptbuddy s);
            s = s\<lparr>cachePool := st, ptbuddy := b, cacheSize := cacheSize s - 1\<rparr>
        in if length (cachePool s) > PGTable_maxCacheSize then None
           else if sint (cacheSize s) < sint PGTable_minCacheSize then
             (if length (cachePool s) = PGTable_maxCacheSize then None else
              case MM_Buddy_alloc cur 11 table_attr (ptbuddy s) of None \<Rightarrow> None
              | Some (None, b) \<Rightarrow> Some (0, s\<lparr>ptbuddy := b, cachePool := None # cachePool s\<rparr>)
              | Some (Some q, b) \<Rightarrow>
                  Some (table_finish p (s\<lparr>ptbuddy := b, cachePool := Some q # cachePool s,
                                 cacheSize := cacheSize s + push_bit 11 1\<rparr>)))
           else Some (table_finish p s)))"

text \<open>The page of a physical address: in the first zone that contains it.\<close>

definition zone_page :: "Zone list \<Rightarrow> u64 \<Rightarrow> nat option" where
  "zone_page zs a =
    map_option (\<lambda>z. page_base z + unat ((a - phyAddrSt z) div Page_4KSize))
      (List.find (\<lambda>z. phyAddrSt z \<le> a \<and> a < phyAddrEd z) zs)"

definition MM_PageTable_free :: "nat \<Rightarrow> ptr \<Rightarrow> PtSys \<Rightarrow> PtSys option" where
  "MM_PageTable_free cur tbl s =
    (case SpinLock_acquire (ptLock s) of None \<Rightarrow> None | Some l \<Rightarrow>
     let s = s\<lparr>ptLock := l\<rparr> in
     (case zone_page (ptzones s) (DMAS_virt2Phys tbl) of None \<Rightarrow> None
      | Some p \<Rightarrow>
        if ucast (attr (pg (ptbuddy s) p)) AND Page_Flag_MMU = 0 then None
        else
          map_option (\<lambda>s. s\<lparr>ptLock := SpinLock_unlock (ptLock s)\<rparr>)
            (if length (cachePool s) = PGTable_maxCacheSize
             then map_option (\<lambda>b. s\<lparr>ptbuddy := b\<rparr>) (MM_Buddy_free cur (Some p) (ptbuddy s))
             else Some (s\<lparr>cachePool := Some p # cachePool s, cacheSize := cacheSize s + 1\<rparr>))))"

section \<open>Mapping\<close>

text \<open>
  One level: the entry gets a new table when it is empty.  The allocator is an argument, so
  that the lemmas on mappings need only its contract; the functions of the code use
  \<open>MM_PageTable_alloc\<close>.
\<close>

definition ensure :: "(PtSys \<Rightarrow> (u64 \<times> PtSys) option) \<Rightarrow> ptr \<Rightarrow> PtSys \<Rightarrow> PtSys option" where
  "ensure alloc entry s =
    (if rd s entry = 0 then map_option (\<lambda>(t, s). wr entry (t OR 0x7) s) (alloc s) else Some s)"

definition map_with :: "(PtSys \<Rightarrow> (u64 \<times> PtSys) option) \<Rightarrow> u64 \<Rightarrow> u64 \<Rightarrow> u64 \<Rightarrow> u64 \<Rightarrow> PtSys \<Rightarrow> PtSys option" where
  "map_with alloc cr3 vAddr pAddr flag s =
    (let v = Page_4KDownAlign vAddr; p = Page_4KDownAlign pAddr;
         entry = DMAS_phys2Virt cr3 + 8 * getPgdIndex v
     in case ensure alloc entry s of None \<Rightarrow> None | Some s \<Rightarrow>
     let entry = tbl_entry (rd s entry) (getPudIndex v) in
     if rd s entry \<noteq> 0 \<and> rd s entry AND 0x80 \<noteq> 0 then Some s else
     (case ensure alloc entry s of None \<Rightarrow> None | Some s \<Rightarrow>
     let entry = tbl_entry (rd s entry) (getPmdIndex v) in
     if rd s entry \<noteq> 0 \<and> rd s entry AND 0x80 \<noteq> 0 then Some s else
     (case ensure alloc entry s of None \<Rightarrow> None | Some s \<Rightarrow>
     let entry = tbl_entry (rd s entry) (getPldIndex v) in
     Some (wr entry (p OR flag) s))))"

definition MM_PageTable_map :: "nat \<Rightarrow> u64 \<Rightarrow> u64 \<Rightarrow> u64 \<Rightarrow> u64 \<Rightarrow> PtSys \<Rightarrow> PtSys option" where
  "MM_PageTable_map cur = map_with (MM_PageTable_alloc cur)"

definition MM_PageTable_map2M :: "nat \<Rightarrow> u64 \<Rightarrow> u64 \<Rightarrow> u64 \<Rightarrow> u64 \<Rightarrow> PtSys \<Rightarrow> PtSys option" where
  "MM_PageTable_map2M cur cr3 vAddr pAddr flag s =
    (let v = Page_2MDownAlign vAddr; p = Page_2MDownAlign pAddr;
         pgdEntry = DMAS_phys2Virt cr3 + 8 * (drop_bit 39 v AND 0x1ff)
     in case ensure (MM_PageTable_alloc cur) pgdEntry s of None \<Rightarrow> None | Some s \<Rightarrow>
     let pudEntry = tbl_entry (rd s pgdEntry) (drop_bit 30 v AND 0x1ff) in
     if rd s pudEntry \<noteq> 0 \<and> rd s pudEntry AND 0x80 \<noteq> 0 then Some s else
     (case ensure (MM_PageTable_alloc cur) pudEntry s of None \<Rightarrow> None | Some s \<Rightarrow>
     let pmdEntry = tbl_entry (rd s pudEntry) (drop_bit 21 v AND 0x1ff) in
     Some (if rd s pmdEntry = 0 then wr pmdEntry (p OR 0x80 OR flag OR (if p > 0 then 1 else 0)) s else s)))"

definition MM_PageTable_map1G :: "nat \<Rightarrow> u64 \<Rightarrow> u64 \<Rightarrow> u64 \<Rightarrow> u64 \<Rightarrow> PtSys \<Rightarrow> PtSys option" where
  "MM_PageTable_map1G cur cr3 vAddr pAddr flag s =
    (let v = Page_1GDownAlign vAddr; p = Page_1GDownAlign pAddr;
         pgdEntry = DMAS_phys2Virt cr3 + 8 * (drop_bit 39 v AND 0x1ff)
     in case ensure (MM_PageTable_alloc cur) pgdEntry s of None \<Rightarrow> None | Some s \<Rightarrow>
     let pudEntry = tbl_entry (rd s pgdEntry) (drop_bit 30 v AND 0x1ff) in
     Some (if rd s pudEntry = 0 then wr pudEntry (p OR 0x80 OR flag OR (if p > 0 then 1 else 0)) s else s))"

definition MM_PageTable_getPldEntry :: "u64 \<Rightarrow> u64 \<Rightarrow> PtSys \<Rightarrow> u64" where
  "MM_PageTable_getPldEntry cr3 vAddr s =
    (let e = rd s (DMAS_phys2Virt cr3 + 8 * getPgdIndex vAddr) in
     if e = 0 then 0 else
     let e = rd s (tbl_entry e (getPudIndex vAddr)) in
     if e = 0 then 0 else if e AND 0x80 \<noteq> 0 then e else
     let e = rd s (tbl_entry e (getPmdIndex vAddr)) in
     if e = 0 then 0 else if e AND 0x80 \<noteq> 0 then e else
     rd s (tbl_entry e (getPldIndex vAddr)))"

definition MM_PageTable_cleanTmpMap :: "u64 \<Rightarrow> PtSys \<Rightarrow> PtSys" where
  "MM_PageTable_cleanTmpMap cr3 = wr (DMAS_phys2Virt cr3) 0"

section \<open>Initialisation\<close>

text \<open>
  The reserved ranges of the memory map.  The test for a 2 MB page multiplies by the mask
  where it means to take the low bits, so it holds for the address 0 only.
\<close>

partial_function (option) init_range :: "nat \<Rightarrow> u64 \<Rightarrow> u64 \<Rightarrow> u64 \<Rightarrow> PtSys \<Rightarrow> PtSys option" where
  "init_range cur cr3 bound ad s =
    (if ad < bound then
       if ad AND (push_bit Page_1GShift 1 - 1) = 0 \<and> ad + Page_1GSize \<le> bound then
         Option.bind (MM_PageTable_map1G cur cr3 (DMAS_phys2Virt ad) ad MM_PageTable_Flag_Writable s)
           (init_range cur cr3 bound (ad + Page_1GSize))
       else if ad * (push_bit Page_2MShift 1 - 1) = 0 \<and> ad + Page_2MSize \<le> bound then
         Option.bind (MM_PageTable_map2M cur cr3 (DMAS_phys2Virt ad) ad MM_PageTable_Flag_Writable s)
           (init_range cur cr3 bound (ad + Page_2MSize))
       else
         Option.bind (MM_PageTable_map cur cr3 (DMAS_phys2Virt ad) ad
             (MM_PageTable_Flag_Writable OR MM_PageTable_Flag_Presented) s)
           (init_range cur cr3 bound (ad + Page_4KSize))
     else Some s)"

fun init_ranges :: "nat \<Rightarrow> u64 \<Rightarrow> E820 list \<Rightarrow> PtSys \<Rightarrow> PtSys option" where
  "init_ranges cur cr3 [] s = Some s"
| "init_ranges cur cr3 (e # es) s =
    (if etype e = 1 then init_ranges cur cr3 es s
     else Option.bind (init_range cur cr3 (Page_4KUpAlign (addr e + esize e)) (Page_4KDownAlign (addr e)) s)
            (init_ranges cur cr3 es))"

definition MM_PageTable_init :: "nat \<Rightarrow> u64 \<Rightarrow> GlobalMemManageStruct \<Rightarrow> PtSys \<Rightarrow> PtSys option" where
  "MM_PageTable_init cur cr3 M s =
    (let s = s\<lparr>ptLock := SpinLock_init (ptLock s)\<rparr> in
     case MM_Buddy_alloc cur 12 table_attr (ptbuddy s) of None \<Rightarrow> None
     | Some (p, b) \<Rightarrow>
         init_ranges cur cr3 (map (e820 M) [0..<Suc (e820Length M)])
           (s\<lparr>ptbuddy := b, cachePool := [p], cacheSize := 0x1000\<rparr>))"

section \<open>Unmapping\<close>

text \<open>
  \<open>_tryFree\<close> sets \<open>empty\<close> to 1 in both cases, so it frees the table whatever it holds; it
  returns 1 if it returns.
\<close>

definition tryFree :: "nat \<Rightarrow> ptr \<Rightarrow> PtSys \<Rightarrow> (bool \<times> PtSys) option" where
  "tryFree cur tbl s =
    (let empty = True in
     if \<not> empty then Some (False, s) else map_option (Pair True) (MM_PageTable_free cur tbl s))"

definition MM_PageTable_unmap :: "nat \<Rightarrow> u64 \<Rightarrow> u64 \<Rightarrow> PtSys \<Rightarrow> PtSys option" where
  "MM_PageTable_unmap cur cr3 vAddr s =
    (let pgdEntry = DMAS_phys2Virt cr3 + 8 * getPgdIndex vAddr;
         pudEntry = tbl_entry (rd s pgdEntry) (getPudIndex vAddr);
         pmdEntry = tbl_entry (rd s pudEntry) (getPmdIndex vAddr);
         pldEntry = tbl_entry (rd s pmdEntry) (getPldIndex vAddr);
         s = (if rd s pldEntry AND NOT 0xfff \<noteq> 0 then wr pldEntry 0 s else s)
     in case tryFree cur (rd s pmdEntry AND NOT 0xfff) s of None \<Rightarrow> None
     | Some (succ, s) \<Rightarrow>
       if \<not> succ then Some s else
       let s = wr pmdEntry 0 s in
       (case tryFree cur (rd s pudEntry AND NOT 0xfff) s of None \<Rightarrow> None
        | Some (succ, s) \<Rightarrow>
          if \<not> succ then Some s else
          let s = wr pldEntry 0 s in
          (case tryFree cur (rd s pgdEntry AND NOT 0xfff) s of None \<Rightarrow> None
           | Some (succ, s) \<Rightarrow> Some (if succ then wr pgdEntry 0 s else s))))"

definition fold_opt :: "('a \<Rightarrow> 's \<Rightarrow> 's option) \<Rightarrow> 'a list \<Rightarrow> 's \<Rightarrow> 's option" where
  "fold_opt f xs s = foldl (\<lambda>r x. Option.bind r (f x)) (Some s) xs"

fun cleanMap_lvl :: "nat \<Rightarrow> nat \<Rightarrow> ptr \<Rightarrow> PtSys \<Rightarrow> PtSys option" where
  "cleanMap_lvl cur 0 entry s = MM_PageTable_free cur entry s"
| "cleanMap_lvl cur (Suc lvl) entry s =
    Option.bind
      (fold_opt (\<lambda>i s. let e = rd s (entry + 8 * of_nat i) AND NOT 0xfff in
                       if e = 0 then Some s else cleanMap_lvl cur lvl (DMAS_phys2Virt e) s) [0..<512] s)
      (MM_PageTable_free cur entry)"

definition MM_PageTable_cleanMap :: "nat \<Rightarrow> u64 \<Rightarrow> PtSys \<Rightarrow> PtSys option" where
  "MM_PageTable_cleanMap cur cr3 s =
    (let pgd = DMAS_phys2Virt cr3;
         clean = (\<lambda>i s. let e = rd s (pgd + 8 * of_nat i) AND NOT 0xfff in
                        if e = 0 then Some s else cleanMap_lvl cur 2 (DMAS_phys2Virt e) s)
     in Option.bind (Option.bind (fold_opt clean [0..<256] s) (clean 511))
          (MM_PageTable_free cur pgd))"

end
