(* ===== verification/PgTable_Props.thy ===== *)
theory PgTable_Props
  imports PgTable
begin

text \<open>
  The correctness of the page tables: the contract of a table allocator as the locale
  \<open>table_alloc\<close>, mapping proved in it against the walk of the processor, the invariant
  \<open>pool_inv\<close> of the pool of tables over the frames of the buddy allocator, and the
  interpretation of the contract on \<open>MM_PageTable_alloc\<close>.
\<close>

section \<open>Words of a table\<close>

lemma page_addr_align: "page_addr t \<Longrightarrow> t AND NOT 0xfff = t"
proof -
  assume p: "page_addr t"
  have m: "(0xfff :: u64) = mask 12" by (simp add: mask_eq_exp_minus_1)
  show ?thesis
    unfolding m by (rule bit_word_eqI) (auto simp: bit_simps dest: page_addr_bit [OF p] bit_imp_le_length)
qed

definition page_of :: "u64 \<Rightarrow> u64" where "page_of a = a AND NOT (mask 12)"

lemma page_of_slot:
  assumes p: "page_addr t"
  shows "page_of (t + 8 * pt_index l v) = t"
proof -
  have i: "unat (pt_index l v) < 512" by (rule pt_index_less)
  then have u8: "unat (8 * pt_index l v) = 8 * unat (pt_index l v)" by (subst unat_mult_less) auto
  obtain c where c: "unat t = 4096 * c" using p by (auto simp: page_addr_def)
  have ut: "unat (t + 8 * pt_index l v) = unat t + 8 * unat (pt_index l v)"
    using p i u8 by (subst unat_plus_less) (auto simp: page_addr_def)
  have "unat (page_of (t + 8 * pt_index l v)) = 4096 * ((unat t + 8 * unat (pt_index l v)) div 4096)"
    unfolding page_of_def by (simp only: unat_and_not_mask ut) simp
  also have "\<dots> = unat t" using i unfolding c by simp
  finally show ?thesis by (simp add: word_unat_eq_iff)
qed

lemma slot_neq: "page_addr t \<Longrightarrow> page_addr u \<Longrightarrow> t \<noteq> u \<Longrightarrow> t + 8 * pt_index l v \<noteq> u + 8 * pt_index k w"
  by (metis page_of_slot)

text \<open>An entry that leads to a table, as the mapping functions write it.\<close>

definition table_entry :: "u64 \<Rightarrow> bool" where
  "table_entry e \<longleftrightarrow> e AND NOT 0xfff = hw_addr e \<and> present e \<and> \<not> large e \<and> e \<noteq> 0"

lemma table_entry_new: "page_addr t \<Longrightarrow> table_entry (t OR 0x7)" "page_addr t \<Longrightarrow> hw_addr (t OR 0x7) = t"
proof -
  assume p: "page_addr t"
  have m: "(0xfff :: u64) = mask 12" by (simp add: mask_eq_exp_minus_1)
  have f: "(0x7 :: u64) AND NOT (mask 12) = 0" by (simp add: mask_eq_exp_minus_1)
  show h: "hw_addr (t OR 0x7) = t" by (rule hw_addr_or [OF p f])
  have pr: "present (t OR 0x7)" "\<not> large (t OR 0x7)"
    by (simp_all add: present_def large_def bit_or_page [OF p])
  moreover have "(t OR 0x7) AND NOT 0xfff = t"
    using page_addr_align [OF p] f by (simp add: m bit.conj_disj_distrib2)
  moreover have "t OR 0x7 \<noteq> 0" using pr by (auto simp: present_def)
  ultimately show "table_entry (t OR 0x7)" by (simp add: table_entry_def h)
qed

text \<open>
  The tables that exist on the path of an address, from level \<open>l\<close> down: distinct pages, none
  of them in \<open>N\<close>, and no entry on the way that maps a large page.
\<close>

fun chain :: "pmem \<Rightarrow> u64 set \<Rightarrow> nat \<Rightarrow> u64 \<Rightarrow> u64 \<Rightarrow> bool" where
  "chain mem N 0 t v \<longleftrightarrow> page_addr t \<and> t \<notin> N"
| "chain mem N (Suc l) t v \<longleftrightarrow> page_addr t \<and> t \<notin> N \<and>
     (let e = mem (t + 8 * pt_index (Suc l) v)
      in e = 0 \<or> table_entry e \<and> chain mem (insert t N) l (hw_addr e) v)"

lemma chain_cong:
  "chain mem N l t v \<Longrightarrow> (\<And>a. page_of a \<notin> N \<Longrightarrow> mem' a = mem a) \<Longrightarrow> M \<subseteq> N \<Longrightarrow> chain mem' M l t v"
proof (induction l arbitrary: t N M)
  case (Suc l)
  let ?a = "t + 8 * pt_index (Suc l) v"
  have p: "page_addr t" "t \<notin> N" using Suc.prems(1) by simp_all
  have e: "mem' ?a = mem ?a" using Suc.prems(2) p by (simp add: page_of_slot)
  have "chain mem' (insert t M) l (hw_addr (mem ?a)) v" if "chain mem (insert t N) l (hw_addr (mem ?a)) v"
    by (rule Suc.IH [OF that]) (use Suc.prems(2,3) in auto)
  then show ?case using Suc.prems(1,3) p e by (auto simp: Let_def)
qed auto

lemma chain_page: "chain mem N l t v \<Longrightarrow> page_addr t \<and> t \<notin> N"
  by (cases l) auto

section \<open>What mapping needs of the allocator\<close>

locale table_alloc =
  fixes alloc :: "PtSys \<Rightarrow> (u64 \<times> PtSys) option"
    and ok :: "PtSys \<Rightarrow> bool"
    and avail :: "PtSys \<Rightarrow> u64 set"
    and room :: "PtSys \<Rightarrow> nat"
  assumes alloc_page: "ok s \<Longrightarrow> 0 < room s \<Longrightarrow> \<exists>t s'. alloc s = Some (t, s') \<and> ok s' \<and> page_addr t \<and>
      t \<in> avail s \<and> avail s' \<subseteq> avail s - {t} \<and> room s \<le> Suc (room s') \<and>
      (\<forall>l v. ptmem s' (t + 8 * pt_index l v) = 0) \<and> (\<forall>a. page_of a \<noteq> t \<longrightarrow> ptmem s' a = ptmem s a)"
    and wr_ok [simp]: "ok (wr v x s) = ok s"
    and wr_avail [simp]: "avail (wr v x s) = avail s"
    and wr_room [simp]: "room (wr v x s) = room s"
begin

text \<open>
  One level of a walk: afterwards the entry leads to a table whose path is again in order,
  and only the slot and unused pages have changed.
\<close>

lemma ensure_step:
  assumes s: "ok s" "0 < room s" and c: "chain (ptmem s) (avail s \<union> P) (Suc l) t v" and P: "P \<inter> avail s = {}"
  shows "\<exists>s' e. ensure alloc (DMAS_phys2Virt t + 8 * pt_index (Suc l) v) s = Some s' \<and> ok s' \<and>
    room s \<le> Suc (room s') \<and> avail s' \<subseteq> avail s \<and> insert t P \<inter> avail s' = {} \<and>
    ptmem s' (t + 8 * pt_index (Suc l) v) = e \<and> table_entry e \<and>
    chain (ptmem s') (avail s' \<union> insert t P) l (hw_addr e) v \<and>
    (\<forall>a. page_of a \<notin> avail s \<longrightarrow> a \<noteq> t + 8 * pt_index (Suc l) v \<longrightarrow> ptmem s' a = ptmem s a)"
proof -
  let ?a = "t + 8 * pt_index (Suc l) v"
  have t: "page_addr t" "t \<notin> avail s" "t \<notin> P" using c by simp_all
  have rdv: "rd s (DMAS_phys2Virt t + 8 * pt_index (Suc l) v) = ptmem s ?a"
    by (simp add: rd_def DMAS_add [symmetric])
  show ?thesis
  proof (cases "ptmem s ?a = 0")
    case False
    then have e: "table_entry (ptmem s ?a)" "chain (ptmem s) (insert t (avail s \<union> P)) l (hw_addr (ptmem s ?a)) v"
      using c by (simp_all add: Let_def)
    have "ensure alloc (DMAS_phys2Virt t + 8 * pt_index (Suc l) v) s = Some s"
      using False by (simp add: ensure_def rdv)
    then show ?thesis
      using e s t P by (intro exI [of _ s] exI [of _ "ptmem s ?a"]) auto
  next
    case True
    obtain u s1 where a: "alloc s = Some (u, s1)" "ok s1" "page_addr u" "u \<in> avail s" "avail s1 \<subseteq> avail s - {u}"
      "room s \<le> Suc (room s1)" "\<forall>l v. ptmem s1 (u + 8 * pt_index l v) = 0" "\<forall>a. page_of a \<noteq> u \<longrightarrow> ptmem s1 a = ptmem s a"
      using alloc_page [OF s] by blast
    let ?s = "wr (DMAS_phys2Virt t + 8 * pt_index (Suc l) v) (u OR 0x7) s1"
    have mem: "ptmem ?s = (ptmem s1)(?a := u OR 0x7)" by (simp add: wr_def DMAS_add [symmetric])
    have en: "ensure alloc (DMAS_phys2Virt t + 8 * pt_index (Suc l) v) s = Some ?s"
      using True a(1) by (simp add: ensure_def rdv)
    have ne: "u \<noteq> t" "u \<notin> P" using a(4) t P by auto
    have z: "ptmem ?s (u + 8 * pt_index k v) = 0" for k
      using a(7) slot_neq [OF a(3) t(1) ne(1)] unfolding mem by (simp add: page_of_slot [OF a(3)])
    have ch: "chain (ptmem ?s) (avail s1 \<union> insert t P) l u v"
      using a(3,5) ne z by (cases l) auto
    show ?thesis
    proof (intro exI conjI)
      show "ensure alloc (DMAS_phys2Virt t + 8 * pt_index (Suc l) v) s = Some ?s" by (rule en)
      show "ptmem ?s ?a = u OR 0x7" unfolding mem by simp
      show "table_entry (u OR 0x7)" by (rule table_entry_new(1) [OF a(3)])
      show "chain (ptmem ?s) (avail ?s \<union> insert t P) l (hw_addr (u OR 0x7)) v"
        using ch by (simp add: table_entry_new(2) [OF a(3)])
      show "\<forall>a. page_of a \<notin> avail s \<longrightarrow> a \<noteq> ?a \<longrightarrow> ptmem ?s a = ptmem s a"
        using a(4,8) unfolding mem by auto
    qed (use a t P in auto)
  qed
qed

end

text \<open>The entries of the path of \<open>v\<close>.\<close>

definition path :: "pmem \<Rightarrow> u64 \<Rightarrow> u64 \<Rightarrow> u64 \<Rightarrow> u64 \<Rightarrow> u64 \<Rightarrow> bool" where
  "path mem cr3 v t3 t2 t1 \<longleftrightarrow>
     page_addr cr3 \<and> page_addr t3 \<and> page_addr t2 \<and> page_addr t1 \<and>
     table_entry (mem (cr3 + 8 * pt_index 3 v)) \<and> hw_addr (mem (cr3 + 8 * pt_index 3 v)) = t3 \<and>
     table_entry (mem (t3 + 8 * pt_index 2 v)) \<and> hw_addr (mem (t3 + 8 * pt_index 2 v)) = t2 \<and>
     table_entry (mem (t2 + 8 * pt_index 1 v)) \<and> hw_addr (mem (t2 + 8 * pt_index 1 v)) = t1"

lemma path_walk:
  assumes p: "path mem cr3 v t3 t2 t1" and e: "mem (t1 + 8 * pt_index 0 v) = e" "present e"
  shows "walk mem cr3 v = Some (hw_addr e OR (v AND mask 12))"
  using assms unfolding path_def walk_def entry_at_def by (simp add: Let_def table_entry_def)

lemma index_eqs:
  "getPgdIndex v = pt_index 3 v" "getPudIndex v = pt_index 2 v" "getPmdIndex v = pt_index 1 v" "getPldIndex v = pt_index 0 v"
  by (simp_all add: getPgdIndex_def getPudIndex_def getPmdIndex_def getPldIndex_def pt_index_def mask_eq_exp_minus_1)

lemma tbl_entry_path:
  "table_entry e \<Longrightarrow> tbl_entry e i = DMAS_phys2Virt (hw_addr e) + 8 * i"
  by (simp add: tbl_entry_def table_entry_def)

lemma rd_phys: "rd s (DMAS_phys2Virt t + i) = ptmem s (t + i)"
  by (simp add: rd_def DMAS_add [symmetric])

lemma large_test: "e AND 0x80 \<noteq> 0 \<longleftrightarrow> large e" for e :: u64
proof -
  have m: "(0x80 :: u64) = push_bit 7 1" by simp
  have b: "bit (e AND 0x80) n \<longleftrightarrow> bit e n \<and> n = 7" for n
    unfolding m bit_and_iff bit_push_bit_iff bit_1_iff by auto
  show ?thesis unfolding large_def by (metis b bit_eq_iff bit_0_eq bot_apply bot_bool_def)
qed

lemma path_getPld:
  assumes p: "path (ptmem s) cr3 v t3 t2 t1"
  shows "MM_PageTable_getPldEntry cr3 v s = ptmem s (t1 + 8 * pt_index 0 v)"
  using p unfolding path_def MM_PageTable_getPldEntry_def index_eqs
  by (simp add: Let_def rd_phys tbl_entry_path large_test) (simp add: table_entry_def)

lemma index_align: "pt_index l (Page_4KDownAlign v) = pt_index l v"
proof -
  have m: "Page_4KMask = mask 12" by (simp add: mask_eq_exp_minus_1 Page_4KMask_def Page_4KSize_def Page_4KShift_def)
  show ?thesis
    unfolding pt_index_def Page_4KDownAlign_def m by (rule bit_word_eqI) (auto simp: bit_simps dest: bit_imp_le_length)
qed

context table_alloc
begin

lemma map_with_path:
  assumes s: "ok s" "3 \<le> room s" and c: "chain (ptmem s) (avail s) 3 cr3 v"
  shows "\<exists>s' t3 t2 t1. map_with alloc cr3 v p flag s = Some s' \<and> ok s' \<and> room s \<le> room s' + 3 \<and>
    avail s' \<subseteq> avail s \<and> path (ptmem s') cr3 v t3 t2 t1 \<and> distinct [cr3, t3, t2, t1] \<and>
    {cr3, t3, t2, t1} \<inter> avail s' = {} \<and>
    ptmem s' (t1 + 8 * pt_index 0 v) = Page_4KDownAlign p OR flag \<and>
    (\<forall>a. page_of a \<notin> avail s \<longrightarrow> a \<notin> {cr3 + 8 * pt_index 3 v, t3 + 8 * pt_index 2 v,
        t2 + 8 * pt_index 1 v, t1 + 8 * pt_index 0 v} \<longrightarrow> ptmem s' a = ptmem s a)"
proof -
  have n3: "(3::nat) = Suc 2" "(2::nat) = Suc 1" "(1::nat) = Suc 0" by simp_all
  let ?a3 = "cr3 + 8 * pt_index 3 v"
  have c': "chain (ptmem s) (avail s \<union> {}) (Suc 2) cr3 v" using c unfolding n3(1) [symmetric] by (simp only: Un_empty_right)
  obtain s1 e3 where 1: "ensure alloc (DMAS_phys2Virt cr3 + 8 * pt_index 3 v) s = Some s1" "ok s1"
    "room s \<le> Suc (room s1)" "avail s1 \<subseteq> avail s" "cr3 \<notin> avail s1" "ptmem s1 ?a3 = e3" "table_entry e3"
    "chain (ptmem s1) (avail s1 \<union> {cr3}) 2 (hw_addr e3) v"
    "\<And>a. page_of a \<notin> avail s \<Longrightarrow> a \<noteq> ?a3 \<Longrightarrow> ptmem s1 a = ptmem s a"
    using ensure_step [OF s(1) _ c'] s(2) unfolding n3(1) [symmetric]
    by (auto simp del: chain.simps)
  let ?t3 = "hw_addr e3" let ?a2 = "?t3 + 8 * pt_index 2 v"
  have t3: "page_addr ?t3" "?t3 \<notin> avail s1" "?t3 \<noteq> cr3" using chain_page [OF 1(8)] by auto
  obtain s2 e2 where 2: "ensure alloc (DMAS_phys2Virt ?t3 + 8 * pt_index 2 v) s1 = Some s2" "ok s2"
    "room s1 \<le> Suc (room s2)" "avail s2 \<subseteq> avail s1" "ptmem s2 ?a2 = e2" "table_entry e2"
    "chain (ptmem s2) (avail s2 \<union> {?t3, cr3}) 1 (hw_addr e2) v"
    "\<And>a. page_of a \<notin> avail s1 \<Longrightarrow> a \<noteq> ?a2 \<Longrightarrow> ptmem s2 a = ptmem s1 a"
    using ensure_step [OF 1(2) _ 1(8) [unfolded n3(2)]] s 1(3,5) unfolding n3(2) [symmetric]
    by (auto simp del: chain.simps)
  let ?t2 = "hw_addr e2" let ?a1 = "?t2 + 8 * pt_index 1 v"
  have t2: "page_addr ?t2" "?t2 \<notin> avail s2" "?t2 \<noteq> cr3" "?t2 \<noteq> ?t3" using chain_page [OF 2(7)] by auto
  obtain s3 e1 where 3: "ensure alloc (DMAS_phys2Virt ?t2 + 8 * pt_index 1 v) s2 = Some s3" "ok s3"
    "room s2 \<le> Suc (room s3)" "avail s3 \<subseteq> avail s2" "ptmem s3 ?a1 = e1" "table_entry e1"
    "chain (ptmem s3) (avail s3 \<union> {?t2, ?t3, cr3}) 0 (hw_addr e1) v"
    "\<And>a. page_of a \<notin> avail s2 \<Longrightarrow> a \<noteq> ?a1 \<Longrightarrow> ptmem s3 a = ptmem s2 a"
    using ensure_step [OF 2(2) _ 2(7) [unfolded n3(3)]] s 1(3,5) 2(3,4) t3 unfolding n3(3) [symmetric]
    by (auto simp del: chain.simps)
  let ?t1 = "hw_addr e1" let ?a0 = "?t1 + 8 * pt_index 0 v"
  have t1: "page_addr ?t1" "?t1 \<notin> avail s3" "?t1 \<noteq> cr3" "?t1 \<noteq> ?t3" "?t1 \<noteq> ?t2" using 3(7) by auto
  have c3: "page_addr cr3" using c unfolding n3 by simp
  let ?s = "wr (DMAS_phys2Virt ?t1 + 8 * pt_index 0 v) (Page_4KDownAlign p OR flag) s3"
  have mem: "ptmem ?s = (ptmem s3)(?a0 := Page_4KDownAlign p OR flag)" by (simp add: wr_def DMAS_add [symmetric])
  have p3: "page_of ?a3 = cr3" "page_of ?a2 = ?t3" "page_of ?a1 = ?t2" "page_of ?a0 = ?t1"
    using c3 t1 t2 t3 by (simp_all add: page_of_slot)
  have m3: "ptmem ?s ?a3 = e3"
  proof -
    have "?a3 \<noteq> ?a2" "?a3 \<noteq> ?a1" "?a3 \<noteq> ?a0" using p3 t1 t2 t3 by metis+
    moreover from calculation have "ptmem s3 ?a3 = ptmem s2 ?a3" "ptmem s2 ?a3 = ptmem s1 ?a3"
      using 1(4,5) 2(4) p3(1) 2(8) [of ?a3] 3(8) [of ?a3] by auto
    ultimately show ?thesis unfolding mem using 1(6) by simp
  qed
  have m2: "ptmem ?s ?a2 = e2"
  proof -
    have "?a2 \<noteq> ?a1" "?a2 \<noteq> ?a0" using p3 t1 t2 t3 by metis+
    moreover from calculation have "ptmem s3 ?a2 = ptmem s2 ?a2"
      using 2(4) t3 p3(2) 3(8) [of ?a2] by auto
    ultimately show ?thesis unfolding mem using 2(5) by simp
  qed
  have m1: "ptmem ?s ?a1 = e1"
  proof -
    have "?a1 \<noteq> ?a0" using p3 t1 by metis
    then show ?thesis unfolding mem using 3(5) by simp
  qed
  have nl: "\<not> large e2" "\<not> large e1" "\<not> large e3" using 1(7) 2(6) 3(6) by (simp_all add: table_entry_def)
  have l2: "(ptmem s1 ?a2 \<noteq> 0 \<and> large (ptmem s1 ?a2)) = False"
    using 1(8) unfolding n3(2) by (auto simp: Let_def table_entry_def)
  have l1: "(ptmem s2 ?a1 \<noteq> 0 \<and> large (ptmem s2 ?a1)) = False"
    using 2(7) unfolding n3(3) by (auto simp: Let_def table_entry_def)
  have run: "map_with alloc cr3 v p flag s = Some ?s"
    unfolding map_with_def Let_def index_eqs index_align
    by (simp add: 1(1,6,7) 2(1,5,6) 3(1,5,6) l1 l2 rd_phys tbl_entry_path large_test del: One_nat_def)
  show ?thesis
  proof (intro exI conjI)
    show "map_with alloc cr3 v p flag s = Some ?s" by (rule run)
    show "path (ptmem ?s) cr3 v ?t3 ?t2 ?t1"
      unfolding path_def m3 m2 m1 using c3 t1 t2 t3 1(7) 2(6) 3(6) by simp
    show "\<forall>a. page_of a \<notin> avail s \<longrightarrow> a \<notin> {?a3, ?a2, ?a1, ?a0} \<longrightarrow> ptmem ?s a = ptmem s a"
    proof (intro allI impI)
      fix a assume a: "page_of a \<notin> avail s" "a \<notin> {?a3, ?a2, ?a1, ?a0}"
      then have "page_of a \<notin> avail s1" "page_of a \<notin> avail s2" using 1(4) 2(4) by auto
      then show "ptmem ?s a = ptmem s a"
        unfolding mem using a 1(9) [of a] 2(8) [of a] 3(8) [of a] by auto
    qed
    show "ptmem ?s ?a0 = Page_4KDownAlign p OR flag" unfolding mem by simp
    show "distinct [cr3, ?t3, ?t2, ?t1]" using t1 t2 t3 by auto
    show "{cr3, ?t3, ?t2, ?t1} \<inter> avail ?s = {}" using t1 t2 t3 1(4,5) 2(4) 3(4) by auto
  qed (use 1 2 3 in auto)
qed

end

section \<open>The pool\<close>

lemma buddy_div_sel:
  "buddyLock (snd (MM_Buddy_divPageFrame cur p b)) = buddyLock b"
  "phys (snd (MM_Buddy_divPageFrame cur p b)) = phys b"
  unfolding MM_Buddy_divPageFrame_def Let_def by (auto simp: fun_eq_iff phys_def)

fun pool_bound :: "node list \<Rightarrow> bool" where
  "pool_bound [] = True"
| "pool_bound (n # ns) = ((0 < ordr n \<longrightarrow> length ns + ordr n \<le> 0x200) \<and> pool_bound ns)"

definition pool_pages :: "node list \<Rightarrow> nat" where
  "pool_pages ns = (\<Sum>n\<leftarrow>ns. 2 ^ ordr n)"

abbreviation heads :: "node list \<Rightarrow> nat option list" where
  "heads ns \<equiv> map (\<lambda>n. Some (head n)) ns"

abbreviation area :: "node set \<Rightarrow> nat set" where
  "area N \<equiv> \<Union> (span ` N)"

lemma span_one: "ordr n = 0 \<Longrightarrow> span n = {head n}"
  by (auto simp: span_def)

lemma pool_div_spec:
  assumes "buddy_inv roots F U b" "n \<in> U" "distinct ns" "set ns \<subseteq> U - {n}" "ordr n \<le> m" "pool_bound (n # ns)"
  shows "\<exists>ns' n0 U' b'. pool_div m cur (head n) (heads ns) b = (heads ns', b') \<and>
    buddy_inv roots F U' b' \<and> buddyLock b' = buddyLock b \<and> phys b' = phys b \<and>
    head n0 = head n \<and> ordr n0 = 0 \<and> n0 \<in> U' \<and> distinct ns' \<and> set ns' \<subseteq> U' - {n0} \<and>
    pool_pages ns' + 1 = pool_pages ns + 2 ^ ordr n \<and> pool_bound ns' \<and> length ns' = length ns + ordr n \<and>
    insert (head n) (area (set ns')) = area (insert n (set ns)) \<and>
    U' - insert n0 (set ns') = U - insert n (set ns)"
  using assms
proof (induction m arbitrary: n ns U b)
  case 0
  then show ?case
    by (intro exI [of _ ns] exI [of _ n] exI [of _ U] exI [of _ b]) (auto simp: span_one)
next
  case (Suc m)
  note i = Suc.prems(1,2)
  have ord: "MM_Buddy_getOrder (head n) b = ordr n"
    using headokD(2) [OF invD(3) [OF i(1)]] i(2) by simp
  show ?case
  proof (cases "ordr n = 0")
    case True
    then show ?thesis using Suc.prems ord
      by (intro exI [of _ ns] exI [of _ n] exI [of _ U] exI [of _ b]) (auto simp: span_one)
  next
    case False
    then have k: "0 < ordr n" by simp
    obtain b1 where d: "MM_Buddy_divPageFrame cur (head n) b = (Some (head (rch n)), b1)"
      "buddy_inv roots F (U - {n} \<union> {lch n, rch n}) b1" "head (lch n) = head n"
      using divPageFrame_spec [OF i] False by auto
    have sel: "buddyLock b1 = buddyLock b" "phys b1 = phys b"
      using buddy_div_sel [of cur "head n" b] d(1) by simp_all
    have new: "lch n \<notin> U" "rch n \<notin> U"
      using not_in_used [OF i, of "lch n"] not_in_used [OF i, of "rch n"] span_ch(1) [OF k] ch_ne by auto
    have rs: "heads (rch n # ns) = Some (head (rch n)) # heads ns" by simp
    have "pool_bound (lch n # rch n # ns)" using Suc.prems(6) k by auto
    moreover have "distinct (rch n # ns)" "set (rch n # ns) \<subseteq> U - {n} \<union> {lch n, rch n} - {lch n}"
      using new Suc.prems(3,4) ch_ne by auto
    moreover have "lch n \<in> U - {n} \<union> {lch n, rch n}" "ordr (lch n) \<le> m" using Suc.prems(5) k by auto
    ultimately have "\<exists>ns' n0 U' b'. pool_div m cur (head (lch n)) (heads (rch n # ns)) b1 = (heads ns', b') \<and>
      buddy_inv roots F U' b' \<and> buddyLock b' = buddyLock b1 \<and> phys b' = phys b1 \<and>
      head n0 = head (lch n) \<and> ordr n0 = 0 \<and> n0 \<in> U' \<and> distinct ns' \<and> set ns' \<subseteq> U' - {n0} \<and>
      pool_pages ns' + 1 = pool_pages (rch n # ns) + 2 ^ ordr (lch n) \<and> pool_bound ns' \<and>
      length ns' = length (rch n # ns) + ordr (lch n) \<and>
      insert (head (lch n)) (area (set ns')) = area (insert (lch n) (set (rch n # ns))) \<and>
      U' - insert n0 (set ns') = U - {n} \<union> {lch n, rch n} - insert (lch n) (set (rch n # ns))"
      by (intro Suc.IH [OF d(2)])
    then obtain ns' n0 U' b' where r: "pool_div m cur (head (lch n)) (heads (rch n # ns)) b1 = (heads ns', b')"
      "buddy_inv roots F U' b'" "buddyLock b' = buddyLock b1" "phys b' = phys b1"
      "head n0 = head (lch n)" "ordr n0 = 0" "n0 \<in> U'" "distinct ns'" "set ns' \<subseteq> U' - {n0}"
      "pool_pages ns' + 1 = pool_pages (rch n # ns) + 2 ^ ordr (lch n)" "pool_bound ns'"
      "length ns' = length (rch n # ns) + ordr (lch n)"
      "insert (head (lch n)) (area (set ns')) = area (insert (lch n) (set (rch n # ns)))"
      "U' - insert n0 (set ns') = U - {n} \<union> {lch n, rch n} - insert (lch n) (set (rch n # ns))"
      by (elim exE conjE) (rule that, assumption+)
    show ?thesis
    proof (intro exI conjI)
      show "pool_div (Suc m) cur (head n) (heads ns) b = (heads ns', b')"
        using r(1) d(1,3) k ord by (simp add: Let_def)
      show "pool_pages ns' + 1 = pool_pages ns + 2 ^ ordr n"
        using r(10) pow_split [OF k] by (simp add: pool_pages_def)
      show "length ns' = length ns + ordr n" using r(12) k by simp
      show "insert (head n) (area (set ns')) = area (insert n (set ns))"
        using r(13) d(3) span_ch(1) [OF k] by auto
      show "U' - insert n0 (set ns') = U - insert n (set ns)"
        unfolding r(14) using new by auto
    qed (use r sel d in auto)
  qed
qed

lemma sint_of_nat: "k < 2 ^ 31 \<Longrightarrow> sint (of_nat k :: i32) = int k"
  by (simp add: sint_uint uint_nat unat_of_nat signed_take_bit_int_eq_self)

definition pool_inv :: "(nat \<times> nat) set \<Rightarrow> node set \<Rightarrow> node set \<Rightarrow> node list \<Rightarrow> PtSys \<Rightarrow> bool" where
  "pool_inv roots F U ns s \<longleftrightarrow>
     buddy_inv roots F U (ptbuddy s) \<and> unlocked (ptbuddy s) \<and> lock (ptLock s) = 0 \<and>
     distinct ns \<and> set ns \<subseteq> U \<and> cachePool s = heads ns \<and> pool_bound ns \<and> length ns \<le> PGTable_maxCacheSize \<and>
     cacheSize s = of_nat (pool_pages ns) \<and> pool_pages ns < 2 ^ 30"

lemma pool_invD:
  assumes "pool_inv roots F U ns s"
  shows "buddy_inv roots F U (ptbuddy s)" "unlocked (ptbuddy s)" "lock (ptLock s) = 0"
    "distinct ns" "set ns \<subseteq> U" "cachePool s = heads ns" "pool_bound ns" "length ns \<le> PGTable_maxCacheSize"
    "cacheSize s = of_nat (pool_pages ns)" "pool_pages ns < 2 ^ 30"
  using assms unfolding pool_inv_def by blast+

lemma MMU_bits: "bit (ucast Page_Flag_MMU :: u16) i \<longleftrightarrow> i = 6"
  unfolding Page_Flag_MMU_def bit_ucast_iff bit_push_bit_iff bit_1_iff by auto

lemma inv_mmu:
  assumes i: "buddy_inv roots F U b" and n: "n \<in> U"
  shows "buddy_inv roots F U (set_pg (head n) (\<lambda>g. g\<lparr>attr := attr g OR ucast Page_Flag_MMU\<rparr>) b)"
proof (rule inv_mark [OF i n])
  let ?b = "set_pg (head n) (\<lambda>g. g\<lparr>attr := attr g OR ucast Page_Flag_MMU\<rparr>) b"
  have h: "headok b n" using invD(3) [OF i] n by simp
  show "same_but {head n} b ?b" by (simp add: same_but_def phys_set)
  have "Page_order (pg ?b (head n)) = Page_order (pg b (head n))"
    by (rule Page_order_ext) (auto simp: bit_or_iff MMU_bits)
  then show "headok ?b n" using h by (simp add: headok_def bit_or_iff MMU_bits)
qed

lemma phys_div [simp]: "phys (divPageFrame_step p i s) = phys s"
  by (auto simp: divPageFrame_step_def Let_def phys_set fun_eq_iff phys_def)

lemma phys_divs [simp]: "phys (divPageFrame p i to s) = phys s"
  by (induction i arbitrary: s) auto

lemma phys_sel [simp]:
  "phys (Buddy_unlock s) = phys s" "phys (recordAlloc cur p k s) = phys s" "phys (rmFreePageFrame k p s) = phys s"
  "phys (MM_Buddy_setOrder p k s) = phys s"
  "phys (set_pg p (\<lambda>g. g\<lparr>attr := f g\<rparr>) s) = phys s"
  by (simp_all add: Buddy_unlock_def recordAlloc_def rmFreePageFrame_def phys_def [abs_def] phys_set)
     (auto simp: phys_def [abs_def])

lemma phys_take [simp]: "phys (takeFrame k p l a s) = phys s"
  by (simp add: takeFrame_def Let_def)

lemma phys_alloc:
  assumes "MM_Buddy_alloc cur l a s = Some (r, s')" shows "phys s' = phys s"
proof -
  have lk: "phys x = phys s" if "Buddy_lock s = Some x" for x
    using that by (auto simp: Buddy_lock_def phys_def [abs_def])
  show ?thesis
  proof (cases "Buddy_lock s")
    case None
    then show ?thesis using assms by (simp add: MM_Buddy_alloc_def)
  next
    case (Some x)
    show ?thesis
    proof (cases "List.find (\<lambda>ord. freeList x ord \<noteq> []) [unat l..<Suc Buddy_maxOrder]")
      case None
      then show ?thesis using assms Some lk [OF Some] by (auto simp: MM_Buddy_alloc_def split: if_splits)
    next
      case (Some k)
      then show ?thesis using assms \<open>Buddy_lock s = Some x\<close> lk [OF \<open>Buddy_lock s = Some x\<close>]
        by (auto simp: MM_Buddy_alloc_def Let_def split: if_splits)
    qed
  qed
qed

text \<open>What a successful allocation of a table does, in terms of the frames.\<close>

definition alloc_table_post :: "(nat \<times> nat) set \<Rightarrow> node set \<Rightarrow> node set \<Rightarrow> node list \<Rightarrow> PtSys \<Rightarrow> u64 \<Rightarrow> PtSys \<Rightarrow> bool" where
  "alloc_table_post roots F U ns s t s' \<longleftrightarrow>
     (\<exists>F' U' ns' n. pool_inv roots F' U' ns' s' \<and> n \<in> U' - set ns' \<and> ordr n = 0 \<and>
        t = phys (ptbuddy s) (head n) \<and> area F' \<union> area (set ns') \<union> {head n} = area F \<union> area (set ns) \<and>
        U' - insert n (set ns') = U - set ns \<and> pool_pages ns \<le> Suc (pool_pages ns') \<and>
        phys (ptbuddy s') = phys (ptbuddy s) \<and> ptmem s' = zero_page t (ptmem s))"

lemma table_finish_post:
  assumes i: "buddy_inv roots F' U' b" "buddyLock b = buddyLock (ptbuddy s)" "unlocked (ptbuddy s)"
    and ns: "distinct ns'" "set ns' \<subseteq> U' - {n}" "pool_bound ns'" "length ns' \<le> PGTable_maxCacheSize" "pool_pages ns' < 2 ^ 30"
    and n: "n \<in> U'" "ordr n = 0" and ph: "phys b = phys (ptbuddy s)"
    and ar: "area F' \<union> area (set ns') \<union> {head n} = area F \<union> area (set ns)"
    and U: "U' - insert n (set ns') = U - set ns" and pp: "pool_pages ns \<le> Suc (pool_pages ns')"
    and f: "table_finish (head n) (s\<lparr>ptLock := l, cachePool := heads ns', ptbuddy := b, cacheSize := of_nat (pool_pages ns')\<rparr>) = (t, s')"
  shows "alloc_table_post roots F U ns s t s'"
proof -
  have t: "t = phys (ptbuddy s) (head n)" and s': "s' = s\<lparr>ptLock := SpinLock_unlock l, cachePool := heads ns',
      cacheSize := of_nat (pool_pages ns'), ptbuddy := set_pg (head n) (\<lambda>g. g\<lparr>attr := attr g OR ucast Page_Flag_MMU\<rparr>) b,
      ptmem := zero_page t (ptmem s)\<rparr>"
    using f ph unfolding table_finish_def by (auto simp: Let_def phys_def fun_eq_iff)
  have "pool_inv roots F' U' ns' s'"
    unfolding pool_inv_def s' using inv_mmu [OF i(1) n(1)] i ns
    by (auto simp: SpinLock_unlock_def unlocked_def)
  then show ?thesis
    unfolding alloc_table_post_def using n ns(2) ar U pp t ph
    by (intro exI [of _ F'] exI [of _ U'] exI [of _ ns'] exI [of _ n]) (auto simp: s')
qed

lemma alloc_unfold:
  assumes "lock (ptLock s) = 0" "cachePool s = Some p # rest" "pool_div 16 cur p rest (ptbuddy s) = (st, b)"
    "length st \<le> PGTable_maxCacheSize"
  shows "MM_PageTable_alloc cur s =
    (let s = s\<lparr>ptLock := (ptLock s)\<lparr>lock := 1\<rparr>, cachePool := st, ptbuddy := b, cacheSize := cacheSize s - 1\<rparr>
     in if sint (cacheSize s) < sint PGTable_minCacheSize then
          if length st = PGTable_maxCacheSize then None
          else (case MM_Buddy_alloc cur 11 table_attr b of None \<Rightarrow> None
              | Some (None, b) \<Rightarrow> Some (0, s\<lparr>ptbuddy := b, cachePool := None # cachePool s\<rparr>)
              | Some (Some q, b) \<Rightarrow>
                  Some (table_finish p (s\<lparr>ptbuddy := b, cachePool := Some q # cachePool s,
                                 cacheSize := cacheSize s + push_bit 11 1\<rparr>)))
        else Some (table_finish p s))"
  using assms unfolding MM_PageTable_alloc_def
  by (simp add: SpinLock_acquire_free Let_def)

lemma alloc_table_spec:
  assumes i: "pool_inv roots F U ns s" and ne: "ns \<noteq> []"
  shows "\<exists>t s'. MM_PageTable_alloc cur s = Some (t, s') \<and>
    (alloc_table_post roots F U ns s t s' \<or>
     t = 0 \<and> lock (ptLock s') = 1 \<and> pool_pages ns \<le> 0x100 \<and> (\<forall>n\<in>F. ordr n < 11))"
proof -
  note iD = pool_invD [OF i]
  obtain n rs where ns: "ns = n # rs" using ne by (cases ns) auto
  have n: "n \<in> U" and o16: "ordr n \<le> 16"
    using iD(5) ordr_le [OF invD(1) [OF iD(1)] invD(2) [OF iD(1), of n]] by (auto simp: ns)
  have rs: "distinct rs" "set rs \<subseteq> U - {n}" "pool_bound (n # rs)" using iD(4,5,7) by (auto simp: ns)
  from pool_div_spec [OF iD(1) n rs(1,2) o16 rs(3), of cur]
  obtain ns' n0 U' b where d: "pool_div 16 cur (head n) (heads rs) (ptbuddy s) = (heads ns', b)"
    "buddy_inv roots F U' b" "buddyLock b = buddyLock (ptbuddy s)" "phys b = phys (ptbuddy s)"
    "head n0 = head n" "ordr n0 = 0" "n0 \<in> U'" "distinct ns'" "set ns' \<subseteq> U' - {n0}"
    "pool_pages ns' + 1 = pool_pages rs + 2 ^ ordr n" "pool_bound ns'" "length ns' = length rs + ordr n"
    "insert (head n) (area (set ns')) = area (insert n (set rs))"
    "U' - insert n0 (set ns') = U - insert n (set rs)"
    by (elim exE conjE) (rule that, assumption+)
  have len: "length ns' \<le> PGTable_maxCacheSize"
    using d(12) iD(7,8) by (cases "ordr n = 0") (auto simp: ns PGTable_maxCacheSize_def)
  have pp: "pool_pages ns = Suc (pool_pages ns')" using d(10) by (simp add: ns pool_pages_def)
  have cs: "cacheSize s - 1 = of_nat (pool_pages ns')" using iD(9) by (simp add: pp)
  have lt: "pool_pages ns' < 2 ^ 30" using iD(10) pp by simp
  let ?s = "s\<lparr>ptLock := (ptLock s)\<lparr>lock := 1\<rparr>, cachePool := heads ns', ptbuddy := b, cacheSize := of_nat (pool_pages ns')\<rparr>"
  have run: "MM_PageTable_alloc cur s =
      (if sint (of_nat (pool_pages ns') :: i32) < sint PGTable_minCacheSize then
          if length ns' = PGTable_maxCacheSize then None
          else (case MM_Buddy_alloc cur 11 table_attr b of None \<Rightarrow> None
              | Some (None, b) \<Rightarrow> Some (0, ?s\<lparr>ptbuddy := b, cachePool := None # heads ns'\<rparr>)
              | Some (Some q, b) \<Rightarrow>
                  Some (table_finish (head n) (?s\<lparr>ptbuddy := b, cachePool := Some q # heads ns',
                                 cacheSize := of_nat (pool_pages ns') + push_bit 11 1\<rparr>)))
        else Some (table_finish (head n) ?s))"
    using alloc_unfold [OF iD(3) _ d(1)] iD(6) len cs by (auto simp: ns Let_def split: option.split)
  have small: "sint (of_nat (pool_pages ns') :: i32) < sint PGTable_minCacheSize \<longleftrightarrow> pool_pages ns' < 0x100"
    using lt by (simp add: sint_of_nat PGTable_minCacheSize_def)
  show ?thesis
  proof (cases "pool_pages ns' < 0x100")
    case False
    obtain t s' where f: "table_finish (head n) ?s = (t, s')" by (cases "table_finish (head n) ?s")
    have "alloc_table_post roots F U ns s t s'"
    proof (rule table_finish_post [where n = n0])
      show "buddy_inv roots F U' b" by (rule d)
      show "area F \<union> area (set ns') \<union> {head n0} = area F \<union> area (set ns)" using d(5,13) by (auto simp: ns)
      show "table_finish (head n0) (s\<lparr>ptLock := (ptLock s)\<lparr>lock := 1\<rparr>, cachePool := heads ns',
          ptbuddy := b, cacheSize := of_nat (pool_pages ns')\<rparr>) = (t, s')" using f by (simp add: d(5))
    qed (use d iD len lt pp ns in auto)
    then show ?thesis using run False f small by auto
  next
    case True
    have nb: "length ns' \<le> pool_pages ns'"
      by (induction ns') (auto simp: pool_pages_def Suc_le_eq intro: less_le_trans add_strict_increasing)
    then have nmax: "length ns' \<noteq> PGTable_maxCacheSize" using True by (simp add: PGTable_maxCacheSize_def)
    have ub: "unlocked b" using iD(2) d(3) by (simp add: unlocked_def)
    obtain r b' where a: "MM_Buddy_alloc cur 11 table_attr b = Some (r, b')"
      "case r of Some p \<Rightarrow> alloc_post roots F U' 11 b p b'
       | None \<Rightarrow> buddy_inv roots F U' b' \<and> unlocked b' \<and> (\<forall>n\<in>F. ordr n < unat (11 :: u64))"
      using alloc_spec [OF d(2) ub] by blast
    show ?thesis
    proof (cases r)
      case None
      then show ?thesis using run small True nmax a pp by auto
    next
      case (Some q)
      obtain F2 q' where q: "buddy_inv roots F2 (insert q' U') b'" "unlocked b'" "q' \<notin> U'" "head q' = q" "ordr q' = 11"
        "area F2 \<union> span q' = area F"
        using a(2) Some unfolding alloc_post_def by auto
      let ?s' = "s\<lparr>ptLock := (ptLock s)\<lparr>lock := 1\<rparr>, cachePool := heads (q' # ns'),
          ptbuddy := b', cacheSize := of_nat (pool_pages (q' # ns'))\<rparr>"
      have e: "?s\<lparr>ptbuddy := b', cachePool := Some q # heads ns', cacheSize := of_nat (pool_pages ns') + push_bit 11 1\<rparr> = ?s'"
        using q by (simp add: pool_pages_def)
      obtain t s' where f: "table_finish (head n) ?s' = (t, s')" by (cases "table_finish (head n) ?s'")
      have "alloc_table_post roots F U ns s t s'"
      proof (rule table_finish_post [where n = n0 and ns' = "q' # ns'"])
        show "buddy_inv roots F2 (insert q' U') b'" by (rule q)
        show "area F2 \<union> area (set (q' # ns')) \<union> {head n0} = area F \<union> area (set ns)"
          using d(5,13) q(6) by (auto simp: ns)
        show "table_finish (head n0) ?s' = (t, s')" using f by (simp add: d(5))
        show "buddyLock b' = buddyLock (ptbuddy s)" using q(2) iD(2) by (simp add: unlocked_def SpinLock.equality)
        show "phys b' = phys (ptbuddy s)" using phys_alloc [OF a(1)] d(4) by simp
        show "pool_bound (q' # ns')" using d(11) nb True q(5) by simp
        show "length (q' # ns') \<le> PGTable_maxCacheSize" using nmax len by simp
        show "pool_pages (q' # ns') < 2 ^ 30" using True q(5) by (simp add: pool_pages_def)
        show "pool_pages ns \<le> Suc (pool_pages (q' # ns'))" using pp by (simp add: pool_pages_def)
      qed (use d iD q ns in auto)
      moreover have "MM_PageTable_alloc cur s = Some (t, s')"
        using run small True nmax a(1) Some f e by simp
      ultimately show ?thesis by blast
    qed
  qed
qed

lemma zero_page_other: "page_addr t \<Longrightarrow> page_of a \<noteq> t \<Longrightarrow> zero_page t mem a = mem a"
proof -
  assume p: "page_addr t" and a: "page_of a \<noteq> t"
  have "a \<noteq> t + 8 * of_nat i" if "i < 512" for i
  proof
    assume e: "a = t + 8 * of_nat i"
    have "(of_nat i :: u64) = pt_index 0 (push_bit 12 (of_nat i))"
      using that by (simp add: word_unat_eq_iff unat_pt_index unat_of_nat push_bit_eq_mult unat_mult_less)
    then show False using a e page_of_slot [OF p] by metis
  qed
  then show ?thesis unfolding zero_page_def by (intro write_array_other) auto
qed

lemma zero_page_hit: "zero_page t mem (t + 8 * pt_index l v) = 0"
proof -
  have i: "unat (pt_index l v) \<in> set [0..<512]" using pt_index_less by simp
  have "zero_page t mem (t + 8 * of_nat (unat (pt_index l v))) = 0"
    unfolding zero_page_def by (rule write_array_hit [OF _ i]) auto
  then show ?thesis by simp
qed

definition pt_ok :: "(nat \<times> nat) set \<Rightarrow> PtSys \<Rightarrow> bool" where
  "pt_ok roots s \<longleftrightarrow> (\<exists>F U ns. pool_inv roots F U ns s) \<and> (\<forall>p\<in>cover roots. page_addr (phys (ptbuddy s) p))"

definition pt_frames :: "PtSys \<Rightarrow> nat set" where
  "pt_frames s = (\<Union>k. \<Union>h\<in>set (freeList (ptbuddy s) k). {h..<h + 2 ^ k}) \<union>
     (\<Union>h\<in>{h. Some h \<in> set (cachePool s)}. {h..<h + 2 ^ MM_Buddy_getOrder h (ptbuddy s)})"

definition pt_avail :: "PtSys \<Rightarrow> u64 set" where
  "pt_avail s = phys (ptbuddy s) ` pt_frames s"

definition pt_room :: "PtSys \<Rightarrow> nat" where
  "pt_room s = nat (sint (cacheSize s)) - 0x100"

lemma pt_frames_inv: "pool_inv roots F U ns s \<Longrightarrow> pt_frames s = area F \<union> area (set ns)"
proof -
  assume i: "pool_inv roots F U ns s"
  note iD = pool_invD [OF i]
  have "(\<Union>k. \<Union>h\<in>set (freeList (ptbuddy s) k). {h..<h + 2 ^ k}) = area F"
    unfolding invD(7) [OF iD(1)] by (auto simp: span_def)
  moreover have "MM_Buddy_getOrder (head n) (ptbuddy s) = ordr n" if "n \<in> set ns" for n
    using headokD(2) [OF invD(3) [OF iD(1)]] that iD(5) by auto
  then have "(\<Union>h\<in>{h. Some h \<in> set (cachePool s)}. {h..<h + 2 ^ MM_Buddy_getOrder h (ptbuddy s)}) = area (set ns)"
    unfolding iD(6) by (auto simp: span_def)
  ultimately show ?thesis by (simp add: pt_frames_def)
qed

lemma pt_room_inv: "pool_inv roots F U ns s \<Longrightarrow> pt_room s = pool_pages ns - 0x100"
  using pool_invD(9,10) [of roots F U ns s] by (simp add: pt_room_def sint_of_nat)

lemma area_cover:
  assumes "buddy_inv roots F U b" "N \<subseteq> F \<union> U" shows "area N \<subseteq> cover roots"
proof
  fix x assume "x \<in> area N"
  then obtain n where n: "n \<in> N" "x \<in> span n" by auto
  then have v: "valid roots n" using invD(2) [OF assms(1)] assms(2) by auto
  show "x \<in> cover roots" using node_in_root [OF v] n(2) v unfolding cover_def valid_def by auto
qed

lemma phys_inj:
  assumes "roots_ok roots phy" shows "inj_on phy (cover roots)"
proof -
  have "inj_on (ppn phy) (cover roots)" using assms unfolding roots_ok_def cover_def by blast
  then show ?thesis unfolding inj_on_def ppn_def by metis
qed

lemma pt_alloc_law:
  assumes s: "pt_ok roots s" and r: "0 < pt_room s"
  shows "\<exists>t s'. MM_PageTable_alloc cur s = Some (t, s') \<and> pt_ok roots s' \<and> page_addr t \<and>
      t \<in> pt_avail s \<and> pt_avail s' \<subseteq> pt_avail s - {t} \<and> pt_room s \<le> Suc (pt_room s') \<and>
      (\<forall>l v. ptmem s' (t + 8 * pt_index l v) = 0) \<and> (\<forall>a. page_of a \<noteq> t \<longrightarrow> ptmem s' a = ptmem s a)"
proof -
  obtain F U ns where i: "pool_inv roots F U ns s" using s by (auto simp: pt_ok_def)
  have pa: "\<forall>p\<in>cover roots. page_addr (phys (ptbuddy s) p)" using s by (simp add: pt_ok_def)
  have big: "0x100 < pool_pages ns" using r pt_room_inv [OF i] by simp
  then have ne: "ns \<noteq> []" by (auto simp: pool_pages_def)
  obtain t s' where a: "MM_PageTable_alloc cur s = Some (t, s')" "alloc_table_post roots F U ns s t s'"
    using alloc_table_spec [OF i ne, of cur] big by auto
  obtain F' U' ns' n where p: "pool_inv roots F' U' ns' s'" "n \<in> U' - set ns'" "ordr n = 0"
    "t = phys (ptbuddy s) (head n)" "area F' \<union> area (set ns') \<union> {head n} = area F \<union> area (set ns)"
    "U' - insert n (set ns') = U - set ns" "pool_pages ns \<le> Suc (pool_pages ns')"
    "phys (ptbuddy s') = phys (ptbuddy s)" "ptmem s' = zero_page t (ptmem s)"
    using a(2) unfolding alloc_table_post_def by (elim exE conjE) (rule that, assumption+)
  note b' = pool_invD(1) [OF p(1)] and ns' = pool_invD(5) [OF p(1)]
  have fr: "pt_frames s = insert (head n) (pt_frames s')"
    unfolding pt_frames_inv [OF i] pt_frames_inv [OF p(1)] using p(5) by auto
  have hn: "head n \<notin> pt_frames s'"
  proof
    assume "head n \<in> pt_frames s'"
    then obtain m where m: "m \<in> F' \<union> set ns'" "head n \<in> span m" unfolding pt_frames_inv [OF p(1)] by auto
    have "m \<noteq> n" using m(1) p(2) invD(5) [OF b'] by auto
    moreover have "n \<in> F' \<union> U'" "m \<in> F' \<union> U'" using p(2) m(1) ns' by auto
    ultimately show False using disjD [OF invD(4) [OF b'], of n m] m(2) head_in_span [of n] by blast
  qed
  have sub: "pt_frames s' \<subseteq> cover roots" "head n \<in> cover roots"
    unfolding pt_frames_inv [OF p(1)]
    using area_cover [OF b', of "F' \<union> set ns'"] area_cover [OF b', of "{n}"] ns' p(2) head_in_span [of n] by auto
  have pt: "page_addr t" using pa sub(2) p(4) by simp
  have "inj_on (phys (ptbuddy s)) (cover roots)" using phys_inj invD(1) [OF b'] p(8) by simp
  then have nt: "t \<notin> pt_avail s'" unfolding pt_avail_def p(8) p(4) using hn sub by (auto dest: inj_onD)
  have "pt_avail s' \<subseteq> pt_avail s" "t \<in> pt_avail s" unfolding pt_avail_def p(8) fr p(4) by auto
  then have "pt_avail s' \<subseteq> pt_avail s - {t}" "t \<in> pt_avail s" using nt by auto
  moreover have "pt_room s \<le> Suc (pt_room s')" unfolding pt_room_inv [OF i] pt_room_inv [OF p(1)] using p(7) by simp
  moreover have "pt_ok roots s'" unfolding pt_ok_def p(8) using p(1) pa by blast
  moreover have "\<forall>l v. ptmem s' (t + 8 * pt_index l v) = 0" "\<forall>a. page_of a \<noteq> t \<longrightarrow> ptmem s' a = ptmem s a"
    unfolding p(9) using zero_page_hit zero_page_other [OF pt] by auto
  ultimately show ?thesis using a(1) pt by blast
qed

interpretation pta: table_alloc "MM_PageTable_alloc cur" "pt_ok roots" pt_avail pt_room for cur roots
proof unfold_locales
  fix v x s
  have [simp]: "ptbuddy (wr v x s) = ptbuddy s" "cachePool (wr v x s) = cachePool s" "cacheSize (wr v x s) = cacheSize s"
    by (simp_all add: wr_def)
  show "pt_ok roots (wr v x s) = pt_ok roots s" by (simp add: pt_ok_def pool_inv_def) (simp add: wr_def)
  show "pt_avail (wr v x s) = pt_avail s" by (simp add: pt_avail_def pt_frames_def)
  show "pt_room (wr v x s) = pt_room s" by (simp add: pt_room_def)
qed (rule pt_alloc_law)

section \<open>Freeing a table\<close>

lemma free_table_spec:
  assumes i: "pool_inv roots F U ns s" and n: "n \<in> U - set ns" "ordr n = 0"
    and z: "zone_page (ptzones s) (DMAS_virt2Phys tbl) = Some (head n)"
    and m: "bit (attr (pg (ptbuddy s) (head n))) 6" and c: "pool_pages ns + 1 < 2 ^ 30"
  shows "\<exists>s' F' U' ns'. MM_PageTable_free cur tbl s = Some s' \<and> pool_inv roots F' U' ns' s' \<and>
    area F' \<union> area (set ns') = area F \<union> area (set ns) \<union> {head n} \<and> ptmem s' = ptmem s"
proof -
  note iD = pool_invD [OF i]
  have "Page_Flag_MMU = push_bit 6 1" by (rule Page_Flag_MMU_def)
  then have mm: "ucast (attr (pg (ptbuddy s) (head n))) AND Page_Flag_MMU \<noteq> 0"
    using m by (auto simp: bit_eq_iff bit_and_iff bit_ucast_iff bit_push_bit_iff bit_1_iff simp del: push_bit_of_1 intro!: exI [of _ 6])
  let ?s = "s\<lparr>ptLock := (ptLock s)\<lparr>lock := 1\<rparr>\<rparr>"
  have ul: "lock (SpinLock_unlock l) = 0" for l by (simp add: SpinLock_unlock_def)
  show ?thesis
  proof (cases "length ns = PGTable_maxCacheSize")
    case False
    let ?s' = "?s\<lparr>cachePool := Some (head n) # cachePool s, cacheSize := cacheSize s + 1, ptLock := SpinLock_unlock ((ptLock s)\<lparr>lock := 1\<rparr>)\<rparr>"
    have "MM_PageTable_free cur tbl s = Some ?s'"
      using z mm False iD(6) by (simp add: MM_PageTable_free_def SpinLock_acquire_free [OF iD(3)] Let_def)
    moreover have "pool_inv roots F U (n # ns) ?s'"
      using i n False c by (auto simp: pool_inv_def ul pool_pages_def)
    ultimately show ?thesis using span_one [OF n(2)]
      by (intro exI [of _ ?s'] exI [of _ F] exI [of _ U] exI [of _ "n # ns"]) auto
  next
    case True
    obtain F' n' b where f: "MM_Buddy_free cur (Some (head n)) (ptbuddy s) = Some b" "unlocked b"
      "buddy_inv roots (insert n' F') (U - {n}) b" "n' \<notin> F'" "F' \<subseteq> F" "area F' \<union> span n' = area F \<union> span n"
      using free_spec [OF iD(1,2), of n cur] n(1) by auto
    let ?s' = "?s\<lparr>ptbuddy := b, ptLock := SpinLock_unlock ((ptLock s)\<lparr>lock := 1\<rparr>)\<rparr>"
    have "MM_PageTable_free cur tbl s = Some ?s'"
      using z mm True iD(6) f(1) by (simp add: MM_PageTable_free_def SpinLock_acquire_free [OF iD(3)] Let_def)
    moreover have "pool_inv roots (insert n' F') (U - {n}) ns ?s'"
      using i f n by (auto simp: pool_inv_def ul)
    ultimately show ?thesis using span_one [OF n(2)] f(6)
      by (intro exI [of _ ?s'] exI [of _ "insert n' F'"] exI [of _ "U - {n}"] exI [of _ ns]) auto
  qed
qed

section \<open>A sample machine\<close>

definition big_buddy :: Buddy where
  "big_buddy = revBit 512 (rmFreePageFrame 9 512 (init_frame 512 9 empty_buddy))"

definition big_root :: node where "big_root = root_node (512, 9)"

lemma big_phys: "p < 1024 \<Longrightarrow> unat (phys empty_buddy p) = 4096 * p"
  unfolding phys_def empty_buddy_def by (simp del: of_nat_mult add: unat_of_nat)

lemma big_buddy_inv: "buddy_inv {(512, 9)} {} {big_root} big_buddy" "unlocked big_buddy" "phys big_buddy = phys empty_buddy"
proof -
  let ?b = "init_frame 512 9 empty_buddy"
  have f: "fresh {} empty_buddy" by (simp add: fresh_def roots_ok_def empty_clear)
  have e: "cover {} = {}" by (simp add: cover_def)
  have "fresh {(512, 9)} ?b"
    by (rule fresh_step(1) [OF f]) (auto simp: e big_phys ppn_def inj_on_def)
  moreover have "clear_bits 1024 ?b" by (simp add: empty_clear)
  moreover have "\<forall>p\<in>cover {(512, 9)}. ppn (phys ?b) p < 1024"
    by (auto simp: cover_def ppn_def big_phys)
  ultimately have "buddy_inv {(512, 9)} {big_root} {} ?b"
    using fresh_inv(1) [of "{(512, 9)}" ?b 1024] by (simp add: big_root_def)
  moreover have "head big_root = 512" "ordr big_root = 9" by (simp_all add: big_root_def)
  ultimately show "buddy_inv {(512, 9)} {} {big_root} big_buddy"
    using inv_take [of "{(512, 9)}" "{big_root}" "{}" ?b big_root] by (simp add: big_buddy_def)
  show "unlocked big_buddy" by (simp add: unlocked_def big_buddy_def) (simp add: empty_buddy_def)
  show "phys big_buddy = phys empty_buddy" by (simp add: big_buddy_def)
qed

definition sample_pt :: PtSys where
  "sample_pt = \<lparr>ptmem = (\<lambda>_. 0), ptbuddy = big_buddy, cachePool = [Some 512], cacheSize = 512, ptLock = \<lparr>lock = 0\<rparr>,
     ptzones = []\<rparr>"

lemma sample_pool: "pool_inv {(512, 9)} {} {big_root} [big_root] sample_pt"
  using big_buddy_inv by (simp add: pool_inv_def sample_pt_def big_root_def pool_pages_def PGTable_maxCacheSize_def)

lemma sample_pt_ok: "pt_ok {(512, 9)} sample_pt"
proof -
  have "page_addr (phys (ptbuddy sample_pt) p)" if "p \<in> cover {(512, 9)}" for p
    using that unfolding sample_pt_def PtSys.select_convs big_buddy_inv(3)
    by (auto simp: cover_def page_addr_def big_phys)
  then show ?thesis unfolding pt_ok_def using sample_pool by blast
qed

lemma sample_chain: "chain (ptmem sample_pt) (pt_avail sample_pt) 3 0x1000 v"
proof -
  have fr: "pt_frames sample_pt = {512..<1024}"
    unfolding pt_frames_inv [OF sample_pool] by (auto simp: big_root_def)
  have "unat (phys (ptbuddy sample_pt) p) \<noteq> 0x1000" if "p \<in> {512..<1024}" for p
    using that unfolding sample_pt_def PtSys.select_convs big_buddy_inv(3) by (auto simp: big_phys)
  then have "0x1000 \<notin> pt_avail sample_pt" unfolding pt_avail_def fr by (auto simp: word_unat_eq_iff)
  moreover have "(3::nat) = Suc 2" by simp
  ultimately show ?thesis
    by (simp only: chain.simps) (simp add: page_addr_def sample_pt_def)
qed

section \<open>Properties\<close>

text \<open>
  C13: on a state whose pool is in order, \<open>MM_PageTable_alloc\<close> returns.  Either it hands out one
  page of the pool, cleared, which is no longer available; the pool may have been filled up from
  the buddy allocator, no frame is lost, and the invariant is kept; or the pool was low and
  the buddy allocator has no block of order 11, and it returns 0 with its lock held.
\<close>

theorem MM_PageTable_alloc_correct:
  assumes "pool_inv roots F U ns s" "ns \<noteq> []"
  shows "\<exists>t s'. MM_PageTable_alloc cur s = Some (t, s') \<and>
    (alloc_table_post roots F U ns s t s' \<or>
     t = 0 \<and> lock (ptLock s') = 1 \<and> pool_pages ns \<le> 0x100 \<and> (\<forall>n\<in>F. ordr n < 11))"
  by (rule alloc_table_spec [OF assms])

theorem MM_PageTable_alloc_correct_witness:
  "\<exists>t s'. MM_PageTable_alloc 0 sample_pt = Some (t, s') \<and>
    alloc_table_post {(512, 9)} {} {big_root} [big_root] sample_pt t s'"
proof -
  have "pool_pages [big_root] = 512" by (simp add: pool_pages_def big_root_def)
  then show ?thesis using MM_PageTable_alloc_correct [OF sample_pool, of 0] by auto
qed




definition table_buddy :: Buddy where
  "table_buddy = set_pg 8 (\<lambda>g. g\<lparr>attr := attr g OR ucast Page_Flag_MMU\<rparr>)
     (revBit 8 (rmFreePageFrame 0 8 (init_frame 8 0 empty_buddy)))"

lemma table_buddy_inv: "buddy_inv {(8, 0)} {} {root_node (8, 0)} table_buddy" "unlocked table_buddy"
    "bit (attr (pg table_buddy 8)) 6"
proof -
  let ?b = "init_frame 8 0 empty_buddy" and ?r = "root_node (8, 0)"
  have f: "fresh {} empty_buddy" by (simp add: fresh_def roots_ok_def empty_clear)
  have e: "cover {} = {}" by (simp add: cover_def)
  have "fresh {(8, 0)} ?b" by (rule fresh_step(1) [OF f]) (auto simp: e sample_phys ppn_def inj_on_def)
  moreover have "\<forall>p\<in>cover {(8, 0)}. ppn (phys ?b) p < 16" by (auto simp: cover_def ppn_def sample_phys)
  ultimately have "buddy_inv {(8, 0)} {?r} {} ?b"
    using fresh_inv(1) [of "{(8, 0)}" ?b 16] by (simp add: empty_clear)
  then have "buddy_inv {(8, 0)} {} {?r} (revBit 8 (rmFreePageFrame 0 8 ?b))"
    using inv_take [of "{(8, 0)}" "{?r}" "{}" ?b ?r] by simp
  then show "buddy_inv {(8, 0)} {} {?r} table_buddy"
    using inv_mmu [of "{(8, 0)}" "{}" "{?r}" _ ?r] by (simp add: table_buddy_def)
  show "unlocked table_buddy" by (simp add: unlocked_def table_buddy_def) (simp add: empty_buddy_def)
  show "bit (attr (pg table_buddy 8)) 6" by (simp add: table_buddy_def bit_or_iff MMU_bits)
qed


lemma no_zone:
  assumes "\<forall>z\<in>set zs. phyAddrEd z \<le> 0x780000000000" "unat a < 2 ^ 52"
  shows "zone_page zs (DMAS_virt2Phys a) = None"
proof -
  have "(0x780000000000 :: u64) = 0 - 0xffff880000000000" by simp
  then have "DMAS_virt2Phys a = a + 0x780000000000"
    unfolding DMAS_virt2Phys_def DMAS_virtAddrStart_def DMAS_physAddrStart_def by (simp only: algebra_simps)
  then have "unat (DMAS_virt2Phys a) = unat a + 0x780000000000"
    using assms(2) by (simp add: unat_plus_less)
  then have "0x780000000000 \<le> DMAS_virt2Phys a" by (simp add: word_le_nat_alt)
  then have "\<forall>z\<in>set zs. \<not> DMAS_virt2Phys a < phyAddrEd z" using assms(1) by (meson linorder_not_less order_trans)
  then show ?thesis by (auto simp: zone_page_def find_None_iff)
qed

lemma option_case_None: "x = None \<Longrightarrow> (case x of None \<Rightarrow> None | Some y \<Rightarrow> f y) = None"
  by simp



end
