(* ===== verification/Layout.thy ===== *)
theory Layout
  imports Bits
begin

text \<open>
  How the compiler lays out the C structures of the kernel (System V ABI for x86-64, GCC
  \<open>packed\<close>), and reading and writing a field of a structure in memory.  The structures on disk
  and in device memory are values of the type \<open>ctype\<close>; sizes, offsets and the accesses
  are computed from them.  All offsets are in bits, so that bit-fields need no special treatment.
\<close>

section \<open>Types\<close>

text \<open>
  An integer of some bits, a pointer, an array, a structure or a union (with the attribute
  \<open>packed\<close> or not).  A field has a type, or is a bit-field with the width of its type and its own.
  The members of a field without a name are members of the structure around it.
\<close>

datatype ctype =
    CInt nat
  | CPtr
  | CArr nat ctype
  | CStruct bool "cfield list"
  | CUnion bool "cfield list"
and cfield =
    Fld string ctype
  | BitFld string nat nat

abbreviation "c8 \<equiv> CInt 8"
abbreviation "c16 \<equiv> CInt 16"
abbreviation "c32 \<equiv> CInt 32"
abbreviation "c64 \<equiv> CInt 64"

definition up_to :: "nat \<Rightarrow> nat \<Rightarrow> nat" where
  "up_to a n = (if a = 0 then n else (n + a - 1) div a * a)"

lemma up_to_ge: "n \<le> up_to a n"
proof (cases "a = 0")
  case False
  have "n + a - 1 = (n + a - 1) div a * a + (n + a - 1) mod a" "(n + a - 1) mod a < a"
    using False by (simp_all only: div_mult_mod_eq) auto
  then have "n \<le> (n + a - 1) div a * a" using False by linarith
  then show ?thesis using False by (simp add: up_to_def)
qed (simp add: up_to_def)

fun fname :: "cfield \<Rightarrow> string" where
  "fname (Fld n t) = n"
| "fname (BitFld n tw w) = n"

fun bit_size :: "ctype \<Rightarrow> nat" and bit_align :: "ctype \<Rightarrow> nat" and
  flds_align :: "bool \<Rightarrow> cfield list \<Rightarrow> nat" and flds_end :: "bool \<Rightarrow> nat \<Rightarrow> cfield list \<Rightarrow> nat" and
  flds_max :: "cfield list \<Rightarrow> nat"
where
  "bit_size (CInt w) = w"
| "bit_size CPtr = 64"
| "bit_size (CArr n t) = n * bit_size t"
| "bit_size (CStruct p fs) = up_to (flds_align p fs) (flds_end p 0 fs)"
| "bit_size (CUnion p fs) = up_to (flds_align p fs) (flds_max fs)"
| "bit_align (CInt w) = w"
| "bit_align CPtr = 64"
| "bit_align (CArr n t) = bit_align t"
| "bit_align (CStruct p fs) = flds_align p fs"
| "bit_align (CUnion p fs) = flds_align p fs"
| "flds_align p [] = 8"
| "flds_align p (Fld n t # fs) = max (if p then 8 else bit_align t) (flds_align p fs)"
| "flds_align p (BitFld n tw w # fs) = max (if p then 8 else tw) (flds_align p fs)"
| "flds_end p off [] = off"
| "flds_end p off (Fld n t # fs) = flds_end p (up_to (if p then 8 else bit_align t) off + bit_size t) fs"
| "flds_end p off (BitFld n tw w # fs) =
    flds_end p ((if p \<or> off mod tw + w \<le> tw then off else up_to tw off) + w) fs"
| "flds_max [] = 0"
| "flds_max (Fld n t # fs) = max (bit_size t) (flds_max fs)"
| "flds_max (BitFld n tw w # fs) = max w (flds_max fs)"

definition sizeof :: "ctype \<Rightarrow> nat" where
  "sizeof t = bit_size t div 8"

text \<open>The place of every field of a list: offset and width.\<close>

fun places :: "bool \<Rightarrow> nat \<Rightarrow> cfield list \<Rightarrow> (cfield \<times> nat \<times> nat) list" where
  "places p off [] = []"
| "places p off (Fld n t # fs) =
    (let o' = up_to (if p then 8 else bit_align t) off
     in (Fld n t, o', bit_size t) # places p (o' + bit_size t) fs)"
| "places p off (BitFld n tw w # fs) =
    (let o' = (if p \<or> off mod tw + w \<le> tw then off else up_to tw off)
     in (BitFld n tw w, o', w) # places p (o' + w) fs)"

text \<open>
  The place of a member: its type, offset and width.  A lookup goes through members without a
  name.
\<close>

fun memb :: "ctype \<Rightarrow> string \<Rightarrow> nat \<Rightarrow> (ctype \<times> nat \<times> nat) option" and
  smemb :: "bool \<Rightarrow> nat \<Rightarrow> cfield list \<Rightarrow> string \<Rightarrow> nat \<Rightarrow> (ctype \<times> nat \<times> nat) option" and
  umemb :: "cfield list \<Rightarrow> string \<Rightarrow> nat \<Rightarrow> (ctype \<times> nat \<times> nat) option"
where
  "memb (CStruct p fs) x base = smemb p 0 fs x base"
| "memb (CUnion p fs) x base = umemb fs x base"
| "memb _ x base = None"
| "smemb p off [] x base = None"
| "smemb p off (Fld n t # fs) x base =
    (let o' = up_to (if p then 8 else bit_align t) off in
     if n = x then Some (t, base + o', bit_size t)
     else case (if n = [] then memb t x (base + o') else None) of Some r \<Rightarrow> Some r
          | None \<Rightarrow> smemb p (o' + bit_size t) fs x base)"
| "smemb p off (BitFld n tw w # fs) x base =
    (let o' = (if p \<or> off mod tw + w \<le> tw then off else up_to tw off) in
     if n = x then Some (CInt w, base + o', w) else smemb p (o' + w) fs x base)"
| "umemb [] x base = None"
| "umemb (Fld n t # fs) x base =
    (if n = x then Some (t, base, bit_size t)
     else case (if n = [] then memb t x base else None) of Some r \<Rightarrow> Some r
          | None \<Rightarrow> umemb fs x base)"
| "umemb (BitFld n tw w # fs) x base = (if n = x then Some (CInt w, base, w) else umemb fs x base)"

datatype sel = Mem string | Idx nat

fun locate :: "ctype \<Rightarrow> sel list \<Rightarrow> nat \<Rightarrow> (nat \<times> nat) option" where
  "locate t [] base = Some (base, bit_size t)"
| "locate (CArr n t) (Idx i # p) base = (if i < n then locate t p (base + i * bit_size t) else None)"
| "locate t (Mem x # p) base =
    (case memb t x base of None \<Rightarrow> None
     | Some (t', o', w) \<Rightarrow> if p = [] then Some (o', w) else locate t' p o')"
| "locate t (Idx i # p) base = None"

section \<open>Places do not overlap\<close>

lemma places_range:
  "(f, o', w) \<in> set (places p off fs) \<Longrightarrow> off \<le> o' \<and> o' + w \<le> flds_end p off fs"
proof (induction p off fs rule: places.induct)
  have ge: "off \<le> flds_end p off fs" for p off fs
  proof (induction p off fs rule: places.induct)
    case (2 p off n t fs)
    then show ?case using up_to_ge [of off "if p then 8 else bit_align t"] by (simp add: Let_def)
  next
    case (3 p off n tw w fs)
    then show ?case using up_to_ge [of off tw] by (auto simp: Let_def split: if_splits)
  qed simp
  {
    case (2 p off n t fs)
    then show ?case
      using up_to_ge [of off "if p then 8 else bit_align t"]
        ge [of "up_to (if p then 8 else bit_align t) off + bit_size t" p fs] by (fastforce simp: Let_def)
  next
    case (3 p off n tw w fs)
    then show ?case
      using up_to_ge [of off tw] ge [of "(if p \<or> off mod tw + w \<le> tw then off else up_to tw off) + w" p fs]
      by (fastforce simp: Let_def split: if_splits)
  }
qed simp

lemma places_sorted:
  "sorted_wrt (\<lambda>(f, o', w) (g, o'', v). o' + w \<le> o'') (places p off fs)"
proof (induction p off fs rule: places.induct)
  case (2 p off n t fs)
  then show ?case using places_range by (fastforce simp: Let_def)
next
  case (3 p off n tw w fs)
  then show ?case using places_range by (fastforce simp: Let_def)
qed simp

section \<open>Reading and writing bits of memory\<close>

type_synonym bytes = "nat \<Rightarrow> u8"

definition mbit :: "bytes \<Rightarrow> nat \<Rightarrow> bool" where
  "mbit m k = bit (m (k div 8)) (k mod 8)"

definition get_bits :: "nat \<Rightarrow> nat \<Rightarrow> bytes \<Rightarrow> 'a::len word" where
  "get_bits off w m = horner_sum of_bool 2 (map (\<lambda>i. mbit m (off + i)) [0..<w])"

definition put_bits :: "nat \<Rightarrow> nat \<Rightarrow> 'a::len word \<Rightarrow> bytes \<Rightarrow> bytes" where
  "put_bits off w v m =
    (\<lambda>a. horner_sum of_bool 2
      (map (\<lambda>j. if off \<le> 8 * a + j \<and> 8 * a + j < off + w then bit v (8 * a + j - off) else bit (m a) j) [0..<8]))"

lemma bit_get_bits:
  "bit (get_bits off w m :: 'a::len word) i \<longleftrightarrow> i < LENGTH('a) \<and> i < w \<and> mbit m (off + i)"
  unfolding get_bits_def by (auto simp: bit_horner_sum_bit_iff)

lemma mbit_put_bits:
  "mbit (put_bits off w v m) k \<longleftrightarrow> (if off \<le> k \<and> k < off + w then bit v (k - off) else mbit m k)"
  unfolding mbit_def put_bits_def by (simp add: bit_horner_sum_bit_iff)

lemma mbit_ext: "(\<And>k. mbit m k = mbit m' k) \<Longrightarrow> m = m'"
proof (rule ext, rule bit_word_eqI)
  fix a n assume e: "\<And>k. mbit m k = mbit m' k" and n: "n < LENGTH(8)"
  show "bit (m a) n = bit (m' a) n" using e [of "8 * a + n"] n by (simp add: mbit_def)
qed

lemma get_put_same:
  "get_bits off w (put_bits off w (v :: 'a::len word) m) = take_bit w v"
  by (rule bit_word_eqI) (auto simp: bit_get_bits mbit_put_bits bit_take_bit_iff)

lemma get_put_other:
  "o' + w' \<le> off \<or> off + w \<le> o' \<Longrightarrow> get_bits o' w' (put_bits off w v m) = get_bits o' w' m"
  by (rule bit_word_eqI) (auto simp: bit_get_bits mbit_put_bits)

lemma put_get_same: "w \<le> LENGTH('a) \<Longrightarrow> put_bits off w (get_bits off w m :: 'a::len word) m = m"
  by (rule mbit_ext) (auto simp: mbit_put_bits bit_get_bits)

lemma put_put_same: "put_bits off w v (put_bits off w u m) = put_bits off w v m"
  by (rule mbit_ext) (auto simp: mbit_put_bits)

lemma put_put_swap:
  "o' + w' \<le> off \<or> off + w \<le> o' \<Longrightarrow>
    put_bits off w v (put_bits o' w' u m) = put_bits o' w' u (put_bits off w v m)"
  by (rule mbit_ext) (auto simp: mbit_put_bits)

text \<open>A member of a structure at a byte address.\<close>

definition rd_memb :: "ctype \<Rightarrow> sel list \<Rightarrow> nat \<Rightarrow> bytes \<Rightarrow> 'a::len word option" where
  "rd_memb t p a m = map_option (\<lambda>(off, w). get_bits off w m) (locate t p (8 * a))"

definition wr_memb :: "ctype \<Rightarrow> sel list \<Rightarrow> 'a::len word \<Rightarrow> nat \<Rightarrow> bytes \<Rightarrow> bytes option" where
  "wr_memb t p v a m = map_option (\<lambda>(off, w). put_bits off w v m) (locate t p (8 * a))"

text \<open>
  A structure whose members all have names: a lookup finds the first member of the name in the
  list of places, so members of different names do not overlap.
\<close>

fun plain :: "ctype \<Rightarrow> bool" where
  "plain (CStruct p fs) \<longleftrightarrow> [] \<notin> fname ` set fs"
| "plain t \<longleftrightarrow> False"

fun ftype :: "cfield \<Rightarrow> ctype" where
  "ftype (Fld n t) = t"
| "ftype (BitFld n tw w) = CInt w"

lemma smemb_places:
  "[] \<notin> fname ` set fs \<Longrightarrow>
    smemb p off fs x base =
      map_option (\<lambda>(f, o', w). (ftype f, base + o', w)) (List.find (\<lambda>(f, o', w). fname f = x) (places p off fs))"
  by (induction p off fs rule: places.induct) (auto simp: Let_def)

lemma find_disjoint:
  assumes "sorted_wrt R xs" "List.find P xs = Some a" "List.find Q xs = Some b" "\<And>x. P x \<Longrightarrow> \<not> Q x"
  shows "R a b \<or> R b a"
proof -
  obtain i where i: "i < length xs" "a = xs ! i" "P a" using assms(2) by (auto simp: find_Some_iff)
  obtain j where j: "j < length xs" "b = xs ! j" "Q b" using assms(3) by (auto simp: find_Some_iff)
  have "i \<noteq> j" using i j assms(4) by auto
  then show ?thesis using sorted_wrt_nth_less [OF assms(1)] i j by (metis nat_neq_iff)
qed

lemma plain_locate:
  assumes "plain t" "locate t [Mem x] a = Some (o1, w1)" "locate t [Mem y] a = Some (o2, w2)" "x \<noteq> y"
  shows "o1 + w1 \<le> o2 \<or> o2 + w2 \<le> o1"
proof -
  obtain p fs where t: "t = CStruct p fs" "[] \<notin> fname ` set fs" using assms(1) by (cases t) auto
  obtain f i g j where f: "List.find (\<lambda>(f, o', w). fname f = x) (places p 0 fs) = Some (f, i, w1)" "o1 = a + i"
    and g: "List.find (\<lambda>(f, o', w). fname f = y) (places p 0 fs) = Some (g, j, w2)" "o2 = a + j"
    using assms(2,3) by (auto simp: t smemb_places [OF t(2)] split: option.splits)
  from find_disjoint [OF places_sorted f(1) g(1)] assms(4) f(2) g(2) show ?thesis by auto
qed

lemma memb_write_read:
  "wr_memb t p v a m = Some m' \<Longrightarrow>
    (rd_memb t p a m' :: 'a::len word option) = map_option (\<lambda>(off, w). take_bit w (v :: 'a word)) (locate t p (8 * a))"
  by (auto simp: wr_memb_def rd_memb_def get_put_same)

lemma memb_write_other:
  assumes "plain t" "wr_memb t [Mem x] v a m = Some m'" "x \<noteq> y"
  shows "rd_memb t [Mem y] a m' = rd_memb t [Mem y] a m"
proof (cases "locate t [Mem y] (8 * a)")
  case (Some r)
  obtain o2 w2 where r: "locate t [Mem y] (8 * a) = Some (o2, w2)" using Some by (cases r) auto
  obtain o1 w1 where x: "locate t [Mem x] (8 * a) = Some (o1, w1)" "m' = put_bits o1 w1 v m"
    using assms(2) by (auto simp: wr_memb_def)
  have "o2 + w2 \<le> o1 \<or> o1 + w1 \<le> o2" using plain_locate [OF assms(1) x(1) r assms(3)] by auto
  then show ?thesis by (simp add: rd_memb_def r x(2) get_put_other del: locate.simps)
qed (simp add: rd_memb_def del: locate.simps)

text \<open>The names, byte offsets and sizes of a structure, for comparison with a specification.\<close>

definition offsets :: "ctype \<Rightarrow> (string \<times> nat) list" where
  "offsets t = (case t of CStruct p fs \<Rightarrow> map (\<lambda>(f, off, w). (fname f, off div 8)) (places p 0 fs) | _ \<Rightarrow> [])"

end
