(* ===== verification/FsLayout.thy ===== *)
theory FsLayout
  imports Layout
begin

text \<open>
  The structures on disk of the file systems, as layouts: \<open>fs/ext4/desc.h\<close>, \<open>fs/gpt/desc.h\<close> and
  \<open>fs/jrfs/desc.h\<close>.  A list \<open><structure>_<field>_values\<close> holds the values that the header
  defines for a field.
\<close>

section \<open>ext4: \<open>fs/ext4/desc.h\<close>\<close>

definition FS_EXT4_SuperBlk :: ctype where
  "FS_EXT4_SuperBlk = CStruct True
    [Fld ''inodeCnt'' c32, Fld ''blkCntLow'' c32, Fld ''rBlkCntLow'' c32,
     Fld ''freeBlkCntLow'' c32, Fld ''freeInodeCnt'' c32, Fld ''firDataBlk'' c32,
     Fld ''logBlkSize'' c32, Fld ''logClusSize'' c32, Fld ''blkPerGrp'' c32,
     Fld ''clusPerGrp'' c32, Fld ''inodePerGrp'' c32, Fld ''mountTime'' c32,
     Fld ''writeTime'' c32, Fld ''mntCnt'' c16, Fld ''mxMntCnt'' c16, Fld ''magic'' c16,
     Fld ''state'' c16, Fld ''errors'' c16, Fld ''minorRevLvl'' c16, Fld ''lstChk'' c32,
     Fld ''chkInterval'' c32, Fld ''creatorOS'' c32, Fld ''revLvl'' c32,
     Fld ''defResUID'' c16, Fld ''defResGID'' c16, Fld ''firInode'' c32,
     Fld ''inodeSz'' c16, Fld ''blkGrpNr'' c16, Fld ''featureCompat'' c32,
     Fld ''f_featureIncompat'' c32, Fld ''featureRoCompat'' c32,
     Fld ''uuid'' (CArr 16 c8), Fld ''volName'' (CArr 16 c8),
     Fld ''lastMounted'' (CArr 64 c8), Fld ''algorithmUsageBitMap'' c32,
     Fld ''preallocBlk'' c8, Fld ''preallocDirBlk'' c8, Fld ''resGDTBlk'' c16,
     Fld ''journalUUID'' (CArr 16 c8), Fld ''journalInode'' c32, Fld ''journalDev'' c32,
     Fld ''lstOrphan'' c32, Fld ''hashSeed'' (CArr 4 c32), Fld ''defHashVer'' c8,
     Fld ''jnlBackupType'' c8, Fld ''descSz'' c16, Fld ''defMountOpt'' c32,
     Fld ''firMetaBg'' c32, Fld ''mkfsTime'' c32, Fld ''jnlBlks'' (CArr 17 c32),
     Fld ''blkCntHigh'' c32, Fld ''rBlkCntHigh'' c32, Fld ''freeBlkCntHigh'' c32,
     Fld ''mnExtraInodeSize'' c16, Fld ''wantExtraInodeSize'' c16, Fld ''flags'' c32,
     Fld ''raidStride'' c16, Fld ''mmpInterval'' c16, Fld ''mmpBlk'' c64,
     Fld ''raidStripeWidth'' c32, Fld ''logGrpPerFlex'' c8, Fld ''chksumType'' c8,
     Fld ''reservedPad'' c16, Fld ''kbWritten'' c64, Fld ''snapshotInode'' c32,
     Fld ''snapshotId'' c32, Fld ''snapshotRBlkCnt'' c64, Fld ''snapshotLst'' c32,
     Fld ''errorCnt'' c32, Fld ''firErrorTime'' c32, Fld ''firErrorInode'' c32,
     Fld ''firErrorBlk'' c64, Fld ''firErrorFunc'' (CArr 32 c8),
     Fld ''firErrorLine'' c32, Fld ''lastErrorTime'' c32, Fld ''lastErrorInode'' c32,
     Fld ''lastErrorLine'' c32, Fld ''lastErrorBlk'' c64,
     Fld ''lastErrorFunc'' (CArr 32 c8), Fld ''mountOpts'' (CArr 64 c8),
     Fld ''usrQuotaInode'' c32, Fld ''grpQuotaInode'' c32, Fld ''overheadBlk'' c32,
     Fld ''backupBlkGrp'' (CArr 2 c32), Fld ''encryptAlgos'' (CArr 4 c8),
     Fld ''encryptPasswordSalt'' (CArr 16 c8), Fld ''lpfInode'' c32,
     Fld ''projQuotaInode'' c32, Fld ''chksumSeed'' c32, Fld ''writeTimeHi'' c8,
     Fld ''mountTimeHi'' c8, Fld ''mkfsTimeHi'' c8, Fld ''lastChkHi'' c8,
     Fld ''firErrorTimeHi'' c8, Fld ''lastErrorTimeHi'' c8, Fld ''pad'' (CArr 2 c8),
     Fld ''reserved'' (CArr 96 c32), Fld ''checksum'' c32]"

definition FS_EXT4_SuperBlk_state_values :: "(string \<times> nat) list" where
  "FS_EXT4_SuperBlk_state_values =
   [(''state_CleanlyUnmounted'', 0x0001), (''state_ErrorsDetected'', 0x0002),
    (''state_OrphansBeingRecovered'', 0x0004)]"

definition FS_EXT4_SuperBlk_errors_values :: "(string \<times> nat) list" where
  "FS_EXT4_SuperBlk_errors_values =
   [(''errorContinue'', 1), (''errorRemountRO'', 2), (''errorPanic'', 3)]"

definition FS_EXT4_SuperBlk_creatorOS_values :: "(string \<times> nat) list" where
  "FS_EXT4_SuperBlk_creatorOS_values =
   [(''creatorOLinux'', 0), (''creatorOHurd'', 1), (''creatorOMasix'', 2),
    (''creatorOFreeBSD'', 3), (''creatorOLites'', 4)]"

definition FS_EXT4_SuperBlk_revLvl_values :: "(string \<times> nat) list" where
  "FS_EXT4_SuperBlk_revLvl_values =
   [(''revLvl_OriFormat'', 0), (''revLvl_v2Format'', 1)]"

definition FS_EXT4_SuperBlk_featureCompat_values :: "(string \<times> nat) list" where
  "FS_EXT4_SuperBlk_featureCompat_values =
   [(''Compat_DirPrealloc'', 0x1), (''Compat_ImgInodes'', 0x2), (''Compat_HasJournal'', 0x4),
    (''Compat_ExtAttr'', 0x8), (''Compat_ResizeInode'', 0x10), (''Compat_DirIndex'', 0x20),
    (''Compat_LazyBG'', 0x40), (''Compat_ExcludeINode'', 0x80),
    (''Compat_ExcludeBitmap'', 0x100), (''Compat_SpareSuper2'', 0x200)]"

definition FS_EXT4_SuperBlk_f_featureIncompat_values :: "(string \<times> nat) list" where
  "FS_EXT4_SuperBlk_f_featureIncompat_values =
   [(''Incompat_Compression'', 0x1), (''Incompat_FileType'', 0x2), (''Incompat_Recover'', 0x4),
    (''Incompat_JournalDev'', 0x8), (''Incompat_MetaBlkGrp'', 0x10),
    (''Incompat_Extends'', 0x40), (''Incompat_64Bits'', 0x80), (''Incompat_MMP'', 0x100),
    (''Incompat_FlexBlkGrp'', 0x200), (''Incompat_ExtAttrInode'', 0x400),
    (''Incompat_DirData'', 0x1000), (''Incompat_ChksumSeed'', 0x2000),
    (''Incompat_LargeDir'', 0x4000), (''Incompat_InlineData'', 0x8000),
    (''Incompat_Encrypt'', 0x10000)]"

definition FS_EXT4_SuperBlk_featureRoCompat_values :: "(string \<times> nat) list" where
  "FS_EXT4_SuperBlk_featureRoCompat_values =
   [(''RoCompat_SparseSuper'', 0x1), (''RoCompat_LargeFile'', 0x2), (''RoCompat_BtreeDir'', 0x4),
    (''RoCompat_HugeFile'', 0x8), (''RoCompat_GDTChksum'', 0x10), (''RoCompat_DirNLink'', 0x20),
    (''RoCompat_ExtraInodeSize'', 0x40), (''RoCompat_HasSnapshot'', 0x80),
    (''RoCompat_Quota'', 0x100), (''RoCompat_BigAlloc'', 0x200),
    (''RoCompat_MetadataChksum'', 0x400), (''RoCompat_Replica'', 0x800),
    (''RoCompat_Readonly'', 0x1000), (''RoCompat_Project'', 0x2000)]"

definition FS_EXT4_SuperBlk_defHashVer_values :: "(string \<times> nat) list" where
  "FS_EXT4_SuperBlk_defHashVer_values =
   [(''defHashVer_Legacy'', 0x0), (''defHashVer_HalfMD4'', 0x1), (''defHashVer_Tea'', 0x2),
    (''defHashVer_ULegacy'', 0x3), (''defHashVer_UHalfMD4'', 0x4), (''defHashVer_UTea'', 0x5)]"

definition FS_EXT4_SuperBlk_defMountOpt_values :: "(string \<times> nat) list" where
  "FS_EXT4_SuperBlk_defMountOpt_values =
   [(''defMountOpt_Debug'', 0x1), (''defMountOpt_BSDGroup'', 0x2),
    (''defMountOpt_ExtAttrUser'', 0x4), (''defMountOpt_PosixACL'', 0x8),
    (''defMountOpt_UID16'', 0x10), (''defMountOpt_JModeData'', 0x20),
    (''defMountOpt_JModeOrdered'', 0x40), (''defMountOpt_JModeWback'', 0x60),
    (''defMountOpt_NoBarrier'', 0x100), (''defMountOpt_Validity'', 0x200),
    (''defMountOpt_Discard'', 0x400), (''defMountOpt_NoDelAlloc'', 0x800)]"

definition FS_EXT4_SuperBlk_flags_values :: "(string \<times> nat) list" where
  "FS_EXT4_SuperBlk_flags_values =
   [(''FlagSignedDirHash'', 0x0001), (''FlagUnsignedDirHash'', 0x0002),
    (''FlagTestDevCode'', 0x0004)]"

definition FS_EXT4_SuperBlk_encryptAlgos_values :: "(string \<times> nat) list" where
  "FS_EXT4_SuperBlk_encryptAlgos_values =
   [(''EncryptAlgoInvalid'', 0), (''EncryptAlgoAES256XTS'', 1), (''EncryptAlgoAES256GCM'', 2),
    (''EncryptAlgoAES256CBC'', 3)]"

definition FS_EXT4_BlkGrpDesc :: ctype where
  "FS_EXT4_BlkGrpDesc = CStruct True
    [Fld ''blkBitmapLow'' c32, Fld ''inodeBitmapLow'' c32, Fld ''inodeTblLow'' c32,
     Fld ''freeBlkCntLow'' c16, Fld ''freeInodeCntLow'' c16, Fld ''usedDirCntLow'' c16,
     Fld ''flags'' c16, Fld ''excludeBitMapLow'' c32, Fld ''blkBitmapChksumLow'' c16,
     Fld ''inodeBitmapChksumLow'' c16, Fld ''inodeTblUnusedLow'' c16, Fld ''chksum'' c16,
     Fld ''blkBitmapHigh'' c32, Fld ''inodeBitmapHigh'' c32, Fld ''inodeTblHigh'' c32,
     Fld ''freeBlkCntHigh'' c16, Fld ''freeInodeCntHigh'' c16,
     Fld ''usedDirCntHigh'' c16, Fld ''inodeTblUnusedHigh'' c16,
     Fld ''excludeBitMapHigh'' c32, Fld ''blkBitmapChksumHigh'' c16,
     Fld ''inodeBitmapChksumHigh'' c16, Fld ''reserved'' c32]"

definition FS_EXT4_BlkGrpDesc_flags_values :: "(string \<times> nat) list" where
  "FS_EXT4_BlkGrpDesc_flags_values =
   [(''flags_Uninit'', 0x1), (''flags_BlkBitmapUninit'', 0x2), (''flags_InodeTblZero'', 0x4)]"

definition FS_EXT4_MMPStruct :: ctype where
  "FS_EXT4_MMPStruct = CStruct True
    [Fld ''magic'' c32, Fld ''seq'' c32, Fld ''time'' c64, Fld ''nodeName'' (CArr 64 c8),
     Fld ''blkDevName'' (CArr 32 c8), Fld ''chkInterval'' c16, Fld ''pad1'' c16,
     Fld ''pad2'' (CArr 226 c32), Fld ''checksum'' c32]"

definition FS_EXT4_JBD2_BlkHdr :: ctype where
  "FS_EXT4_JBD2_BlkHdr = CStruct True
    [Fld ''magic'' c32, Fld ''blkType'' c32, Fld ''sequence'' c32]"

definition FS_EXT4_JBD2_BlkHdr_blkType_values :: "(string \<times> nat) list" where
  "FS_EXT4_JBD2_BlkHdr_blkType_values =
   [(''blkType_Desc'', 1), (''blkType_CommitRecord'', 2), (''blkType_JnlSuperBlkV1'', 3),
    (''blkType_JnlSuperBlkV2'', 4), (''blkType_BlkRevoRecord'', 5)]"

definition FS_EXT4_JBD2_SuperBlk :: ctype where
  "FS_EXT4_JBD2_SuperBlk = CStruct True
    [Fld ''hdr'' FS_EXT4_JBD2_BlkHdr, Fld ''blkSize'' c32, Fld ''maxLen'' c32,
     Fld ''fir'' c32, Fld ''sequence'' c32, Fld ''start'' c32, Fld ''errno'' c32,
     Fld ''featureCompat'' c32, Fld ''featureIncompat'' c32, Fld ''featureRoCompat'' c32,
     Fld ''uuid'' (CArr 16 c8), Fld ''numUsers'' c32, Fld ''dynsuper'' c32,
     Fld ''maxTrans'' c32, Fld ''maxTransData'' c32, Fld ''chksumType'' c8,
     Fld ''pad1'' (CArr 3 c8), Fld ''pad2'' (CArr 42 c32), Fld ''chksum'' c32,
     Fld ''users'' (CArr (16 * 48) c8)]"

definition FS_EXT4_JBD2_SuperBlk_featureCompat_values :: "(string \<times> nat) list" where
  "FS_EXT4_JBD2_SuperBlk_featureCompat_values =
   [(''Compat_Chksum'', 0x1)]"

definition FS_EXT4_JBD2_SuperBlk_featureIncompat_values :: "(string \<times> nat) list" where
  "FS_EXT4_JBD2_SuperBlk_featureIncompat_values =
   [(''Incompat_Revoke'', 0x1), (''Incompat_64Bit'', 0x2), (''Incompat_AsyncCommit'', 0x4),
    (''Incompat_ChksumV2'', 0x8), (''Incompat_ChksumV3'', 0x10)]"

definition FS_EXT4_JBD2_SuperBlk_chksumType_values :: "(string \<times> nat) list" where
  "FS_EXT4_JBD2_SuperBlk_chksumType_values =
   [(''chksumType_CRC32'', 1), (''chksumType_MD5'', 2), (''chksumType_SHA1'', 3),
    (''chksumType_CRC32C'', 4)]"

definition FS_EXT4_JBD2_BlkTag :: ctype where
  "FS_EXT4_JBD2_BlkTag = CStruct True
    [Fld ''blkNumLow'' c32, Fld ''chksum'' c16, Fld ''flags'' c32,
     Fld '''' (CUnion False [Fld ''_64'' (CStruct False [Fld ''blkNumHigh'' c32, Fld ''uuid'' (CArr 16 c8)]),
     Fld ''_32'' (CStruct False [Fld ''uuid'' (CArr 16 c8)])])]"

definition FS_EXT4_JBD2_BlkTag_flags_values :: "(string \<times> nat) list" where
  "FS_EXT4_JBD2_BlkTag_flags_values =
   [(''Escaped'', 0x1), (''SameUUID'', 0x2), (''Deleted'', 0x4), (''LastTag'', 0x8)]"

definition FS_EXT4_JBD2_BlkTag3 :: ctype where
  "FS_EXT4_JBD2_BlkTag3 = CStruct True
    [Fld ''blkNumLow'' c32, Fld ''flags'' c32, Fld ''blkNumHigh'' c32, Fld ''chksum'' c32,
     Fld ''uuid'' (CArr 16 c8)]"

definition FS_EXT4_JBD2_DescBlk :: ctype where
  "FS_EXT4_JBD2_DescBlk = CStruct True
    [Fld ''hdr'' FS_EXT4_JBD2_BlkHdr,
     Fld '''' (CUnion False [Fld ''tag3'' (CArr 0 FS_EXT4_JBD2_BlkTag3), Fld ''tag'' (CArr 0 FS_EXT4_JBD2_BlkTag)])]"

definition FS_EXT4_JBD2_RevoBlkHdr :: ctype where
  "FS_EXT4_JBD2_RevoBlkHdr = CStruct True
    [Fld ''hdr'' FS_EXT4_JBD2_BlkHdr, Fld ''cnt'' c32,
     Fld '''' (CUnion False [Fld ''blk32'' (CArr 0 c32), Fld ''blk64'' (CArr 0 c64)])]"

definition FS_EXT4_JBD2_RevoBlkTail :: ctype where
  "FS_EXT4_JBD2_RevoBlkTail = CStruct True
    [Fld ''chksum'' c32]"

definition FS_EXT4_JBD2_CommitBlk :: ctype where
  "FS_EXT4_JBD2_CommitBlk = CStruct True
    [Fld ''hdr'' FS_EXT4_JBD2_BlkHdr, Fld ''chksumType'' c8, Fld ''chksumSz'' c8,
     Fld ''padding'' (CArr 2 c8), Fld ''chksum'' (CArr 4 c32), Fld ''commitSec'' c64,
     Fld ''commitNsec'' c32]"

definition FS_EXT4_Inode :: ctype where
  "FS_EXT4_Inode = CStruct True
    [Fld ''mode'' c16, Fld ''uidLow'' c16, Fld ''szLow'' c32, Fld ''accTime'' c32,
     Fld ''chgTime'' c32, Fld ''modiTime'' c32, Fld ''delTime'' c32, Fld ''gid'' c16,
     Fld ''lkCnt'' c16, Fld ''blkLow'' c32, Fld ''flags'' c32,
     Fld '''' (CUnion True [Fld ''osd1'' (CArr 4 c8), Fld ''osd1_linux'' (CStruct True [Fld ''inodeVersion'' c32]),
     Fld ''osd1_hurd'' (CStruct True [Fld ''translator'' c32])]),
     Fld ''blk'' (CArr 15 c32), Fld ''generation'' c32, Fld ''fileAclLow'' c32,
     Fld '''' (CUnion True [Fld ''szHigh'' c32, Fld ''dirAcl'' c32]),
     Fld ''obsoFragAddr'' c32,
     Fld '''' (CUnion True [Fld ''osd2'' (CArr 12 c8),
     Fld ''osd2_linux'' (CStruct True [Fld ''blkHigh'' c16, Fld ''fileAclHigh'' c16, Fld ''uidHigh'' c16, Fld ''gidHigh'' c16,
     Fld ''chksumLow'' c16, Fld ''reserved'' c16])]), Fld ''extraInodeSz'' c16,
     Fld ''chksumHigh'' c16, Fld ''chgTimeExtra'' c32, Fld ''modiTimeExtra'' c32,
     Fld ''accTimeExtra'' c32, Fld ''creTime'' c32, Fld ''creTimeExtra'' c32,
     Fld ''verHigh'' c32, Fld ''projId'' c32]"

definition FS_EXT4_Inode_mode_values :: "(string \<times> nat) list" where
  "FS_EXT4_Inode_mode_values =
   [(''mode_ExecOther'', 0x1), (''mode_WriteOther'', 0x2), (''mode_ReadOther'', 0x4),
    (''mode_ExecGrpMem'', 0x8), (''mode_WriteGrpMem'', 0x10), (''mode_ReadGrpMem'', 0x20),
    (''mode_ExecOwner'', 0x40), (''mode_WriteOwner'', 0x80), (''mode_ReadOwner'', 0x100),
    (''mode_StickyBit'', 0x200), (''mode_SetGID'', 0x400), (''mode_SetUID'', 0x800),
    (''mode_FIFO'', 0x1000), (''mode_ChrDev'', 0x2000), (''mode_Dir'', 0x4000),
    (''mode_BlkDev'', 0x6000), (''mode_RegularFile'', 0x8000), (''mode_SymbLk'', 0xA000),
    (''mode_Socket'', 0xC000)]"

definition FS_EXT4_Inode_flags_values :: "(string \<times> nat) list" where
  "FS_EXT4_Inode_flags_values =
   [(''flags_SecDel'', 0x1), (''flags_Preserved'', 0x2), (''flags_Compress'', 0x4),
    (''flags_Sync'', 0x8), (''flags_Immutable'', 0x10), (''flags_Append'', 0x20),
    (''flags_NoDump'', 0x40), (''flags_NoAccTime'', 0x80), (''flags_DirtyCmpr'', 0x100),
    (''flags_ComprBlk'', 0x200), (''flags_NoCompr'', 0x400), (''flags_Encrypt'', 0x800),
    (''flags_DirHash'', 0x1000), (''flags_AFSMagic'', 0x2000), (''flags_JrlData'', 0x4000),
    (''flags_NoTail'', 0x8000), (''flags_DirSync'', 0x10000), (''flags_TopDir'', 0x20000),
    (''flags_HugeFile'', 0x40000), (''flags_Extents'', 0x80000), (''flags_ExtAttr'', 0x100000),
    (''flags_InlineData'', 0x10000000), (''flags_ProjInherit'', 0x20000000),
    (''flags_Reserved'', 0x80000000)]"

definition FS_EXT4_ExtentHdr :: ctype where
  "FS_EXT4_ExtentHdr = CStruct True
    [Fld ''magic'' c16, Fld ''entries'' c16, Fld ''maxEntries'' c16, Fld ''depth'' c16,
     Fld ''generation'' c32]"

definition FS_EXT4_ExtentIdx :: ctype where
  "FS_EXT4_ExtentIdx = CStruct True
    [Fld ''blk'' c32, Fld ''leafLow'' c32, Fld ''leafHigh'' c16, Fld ''unused'' c16]"

definition FS_EXT4_Extent :: ctype where
  "FS_EXT4_Extent = CStruct True
    [Fld ''blk'' c32, Fld ''len'' c16, Fld ''startHigh'' c16, Fld ''startLow'' c32]"

definition FS_EXT4_ExtentTail :: ctype where
  "FS_EXT4_ExtentTail = CStruct True
    [Fld ''chksum'' c32]"

definition FS_EXT4_DirEntry :: ctype where
  "FS_EXT4_DirEntry = CStruct True
    [Fld ''inode'' c32, Fld ''recLen'' c16, Fld ''nameLen'' c16, Fld ''name'' (CArr 255 c8)]"

definition FS_EXT4_DirEntryFile :: ctype where
  "FS_EXT4_DirEntryFile = CStruct True
    [Fld ''inode'' c32, Fld ''recLen'' c16, Fld ''nameLen'' c8, Fld ''fileType'' c8,
     Fld ''name'' (CArr 255 c8)]"

definition FS_EXT4_DirEntryTail :: ctype where
  "FS_EXT4_DirEntryTail = CStruct True
    [Fld ''reservedZ'' c32, Fld ''recLen'' c16, Fld ''reservedZ2'' c8, Fld ''reserved'' c8,
     Fld ''chksum'' c32]"

definition FS_EXT4_DirHashRoot :: ctype where
  "FS_EXT4_DirHashRoot = CStruct True
    [Fld ''inode'' c32, Fld ''recordlen'' c16, Fld ''nameLen'' c8, Fld ''fileType'' c8,
     Fld ''name'' (CArr 4 c8), Fld ''parInode'' c32, Fld ''parRecordLen'' c16,
     Fld ''parNameLen'' c8, Fld ''parFileType'' c8, Fld ''parName'' (CArr 4 c8),
     Fld ''resZ'' c32, Fld ''hashVer'' c8, Fld ''infoLen'' c8, Fld ''indirectLvl'' c8,
     Fld ''unusedFlags'' c8, Fld ''lmt'' c16, Fld ''cnt'' c16, Fld ''blk'' c32]"

section \<open>Partitions: \<open>fs/api.h\<close>, \<open>fs/gpt/desc.h\<close>\<close>

definition FS_MaxFileNameLen :: u32 where "FS_MaxFileNameLen = 128"

definition FS_GUID :: ctype where
  "FS_GUID = CStruct True
    [Fld ''data'' (CArr 16 c8)]"

definition FS_GPT_HeaderOffset :: u32 where "FS_GPT_HeaderOffset = 512"

definition FS_GPT_Header :: ctype where
  "FS_GPT_Header = CStruct True
    [Fld ''signature'' (CArr 8 c8), Fld ''revision'' c32, Fld ''hdrSize'' c32,
     Fld ''chksum'' c32, Fld ''reserved'' c32, Fld ''lba'' c64, Fld ''alterLba'' c64,
     Fld ''firLba'' c64, Fld ''lstLba'' c64, Fld ''guid'' (CArr 16 c8),
     Fld ''firGuidLba'' c64, Fld ''parNum'' c32, Fld ''entrySz'' c32,
     Fld ''parArrayChksum'' c32, Fld ''reserved2'' (CArr 0 c8)]"

definition FS_GPT_PartitionEntry :: ctype where
  "FS_GPT_PartitionEntry = CStruct True
    [Fld ''parTypeGuid'' FS_GUID, Fld ''uniParGuid'' FS_GUID, Fld ''stLba'' c64,
     Fld ''edLba'' c64, Fld ''attr'' c64, Fld ''name'' (CArr 72 c8)]"

section \<open>JRFS: \<open>fs/jrfs/desc.h\<close>\<close>

definition FS_JRFS_BlkDesc :: ctype where
  "FS_JRFS_BlkDesc = CStruct True
    [Fld ''frDtNum'' c64, Fld ''dtNum'' c64, Fld ''attr'' c64, Fld ''bmCrc32'' c64,
     Fld ''dtCrc32'' c64]"

definition FS_JRFS_PgDesc :: ctype where
  "FS_JRFS_PgDesc = CStruct True
    [Fld ''grpSz'' c8, BitFld ''attr'' 64 48, Fld ''nxtPg'' c64]"

definition FS_JRFS_PgDesc_MaxPgGrpSz :: u32 where "FS_JRFS_PgDesc_MaxPgGrpSz = 14"
definition FS_JRFS_PgDesc_IsSysPage :: u64 where "FS_JRFS_PgDesc_IsSysPage = push_bit 0 1"
definition FS_JRFS_PgDesc_IsAllocated :: u64 where "FS_JRFS_PgDesc_IsAllocated = push_bit 1 1"
definition FS_JRFS_PgDesc_IsHeadPage :: u64 where "FS_JRFS_PgDesc_IsHeadPage = push_bit 2 1"

definition FS_JRFS_DirNode :: ctype where
  "FS_JRFS_DirNode = CStruct True
    [Fld ''childPgId'' (CArr 256 c64), Fld ''childAttr'' (CArr 256 c8), Fld ''attr'' c8,
     Fld ''dep'' c8, Fld ''reserved'' c16, Fld ''subEntryNum'' c32, Fld ''curPgId'' c64]"

definition FS_JRFS_DirNode_childAttr_isEnd :: u64 where "FS_JRFS_DirNode_childAttr_isEnd = push_bit 0 1"

definition FS_JRFS_EntryHdr :: ctype where
  "FS_JRFS_EntryHdr = CStruct True
    [Fld ''firAccTime'' c64, Fld ''lstAccTime'' c64, Fld ''creatTime'' c64,
     Fld ''modiTime'' c64, Fld ''accFlag'' (CArr 3 c64), Fld ''attr'' c32,
     Fld ''curPgId'' c64, Fld ''nameHash'' c64, Fld ''name'' (CArr 128 c8),
     Fld '''' (CUnion False [Fld '''' (CStruct False [Fld ''filePgNum'' c64, Fld ''fileSz'' c64]),
     Fld '''' (CStruct False [Fld ''subEntryNum'' c64, Fld ''firEntryPgId'' c64])]),
     Fld ''lstEntryPgId'' c64, Fld ''nxtEntryPgId'' c64, Fld ''parDirPgId'' c64]"

definition FS_JRFS_FileHdr_accFlag_Read :: u64 where "FS_JRFS_FileHdr_accFlag_Read = push_bit 0 1"
definition FS_JRFS_FileHdr_accFlag_Write :: u64 where "FS_JRFS_FileHdr_accFlag_Write = push_bit 1 1"
definition FS_JRFS_FileHdr_accFlag_Delete :: u64 where "FS_JRFS_FileHdr_accFlag_Delete = push_bit 2 1"
definition FS_JRFS_FileHdr_accFlag_ReadOnly :: u64 where "FS_JRFS_FileHdr_accFlag_ReadOnly = FS_JRFS_FileHdr_accFlag_Read"
definition FS_JRFS_FileHdr_accFlag_WriteOnly :: u64 where "FS_JRFS_FileHdr_accFlag_WriteOnly = FS_JRFS_FileHdr_accFlag_Write"
definition FS_JRFS_EntryHdr_attr_isExist :: u64 where "FS_JRFS_EntryHdr_attr_isExist = push_bit 0 1"
definition FS_JRFS_EntryHdr_attr_isDir :: u64 where "FS_JRFS_EntryHdr_attr_isDir = push_bit 1 1"
definition FS_JRFS_EntryHdr_attr_isSys :: u64 where "FS_JRFS_EntryHdr_attr_isSys = push_bit 2 1"
definition FS_JRFS_EntryHdr_attr_isSoft :: u64 where "FS_JRFS_EntryHdr_attr_isSoft = push_bit 3 1"
definition FS_JRFS_EntryHdr_attr_isOpen :: u64 where "FS_JRFS_EntryHdr_attr_isOpen = push_bit 4 1"

definition FS_JRFS_RootDesc :: ctype where
  "FS_JRFS_RootDesc = CStruct True
    [Fld ''name'' (CArr 72 c8), Fld ''size'' c64, Fld ''pgNum'' c64, Fld ''blkNum'' c64,
     Fld ''pgDescSz'' c64, Fld ''pgDescOff'' c64, Fld ''pgBmSz'' c64,
     Fld ''pgBmOff'' c64, Fld ''frPgNum'' c64, Fld ''frSize'' c64, Fld ''blkSz'' c32,
     Fld ''rootEntryNum'' c32, Fld ''rootEntryOff'' c32, Fld ''feat'' c64,
     Fld ''descBackup'' c64, Fld ''reserved'' (CArr 3 c8), Fld ''firDtBlk'' c64,
     Fld ''lstAllocBlk'' c64]"

definition FS_JRFS_RootDesc_feat_HugeDir :: u64 where "FS_JRFS_RootDesc_feat_HugeDir = push_bit 0 1"
definition FS_JRFS_RootDesc_feat_HugeFile :: u64 where "FS_JRFS_RootDesc_feat_HugeFile = push_bit 1 1"
definition FS_JRFS_RootDesc_feat_HugePgGrp :: u64 where "FS_JRFS_RootDesc_feat_HugePgGrp = push_bit 2 1"
definition FS_JRFS_RootDesc_feat_RootBackup :: u64 where "FS_JRFS_RootDesc_feat_RootBackup = push_bit 3 1"
definition FS_JRFS_BlkBmCacheLimit :: u32 where "FS_JRFS_BlkBmCacheLimit = 16"
definition FS_JRFS_PgDescCacheLimit :: u32 where "FS_JRFS_PgDescCacheLimit = 32"
definition FS_JRFS_PgCacheLimit :: u32 where "FS_JRFS_PgCacheLimit = 32"
definition FS_JRFS_BlkBmCacheFlushCnt :: u32 where "FS_JRFS_BlkBmCacheFlushCnt = 16"
definition FS_JRFS_PgDescCacheFlushCnt :: u32 where "FS_JRFS_PgDescCacheFlushCnt = 8"
definition FS_JRFS_PgCacheFlushCnt :: u32 where "FS_JRFS_PgCacheFlushCnt = 8"
definition FS_JRFS_BlkShift :: u32 where "FS_JRFS_BlkShift = 27"

section \<open>Properties\<close>

lemmas fs_structs =
  FS_EXT4_SuperBlk_def FS_EXT4_BlkGrpDesc_def FS_EXT4_MMPStruct_def FS_EXT4_JBD2_BlkHdr_def
  FS_EXT4_JBD2_SuperBlk_def FS_EXT4_JBD2_BlkTag_def FS_EXT4_JBD2_BlkTag3_def FS_EXT4_JBD2_DescBlk_def
  FS_EXT4_JBD2_RevoBlkHdr_def FS_EXT4_JBD2_RevoBlkTail_def FS_EXT4_JBD2_CommitBlk_def FS_EXT4_Inode_def
  FS_EXT4_ExtentHdr_def FS_EXT4_ExtentIdx_def FS_EXT4_Extent_def FS_EXT4_ExtentTail_def
  FS_EXT4_DirEntry_def FS_EXT4_DirEntryFile_def FS_EXT4_DirEntryTail_def FS_EXT4_DirHashRoot_def
  FS_GUID_def FS_GPT_Header_def FS_GPT_PartitionEntry_def FS_JRFS_BlkDesc_def FS_JRFS_PgDesc_def
  FS_JRFS_DirNode_def FS_JRFS_EntryHdr_def FS_JRFS_RootDesc_def


text \<open>The members of the structures that are read and written through their names.\<close>

definition plain_structs :: "ctype list" where
  "plain_structs = [FS_EXT4_SuperBlk, FS_EXT4_BlkGrpDesc, FS_EXT4_MMPStruct, FS_EXT4_JBD2_BlkHdr,
     FS_EXT4_JBD2_SuperBlk, FS_EXT4_JBD2_BlkTag3, FS_EXT4_JBD2_CommitBlk, FS_EXT4_ExtentHdr, FS_EXT4_ExtentIdx,
     FS_EXT4_Extent, FS_EXT4_DirEntry, FS_EXT4_DirEntryFile, FS_EXT4_DirHashRoot, FS_GPT_Header,
     FS_GPT_PartitionEntry, FS_JRFS_BlkDesc, FS_JRFS_PgDesc, FS_JRFS_DirNode, FS_JRFS_RootDesc]"

lemma plain_structs: "t \<in> set plain_structs \<Longrightarrow> plain t"
  by (auto simp: plain_structs_def fs_structs)


lemma PgDesc_attr: "locate FS_JRFS_PgDesc [Mem ''attr''] 0 = Some (8, 48)"
  by (simp add: fs_structs up_to_def Let_def)



text \<open>
  what the file system JRFS puts into a page fits: an entry header followed by the root node
  of a directory, and the root descriptor.  A page descriptor takes 15 bytes, so a page holds 273
  of them, not a power of two, and the 256 children of a directory node need one byte each
  for their attributes.
\<close>

theorem jrfs_layout:
  "sizeof FS_JRFS_EntryHdr + sizeof FS_JRFS_DirNode \<le> 4096 \<and> sizeof FS_JRFS_RootDesc \<le> 4096 \<and>
   sizeof FS_JRFS_PgDesc = 15 \<and> 4096 div sizeof FS_JRFS_PgDesc = 273 \<and>
   locate FS_JRFS_DirNode [Mem ''childAttr'', Idx 255] 0 = Some (8 * (8 * 256 + 255), 8) \<and>
   locate FS_JRFS_EntryHdr [Mem ''fileSz''] 0 = locate FS_JRFS_EntryHdr [Mem ''firEntryPgId''] 0"
  by (intro conjI; simp add: fs_structs sizeof_def offsets_def up_to_def Let_def)

end
