(* ===== verification/HwLayout.thy ===== *)
theory HwLayout
  imports Layout
begin

text \<open>
  The structures that the kernel shares with the firmware, the processor and the devices, as
  layouts, and the constants of their fields and registers.
\<close>

section \<open>Firmware: \<open>hardware/UEFI.h\<close>\<close>

definition HW_UEFI_GUID_ACPI2_data1 :: u32 where "HW_UEFI_GUID_ACPI2_data1 = 0x8868e871"
definition HW_UEFI_GUID_ACPI2_data2 :: u32 where "HW_UEFI_GUID_ACPI2_data2 = 0xe4f1"
definition HW_UEFI_GUID_ACPI2_data3 :: u32 where "HW_UEFI_GUID_ACPI2_data3 = 0x11d3"

definition ACPIHeader :: ctype where
  "ACPIHeader = CStruct True
    [Fld ''signature'' (CArr 4 c8), Fld ''length'' c32, Fld ''revision'' c8,
     Fld ''chkSum'' c8, Fld ''OEMID'' (CArr 6 c8), Fld ''OEMTableID'' (CArr 8 c8),
     Fld ''OEMRevision'' c32, Fld ''creatorID'' c32, Fld ''creatorRevision'' c32]"

definition RSDPDescriptor :: ctype where
  "RSDPDescriptor = CStruct True
    [Fld ''signature'' (CArr 8 c8), Fld ''chkSum'' c8, Fld ''OEMID'' (CArr 6 c8),
     Fld ''revision'' c8, Fld ''RsdtAddress'' c32, Fld ''length'' c32,
     Fld ''xsdtAddr'' c64, Fld ''extendedChkSum'' c8, Fld ''reserved'' (CArr 3 c8)]"

definition XSDTDescriptor :: ctype where
  "XSDTDescriptor = CStruct True
    [Fld ''header'' ACPIHeader, Fld ''entry'' (CArr 0 c64)]"

definition EFI_GraphicsOutputInfo :: ctype where
  "EFI_GraphicsOutputInfo = CStruct False
    [Fld ''HorizontalResolution'' c32, Fld ''VerticalResolution'' c32,
     Fld ''PixelsPerScanLine'' c32, Fld ''FrameBufferBase'' c64,
     Fld ''FrameBufferSize'' c64]"

definition EFI_E820MemoryDescriptor_t :: ctype where
  "EFI_E820MemoryDescriptor_t = CStruct True
    [Fld ''address'' c64, Fld ''length'' c64, Fld ''type'' c32]"

definition EFI_E820MemoryDescriptorInfo :: ctype where
  "EFI_E820MemoryDescriptorInfo = CStruct False
    [Fld ''entryCount'' c32, Fld ''entry'' (CArr 0 EFI_E820MemoryDescriptor_t)]"

definition EFI_GUID :: ctype where
  "EFI_GUID = CStruct False
    [Fld ''Data1'' c32, Fld ''Data2'' c16, Fld ''Data3'' c16, Fld ''Data4'' (CArr 8 c8)]"

definition EFI_CONFIGURATION_TABLE :: ctype where
  "EFI_CONFIGURATION_TABLE = CStruct False
    [Fld ''VendorGuid'' EFI_GUID, Fld ''VendorTable'' CPtr]"

definition KernelBootParameterInfo :: ctype where
  "KernelBootParameterInfo = CStruct False
    [Fld ''ConfigurationTableCount'' c64, Fld ''ConfigurationTable'' CPtr,
     Fld ''graphicsInfo'' EFI_GraphicsOutputInfo,
     Fld ''E820Info'' EFI_E820MemoryDescriptorInfo, Fld ''memDesc'' c64,
     Fld ''memDescSize'' c64]"

section \<open>PCI Express: \<open>hardware/PCIe.h\<close>\<close>

definition PCIeConfig :: ctype where
  "PCIeConfig = CStruct True
    [Fld ''vendorID'' c16, Fld ''devID'' c16, Fld ''command'' c16, Fld ''status'' c16,
     Fld ''revID'' c8, Fld ''progIF'' c8, Fld ''subclass'' c8, Fld ''classCode'' c8,
     Fld ''cacheLineSize'' c8, Fld ''latencyTimer'' c8, Fld ''headerType'' c8,
     Fld ''BIST'' c8,
     Fld '''' (CUnion True [Fld ''type0'' (CStruct True [Fld ''bar'' (CArr 6 c32), Fld ''cardbusCISPtr'' c32, Fld ''subsysVendorID'' c16,
     Fld ''subsysID'' c16, Fld ''expROMBase'' c32, Fld ''capPtr'' c8,
     Fld ''resv'' (CArr 3 c8), Fld ''resv1'' c32, Fld ''intLine'' c8, Fld ''intPin'' c8,
     Fld ''minGnt'' c8, Fld ''maxLat'' c8]),
     Fld ''type1'' (CStruct True [Fld ''bar'' (CArr 2 c32), Fld ''primaryBus'' c8, Fld ''secBus'' c8, Fld ''subBus'' c8,
     Fld ''secLatency'' c8, Fld ''ioBase'' c8, Fld ''ioLimit'' c8, Fld ''secStatus'' c16,
     Fld ''memBase'' c16, Fld ''memLimit'' c16, Fld ''preMemBase'' c16,
     Fld ''preMemLimit'' c16, Fld ''preMemBaseUpper'' c32, Fld ''preMemLimitUpper'' c32,
     Fld ''ioBaseUpper'' c16, Fld ''ioLimitUpper'' c16, Fld ''capPtr'' c8,
     Fld ''resv'' (CArr 3 c8), Fld ''expROMBase'' c32, Fld ''intLine'' c8,
     Fld ''intPin'' c8, Fld ''bridgeCtrl'' c8]),
     Fld ''type2'' (CStruct True [Fld ''cardbusBase'' c32, Fld ''capPtr'' c8, Fld ''resv'' c8, Fld ''secStatus'' c16,
     Fld ''pciBus'' c8, Fld ''cardBus'' c8, Fld ''subBus'' c8, Fld ''cardBusLatency'' c8,
     Fld ''memBase0'' c32, Fld ''memLimit0'' c32, Fld ''memBase1'' c32,
     Fld ''memLimit1'' c32, Fld ''ioBase0'' c32, Fld ''ioLimit0'' c32,
     Fld ''ioBase1'' c32, Fld ''ioLimit1'' c32, Fld ''intLine'' c8, Fld ''intPin'' c8,
     Fld ''bridgeCtrl'' c16, Fld ''subsysDeviceID'' c16, Fld ''subsysVendorID'' c16,
     Fld ''legacyBase'' c32])])]"

definition PCIePowerRegs :: ctype where
  "PCIePowerRegs = CStruct True
    [Fld ''powerStatus'' c16, Fld ''powerCtrl'' c16]"

definition PCIeStruct :: ctype where
  "PCIeStruct = CStruct True
    [Fld ''address'' c64, Fld ''segment'' c16, Fld ''stBus'' c8, Fld ''edBus'' c8,
     Fld ''reserved'' c32]"

definition PCIeDescriptor :: ctype where
  "PCIeDescriptor = CStruct True
    [Fld ''header'' ACPIHeader, Fld ''reserved'' c64, Fld ''structs'' (CArr 0 PCIeStruct)]"

definition PCIe_CapHdr :: ctype where
  "PCIe_CapHdr = CStruct True
    [Fld ''capId'' c8, Fld ''nxtPtr'' c8]"

definition PCIe_MSICap :: ctype where
  "PCIe_MSICap = CStruct True
    [Fld ''hdr'' PCIe_CapHdr, Fld ''msgCtrl'' c16, Fld ''msgAddr'' c64, Fld ''msgData'' c16,
     Fld ''reserved'' c16, Fld ''mask'' c32, Fld ''pending'' c32]"

definition PCIe_MSIXCap :: ctype where
  "PCIe_MSIXCap = CStruct True
    [Fld ''hdr'' PCIe_CapHdr, Fld ''msgCtrl'' c16, Fld ''dw1'' c32, Fld ''dw2'' c32]"

definition PCIe_MSIX_Table :: ctype where
  "PCIe_MSIX_Table = CStruct True
    [Fld ''msgAddr'' c64, Fld ''msgData'' c32, Fld ''vecCtrl'' c32]"

definition PCIe_CapId_MSI :: u32 where "PCIe_CapId_MSI = 0x05"
definition PCIe_CapId_MSIX :: u32 where "PCIe_CapId_MSIX = 0x11"

section \<open>Interrupt controllers: \<open>hardware/APIC.h\<close>\<close>

definition APICRteDescriptor :: ctype where
  "APICRteDescriptor = CStruct True
    [BitFld ''vector'' 32 8, BitFld ''deliveryMode'' 32 3, BitFld ''destMode'' 32 1,
     BitFld ''deliveryStatus'' 32 1, BitFld ''pinPolarity'' 32 1,
     BitFld ''remoteIRR'' 32 1, BitFld ''triggerMode'' 32 1, BitFld ''mask'' 32 1,
     BitFld ''reserved'' 32 15,
     Fld ''destDesc'' (CUnion False [Fld ''logical'' (CStruct True [BitFld ''reserved1'' 32 24, BitFld ''destination'' 32 8]),
     Fld ''physical'' (CStruct True [BitFld ''reserved2'' 32 24, BitFld ''destination'' 32 4, BitFld ''reserved3'' 32 4])])]"

definition APIC_ICRDescriptor :: ctype where
  "APIC_ICRDescriptor = CStruct True
    [BitFld ''vector'' 32 8, BitFld ''deliverMode'' 32 3, BitFld ''destMode'' 32 1,
     BitFld ''deliverStatus'' 32 1, BitFld ''reserved1'' 32 1, BitFld ''level'' 32 1,
     BitFld ''triggerMode'' 32 1, BitFld ''reserved2'' 32 2,
     BitFld ''DestShorthand'' 32 2, BitFld ''reserved3'' 32 12,
     Fld ''dest'' (CUnion True [Fld '''' (CStruct True [BitFld ''reserved'' 32 24, BitFld ''apic'' 8 8]),
     Fld ''x2Apic'' c32])]"

definition HW_APIC_DeliveryMode_Fixed :: u32 where "HW_APIC_DeliveryMode_Fixed = 0x0"
definition HW_APIC_DeliveryMode_LowestPriority :: u32 where "HW_APIC_DeliveryMode_LowestPriority = 0x1"
definition HW_APIC_DeliveryMode_SMI :: u32 where "HW_APIC_DeliveryMode_SMI = 0x2"
definition HW_APIC_DeliveryMode_NMI :: u32 where "HW_APIC_DeliveryMode_NMI = 0x4"
definition HW_APIC_DeliveryMode_INIT :: u32 where "HW_APIC_DeliveryMode_INIT = 0x5"
definition HW_APIC_DeliveryMode_Startup :: u32 where "HW_APIC_DeliveryMode_Startup = 0x6"
definition HW_APIC_DeliveryMode_ExtINT :: u32 where "HW_APIC_DeliveryMode_ExtINT = 0x7"
definition HW_APIC_Mask_Unmasked :: u32 where "HW_APIC_Mask_Unmasked = 0x0"
definition HW_APIC_Mask_Masked :: u32 where "HW_APIC_Mask_Masked = 0x1"
definition HW_APIC_TriggerMode_Edge :: u32 where "HW_APIC_TriggerMode_Edge = 0x0"
definition HW_APIC_TriggerMode_Level :: u32 where "HW_APIC_TriggerMode_Level = 0x1"
definition HW_APIC_DeliveryStatus_Idle :: u32 where "HW_APIC_DeliveryStatus_Idle = 0x0"
definition HW_APIC_DeliveryStatus_Pending :: u32 where "HW_APIC_DeliveryStatus_Pending = 0x1"
definition HW_APIC_DestShorthand_None :: u32 where "HW_APIC_DestShorthand_None = 0x0"
definition HW_APIC_DestShorthand_Self :: u32 where "HW_APIC_DestShorthand_Self = 0x1"
definition HW_APIC_DestShorthand_AllIncludingSelf :: u32 where "HW_APIC_DestShorthand_AllIncludingSelf = 0x2"
definition HW_APIC_DestShorthand_AllExcludingSelf :: u32 where "HW_APIC_DestShorthand_AllExcludingSelf = 0x3"
definition HW_APIC_DestMode_Physical :: u32 where "HW_APIC_DestMode_Physical = 0x0"
definition HW_APIC_DestMode_Logical :: u32 where "HW_APIC_DestMode_Logical = 0x1"
definition HW_APIC_Level_Deassert :: u32 where "HW_APIC_Level_Deassert = 0x0"
definition HW_APIC_Level_Assert :: u32 where "HW_APIC_Level_Assert = 0x1"
definition HW_APIC_RemoteIRR_Reset :: u32 where "HW_APIC_RemoteIRR_Reset = 0x0"
definition HW_APIC_RemoteIRR_Accept :: u32 where "HW_APIC_RemoteIRR_Accept = 0x1"
definition HW_APIC_PinPolarity_High :: u32 where "HW_APIC_PinPolarity_High = 0x0"
definition HW_APIC_PinPolarity_Low :: u32 where "HW_APIC_PinPolarity_Low = 0x1"
definition HW_APIC_supportFlag_X2APIC :: u64 where "HW_APIC_supportFlag_X2APIC = push_bit 0 1"
definition HW_APIC_supportFlag_EOIBroadcase :: u64 where "HW_APIC_supportFlag_EOIBroadcase = push_bit 1 1"

section \<open>Processors: \<open>includes/smp.h\<close>\<close>

definition MADTDescriptor :: ctype where
  "MADTDescriptor = CStruct False
    [Fld ''header'' ACPIHeader, Fld ''localAPICAddr'' c32, Fld ''flags'' c32,
     Fld ''entries'' (CArr 0 (CStruct True [Fld ''type'' c8, Fld ''length'' c8,
     Fld '''' (CUnion True [Fld ''type0'' (CStruct True [Fld ''processorID'' c8, Fld ''apicID'' c8, Fld ''flags'' c32]),
     Fld ''type1'' (CStruct True [Fld ''ioapicID'' c8, Fld ''reserved'' c8, Fld ''ioapicAddr'' c32,
     Fld ''gloSysIntrBase'' c32]),
     Fld ''type2'' (CStruct True [Fld ''busSrc'' c8, Fld ''irqSrc'' c8, Fld ''gloSysIntr'' c32, Fld ''flags'' c16]),
     Fld ''type3'' (CStruct True [Fld ''nmiSrc'' c8, Fld ''reserved'' c8, Fld ''flags'' c16, Fld ''gloSysIntrBase'' c32]),
     Fld ''type4'' (CStruct True [Fld ''processorID'' c8, Fld ''flags'' c16, Fld ''lint'' c8]),
     Fld ''type5'' (CStruct True [Fld ''reserved'' c16, Fld ''addr'' c64]),
     Fld ''type9'' (CStruct True [Fld ''reserved'' c16, Fld ''x2apicID'' c32, Fld ''flags'' c32, Fld ''apicID'' c32])])]))]"

definition SMP_CPUInfo_flag_APUInited :: u64 where "SMP_CPUInfo_flag_APUInited = push_bit 1 1"
definition SMP_IPI_Type_Schedule :: u32 where "SMP_IPI_Type_Schedule = 0xc8"

section \<open>HPET: \<open>hardware/timer/hpet.h\<close>\<close>

definition AddressStructure :: ctype where
  "AddressStructure = CStruct True
    [Fld ''addrSpaceId'' c8, Fld ''regBitWidth'' c8, Fld ''regBitOffset'' c8,
     Fld ''reserved'' c8, Fld ''Address'' c64]"

definition HPETDescriptor :: ctype where
  "HPETDescriptor = CStruct True
    [Fld ''signature'' (CArr 4 c8), Fld ''length'' c32, Fld ''revision'' c8,
     Fld ''checksum'' c8, Fld ''OEMID'' (CArr 6 c8), Fld ''OEMTableID'' c64,
     Fld ''OEMRevision'' c32, Fld ''creatorID'' c32, Fld ''creatorRevision'' c32,
     Fld ''hardwareRevID'' c8, BitFld ''comparatorCount'' 8 5,
     BitFld ''counterSize'' 8 1, BitFld ''reserved'' 8 1,
     BitFld ''legacyReplacement'' 8 1, Fld ''pciVendorID'' c16,
     Fld ''address'' AddressStructure, Fld ''hpetNumber'' c32, Fld ''minimumTick'' c16,
     Fld ''pageProtection'' c8]"

section \<open>Disks: \<open>hardware/diskdevice.h\<close>\<close>

definition DiskDevice_LbaShift :: u32 where "DiskDevice_LbaShift = 9"
definition DiskDevice_Task_State_Succ :: u32 where "DiskDevice_Task_State_Succ = 0x0"
definition DiskDevice_Task_State_Fail :: u32 where "DiskDevice_Task_State_Fail = 0x1"
definition DiskDevice_Task_State_Busy :: u32 where "DiskDevice_Task_State_Busy = push_bit 1 0"
definition DiskDevice_Task_State_Refuse :: u32 where "DiskDevice_Task_State_Refuse = push_bit 1 1"
definition DiskDevice_Task_State_OutOfRange :: u32 where "DiskDevice_Task_State_OutOfRange = push_bit 2 1"
definition DiskDevice_Task_State_InvalidArg :: u32 where "DiskDevice_Task_State_InvalidArg = push_bit 3 1"
definition DiskDevice_Task_State_Unknown :: u32 where "DiskDevice_Task_State_Unknown = push_bit 4 1"

section \<open>NVMe: \<open>hardware/NVMe/desc.h\<close>\<close>

definition NVMe_SubmQueEntry :: ctype where
  "NVMe_SubmQueEntry = CStruct True
    [Fld ''cmd'' c32, Fld ''nsid'' c32, Fld ''reserved'' c64, Fld ''metaPtr'' c64,
     Fld ''dtPtr'' (CArr 4 c32), Fld ''cmdSpec'' (CArr 6 c32)]"

definition NVMe_CmplQueEntry :: ctype where
  "NVMe_CmplQueEntry = CStruct True
    [Fld ''cmdSpec'' c32, Fld ''reserved'' c32, Fld ''submQueHdrPtr'' c16,
     Fld ''submQueId'' c16, Fld ''cmdId'' c16, BitFld ''phaseBit'' 8 1,
     BitFld ''status'' 16 15]"

definition NVMe_Request_attr_inQue :: u64 where "NVMe_Request_attr_inQue = push_bit 0 1"
definition NVMe_Request_attr_Finished :: u64 where "NVMe_Request_attr_Finished = push_bit 1 1"
definition NVMe_QueMgr_attr_isSubmQue :: u64 where "NVMe_QueMgr_attr_isSubmQue = push_bit 0 1"
definition NVMe_QueMgr_attr_isAdmQue :: u64 where "NVMe_QueMgr_attr_isAdmQue = push_bit 1 1"
definition NVMe_SubmEntry_Iden_Type_Nsp :: u32 where "NVMe_SubmEntry_Iden_Type_Nsp = 0x0"
definition NVMe_SubmEntry_Iden_Type_Ctrl :: u32 where "NVMe_SubmEntry_Iden_Type_Ctrl = 0x1"
definition NVMe_SubmEntry_Iden_Type_ActNspList :: u32 where "NVMe_SubmEntry_Iden_Type_ActNspList = 0x2"
definition NVMe_SubmEntry_Iden_Type_AllocNspList :: u32 where "NVMe_SubmEntry_Iden_Type_AllocNspList = 0x10"

definition NVMe_NspDesc :: ctype where
  "NVMe_NspDesc = CStruct True
    [Fld ''size'' c64, Fld ''cap'' c64, Fld ''reserved1'' (CArr 10 c8),
     Fld ''formatLbaSz'' c8, Fld ''reserved2'' (CArr 2 c8), Fld ''dps'' c8,
     Fld ''nmic'' c8]"

definition NVMe_Reg_Cap :: u32 where "NVMe_Reg_Cap = 0x00"
definition NVMe_Reg_Version :: u32 where "NVMe_Reg_Version = 0x08"
definition NVMe_Reg_IntrMskSet :: u32 where "NVMe_Reg_IntrMskSet = 0x0C"
definition NVMe_Reg_IntrMskClr :: u32 where "NVMe_Reg_IntrMskClr = 0x10"
definition NVMe_Reg_Cfg :: u32 where "NVMe_Reg_Cfg = 0x14"
definition NVMe_Reg_Status :: u32 where "NVMe_Reg_Status = 0x1C"
definition NVMe_Reg_SubsysRes :: u32 where "NVMe_Reg_SubsysRes = 0x20"
definition NVMe_Reg_AdmQueAttr :: u32 where "NVMe_Reg_AdmQueAttr = 0x24"
definition NVMe_Reg_AdmSubmQue :: u32 where "NVMe_Reg_AdmSubmQue = 0x28"
definition NVMe_Reg_AdmCmplQue :: u32 where "NVMe_Reg_AdmCmplQue = 0x30"

section \<open>XHCI: \<open>hardware/USB/XHCI/desc.h\<close>\<close>

definition XHCI_GenerTRB :: ctype where
  "XHCI_GenerTRB = CStruct True
    [Fld ''data1'' c32, Fld ''data2'' c32, Fld ''status'' c32, Fld ''ctrl'' c32]"

definition XHCI_TRB_Ctrl_ent :: u32 where "XHCI_TRB_Ctrl_ent = push_bit 1 1"
definition XHCI_TRB_Ctrl_isp :: u32 where "XHCI_TRB_Ctrl_isp = push_bit 2 1"
definition XHCI_TRB_Ctrl_noSnoop :: u32 where "XHCI_TRB_Ctrl_noSnoop = push_bit 3 1"
definition XHCI_TRB_Ctrl_chain :: u32 where "XHCI_TRB_Ctrl_chain = push_bit 4 1"
definition XHCI_TRB_Ctrl_ioc :: u32 where "XHCI_TRB_Ctrl_ioc = push_bit 5 1"
definition XHCI_TRB_Ctrl_idt :: u32 where "XHCI_TRB_Ctrl_idt = push_bit 6 1"
definition XHCI_TRB_Ctrl_bei :: u32 where "XHCI_TRB_Ctrl_bei = push_bit 9 1"
definition XHCI_TRB_Ctrl_allBit :: u32 where "XHCI_TRB_Ctrl_allBit = 0x0000027e"
definition XHCI_TRB_Ctrl_Dir_In :: u32 where "XHCI_TRB_Ctrl_Dir_In = 1"
definition XHCI_TRB_Ctrl_Dir_Out :: u32 where "XHCI_TRB_Ctrl_Dir_Out = 0"
definition XHCI_TRB_TRT_No :: u32 where "XHCI_TRB_TRT_No = 0"
definition XHCI_TRB_TRT_Out :: u32 where "XHCI_TRB_TRT_Out = 2"
definition XHCI_TRB_TRT_In :: u32 where "XHCI_TRB_TRT_In = 3"
definition XHCI_TRB_Type_Normal :: u32 where "XHCI_TRB_Type_Normal = 1"
definition XHCI_TRB_Type_SetupStage :: u32 where "XHCI_TRB_Type_SetupStage = 2"
definition XHCI_TRB_Type_DataStage :: u32 where "XHCI_TRB_Type_DataStage = 3"
definition XHCI_TRB_Type_StatusStage :: u32 where "XHCI_TRB_Type_StatusStage = 4"
definition XHCI_TRB_Type_Isoch :: u32 where "XHCI_TRB_Type_Isoch = 5"
definition XHCI_TRB_Type_Link :: u32 where "XHCI_TRB_Type_Link = 6"
definition XHCI_TRB_Type_EventData :: u32 where "XHCI_TRB_Type_EventData = 7"
definition XHCI_TRB_Type_NoOp :: u32 where "XHCI_TRB_Type_NoOp = 8"
definition XHCI_TRB_Type_EnblSlot :: u32 where "XHCI_TRB_Type_EnblSlot = 9"
definition XHCI_TRB_Type_DisblSlot :: u32 where "XHCI_TRB_Type_DisblSlot = 10"
definition XHCI_TRB_Type_AddrDev :: u32 where "XHCI_TRB_Type_AddrDev = 11"
definition XHCI_TRB_Type_CfgEp :: u32 where "XHCI_TRB_Type_CfgEp = 12"
definition XHCI_TRB_Type_EvalCtx :: u32 where "XHCI_TRB_Type_EvalCtx = 13"
definition XHCI_TRB_Type_ResetEp :: u32 where "XHCI_TRB_Type_ResetEp = 14"
definition XHCI_TRB_Type_StopEp :: u32 where "XHCI_TRB_Type_StopEp = 15"
definition XHCI_TRB_Type_SetTrDeq :: u32 where "XHCI_TRB_Type_SetTrDeq = 16"
definition XHCI_TRB_Type_ResetDev :: u32 where "XHCI_TRB_Type_ResetDev = 17"
definition XHCI_TRB_Type_ForceEvent :: u32 where "XHCI_TRB_Type_ForceEvent = 18"
definition XHCI_TRB_Type_DegBand :: u32 where "XHCI_TRB_Type_DegBand = 19"
definition XHCI_TRB_Type_SetLatToler :: u32 where "XHCI_TRB_Type_SetLatToler = 20"
definition XHCI_TRB_Type_GetPortBand :: u32 where "XHCI_TRB_Type_GetPortBand = 21"
definition XHCI_TRB_Type_ForceHdr :: u32 where "XHCI_TRB_Type_ForceHdr = 22"
definition XHCI_TRB_Type_NoOpCmd :: u32 where "XHCI_TRB_Type_NoOpCmd = 23"
definition XHCI_TRB_Type_TransEve :: u32 where "XHCI_TRB_Type_TransEve = 32"
definition XHCI_TRB_Type_CmdCmpl :: u32 where "XHCI_TRB_Type_CmdCmpl = 33"
definition XHCI_TRB_Type_PortStChg :: u32 where "XHCI_TRB_Type_PortStChg = 34"
definition XHCI_TRB_Type_BandReq :: u32 where "XHCI_TRB_Type_BandReq = 35"
definition XHCI_TRB_Type_DbEve :: u32 where "XHCI_TRB_Type_DbEve = 36"
definition XHCI_TRB_Type_HostCtrlEve :: u32 where "XHCI_TRB_Type_HostCtrlEve = 37"
definition XHCI_TRB_Type_DevNotfi :: u32 where "XHCI_TRB_Type_DevNotfi = 38"
definition XHCI_TRB_Type_MfidxWrap :: u32 where "XHCI_TRB_Type_MfidxWrap = 39"
definition XHCI_TRB_CmplCode_Succ :: u32 where "XHCI_TRB_CmplCode_Succ = 1"
definition XHCI_TRB_CmplCode_DtBufErr :: u32 where "XHCI_TRB_CmplCode_DtBufErr = 2"
definition XHCI_TRB_CmplCode_BadDetect :: u32 where "XHCI_TRB_CmplCode_BadDetect = 3"
definition XHCI_TRB_CmplCode_TransErr :: u32 where "XHCI_TRB_CmplCode_TransErr = 4"
definition XHCI_TRB_CmplCode_TrbErr :: u32 where "XHCI_TRB_CmplCode_TrbErr = 5"
definition XHCI_TRB_CmplCode_StallErr :: u32 where "XHCI_TRB_CmplCode_StallErr = 6"
definition XHCI_TRB_CmplCode_ResrcErr :: u32 where "XHCI_TRB_CmplCode_ResrcErr = 7"
definition XHCI_TRB_CmplCode_BandErr :: u32 where "XHCI_TRB_CmplCode_BandErr = 8"
definition XHCI_TRB_CmplCode_NoSlotErr :: u32 where "XHCI_TRB_CmplCode_NoSlotErr = 9"
definition XHCI_TRB_CmplCode_InvalidStreamT :: u32 where "XHCI_TRB_CmplCode_InvalidStreamT = 10"
definition XHCI_TRB_CmplCode_SlotNotEnbl :: u32 where "XHCI_TRB_CmplCode_SlotNotEnbl = 11"
definition XHCI_TRB_CmplCode_EpNotEnbl :: u32 where "XHCI_TRB_CmplCode_EpNotEnbl = 12"
definition XHCI_TRB_CmplCode_ShortPkg :: u32 where "XHCI_TRB_CmplCode_ShortPkg = 13"
definition XHCI_TRB_CmplCode_RingUnderRun :: u32 where "XHCI_TRB_CmplCode_RingUnderRun = 14"
definition XHCI_TRB_CmplCode_RingOverRun :: u32 where "XHCI_TRB_CmplCode_RingOverRun = 15"
definition XHCI_TRB_CmplCode_VFEveRingFull :: u32 where "XHCI_TRB_CmplCode_VFEveRingFull = 16"
definition XHCI_TRB_CmplCode_ParamErr :: u32 where "XHCI_TRB_CmplCode_ParamErr = 17"
definition XHCI_TRB_CmplCode_BandOverRun :: u32 where "XHCI_TRB_CmplCode_BandOverRun = 18"
definition XHCI_TRB_CmplCode_CtxStsErr :: u32 where "XHCI_TRB_CmplCode_CtxStsErr = 19"
definition XHCI_TRB_CmplCode_NoPingResp :: u32 where "XHCI_TRB_CmplCode_NoPingResp = 20"
definition XHCI_TRB_CmplCode_EveRingFull :: u32 where "XHCI_TRB_CmplCode_EveRingFull = 21"
definition XHCI_TRB_CmplCode_IncompDev :: u32 where "XHCI_TRB_CmplCode_IncompDev = 22"
definition XHCI_TRB_CmplCode_MissServ :: u32 where "XHCI_TRB_CmplCode_MissServ = 23"
definition XHCI_TRB_CmplCode_CmdRingStop :: u32 where "XHCI_TRB_CmplCode_CmdRingStop = 24"
definition XHCI_TRB_CmplCode_CmdAborted :: u32 where "XHCI_TRB_CmplCode_CmdAborted = 25"
definition XHCI_TRB_CmplCode_Stop :: u32 where "XHCI_TRB_CmplCode_Stop = 26"
definition XHCI_TRB_CmplCode_StopLenErr :: u32 where "XHCI_TRB_CmplCode_StopLenErr = 27"
definition XHCI_TRB_CmplCode_Reserved :: u32 where "XHCI_TRB_CmplCode_Reserved = 28"
definition XHCI_TRB_CmplCode_IsochBufOverRun :: u32 where "XHCI_TRB_CmplCode_IsochBufOverRun = 29"
definition XHCI_TRB_CmplCode_EvernLost :: u32 where "XHCI_TRB_CmplCode_EvernLost = 32"
definition XHCI_TRB_CmplCode_Undefined :: u32 where "XHCI_TRB_CmplCode_Undefined = 33"
definition XHCI_TRB_CmplCode_InvalidStreamId :: u32 where "XHCI_TRB_CmplCode_InvalidStreamId = 34"
definition XHCI_TRB_CmplCode_SecBand :: u32 where "XHCI_TRB_CmplCode_SecBand = 35"
definition XHCI_TRB_CmplCode_SplitTrans :: u32 where "XHCI_TRB_CmplCode_SplitTrans = 36"

definition XHCI_SlotCtx :: ctype where
  "XHCI_SlotCtx = CStruct True
    [Fld ''dw0'' c32, Fld ''dw1'' c32, Fld ''dw2'' c32, Fld ''dw3'' c32,
     Fld ''reserved'' (CArr 4 c32)]"

definition XHCI_SlotCtx_routeStr :: u32 where "XHCI_SlotCtx_routeStr = 0x000fffff"
definition XHCI_SlotCtx_speed :: u32 where "XHCI_SlotCtx_speed = 0x00f00000"
definition XHCI_SlotCtx_mtt :: u32 where "XHCI_SlotCtx_mtt = 0x02000000"
definition XHCI_SlotCtx_hub :: u32 where "XHCI_SlotCtx_hub = 0x04000000"
definition XHCI_SlotCtx_ctxEntries :: u32 where "XHCI_SlotCtx_ctxEntries = 0xf8000000"
definition XHCI_SlotCtx_maxExitLatency :: u32 where "XHCI_SlotCtx_maxExitLatency = 0x0000ffff"
definition XHCI_SlotCtx_rootPortNum :: u32 where "XHCI_SlotCtx_rootPortNum = 0x00ff0000"
definition XHCI_SlotCtx_numOfPorts :: u32 where "XHCI_SlotCtx_numOfPorts = 0xff000000"
definition XHCI_SlotCtx_ttHubSlotId :: u32 where "XHCI_SlotCtx_ttHubSlotId = 0x000000ff"
definition XHCI_SlotCtx_ttPortNum :: u32 where "XHCI_SlotCtx_ttPortNum = 0x0000ff00"
definition XHCI_SlotCtx_ttt :: u32 where "XHCI_SlotCtx_ttt = 0x00030000"
definition XHCI_SlotCtx_intrTarget :: u32 where "XHCI_SlotCtx_intrTarget = 0xffc00000"
definition XHCI_SlotCtx_devAddr :: u32 where "XHCI_SlotCtx_devAddr = 0x000000ff"
definition XHCI_SlotCtx_slotState :: u32 where "XHCI_SlotCtx_slotState = 0xff000000"

definition XHCI_EpCtx :: ctype where
  "XHCI_EpCtx = CStruct True
    [Fld ''dw0'' c32, Fld ''dw1'' c32,
     Fld '''' (CUnion False [Fld ''deqPtr'' c64, Fld ''dw2_3'' (CStruct True [Fld ''dw2'' c32, Fld ''dw3'' c32])]),
     Fld ''dw4'' c32, Fld ''reserved'' (CArr 3 c32)]"

definition XHCI_EpCtx_epState :: u32 where "XHCI_EpCtx_epState = 0x00000007"
definition XHCI_EpCtx_multi :: u32 where "XHCI_EpCtx_multi = 0x00000300"
definition XHCI_EpCtx_mxPStreams :: u32 where "XHCI_EpCtx_mxPStreams = 0x00007C00"
definition XHCI_EpCtx_lsa :: u32 where "XHCI_EpCtx_lsa = 0x00008000"
definition XHCI_EpCtx_interval :: u32 where "XHCI_EpCtx_interval = 0x00ff0000"
definition XHCI_EpCtx_mxESITPayH :: u32 where "XHCI_EpCtx_mxESITPayH = 0xff000000"
definition XHCI_EpCtx_CErr :: u32 where "XHCI_EpCtx_CErr = 0x00000006"
definition XHCI_EpCtx_epType :: u32 where "XHCI_EpCtx_epType = 0x00000038"
definition XHIC_EpCtx_hid :: u32 where "XHIC_EpCtx_hid = 0x00000080"
definition XHCI_EpCtx_mxBurstSize :: u32 where "XHCI_EpCtx_mxBurstSize = 0x0000ff00"
definition XHCI_EpCtx_mxPackSize :: u32 where "XHCI_EpCtx_mxPackSize = 0xffff0000"
definition XHCI_EpCtx_dcs :: u32 where "XHCI_EpCtx_dcs = 0x00000001"
definition XHCI_EpCtx_aveTrbLen :: u32 where "XHCI_EpCtx_aveTrbLen = 0x0000ffff"
definition XHCI_EpCtx_mxESITPayL :: u32 where "XHCI_EpCtx_mxESITPayL = 0xffff0000"
definition XHCI_EpCtx_epType_IsochOut :: u32 where "XHCI_EpCtx_epType_IsochOut = 1"
definition XHCI_EpCtx_epType_BulkOut :: u32 where "XHCI_EpCtx_epType_BulkOut = 2"
definition XHCI_EpCtx_epType_IntrOut :: u32 where "XHCI_EpCtx_epType_IntrOut = 3"
definition XHCI_EpCtx_epType_Control :: u32 where "XHCI_EpCtx_epType_Control = 4"
definition XHCI_EpCtx_epType_IsochIn :: u32 where "XHCI_EpCtx_epType_IsochIn = 5"
definition XHCI_EpCtx_epType_BulkIn :: u32 where "XHCI_EpCtx_epType_BulkIn = 6"
definition XHCI_EpCtx_epType_IntrIn :: u32 where "XHCI_EpCtx_epType_IntrIn = 7"

definition XHCI_DevCtx :: ctype where
  "XHCI_DevCtx = CStruct True
    [Fld ''slot'' XHCI_SlotCtx, Fld ''ep'' (CArr 31 XHCI_EpCtx)]"

definition XHCI_InCtx_Ctrl :: u32 where "XHCI_InCtx_Ctrl = 0"
definition XHCI_InCtx_Slot :: u32 where "XHCI_InCtx_Slot = 1"
definition XHCI_InCtx_CtrlEp :: u32 where "XHCI_InCtx_CtrlEp = 2"

definition XHCI_InCtrlCtx :: ctype where
  "XHCI_InCtrlCtx = CStruct True
    [Fld ''dropFlags'' c32, Fld ''addFlags'' c32, Fld ''reserved'' (CArr 5 c32),
     Fld ''dw7'' c32]"

definition XHCI_InCtrlCtx_cfgVal :: u32 where "XHCI_InCtrlCtx_cfgVal = 0x000000ff"
definition XHCI_InCtrlCtx_inteNum :: u32 where "XHCI_InCtrlCtx_inteNum = 0x0000ff00"
definition XHCI_InCtrlCtx_AlterSet :: u32 where "XHCI_InCtrlCtx_AlterSet = 0x00ff0000"

definition XHCI_InputCtx :: ctype where
  "XHCI_InputCtx = CStruct True
    [Fld ''ctrl'' XHCI_InCtrlCtx, Fld ''slot'' XHCI_SlotCtx, Fld ''ep'' (CArr 31 XHCI_EpCtx)]"

definition XHCI_DescHdr :: ctype where
  "XHCI_DescHdr = CStruct True
    [Fld ''len'' c8, Fld ''type'' c8]"

definition XHCI_DevDesc :: ctype where
  "XHCI_DevDesc = CStruct True
    [Fld ''hdr'' XHCI_DescHdr, Fld ''bcdUsb'' c16, Fld ''bDevClass'' c8,
     Fld ''bDevSubClass'' c8, Fld ''bDevProtocol'' c8, Fld ''bMaxPackSz0'' c8,
     Fld ''idVendor'' c16, Fld ''idProduct'' c16, Fld ''bcdDev'' c16,
     Fld ''iManufacturer'' c8, Fld ''iProduct'' c8, Fld ''iSerialNum'' c8,
     Fld ''bNumCfg'' c8]"

definition XHCI_CfgDesc :: ctype where
  "XHCI_CfgDesc = CStruct True
    [Fld ''hdr'' XHCI_DescHdr, Fld ''wtotLen'' c16, Fld ''bNumInter'' c8, Fld ''bCfgVal'' c8,
     Fld ''iCfg'' c8, Fld ''bmAttr'' c8, Fld ''bMxPw'' c8]"

definition XHCI_StrDesc :: ctype where
  "XHCI_StrDesc = CStruct True
    [Fld ''hdr'' XHCI_DescHdr, Fld ''str'' (CArr 0 c8)]"

definition XHCI_InterDesc :: ctype where
  "XHCI_InterDesc = CStruct True
    [Fld ''hdr'' XHCI_DescHdr, Fld ''bInterNum'' c8, Fld ''bAlterSet'' c8, Fld ''bNumEp'' c8,
     Fld ''bInterClass'' c8, Fld ''bInterSubClass'' c8, Fld ''bInterProto'' c8,
     Fld ''iInter'' c8]"

definition XHCI_EpDesc :: ctype where
  "XHCI_EpDesc = CStruct True
    [Fld ''hdr'' XHCI_DescHdr, Fld ''bEpAddr'' c8, Fld ''bmAttr'' c8, Fld ''wMxPackSz'' c16,
     Fld ''interval'' c8]"

definition XHCI_Descriptor_Type_Device :: u32 where "XHCI_Descriptor_Type_Device = 0x01"
definition XHCI_Descriptor_Type_Cfg :: u32 where "XHCI_Descriptor_Type_Cfg = 0x02"
definition XHCI_Descriptor_Type_Str :: u32 where "XHCI_Descriptor_Type_Str = 0x03"
definition XHCI_Descriptor_Type_Inter :: u32 where "XHCI_Descriptor_Type_Inter = 0x04"
definition XHCI_Descriptor_Type_Endpoint :: u32 where "XHCI_Descriptor_Type_Endpoint = 0x05"
definition XHCI_Descriptor_Type_HID :: u32 where "XHCI_Descriptor_Type_HID = 0x21"
definition XHCI_Device_State_Disable :: u32 where "XHCI_Device_State_Disable = 0"
definition XHCI_Device_State_Enable :: u32 where "XHCI_Device_State_Enable = 1"
definition XHCI_Request_Flag_IsCommand :: u32 where "XHCI_Request_Flag_IsCommand = push_bit 0 1"
definition XHCI_Request_Flag_IsInRing :: u32 where "XHCI_Request_Flag_IsInRing = push_bit 1 1"
definition XHCI_Request_Flag_Finished :: u32 where "XHCI_Request_Flag_Finished = push_bit 2 1"
definition XHCI_PortInfo_Flag_Protocol :: u32 where "XHCI_PortInfo_Flag_Protocol = push_bit 0 1"
definition XHCI_PortInfo_Flag_isUSB3 :: u32 where "XHCI_PortInfo_Flag_isUSB3 = push_bit 0 1"
definition XHCI_PortInfo_Flag_Paired :: u32 where "XHCI_PortInfo_Flag_Paired = push_bit 1 1"
definition XHCI_PortInfo_Flag_Active :: u32 where "XHCI_PortInfo_Flag_Active = push_bit 2 1"
definition XHCI_Port_Speed_Full :: u32 where "XHCI_Port_Speed_Full = 1"
definition XHCI_Port_Speed_Low :: u32 where "XHCI_Port_Speed_Low = 2"
definition XHCI_Port_Speed_High :: u32 where "XHCI_Port_Speed_High = 3"
definition XHCI_Port_Speed_Super :: u32 where "XHCI_Port_Speed_Super = 4"
definition XHCI_EveHandleTaskNum :: u32 where "XHCI_EveHandleTaskNum = 0x4"
definition XHCI_Host_EveQueSize :: u32 where "XHCI_Host_EveQueSize = 1024"
definition XHCI_Host_Flag_Initialized :: u32 where "XHCI_Host_Flag_Initialized = push_bit 0 1"
definition XHCI_CapReg_capLen :: u32 where "XHCI_CapReg_capLen = 0x0"
definition XHCI_CapReg_hciVer :: u32 where "XHCI_CapReg_hciVer = 0x2"
definition XHCI_CapReg_hcsParam1 :: u32 where "XHCI_CapReg_hcsParam1 = 0x4"
definition XHCI_CapReg_hcsParam2 :: u32 where "XHCI_CapReg_hcsParam2 = 0x8"
definition XHCI_CapReg_hcsParam3 :: u32 where "XHCI_CapReg_hcsParam3 = 0xc"
definition XHCI_CapReg_hccParam1 :: u32 where "XHCI_CapReg_hccParam1 = 0x10"
definition XHCI_CapReg_hccParam2 :: u32 where "XHCI_CapReg_hccParam2 = 0x1c"
definition XHCI_CapReg_dbOff :: u32 where "XHCI_CapReg_dbOff = 0x14"
definition XHCI_CapReg_rtsOff :: u32 where "XHCI_CapReg_rtsOff = 0x18"
definition XHCI_OpReg_cmd :: u32 where "XHCI_OpReg_cmd = 0x0"
definition XHCI_OpReg_status :: u32 where "XHCI_OpReg_status = 0x4"
definition XHCI_OpReg_pgSize :: u32 where "XHCI_OpReg_pgSize = 0x8"
definition XHCI_OpReg_dnCtrl :: u32 where "XHCI_OpReg_dnCtrl = 0x14"
definition XHCI_OpReg_crCtrl :: u32 where "XHCI_OpReg_crCtrl = 0x18"
definition XHCI_OpReg_dcbaa :: u32 where "XHCI_OpReg_dcbaa = 0x30"
definition XHCI_OpReg_cfg :: u32 where "XHCI_OpReg_cfg = 0x38"
definition XHCI_Ext_Id_Legacy :: u32 where "XHCI_Ext_Id_Legacy = 0x1"
definition XHCI_Ext_Id_Protocol :: u32 where "XHCI_Ext_Id_Protocol = 0x2"
definition XHCI_PortReg_baseOffset :: u32 where "XHCI_PortReg_baseOffset = 0x400"
definition XHCI_PortReg_offset :: u32 where "XHCI_PortReg_offset = 0x10"
definition XHCI_PortReg_sc :: u32 where "XHCI_PortReg_sc = 0x00"
definition XHCI_PortReg_sc_AllEve :: u32 where "XHCI_PortReg_sc_AllEve = 0xe000000"
definition XHCI_PortReg_sc_AllChg :: u32 where "XHCI_PortReg_sc_AllChg = 0xfe0000"
definition XHCI_PortReg_sc_Power :: u32 where "XHCI_PortReg_sc_Power = push_bit 9 1"
definition XHCI_PortReg_pwsc :: u32 where "XHCI_PortReg_pwsc = 0x04"
definition XHCI_PortReg_lk :: u32 where "XHCI_PortReg_lk = 0x08"
definition XHCI_IntrReg_IMan :: u32 where "XHCI_IntrReg_IMan = 0x00"
definition XHCI_IntrReg_IMod :: u32 where "XHCI_IntrReg_IMod = 0x04"
definition XHCI_IntrReg_TblSize :: u32 where "XHCI_IntrReg_TblSize = 0x08"
definition XHCI_IntrReg_TblAddr :: u32 where "XHCI_IntrReg_TblAddr = 0x10"
definition XHCI_IntrReg_DeqPtr :: u32 where "XHCI_IntrReg_DeqPtr = 0x18"

section \<open>HID: \<open>hardware/USB/HID/desc.h\<close>\<close>

definition USB_HidDesc :: ctype where
  "USB_HidDesc = CStruct True
    [Fld ''hdr'' XHCI_DescHdr, Fld ''bcdHID'' c16, Fld ''bCountryCode'' c8,
     Fld ''bNumDesc'' c8, Fld ''bDescType'' c8, Fld ''wDescLen'' c16]"

definition HID_RepItem_Size :: u32 where "HID_RepItem_Size = 0x03"
definition HID_RepItem_Type :: u32 where "HID_RepItem_Type = 0x0c"
definition HID_RepItem_Type_Main :: u32 where "HID_RepItem_Type_Main = 0x0"
definition HID_RepItem_Type_Global :: u32 where "HID_RepItem_Type_Global = 0x1"
definition HID_RepItem_Type_Local :: u32 where "HID_RepItem_Type_Local = 0x2"
definition HID_RepItem_Type_Long :: u32 where "HID_RepItem_Type_Long = 0x3"
definition HID_RepItem_Tag :: u32 where "HID_RepItem_Tag = 0xf0"
definition HID_RepItem_Tag_Input :: u32 where "HID_RepItem_Tag_Input = 0x08"
definition HID_RepItem_Tag_Output :: u32 where "HID_RepItem_Tag_Output = 0x09"
definition HID_RepItem_Tag_Coll :: u32 where "HID_RepItem_Tag_Coll = 0x0a"
definition HID_RepItem_Tag_Feature :: u32 where "HID_RepItem_Tag_Feature = 0x0b"
definition HID_RepItem_Tag_EndColl :: u32 where "HID_RepItem_Tag_EndColl = 0x0c"
definition HID_RepItem_Tag_Usage :: u32 where "HID_RepItem_Tag_Usage = 0x00"
definition HID_RepItem_Tag_UsageMin :: u32 where "HID_RepItem_Tag_UsageMin = 0x01"
definition HID_RepItem_Tag_UsageMax :: u32 where "HID_RepItem_Tag_UsageMax = 0x02"
definition HID_RepItem_Tag_UsagePage :: u32 where "HID_RepItem_Tag_UsagePage = 0x00"
definition HID_RepItem_Tag_LogicalMin :: u32 where "HID_RepItem_Tag_LogicalMin = 0x01"
definition HID_RepItem_Tag_LogicalMax :: u32 where "HID_RepItem_Tag_LogicalMax = 0x02"
definition HID_RepItem_Tag_ReportSize :: u32 where "HID_RepItem_Tag_ReportSize = 0x07"
definition HID_RepItem_Tag_ReportId :: u32 where "HID_RepItem_Tag_ReportId = 0x08"
definition HID_RepItem_Tag_ReportCnt :: u32 where "HID_RepItem_Tag_ReportCnt = 0x09"
definition HID_RepItem_DataType_Const :: u32 where "HID_RepItem_DataType_Const = push_bit 0 1"
definition HID_RepItem_DataType_Vari :: u32 where "HID_RepItem_DataType_Vari = push_bit 1 1"
definition HID_RepItem_DataType_Relative :: u32 where "HID_RepItem_DataType_Relative = push_bit 2 1"
definition HID_RepItem_DataType_Wrap :: u32 where "HID_RepItem_DataType_Wrap = push_bit 3 1"
definition HID_RepItem_DataType_NoLinear :: u32 where "HID_RepItem_DataType_NoLinear = push_bit 4 1"
definition HID_RepItem_DataType_NoPrefered :: u32 where "HID_RepItem_DataType_NoPrefered = push_bit 5 1"
definition HID_RepItem_DataType_NullState :: u32 where "HID_RepItem_DataType_NullState = push_bit 6 1"
definition HID_UsagePage_GenerDeskCtrl :: u32 where "HID_UsagePage_GenerDeskCtrl = 0x01"
definition HID_UsagePage_Keyboard :: u32 where "HID_UsagePage_Keyboard = 0x07"
definition HID_UsagePage_Button :: u32 where "HID_UsagePage_Button = 0x09"
definition HID_Usage_Pointer :: u32 where "HID_Usage_Pointer = 0x01"
definition HID_Usage_Mouse :: u32 where "HID_Usage_Mouse = 0x02"
definition HID_Usage_Keyboard :: u32 where "HID_Usage_Keyboard = 0x06"
definition HID_Usage_Keypad :: u32 where "HID_Usage_Keypad = 0x07"
definition HID_Usage_X :: u32 where "HID_Usage_X = 0x30"
definition HID_Usage_Y :: u32 where "HID_Usage_Y = 0x31"
definition HID_Usage_Z :: u32 where "HID_Usage_Z = 0x32"
definition HID_Usage_Wheel :: u32 where "HID_Usage_Wheel = 0x38"
definition USB_HID_ReportHelper_Type_Keyboard :: u32 where "USB_HID_ReportHelper_Type_Keyboard = 1"
definition USB_HID_ReportHelper_Type_Mouse :: u32 where "USB_HID_ReportHelper_Type_Mouse = 2"
definition USB_HID_ReportHelper_Type_Touchpad :: u32 where "USB_HID_ReportHelper_Type_Touchpad = 3"

section \<open>UHCI: \<open>hardware/USB/UHCI.h\<close>\<close>

definition USB_UHCI_IORegs :: ctype where
  "USB_UHCI_IORegs = CStruct True
    [Fld ''usbCmd'' c16, Fld ''usbStatus'' c16, Fld ''usbIntrEnbl'' c16, Fld ''frNum'' c16,
     Fld ''frBaseAddr'' c32, Fld ''sofMod'' c8, Fld ''reserved'' (CArr 3 c8),
     Fld ''portSts'' (CArr 2 c16)]"

definition HW_USB_UHCI_ioReg_cmd :: u32 where "HW_USB_UHCI_ioReg_cmd = 0x00"
definition HW_USB_UHCI_ioReg_status :: u32 where "HW_USB_UHCI_ioReg_status = 0x02"
definition HW_USB_UHCI_ioReg_intrEnable :: u32 where "HW_USB_UHCI_ioReg_intrEnable = 0x04"
definition HW_USB_UHCI_ioReg_frNum :: u32 where "HW_USB_UHCI_ioReg_frNum = 0x06"
definition HW_USB_UHCI_ioReg_frBaseAddr :: u32 where "HW_USB_UHCI_ioReg_frBaseAddr = 0x08"
definition HW_USB_UHCI_ioReg_frModSt :: u32 where "HW_USB_UHCI_ioReg_frModSt = 0x0c"

section \<open>Processor tables: \<open>interrupt/gate.h\<close>\<close>

definition PtReg :: ctype where
  "PtReg = CStruct False
    [Fld ''r15'' c64, Fld ''r14'' c64, Fld ''r13'' c64, Fld ''r12'' c64, Fld ''r11'' c64,
     Fld ''r10'' c64, Fld ''r9'' c64, Fld ''r8'' c64, Fld ''rbx'' c64, Fld ''rcx'' c64,
     Fld ''rdx'' c64, Fld ''rsi'' c64, Fld ''rdi'' c64, Fld ''rbp'' c64, Fld ''ds'' c64,
     Fld ''es'' c64, Fld ''rax'' c64, Fld ''func'' c64, Fld ''errCode'' c64,
     Fld ''rip'' c64, Fld ''cs'' c64, Fld ''rflags'' c64, Fld ''rsp'' c64,
     Fld ''ss'' c64]"

definition TSS :: ctype where
  "TSS = CStruct True
    [Fld ''reserved0'' c32, Fld ''rsp0'' c64, Fld ''rsp1'' c64, Fld ''rsp2'' c64,
     Fld ''reserved1'' c64, Fld ''ist1'' c64, Fld ''ist2'' c64, Fld ''ist3'' c64,
     Fld ''ist4'' c64, Fld ''ist5'' c64, Fld ''ist6'' c64, Fld ''ist7'' c64,
     Fld ''reserved2'' c64, Fld ''reserved3'' c16, Fld ''iomapBaseAddr'' c16]"

section \<open>Properties\<close>

lemmas hw_structs =
  XHCI_GenerTRB_def XHCI_SlotCtx_def XHCI_EpCtx_def XHCI_DevCtx_def XHCI_InCtrlCtx_def XHCI_InputCtx_def
  XHCI_DescHdr_def XHCI_DevDesc_def NVMe_SubmQueEntry_def NVMe_CmplQueEntry_def PCIe_MSIX_Table_def
  PCIe_CapHdr_def PCIe_MSIXCap_def PCIe_MSICap_def PCIeConfig_def APICRteDescriptor_def
  APIC_ICRDescriptor_def RSDPDescriptor_def ACPIHeader_def TSS_def PtReg_def HPETDescriptor_def
  AddressStructure_def

text \<open>
  the structures shared with devices and firmware have the sizes of their specifications: 16
  bytes for a TRB, 32 for a context, 64 and 16 for the entries of NVMe queues, 8 for an entry of
  the I/O APIC's table, 104 for a task state segment.  The HPET table of the firmware has 56
  bytes, but the structure has 59, because \<open>hpetNumber\<close> is declared with 32 bits instead of 8; so the
  minimal tick is read from the wrong place.
\<close>

theorem hardware_layout:
  "sizeof XHCI_GenerTRB = 16 \<and> sizeof XHCI_SlotCtx = 32 \<and> sizeof XHCI_EpCtx = 32 \<and>
   sizeof XHCI_DevCtx = 32 * 32 \<and> sizeof XHCI_InputCtx = 33 * 32 \<and> sizeof XHCI_DevDesc = 18 \<and>
   sizeof NVMe_SubmQueEntry = 64 \<and> sizeof NVMe_CmplQueEntry = 16 \<and>
   locate NVMe_CmplQueEntry [Mem ''status''] 0 = Some (8 * 14 + 1, 15) \<and>
   sizeof PCIe_MSIX_Table = 16 \<and> sizeof PCIe_MSIXCap = 12 \<and> sizeof PCIe_MSICap = 24 \<and>
   locate PCIeConfig [Mem ''type0'', Mem ''capPtr''] 0 = Some (8 * 0x34, 8) \<and>
   sizeof APICRteDescriptor = 8 \<and> sizeof APIC_ICRDescriptor = 8 \<and> sizeof RSDPDescriptor = 36 \<and>
   sizeof ACPIHeader = 36 \<and> sizeof TSS = 104 \<and> sizeof PtReg = 24 * 8 \<and>
   sizeof HPETDescriptor = 59 \<and> map_of (offsets HPETDescriptor) ''minimumTick'' = Some 56"
  by (intro conjI; simp add: hw_structs sizeof_def offsets_def up_to_def Let_def)

end
