(* ===== verification/Keyboard.thy ===== *)
theory Keyboard
  imports HwLayout
begin

text \<open>
  \<open>hardware/keyboard.h\<close>, \<open>keyboard/keyboard.c\<close> and \<open>keyboard/scancode.c\<close>: the ring buffer that the
  interrupt handler fills, and the decoding of scan codes into events.  The ring is proved to be a
  bounded queue (the locale \<open>bqueue\<close>) as long as at most 256 bytes are unread; the handler does
  not check for that.
\<close>

section \<open>Constants and tables\<close>

definition HW_Keyboard_ScanCodeNum :: nat where "HW_Keyboard_ScanCodeNum = 0x80"
definition HW_Keyboard_ScanCodeCol :: nat where "HW_Keyboard_ScanCodeCol = 0x2"
definition HW_Keyboard_BufferSize :: nat where "HW_Keyboard_BufferSize = 0x100"
definition HW_Keyboard_Esc :: u8 where "HW_Keyboard_Esc = 0x00"
definition HW_Keyboard_CtrlL :: u8 where "HW_Keyboard_CtrlL = 0x01"
definition HW_Keyboard_CtrlR :: u8 where "HW_Keyboard_CtrlR = 0x21"
definition HW_Keyboard_AltL :: u8 where "HW_Keyboard_AltL = 0x02"
definition HW_Keyboard_AltR :: u8 where "HW_Keyboard_AltR = 0x22"
definition HW_Keyboard_SuperL :: u8 where "HW_Keyboard_SuperL = 0x03"
definition HW_Keyboard_SuperR :: u8 where "HW_Keyboard_SuperR = 0x23"
definition HW_Keyboard_ShiftL :: u8 where "HW_Keyboard_ShiftL = 0x04"
definition HW_Keyboard_ShiftR :: u8 where "HW_Keyboard_ShiftR = 0x24"
definition HW_Keyboard_Enter :: u8 where "HW_Keyboard_Enter = 0x05"
definition HW_Keyboard_CapsLock :: u8 where "HW_Keyboard_CapsLock = 0x06"
definition HW_Keyboard_Delete :: u8 where "HW_Keyboard_Delete = 0x07"
definition HW_Keyboard_Up :: u8 where "HW_Keyboard_Up = 0x08"
definition HW_Keyboard_Down :: u8 where "HW_Keyboard_Down = 0x09"
definition HW_Keyboard_Left :: u8 where "HW_Keyboard_Left = 0x0a"
definition HW_Keyboard_Right :: u8 where "HW_Keyboard_Right = 0x0b"
definition HW_Keyboard_Fn :: u8 where "HW_Keyboard_Fn = 0x0c"
definition HW_Keyboard_F1 :: u8 where "HW_Keyboard_F1 = 0x11"
definition HW_Keyboard_F2 :: u8 where "HW_Keyboard_F2 = 0x12"
definition HW_Keyboard_F3 :: u8 where "HW_Keyboard_F3 = 0x13"
definition HW_Keyboard_F4 :: u8 where "HW_Keyboard_F4 = 0x14"
definition HW_Keyboard_F5 :: u8 where "HW_Keyboard_F5 = 0x15"
definition HW_Keyboard_F6 :: u8 where "HW_Keyboard_F6 = 0x16"
definition HW_Keyboard_F7 :: u8 where "HW_Keyboard_F7 = 0x17"
definition HW_Keyboard_F8 :: u8 where "HW_Keyboard_F8 = 0x18"
definition HW_Keyboard_F9 :: u8 where "HW_Keyboard_F9 = 0x19"
definition HW_Keyboard_F10 :: u8 where "HW_Keyboard_F10 = 0x1a"
definition HW_Keyboard_F11 :: u8 where "HW_Keyboard_F11 = 0x1b"
definition HW_Keyboard_F12 :: u8 where "HW_Keyboard_F12 = 0x1c"
definition kbd_IrqId :: u64 where "kbd_IrqId = 0x21"
definition kbd_Port_Data :: u16 where "kbd_Port_Data = 0x60"
definition kbd_Port_Status :: u16 where "kbd_Port_Status = 0x64"
definition kbd_Port_Cmd :: u16 where "kbd_Port_Cmd = 0x64"
definition kbd_Cmd_Write :: u8 where "kbd_Cmd_Write = 0x60"
definition kbd_Cmd_Read :: u8 where "kbd_Cmd_Read = 0x20"
definition kbd_Mode_Init :: u8 where "kbd_Mode_Init = 0x47"
definition kbd_State_IBF :: u8 where "kbd_State_IBF = 0x02"
definition kbd_State_OBF :: u8 where "kbd_State_OBF = 0x01"

definition HW_Keyboard_normapMap :: "u8 list" where
  "HW_Keyboard_normapMap =
    [0, 0, 0, 0, 49, 33, 50, 64, 51, 35, 52, 36, 53, 37, 54, 94,
     55, 38, 56, 42, 57, 40, 48, 41, 45, 95, 61, 43, 8, 0, 9, 0,
     113, 81, 119, 87, 101, 69, 114, 82, 116, 84, 121, 89, 117, 85, 105, 73,
     111, 79, 112, 80, 91, 123, 93, 125, 10, 0, 29, 29, 97, 65, 115, 83,
     100, 68, 102, 70, 103, 71, 104, 72, 106, 74, 107, 75, 108, 76, 59, 58,
     39, 34, 96, 126, 42, 42, 92, 124, 122, 90, 120, 88, 99, 67, 118, 86,
     98, 66, 110, 78, 109, 77, 44, 60, 46, 62, 47, 63, 54, 54, 42, 42,
     56, 56, 32, 32, 0, 0, 0, 0, 0, 0, 0, 0, 0, 0, 0, 0,
     0, 0, 0, 0, 0, 0, 0, 0, 0, 0, 0, 0, 0, 0, 55, 0,
     56, 0, 57, 0, 45, 0, 52, 0, 53, 0, 54, 0, 43, 0, 49, 0,
     50, 0, 51, 0, 48, 0, 46, 0, 0, 0, 0, 0, 0, 0, 0, 0,
     0, 0, 0, 0, 0, 0, 0, 0, 0, 0, 0, 0, 0, 0, 0, 0,
     0, 0, 0, 0, 0, 0, 0, 0, 0, 0, 0, 0, 0, 0, 0, 0,
     0, 0, 0, 0, 0, 0, 0, 0, 0, 0, 0, 0, 0, 0, 0, 0,
     0, 0, 0, 0, 0, 0, 0, 0, 0, 0, 0, 0, 0, 0, 0, 0,
     0, 0, 0, 0, 0, 0, 0, 0, 0, 0, 0, 0, 0, 0, 0, 0]"

section \<open>The ring buffer\<close>

text \<open>\<open>head\<close> and \<open>tail\<close> are offsets into \<open>data\<close>; the tail may stand behind the last byte.\<close>

record KeyboardBuffer =
  kdata :: "nat \<Rightarrow> u8"
  khead :: nat
  ktail :: nat
  ksize :: u32

record KeyboardEvent =
  isKeyUp :: u8
  isCtrlKey :: u8
  keyCode :: u8

definition HW_Keyboard_handler :: "u8 \<Rightarrow> KeyboardBuffer \<Rightarrow> KeyboardBuffer" where
  "HW_Keyboard_handler x b =
    (let b = (if ktail b = HW_Keyboard_BufferSize then b\<lparr>ktail := 0\<rparr> else b);
         b = b\<lparr>kdata := (kdata b)(ktail b := x)\<rparr>;
         b = b\<lparr>ktail := ktail b + 1\<rparr>
     in b\<lparr>ksize := ksize b + 1\<rparr>)"

text \<open>Reading a byte; \<open>None\<close> when the buffer is empty, since the code then waits for an interrupt.\<close>

definition getKeyCode :: "KeyboardBuffer \<Rightarrow> (u8 \<times> KeyboardBuffer) option" where
  "getKeyCode b =
    (if ksize b = 0 then None
     else let res = kdata b (khead b);
              b = b\<lparr>khead := khead b + 1\<rparr>;
              b = b\<lparr>ksize := ksize b - 1\<rparr>;
              b = (if khead b = HW_Keyboard_BufferSize then b\<lparr>khead := 0\<rparr> else b)
          in Some (res, b))"

text \<open>
  The codes behind the prefix 0xE0, and the control keys without prefix; \<open>None\<close> stands for the
  \<open>default\<close> branches.
\<close>

definition ext_key :: "u8 \<Rightarrow> u8 option" where
  "ext_key c =
    (if c = 0x5b then Some HW_Keyboard_SuperL else if c = 0x5c then Some HW_Keyboard_SuperR
     else if c = 0x1d then Some HW_Keyboard_CtrlR else if c = 0x38 then Some HW_Keyboard_AltR
     else if c = 0x48 then Some HW_Keyboard_Up else if c = 0x50 then Some HW_Keyboard_Down
     else if c = 0x4b then Some HW_Keyboard_Left else if c = 0x4d then Some HW_Keyboard_Right
     else if c = 0x63 then Some HW_Keyboard_Fn else None)"

definition ctrl_key :: "u8 \<Rightarrow> u8 option" where
  "ctrl_key c =
    (if c = 0x01 then Some HW_Keyboard_Esc else if c = 0x1d then Some HW_Keyboard_CtrlL
     else if c = 0x2a then Some HW_Keyboard_ShiftL else if c = 0x36 then Some HW_Keyboard_ShiftR
     else if c = 0x38 then Some HW_Keyboard_AltL else if c = 0x3a then Some HW_Keyboard_CapsLock
     else if c = 0x3b then Some HW_Keyboard_F1 else if c = 0x3c then Some HW_Keyboard_F2
     else if c = 0x3d then Some HW_Keyboard_F3 else if c = 0x3e then Some HW_Keyboard_F4
     else if c = 0x3f then Some HW_Keyboard_F5 else if c = 0x40 then Some HW_Keyboard_F6
     else if c = 0x41 then Some HW_Keyboard_F7 else if c = 0x42 then Some HW_Keyboard_F8
     else if c = 0x43 then Some HW_Keyboard_F9 else if c = 0x44 then Some HW_Keyboard_F10
     else if c = 0x57 then Some HW_Keyboard_F11 else if c = 0x58 then Some HW_Keyboard_F12
     else None)"

text \<open>
  The next event.  The memory of the event is not cleared: \<open>e\<close> is what it holds before.  The
  result is \<open>None\<close> when the second byte of a code has not arrived, so the code waits.
\<close>

definition HW_Keyboard_getEvent ::
    "KeyboardEvent \<Rightarrow> KeyboardBuffer \<Rightarrow> (KeyboardEvent option \<times> KeyboardBuffer) option" where
  "HW_Keyboard_getEvent e b =
    (if ksize b = 0 then Some (None, b)
     else case getKeyCode b of None \<Rightarrow> None | Some (fir, b) \<Rightarrow>
       let e = e\<lparr>isCtrlKey := 1\<rparr>; e = e\<lparr>isKeyUp := 0\<rparr> in
       if fir = 0xE0 then
         (case getKeyCode b of None \<Rightarrow> None | Some (sec, b) \<Rightarrow>
          let e = (if sec AND 0x80 \<noteq> 0 then e\<lparr>isKeyUp := 1\<rparr> else e)
          in Some (Some (case ext_key (sec AND 0x7f) of Some k \<Rightarrow> e\<lparr>keyCode := k\<rparr> | None \<Rightarrow> e), b))
       else
         let e = (if fir AND 0x80 \<noteq> 0 then e\<lparr>isKeyUp := 1\<rparr> else e)
         in Some (Some (case ctrl_key (fir AND 0x7f) of Some k \<Rightarrow> e\<lparr>keyCode := k\<rparr>
              | None \<Rightarrow> e\<lparr>isCtrlKey := 0,
                  keyCode := HW_Keyboard_normapMap ! (unat (fir AND 0x7f) * HW_Keyboard_ScanCodeCol)\<rparr>), b))"

text \<open>
  Initialisation: the empty buffer, the bytes written to the controller, and the entry of the I/O
  APIC, whose members are assigned one by one in uninitialised memory \<open>m\<close>.
\<close>

definition set_membs :: "ctype \<Rightarrow> (sel list \<times> u32) list \<Rightarrow> bytes \<Rightarrow> bytes option" where
  "set_membs t xs m = foldl (\<lambda>r (p, v). Option.bind r (wr_memb t p v 0)) (Some m) xs"

definition kbd_rte :: "bytes \<Rightarrow> bytes option" where
  "kbd_rte = set_membs APICRteDescriptor
    [([Mem ''vector''], ucast kbd_IrqId), ([Mem ''deliveryMode''], HW_APIC_DeliveryMode_Fixed),
     ([Mem ''destMode''], HW_APIC_DestMode_Physical), ([Mem ''deliveryStatus''], HW_APIC_DeliveryStatus_Idle),
     ([Mem ''pinPolarity''], HW_APIC_PinPolarity_High), ([Mem ''remoteIRR''], HW_APIC_RemoteIRR_Reset),
     ([Mem ''triggerMode''], HW_APIC_TriggerMode_Edge), ([Mem ''mask''], HW_APIC_Mask_Masked),
     ([Mem ''reserved''], 0), ([Mem ''destDesc'', Mem ''physical'', Mem ''destination''], 0),
     ([Mem ''destDesc'', Mem ''physical'', Mem ''reserved2''], 0),
     ([Mem ''destDesc'', Mem ''physical'', Mem ''reserved3''], 0)]"

definition HW_Keyboard_init :: "bytes \<Rightarrow> KeyboardBuffer \<times> (u16 \<times> u8) list \<times> bytes option" where
  "HW_Keyboard_init m =
    (\<lparr>kdata = (\<lambda>_. 0), khead = 0, ktail = 0, ksize = 0\<rparr>,
     [(kbd_Port_Cmd, kbd_Cmd_Write), (kbd_Port_Data, kbd_Mode_Init)], kbd_rte m)"

section \<open>Bounded queues\<close>

text \<open>What a consumer relies on: bytes come out in the order in which they were put in.\<close>

locale bqueue =
  fixes ok :: "'s \<Rightarrow> bool"
    and content :: "'s \<Rightarrow> 'a list"
    and put :: "'a \<Rightarrow> 's \<Rightarrow> 's"
    and take_one :: "'s \<Rightarrow> ('a \<times> 's) option"
    and cap :: nat
  assumes put_ok: "ok s \<Longrightarrow> length (content s) < cap \<Longrightarrow> ok (put x s) \<and> content (put x s) = content s @ [x]"
    and take_ok: "ok s \<Longrightarrow> content s = x # xs \<Longrightarrow> \<exists>s'. take_one s = Some (x, s') \<and> ok s' \<and> content s' = xs"
    and take_none: "ok s \<Longrightarrow> content s = [] \<Longrightarrow> take_one s = None"
begin

fun take_all :: "nat \<Rightarrow> 's \<Rightarrow> ('a list \<times> 's) option" where
  "take_all 0 s = Some ([], s)"
| "take_all (Suc n) s =
    (case take_one s of None \<Rightarrow> None | Some (x, s) \<Rightarrow>
       map_option (\<lambda>(xs, s). (x # xs, s)) (take_all n s))"

lemma puts_content:
  "ok s \<Longrightarrow> length (content s) + length xs \<le> cap \<Longrightarrow>
    ok (fold put xs s) \<and> content (fold put xs s) = content s @ xs"
proof (induction xs arbitrary: s)
  case (Cons x xs)
  then have "ok (put x s)" "content (put x s) = content s @ [x]" using put_ok [of s x] by auto
  then show ?case using Cons.IH [of "put x s"] Cons.prems by simp
qed simp

lemma take_content:
  "ok s \<Longrightarrow> content s = xs @ ys \<Longrightarrow> \<exists>s'. take_all (length xs) s = Some (xs, s') \<and> ok s' \<and> content s' = ys"
proof (induction xs arbitrary: s)
  case (Cons x xs)
  then obtain s1 where 1: "take_one s = Some (x, s1)" "ok s1" "content s1 = xs @ ys"
    using take_ok [of s x "xs @ ys"] by auto
  then show ?case using Cons.IH [OF 1(2,3)] by auto
qed simp

lemma fifo:
  assumes "ok s" "length (content s) + length xs \<le> cap"
  shows "\<exists>s'. take_all (length (content s) + length xs) (fold put xs s) = Some (content s @ xs, s') \<and>
    ok s' \<and> content s' = []"
  using take_content [of "fold put xs s" "content s @ xs" "[]"] puts_content [OF assms] by simp

end

section \<open>The ring is a queue\<close>

definition kbd_content :: "KeyboardBuffer \<Rightarrow> u8 list" where
  "kbd_content b = map (\<lambda>i. kdata b ((khead b + i) mod HW_Keyboard_BufferSize)) [0..<unat (ksize b)]"

definition kbd_ok :: "KeyboardBuffer \<Rightarrow> bool" where
  "kbd_ok b \<longleftrightarrow> khead b < HW_Keyboard_BufferSize \<and> ktail b \<le> HW_Keyboard_BufferSize \<and>
     unat (ksize b) \<le> HW_Keyboard_BufferSize \<and>
     ktail b mod HW_Keyboard_BufferSize = (khead b + unat (ksize b)) mod HW_Keyboard_BufferSize"

lemma kbd_length [simp]: "length (kbd_content b) = unat (ksize b)"
  by (simp add: kbd_content_def)

lemma ring_slot_neq:
  assumes "i < n" "n < (256::nat)" shows "(h + i) mod 256 \<noteq> (h + n) mod 256"
proof
  assume "(h + i) mod 256 = (h + n) mod 256"
  then have "256 dvd (h + n) - (h + i)" using assms by (metis add_le_cancel_left mod_eq_dvd_iff_nat less_imp_le)
  then show False using assms by (auto dest: dvd_imp_le)
qed

lemma kbd_put:
  assumes ok: "kbd_ok b" and l: "length (kbd_content b) < HW_Keyboard_BufferSize"
  shows "kbd_ok (HW_Keyboard_handler x b) \<and> kbd_content (HW_Keyboard_handler x b) = kbd_content b @ [x]"
proof -
  let ?n = "unat (ksize b)" and ?b = "HW_Keyboard_handler x b"
  have n: "?n < 256" using l by (simp add: HW_Keyboard_BufferSize_def)
  define t where "t = (if ktail b = 256 then 0 else ktail b)"
  have t: "t = (khead b + ?n) mod 256" "t < 256"
    using ok by (auto simp: kbd_ok_def HW_Keyboard_BufferSize_def t_def le_less)
  have n1: "unat (ksize b + 1) = Suc ?n" using n by (subst unat_plus_less) auto
  have sel: "khead ?b = khead b" "ktail ?b = t + 1" "ksize ?b = ksize b + 1" "kdata ?b = (kdata b)(t := x)"
    by (auto simp: HW_Keyboard_handler_def Let_def t_def HW_Keyboard_BufferSize_def)
  have "kbd_ok ?b"
    using ok t n unfolding kbd_ok_def sel n1 HW_Keyboard_BufferSize_def by (simp add: mod_Suc_eq)
  moreover have "kbd_content ?b = kbd_content b @ [x]"
    unfolding kbd_content_def sel n1 HW_Keyboard_BufferSize_def
    using t(1) ring_slot_neq [OF _ n] by (auto simp: t(1) intro!: map_cong)
  ultimately show ?thesis by simp
qed

lemma kbd_take:
  assumes ok: "kbd_ok b" and c: "kbd_content b = x # xs"
  shows "\<exists>b'. getKeyCode b = Some (x, b') \<and> kbd_ok b' \<and> kbd_content b' = xs"
proof -
  let ?n = "unat (ksize b)"
  have n0: "0 < ?n" using c kbd_length [of b] by (cases ?n) auto
  then have ne: "ksize b \<noteq> 0" by auto
  have h: "khead b < 256" using ok by (simp add: kbd_ok_def HW_Keyboard_BufferSize_def)
  define b' where "b' = b\<lparr>khead := (khead b + 1) mod 256, ksize := ksize b - 1\<rparr>"
  have g: "getKeyCode b = Some (kdata b (khead b), b')"
    using ne h by (auto simp: getKeyCode_def Let_def b'_def HW_Keyboard_BufferSize_def mod_Suc)
  have n1: "unat (ksize b - 1) = ?n - 1" using unat_minus1 [OF ne] by simp
  have sp: "[0..<?n] = 0 # map Suc [0..<?n - 1]" using n0 by (simp add: map_Suc_upt upt_conv_Cons)
  have "kbd_content b = kdata b (khead b) # kbd_content b'"
    unfolding kbd_content_def sp using h
    by (simp add: b'_def HW_Keyboard_BufferSize_def n1 mod_simps)
  then have "kdata b (khead b) = x" "kbd_content b' = xs" using c by auto
  moreover have "kbd_ok b'"
  proof -
    have "((khead b + 1) mod 256 + (?n - 1)) mod 256 = (khead b + 1 + (?n - 1)) mod 256" by (rule mod_add_left_eq)
    also have "khead b + 1 + (?n - 1) = khead b + ?n" using n0 by simp
    finally show ?thesis
      using ok n0 by (simp add: kbd_ok_def b'_def HW_Keyboard_BufferSize_def n1 del: One_nat_def) linarith
  qed
  ultimately show ?thesis using g by blast
qed

lemma kbd_none: "kbd_ok b \<Longrightarrow> kbd_content b = [] \<Longrightarrow> getKeyCode b = None"
  using kbd_length [of b] by (simp add: getKeyCode_def unat_eq_zero)

interpretation kbq: bqueue kbd_ok kbd_content HW_Keyboard_handler getKeyCode HW_Keyboard_BufferSize
  by unfold_locales (use kbd_put kbd_take kbd_none in auto)

definition kbd_empty :: "bytes \<Rightarrow> KeyboardBuffer" where
  "kbd_empty m = fst (HW_Keyboard_init m)"

lemma kbd_empty: "kbd_ok (kbd_empty m)" "kbd_content (kbd_empty m) = []"
  by (simp_all add: kbd_empty_def HW_Keyboard_init_def kbd_ok_def kbd_content_def HW_Keyboard_BufferSize_def)

section \<open>Properties\<close>

text \<open>
  C17: as long as at most 256 bytes are unread, the ring buffer of the keyboard is a queue: the bytes
  that the interrupt handler stores are read in the order in which they arrived, and none is lost.
\<close>

theorem keyboard_fifo:
  assumes "kbd_ok b" "length (kbd_content b) + length xs \<le> HW_Keyboard_BufferSize"
  shows "\<exists>b'. kbq.take_all (length (kbd_content b) + length xs) (fold HW_Keyboard_handler xs b) =
      Some (kbd_content b @ xs, b') \<and> kbd_ok b' \<and> kbd_content b' = []"
  by (rule kbq.fifo [OF assms])

theorem keyboard_fifo_witness:
  "\<exists>b'. kbq.take_all 3 (fold HW_Keyboard_handler [0x1e, 0x9e, 0x30] (kbd_empty (\<lambda>_. 0))) = Some ([0x1e, 0x9e, 0x30], b')"
proof -
  let ?e = "kbd_empty (\<lambda>_. 0)" and ?xs = "[0x1e, 0x9e, 0x30] :: u8 list"
  have l: "length (kbd_content ?e) + length ?xs \<le> HW_Keyboard_BufferSize"
    unfolding kbd_empty(2) by (simp add: HW_Keyboard_BufferSize_def)
  have "length ([] :: u8 list) + length ?xs = 3" by simp
  then show ?thesis
    using keyboard_fifo [OF kbd_empty(1) l] unfolding kbd_empty(2) by (metis append_Nil)
qed

text \<open>
  the handler does not check whether the buffer is full.  With 256 bytes unread the next byte
  overwrites the oldest one, and the reader then gets the newest byte first.
\<close>

theorem keyboard_overrun:
  assumes "kbd_ok b" "length (kbd_content b) = HW_Keyboard_BufferSize"
  shows "\<exists>b'. getKeyCode (HW_Keyboard_handler x b) = Some (x, b')"
proof -
  have n: "unat (ksize b) = 256" using assms(2) by (simp add: HW_Keyboard_BufferSize_def)
  then have k: "ksize b = 256" by (simp add: word_unat_eq_iff)
  have h: "khead b < 256" "ktail b \<le> 256" "ktail b mod 256 = khead b"
    using assms(1) n by (auto simp: kbd_ok_def HW_Keyboard_BufferSize_def)
  then have "(if ktail b = 256 then 0 else ktail b) = khead b" by (auto simp: le_less)
  then show ?thesis
    by (auto simp: HW_Keyboard_handler_def getKeyCode_def Let_def HW_Keyboard_BufferSize_def k split: if_splits)
qed

theorem keyboard_overrun_witness:
  "\<exists>b'. getKeyCode (HW_Keyboard_handler 0x1e (fold HW_Keyboard_handler (replicate 256 0) (kbd_empty (\<lambda>_. 0)))) =
    Some (0x1e, b')"
proof -
  let ?e = "kbd_empty (\<lambda>_. 0)" and ?xs = "replicate 256 0 :: u8 list"
  have l: "length (kbd_content ?e) + length ?xs \<le> HW_Keyboard_BufferSize"
    unfolding kbd_empty(2) by (simp add: HW_Keyboard_BufferSize_def)
  have "kbd_ok (fold HW_Keyboard_handler ?xs ?e)" "kbd_content (fold HW_Keyboard_handler ?xs ?e) = ?xs"
    using kbq.puts_content [OF kbd_empty(1) l] unfolding kbd_empty(2) by simp_all
  then show ?thesis
    by (intro keyboard_overrun) (simp_all add: HW_Keyboard_BufferSize_def del: kbd_length)
qed

text \<open>
  C26: decoding.  Of a key without prefix, the code of the release is the code of the press with
  bit 7 set, and both give the same key; the kind of key and the code are those of the tables,
  and a press and a release differ in \<open>isKeyUp\<close> only.
\<close>

definition key_event :: "u8 \<Rightarrow> bool \<Rightarrow> KeyboardEvent \<Rightarrow> KeyboardEvent" where
  "key_event c up e =
    (case ctrl_key c of
       Some k \<Rightarrow> e\<lparr>isKeyUp := of_bool up, isCtrlKey := 1, keyCode := k\<rparr>
     | None \<Rightarrow> e\<lparr>isKeyUp := of_bool up, isCtrlKey := 0,
         keyCode := HW_Keyboard_normapMap ! (unat c * HW_Keyboard_ScanCodeCol)\<rparr>)"

lemma scan_split:
  assumes "c AND 0x80 = (0 :: u8)"
  shows "(c OR 0x80) AND 0x7f = c" "c AND 0x7f = c" "(c OR 0x80) AND 0x80 \<noteq> 0"
proof -
  have m: "(0x7f :: u8) = mask 7" by (simp add: mask_eq_exp_minus_1)
  have e: "(0x80 :: u8) = push_bit 7 1" by simp
  have n7: "\<not> bit c 7"
  proof
    assume "bit c 7"
    then have "bit (c AND 0x80) 7" unfolding e by (simp only: bit_and_iff bit_push_bit_iff bit_1_iff) simp
    then show False using assms by simp
  qed
  have lt: "bit c n \<Longrightarrow> n < 7" for n
    using n7 bit_imp_le_length [of c n] by (cases "n = 7") auto
  have m7: "bit (0x7f :: u8) n \<longleftrightarrow> n < 7" for n unfolding m by (auto simp: bit_mask_iff)
  have e7: "bit (0x80 :: u8) n \<longleftrightarrow> n = 7" for n unfolding e by (auto simp only: bit_push_bit_iff bit_1_iff) simp_all
  show "(c OR 0x80) AND 0x7f = c" "c AND 0x7f = c"
    by (rule bit_word_eqI; use lt in \<open>auto simp only: bit_and_iff bit_or_iff m7 e7\<close>)+
  have "bit ((c OR 0x80) AND 0x80) 7" by (simp only: bit_and_iff bit_or_iff e7) simp
  then show "(c OR 0x80) AND 0x80 \<noteq> 0" by (metis bit_0_eq bot_apply bot_bool_def)
qed

theorem keyboard_decode:
  assumes "kbd_ok b" "c AND 0x80 = 0" "c \<noteq> 0x60" "kbd_content b = (if up then c OR 0x80 else c) # xs"
  shows "\<exists>b'. HW_Keyboard_getEvent e b = Some (Some (key_event c up e), b') \<and> kbd_ok b' \<and> kbd_content b' = xs"
proof -
  let ?f = "if up then c OR 0x80 else c"
  obtain b' where g: "getKeyCode b = Some (?f, b')" "kbd_ok b'" "kbd_content b' = xs"
    using kbd_take [OF assms(1,4)] by blast
  have k: "ksize b \<noteq> 0" using g(1) by (auto simp: getKeyCode_def)
  have ne: "?f \<noteq> 0xE0"
  proof
    assume "?f = 0xE0"
    then have "?f AND 0x7f = 0x60" by simp
    then show False using scan_split [OF assms(2)] assms(3) by (auto split: if_splits)
  qed
  show ?thesis
    using g k ne scan_split [OF assms(2)] assms(2)
    by (auto simp: HW_Keyboard_getEvent_def key_event_def Let_def split: option.split)
qed

theorem keyboard_decode_witness:
  "\<forall>e. \<exists>b'. HW_Keyboard_getEvent e (HW_Keyboard_handler 0x9e (kbd_empty (\<lambda>_. 0))) =
    Some (Some (e\<lparr>isKeyUp := 1, isCtrlKey := 0, keyCode := 97\<rparr>), b')"
proof
  fix e
  let ?b = "HW_Keyboard_handler 0x9e (kbd_empty (\<lambda>_. 0))"
  have "kbd_ok ?b" "kbd_content ?b = (if True then 0x1e OR 0x80 else 0x1e) # []"
    using kbd_put [OF kbd_empty(1), of "\<lambda>_. 0" "0x9e"] by (simp_all add: kbd_empty(2) HW_Keyboard_BufferSize_def del: kbd_length)
  from keyboard_decode [OF this(1) _ _ this(2), of e]
  show "\<exists>b'. HW_Keyboard_getEvent e ?b = Some (Some (e\<lparr>isKeyUp := 1, isCtrlKey := 0, keyCode := 97\<rparr>), b')"
    by (auto simp: key_event_def ctrl_key_def HW_Keyboard_normapMap_def HW_Keyboard_ScanCodeCol_def)
qed

end
