(* ===== verification/Gate.thy ===== *)
theory Gate
  imports HwLayout
begin

text \<open>
  \<open>interrupt/gate.h\<close> and \<open>gate.c\<close>: descriptors of the interrupt table, the task state segment
  and its descriptor.  \<open>setGate\<close> is a sequence of instructions on \<open>rax\<close>, \<open>rcx\<close> and \<open>rdx\<close>; the
  lemmas read the descriptors the way the processor does.
\<close>

record Gates =
  idt :: "nat \<Rightarrow> u64 \<times> u64"
  gdt :: "nat \<Rightarrow> u64"

definition setGate :: "u64 \<Rightarrow> u8 \<Rightarrow> u64 \<Rightarrow> u64 \<times> u64" where
  "setGate attr istIndex codeAddr =
    (let rdx = codeAddr; rax = push_bit 16 0x8; rcx = ucast istIndex;
         rax = (rax AND NOT (mask 16)) OR (rdx AND mask 16);
         rcx = rcx AND 0x7;
         rcx = rcx + push_bit 8 attr;
         rcx = push_bit 32 rcx;
         rax = rax OR rcx;
         rcx = rdx AND mask 32;
         rcx = drop_bit 16 rcx;
         rcx = push_bit 48 rcx;
         rax = rax OR rcx;
         rdx' = drop_bit 32 rdx
     in (rax, rdx'))"

definition set_idt :: "nat \<Rightarrow> u64 \<times> u64 \<Rightarrow> Gates \<Rightarrow> Gates" where
  "set_idt i d g = g\<lparr>idt := (idt g)(i := d)\<rparr>"

definition Intr_Gate_setIntr :: "nat \<Rightarrow> u8 \<Rightarrow> u64 \<Rightarrow> Gates \<Rightarrow> Gates" where
  "Intr_Gate_setIntr idtIndex istIndex codeAddr = set_idt idtIndex (setGate 0x8E istIndex codeAddr)"

definition Intr_Gate_setTrap :: "nat \<Rightarrow> u8 \<Rightarrow> u64 \<Rightarrow> Gates \<Rightarrow> Gates" where
  "Intr_Gate_setTrap idtIndex istIndex codeAddr = set_idt idtIndex (setGate 0x8F istIndex codeAddr)"

definition Intr_Gate_setSystem :: "nat \<Rightarrow> u8 \<Rightarrow> u64 \<Rightarrow> Gates \<Rightarrow> Gates" where
  "Intr_Gate_setSystem idtIndex istIndex codeAddr = set_idt idtIndex (setGate 0xEF istIndex codeAddr)"

definition Intr_Gate_setSysIntr :: "nat \<Rightarrow> u8 \<Rightarrow> u64 \<Rightarrow> Gates \<Rightarrow> Gates" where
  "Intr_Gate_setSysIntr idtIndex istIndex codeAddr = set_idt idtIndex (setGate 0xEE istIndex codeAddr)"

text \<open>The processor's own table, for the processors started later.\<close>

definition Intr_Gate_setSMPIntr :: "nat \<Rightarrow> nat \<Rightarrow> u8 \<Rightarrow> u64 \<Rightarrow> (nat \<Rightarrow> Gates) \<Rightarrow> nat \<Rightarrow> Gates" where
  "Intr_Gate_setSMPIntr cpuId idtIndex istIndex codeAddr gs =
    gs(cpuId := set_idt idtIndex (setGate 0x8E istIndex codeAddr) (gs cpuId))"

text \<open>A store of 64 bits at an index of the table of 32-bit words.\<close>

definition put64 :: "nat \<Rightarrow> u64 \<Rightarrow> bytes \<Rightarrow> bytes" where
  "put64 i v = put_bits (32 * i) 64 v"

definition Intr_Gate_setTSS ::
    "u64 \<Rightarrow> u64 \<Rightarrow> u64 \<Rightarrow> u64 \<Rightarrow> u64 \<Rightarrow> u64 \<Rightarrow> u64 \<Rightarrow> u64 \<Rightarrow> u64 \<Rightarrow> u64 \<Rightarrow> bytes \<Rightarrow> bytes" where
  "Intr_Gate_setTSS rsp0 rsp1 rsp2 ist1 ist2 ist3 ist4 ist5 ist6 ist7 m =
    (let m = put64 1 rsp0 m;
         m = put64 3 rsp1 m;
         m = put64 5 rsp2 m;
         m = put64 9 ist1 m;
         m = put64 11 ist2 m;
         m = put64 13 ist3 m;
         m = put64 15 ist4 m;
         m = put64 17 ist5 m;
         m = put64 19 ist6 m
     in put64 21 ist7 m)"

definition Intr_Gate_setTSSstruct :: "bytes \<Rightarrow> bytes \<Rightarrow> bytes" where
  "Intr_Gate_setTSSstruct tssStruct tss64Table =
    (\<lambda>a. if a < sizeof TSS then tssStruct a else tss64Table a)"

definition Intr_Gate_setTSSDesc :: "nat \<Rightarrow> u64 \<Rightarrow> Gates \<Rightarrow> Gates" where
  "Intr_Gate_setTSSDesc idx tssAddr g =
    (let lmt = 103;
         lo = (lmt AND 0xffff) OR push_bit 16 (tssAddr AND 0xffff)
              OR push_bit 32 (drop_bit 16 tssAddr AND 0xff)
              OR push_bit 40 0x89
              OR push_bit 48 (drop_bit 16 lmt AND 0xf)
              OR push_bit 56 (drop_bit 24 tssAddr AND 0xff);
         hi = (drop_bit 32 tssAddr AND 0xffffffff) OR 0
     in g\<lparr>gdt := (gdt g)(idx := lo, idx + 1 := hi)\<rparr>)"

section \<open>How the processor reads a descriptor\<close>

definition gate_offset :: "u64 \<times> u64 \<Rightarrow> u64" where
  "gate_offset d = (fst d AND mask 16) OR push_bit 16 (drop_bit 48 (fst d)) OR push_bit 32 (snd d)"

definition gate_selector :: "u64 \<times> u64 \<Rightarrow> u64" where "gate_selector d = drop_bit 16 (fst d) AND mask 16"
definition gate_ist :: "u64 \<times> u64 \<Rightarrow> u64" where "gate_ist d = drop_bit 32 (fst d) AND mask 3"
definition gate_attr :: "u64 \<times> u64 \<Rightarrow> u64" where "gate_attr d = drop_bit 40 (fst d) AND mask 8"

definition tss_base :: "u64 \<Rightarrow> u64 \<Rightarrow> u64" where
  "tss_base lo hi = (drop_bit 16 lo AND mask 24) OR push_bit 24 (drop_bit 56 lo) OR push_bit 32 (hi AND mask 32)"

definition tss_limit :: "u64 \<Rightarrow> u64" where
  "tss_limit lo = (lo AND mask 16) OR push_bit 16 (drop_bit 48 lo AND mask 4)"

lemma setGate_bits:
  assumes "attr AND NOT (mask 8) = 0"
  shows "bit (fst (setGate attr i c)) n \<longleftrightarrow>
    (if n < 16 then bit c n else if n < 32 then n = 19 else if n < 35 then bit i (n - 32)
     else if n < 40 then False else if n < 48 then bit attr (n - 40)
     else if n < 64 then bit c (n - 32) else False)"
proof -
  have a: "bit attr k \<Longrightarrow> k < 8" for k
  proof (rule ccontr)
    assume k: "bit attr k" "\<not> k < 8"
    then have "bit (attr AND NOT (mask 8)) k" using bit_imp_le_length [OF k(1)] by (simp add: bit_simps)
    then show False using assms by simp
  qed
  have m3: "(7 :: u64) = mask 3" by (simp add: mask_eq_exp_minus_1)
  have add: "(ucast i AND 7) + push_bit 8 attr = ((ucast i AND 7) OR push_bit 8 attr :: u64)"
    unfolding m3 by (rule disjunctive_add) (auto simp: bit_simps)
  have e19: "bit (524288 :: u64) k \<longleftrightarrow> k = 19" for k
  proof -
    have "(524288 :: u64) = push_bit 19 1" by simp
    then show ?thesis by (simp only: bit_push_bit_iff bit_1_iff) auto
  qed
  have sel: "push_bit 16 (8 :: u64) = 524288" by simp
  show ?thesis
    unfolding setGate_def Let_def fst_conv add sel
    unfolding m3 by (auto simp: bit_simps e19 simp del: bit_numeral_word_iff dest: bit_imp_le_length a)
qed

lemma setGate_snd: "snd (setGate attr i c) = drop_bit 32 c"
  by (simp add: setGate_def Let_def)

lemma gate_read:
  assumes "attr AND NOT (mask 8) = 0"
  shows "gate_offset (setGate attr i c) = c" "gate_selector (setGate attr i c) = 8"
    "gate_ist (setGate attr i c) = ucast i AND mask 3" "gate_attr (setGate attr i c) = attr"
proof -
  note b = setGate_bits [OF assms]
  show "gate_offset (setGate attr i c) = c"
    unfolding gate_offset_def setGate_snd
    by (rule bit_word_eqI) (auto simp: bit_simps b dest: bit_imp_le_length)
  have e: "bit (8 :: u64) k \<longleftrightarrow> k = 3" for k
  proof -
    have "(8 :: u64) = push_bit 3 1" by simp
    then show ?thesis by (simp only: bit_push_bit_iff bit_1_iff) auto
  qed
  show "gate_selector (setGate attr i c) = 8"
    unfolding gate_selector_def by (rule bit_word_eqI) (auto simp: bit_simps b e simp del: bit_numeral_word_iff)
  show "gate_ist (setGate attr i c) = ucast i AND mask 3"
    unfolding gate_ist_def by (rule bit_word_eqI) (auto simp: bit_simps b)
  have "bit attr k \<Longrightarrow> k < 8" for k
  proof (rule ccontr)
    assume k: "bit attr k" "\<not> k < 8"
    then have "bit (attr AND NOT (mask 8)) k" using bit_imp_le_length [OF k(1)] by (simp add: bit_simps)
    then show False using assms by simp
  qed
  then show "gate_attr (setGate attr i c) = attr"
    unfolding gate_attr_def by (intro bit_word_eqI) (auto simp: bit_simps b)
qed

lemma tss_read:
  "tss_base (gdt (Intr_Gate_setTSSDesc idx a g) idx) (gdt (Intr_Gate_setTSSDesc idx a g) (idx + 1)) = a"
  "tss_limit (gdt (Intr_Gate_setTSSDesc idx a g) idx) = 103"
proof -
  have c: "(103 AND 0xffff :: u64) = 103" "drop_bit 16 (103 :: u64) = 0" by simp_all
  have m: "(0xffff :: u64) = mask 16" "(0xff :: u64) = mask 8" "(0xffffffff :: u64) = mask 32"
    by (simp_all add: mask_eq_exp_minus_1)
  have k: "bit (103 :: u64) n \<Longrightarrow> n < 7" for n
  proof -
    have "(103 :: u64) = 103 AND mask 7" by (simp add: mask_eq_exp_minus_1)
    then show "bit (103 :: u64) n \<Longrightarrow> n < 7" by (metis bit_and_iff bit_mask_iff)
  qed
  have k2: "bit (push_bit 40 0x89 :: u64) n \<Longrightarrow> 40 \<le> n \<and> n < 48" for n
  proof -
    have "(0x89 :: u64) = 0x89 AND mask 8" by (simp add: mask_eq_exp_minus_1)
    then have "bit (0x89 :: u64) n \<Longrightarrow> n < 8" for n by (metis bit_and_iff bit_mask_iff)
    then show "bit (push_bit 40 0x89 :: u64) n \<Longrightarrow> 40 \<le> n \<and> n < 48" by (auto simp only: bit_push_bit_iff) fastforce+
  qed
  define q :: u64 where "q = push_bit 40 0x89"
  have lo: "bit (gdt (Intr_Gate_setTSSDesc idx a g) idx) n \<longleftrightarrow>
    n < 64 \<and> (if n < 16 then bit (103 :: u64) n else if n < 40 then bit a (n - 16) else if n < 48 then bit q n
      else if n < 56 then False else bit a (n - 32))" for n
    unfolding Intr_Gate_setTSSDesc_def Let_def q_def [symmetric] c m
    using k [of n] k2 [of n] unfolding q_def [symmetric]
    by (auto simp: bit_simps dest: bit_imp_le_length)
  have hi: "gdt (Intr_Gate_setTSSDesc idx a g) (idx + 1) = drop_bit 32 a AND mask 32"
    unfolding Intr_Gate_setTSSDesc_def Let_def m by simp
  show "tss_base (gdt (Intr_Gate_setTSSDesc idx a g) idx) (gdt (Intr_Gate_setTSSDesc idx a g) (idx + 1)) = a"
    unfolding tss_base_def hi by (rule bit_word_eqI) (auto simp: bit_simps lo dest: bit_imp_le_length)
  show "tss_limit (gdt (Intr_Gate_setTSSDesc idx a g) idx) = 103"
    unfolding tss_limit_def by (rule bit_word_eqI) (auto simp: bit_simps lo simp del: bit_numeral_word_iff dest: k)
qed

section \<open>Properties\<close>



text \<open>The stores of \<open>Intr_Gate_setTSS\<close> hit the members of the segment.\<close>

lemma TSS_members:
  "locate TSS [Mem ''rsp0''] 0 = Some (32 * 1, 64)" "locate TSS [Mem ''rsp1''] 0 = Some (32 * 3, 64)"
  "locate TSS [Mem ''rsp2''] 0 = Some (32 * 5, 64)" "locate TSS [Mem ''ist1''] 0 = Some (32 * 9, 64)"
  "locate TSS [Mem ''ist2''] 0 = Some (32 * 11, 64)" "locate TSS [Mem ''ist7''] 0 = Some (32 * 21, 64)"
  by (simp_all add: TSS_def up_to_def Let_def)

lemma take_bit_u64: "take_bit 64 (x :: u64) = x"
  by (rule bit_word_eqI) (auto simp: bit_take_bit_iff dest: bit_imp_le_length)

lemma setTSS_reads:
  "get_bits (32 * 1) 64 (Intr_Gate_setTSS r0 r1 r2 i1 i2 i3 i4 i5 i6 i7 m) = r0"
  "get_bits (32 * 5) 64 (Intr_Gate_setTSS r0 r1 r2 i1 i2 i3 i4 i5 i6 i7 m) = r2"
  "get_bits (32 * 9) 64 (Intr_Gate_setTSS r0 r1 r2 i1 i2 i3 i4 i5 i6 i7 m) = i1"
  "get_bits (32 * 21) 64 (Intr_Gate_setTSS r0 r1 r2 i1 i2 i3 i4 i5 i6 i7 m) = i7"
  by (simp_all add: Intr_Gate_setTSS_def put64_def Let_def get_put_same get_put_other take_bit_u64)

end
