(* ===== verification/Apic.thy ===== *)
theory Apic
  imports HwLayout
begin

text \<open>
  \<open>hardware/APIC.c\<close>: the local interrupt controller and the table of the I/O APIC.  The I/O APIC is
  a device with an index register and a window on 32-bit registers; the messages to the local
  controller are a sequence of writes to MSRs and device memory.
\<close>

section \<open>The device\<close>

text \<open>What the processor sends: an MSR write or a 32-bit store to a physical address.\<close>

datatype io_ev = WrMSR u64 u64 | Mmio32 u64 u32 | Mmio64 u64 u64 | Out8 u16 u8 | Out32 u16 u32

record Apic =
  ioIndex :: u8
  ioRegs :: "u8 \<Rightarrow> u32"
  enabled :: "int \<Rightarrow> i32"
  supportFlag :: u64
  evs :: "io_ev list"

definition wr_index :: "u8 \<Rightarrow> Apic \<Rightarrow> Apic" where "wr_index i s = s\<lparr>ioIndex := i\<rparr>"
definition rd_data :: "Apic \<Rightarrow> u32" where "rd_data s = ioRegs s (ioIndex s)"
definition wr_data :: "u32 \<Rightarrow> Apic \<Rightarrow> Apic" where "wr_data v s = s\<lparr>ioRegs := (ioRegs s)(ioIndex s := v)\<rparr>"
definition send :: "io_ev list \<Rightarrow> Apic \<Rightarrow> Apic" where "send es s = s\<lparr>evs := evs s @ es\<rparr>"

definition x2apic :: "Apic \<Rightarrow> bool" where
  "x2apic s \<longleftrightarrow> supportFlag s AND HW_APIC_supportFlag_X2APIC \<noteq> 0"

definition APIC_readRTE :: "u8 \<Rightarrow> Apic \<Rightarrow> u64 \<times> Apic" where
  "APIC_readRTE index s =
    (let s = wr_index (index + 1) s;
         ret = ucast (rd_data s);
         ret = push_bit 32 ret;
         s = wr_index index s;
         ret = ret OR ucast (rd_data s)
     in (ret, s))"

definition HW_APIC_writeRTE :: "u8 \<Rightarrow> u64 \<Rightarrow> Apic \<Rightarrow> Apic" where
  "HW_APIC_writeRTE index val s =
    (let s = wr_index index s;
         s = wr_data (ucast (val AND 0xffffffff)) s;
         s = wr_index (index + 1) s
     in wr_data (ucast (drop_bit 32 val)) s)"

definition HW_APIC_writeICR :: "u64 \<Rightarrow> Apic \<Rightarrow> Apic" where
  "HW_APIC_writeICR val s =
    (if x2apic s then send [WrMSR 0x830 val] s
     else send [Mmio32 0xfee00310 (ucast (drop_bit 32 val)), Mmio32 0xfee00300 (ucast (val AND 0xffffffff))] s)"

text \<open>
  The slot of an interrupt in the table and in \<open>enable\<close>, an array of 0x40 words: the macro computes
  with \<open>int\<close>; \<open>None\<close> is an access outside the array.
\<close>

definition handlerId :: "int \<Rightarrow> int" where
  "handlerId intrId = (intrId - 0x20) * 2 + 0x10"

definition set_enable :: "int \<Rightarrow> i32 \<Rightarrow> Apic \<Rightarrow> Apic option" where
  "set_enable i v s = (if 0 \<le> i \<and> i < 0x40 then Some (s\<lparr>enabled := (enabled s)(i := v)\<rparr>) else None)"

definition HW_APIC_disableIntr :: "u8 \<Rightarrow> Apic \<Rightarrow> Apic option" where
  "HW_APIC_disableIntr intrId s =
    (let h = handlerId (uint intrId);
         (val, s) = APIC_readRTE (word_of_int h) s;
         val = val OR 0x10000;
         s = HW_APIC_writeRTE (word_of_int h) val s
     in set_enable h 0 s)"

definition HW_APIC_enableIntr :: "u8 \<Rightarrow> Apic \<Rightarrow> Apic option" where
  "HW_APIC_enableIntr intrId s =
    (let h = handlerId (uint intrId);
         (val, s) = APIC_readRTE (word_of_int h) s;
         val = val AND NOT 0x10000;
         s = HW_APIC_writeRTE (word_of_int h) val s
     in set_enable h 1 s)"

definition HW_APIC_install :: "u8 \<Rightarrow> u64 \<Rightarrow> Apic \<Rightarrow> Apic option" where
  "HW_APIC_install intrId desc s =
    (let h = handlerId (uint intrId)
     in set_enable h 1 (HW_APIC_writeRTE (word_of_int h) desc s))"

definition HW_APIC_uninstall :: "u8 \<Rightarrow> Apic \<Rightarrow> Apic option" where
  "HW_APIC_uninstall intrId s =
    (let h = handlerId (uint intrId)
     in set_enable h 0 (HW_APIC_writeRTE (word_of_int h) 0x10000 s))"

fun for_enabled :: "(u8 \<Rightarrow> Apic \<Rightarrow> Apic option) \<Rightarrow> int list \<Rightarrow> Apic \<Rightarrow> Apic option" where
  "for_enabled f [] s = Some s"
| "for_enabled f (i # is) s =
    (if enabled s i \<noteq> 0 then Option.bind (f (word_of_int i) s) (for_enabled f is) else for_enabled f is s)"

definition even_slots :: "int list" where
  "even_slots = map (\<lambda>k. 0x10 + 2 * int k) [0..<0x18]"

definition HW_APIC_suspend :: "Apic \<Rightarrow> Apic option" where
  "HW_APIC_suspend = for_enabled HW_APIC_disableIntr even_slots"

definition HW_APIC_resume :: "Apic \<Rightarrow> Apic option" where
  "HW_APIC_resume = for_enabled HW_APIC_enableIntr even_slots"

definition HW_APIC_edgeAck :: "u8 \<Rightarrow> Apic \<Rightarrow> Apic" where
  "HW_APIC_edgeAck irqId s =
    (if x2apic s then send [WrMSR 0x80b 0] s else send [Mmio32 0xFEE000B0 0] s)"

definition HW_APIC_getAPICID :: "(u64 \<Rightarrow> u64) \<Rightarrow> (u64 \<Rightarrow> u32) \<Rightarrow> Apic \<Rightarrow> u32" where
  "HW_APIC_getAPICID msr mmio s = (if x2apic s then ucast (msr 0x802) else mmio 0xfee00020)"

definition APIC_setReg_IA32_APIC_BASE_address :: "u64 \<Rightarrow> u64 \<Rightarrow> u64" where
  "APIC_setReg_IA32_APIC_BASE_address base phy = phy OR base AND (push_bit 12 1 - 1)"

text \<open>
  The features that \<open>APIC_initLocal\<close> finds, from \<open>cpuid\<close> and the version register, and the values of
  \<open>IA32_APIC_BASE\<close> and the spurious interrupt register that it writes.
\<close>

definition initLocal_flags :: "u32 \<Rightarrow> u64 \<Rightarrow> u64" where
  "initLocal_flags ecx ver =
    (let f = 0;
         f = (if push_bit 21 1 AND ecx \<noteq> 0 then f OR HW_APIC_supportFlag_X2APIC
              else f AND NOT HW_APIC_supportFlag_X2APIC)
     in if ver AND push_bit 24 1 \<noteq> 0 then f OR HW_APIC_supportFlag_EOIBroadcase
        else f AND NOT HW_APIC_supportFlag_EOIBroadcase)"

definition initLocal_base :: "u64 \<Rightarrow> u64 \<Rightarrow> u64" where
  "initLocal_base flags val =
    (let val = bitset1 val 11
     in if flags AND HW_APIC_supportFlag_X2APIC \<noteq> 0 then bitset1 val 10 else val)"

definition initLocal_svr :: "u64 \<Rightarrow> u64 \<Rightarrow> u64" where
  "initLocal_svr flags val =
    (let val = bitset1 val 8
     in if flags AND HW_APIC_supportFlag_EOIBroadcase \<noteq> 0 then bitset1 val 12 else val)"

text \<open>\<open>None\<close>: the local APIC could not be enabled, the kernel halts.\<close>

definition APIC_initLocal :: "u64 \<Rightarrow> u32 \<Rightarrow> u64 \<Rightarrow> u64 \<Rightarrow> u64 \<Rightarrow> Apic \<Rightarrow> Apic option" where
  "APIC_initLocal regPage ecx ver base svr s =
    (let base = APIC_setReg_IA32_APIC_BASE_address base regPage;
         s = send [WrMSR 0x1b base] s;
         s = s\<lparr>supportFlag := initLocal_flags ecx ver\<rparr>;
         base = initLocal_base (supportFlag s) base;
         s = send [WrMSR 0x1b base] s
     in if 0xC00 AND base = 0 \<and> 0x800 AND base = 0 then None
        else if x2apic s then Some (send [WrMSR 0x80f (initLocal_svr (supportFlag s) svr)] s)
        else Some (send [Mmio64 0xfee000f0 (initLocal_svr (supportFlag s) svr), Mmio64 0xfee002f0 0x100000] s))"

definition APIC_initIO :: "Apic \<Rightarrow> Apic" where
  "APIC_initIO s = (let s = wr_index 0x00 s; s = wr_data 0x0f000000 s in wr_index 0x01 s)"

definition HW_APIC_init :: "u64 \<Rightarrow> u32 \<Rightarrow> u64 \<Rightarrow> u64 \<Rightarrow> u64 \<Rightarrow> Apic \<Rightarrow> Apic option" where
  "HW_APIC_init regPage ecx ver base svr s =
    (let s = send [Out8 0x21 0xff, Out8 0xa1 0xff, Out8 0x22 0x70, Out8 0x23 0x01] s
     in map_option (\<lambda>s. send [Out32 0xcf8 0x8000f8f0] (APIC_initIO s)) (APIC_initLocal regPage ecx ver base svr s))"

section \<open>The table\<close>

definition rte :: "Apic \<Rightarrow> u8 \<Rightarrow> u64" where
  "rte s i = push_bit 32 (ucast (ioRegs s (i + 1))) OR ucast (ioRegs s i)"

lemma read_rte: "APIC_readRTE i s = (rte s i, s\<lparr>ioIndex := i\<rparr>)"
  by (simp add: APIC_readRTE_def wr_index_def rd_data_def rte_def)

lemma succ_neq: "(i :: u8) + 1 \<noteq> i" "i \<noteq> i + 1"
  by simp_all

lemma write_rte: "rte (HW_APIC_writeRTE i v s) i = v"
proof -
  have m: "(0xffffffff :: u64) = mask 32" by (simp add: mask_eq_exp_minus_1)
  show ?thesis
    unfolding rte_def HW_APIC_writeRTE_def Let_def wr_index_def wr_data_def m
    by (rule bit_word_eqI) (auto simp: bit_simps succ_neq dest: bit_imp_le_length)
qed

lemma write_rte_other:
  "j \<noteq> i \<Longrightarrow> j \<noteq> i + 1 \<Longrightarrow> j + 1 \<noteq> i \<Longrightarrow> rte (HW_APIC_writeRTE i v s) j = rte s j"
  unfolding rte_def HW_APIC_writeRTE_def Let_def wr_index_def wr_data_def by auto

section \<open>Properties\<close>

definition irq_slot :: "u8 \<Rightarrow> u8" where
  "irq_slot irq = word_of_int (handlerId (uint irq))"

lemma irq_range:
  assumes "0x20 \<le> irq" "irq \<le> 0x37"
  shows "0x10 \<le> handlerId (uint irq)" "handlerId (uint irq) \<le> 0x3e" "even (handlerId (uint irq))"
    "uint (irq_slot irq) = handlerId (uint irq)"
proof -
  have b: "0x20 \<le> uint irq" "uint irq \<le> 0x37"
    using assms by (simp_all add: word_le_def)
  then show 1: "0x10 \<le> handlerId (uint irq)" "handlerId (uint irq) \<le> 0x3e" "even (handlerId (uint irq))"
    by (simp_all add: handlerId_def)
  show "uint (irq_slot irq) = handlerId (uint irq)"
    unfolding irq_slot_def uint_word_of_int using 1 by simp
qed

lemma slots_apart:
  assumes "0x20 \<le> irq" "irq \<le> 0x37" "0x20 \<le> irq'" "irq' \<le> 0x37" "irq \<noteq> irq'"
  shows "irq_slot irq' \<noteq> irq_slot irq" "irq_slot irq' \<noteq> irq_slot irq + 1" "irq_slot irq' + 1 \<noteq> irq_slot irq"
proof -
  note r = irq_range [OF assms(1,2)] and r' = irq_range [OF assms(3,4)]
  have s: "uint (irq_slot i + 1) = uint (irq_slot i) + 1" if "0x20 \<le> i" "i \<le> 0x37" for i
    using irq_range [OF that] by (simp add: uint_word_ariths)
  have "handlerId (uint irq) \<noteq> handlerId (uint irq')" using assms(5) word_uint_eq_iff [of irq irq'] by (simp add: handlerId_def)
  then show "irq_slot irq' \<noteq> irq_slot irq" using r(4) r'(4) by metis
  show "irq_slot irq' \<noteq> irq_slot irq + 1"
    using s [OF assms(1,2)] r(3,4) r'(3,4) by (metis even_plus_one_iff)
  show "irq_slot irq' + 1 \<noteq> irq_slot irq"
    using s [OF assms(3,4)] r(3,4) r'(3,4) by (metis even_plus_one_iff)
qed

text \<open>
  for the interrupts 0x20 to 0x37, disabling sets and enabling clears the mask bit of the
  entry of the interrupt and changes nothing else in it, the entries of the other interrupts stay as
  they are, and \<open>HW_APIC_install\<close> makes the entry the descriptor.
\<close>

theorem APIC_mask_entry:
  assumes "0x20 \<le> irq" "irq \<le> 0x37"
  shows "\<exists>d e i. HW_APIC_disableIntr irq s = Some d \<and> HW_APIC_enableIntr irq s = Some e \<and>
    HW_APIC_install irq desc s = Some i \<and>
    rte d (irq_slot irq) = rte s (irq_slot irq) OR 0x10000 \<and>
    rte e (irq_slot irq) = rte s (irq_slot irq) AND NOT 0x10000 \<and> rte i (irq_slot irq) = desc \<and>
    (\<forall>irq'. 0x20 \<le> irq' \<longrightarrow> irq' \<le> 0x37 \<longrightarrow> irq' \<noteq> irq \<longrightarrow>
       rte d (irq_slot irq') = rte s (irq_slot irq') \<and> rte e (irq_slot irq') = rte s (irq_slot irq') \<and>
       rte i (irq_slot irq') = rte s (irq_slot irq'))"
proof -
  let ?h = "handlerId (uint irq)" and ?i = "irq_slot irq"
  have h: "0 \<le> ?h" "?h < 0x40" using irq_range [OF assms] by simp_all
  have sel: "rte (s\<lparr>enabled := f\<rparr>) j = rte s j" "rte (s\<lparr>ioIndex := k\<rparr>) j = rte s j" for s f j k
    by (simp_all add: rte_def)
  have other: "rte (HW_APIC_writeRTE ?i v t) (irq_slot irq') = rte t (irq_slot irq')"
    if "0x20 \<le> irq'" "irq' \<le> 0x37" "irq' \<noteq> irq" for v t irq'
    by (rule write_rte_other) (use slots_apart [OF assms that(1,2)] that(3) in auto)
  show ?thesis
    unfolding HW_APIC_disableIntr_def HW_APIC_enableIntr_def HW_APIC_install_def Let_def
      irq_slot_def [of irq, symmetric] read_rte set_enable_def
    using h by (simp add: sel write_rte other)
qed

theorem APIC_mask_entry_witness:
  "\<forall>s. \<exists>d. HW_APIC_disableIntr 0x21 s = Some d \<and> rte d 0x12 = rte s 0x12 OR 0x10000"
  using APIC_mask_entry [of "0x21" _ 0] by (auto simp: irq_slot_def handlerId_def word_le_def)

text \<open>
  \<open>HW_APIC_suspend\<close> passes the number of a slot where \<open>HW_APIC_disableIntr\<close> expects the number
  of an interrupt.  With the keyboard's interrupt the first one enabled, it stores outside of the
  array \<open>enable\<close>, and the keyboard is not masked.
\<close>

theorem APIC_suspend_out_of_bounds:
  assumes "enabled s 0x10 = 0" "enabled s (handlerId 0x21) \<noteq> 0"
  shows "HW_APIC_suspend s = None"
proof -
  have sp: "even_slots = 0x10 # 0x12 # map (\<lambda>k. 0x10 + 2 * int k) [2..<0x18]"
    unfolding even_slots_def by (simp add: upt_conv_Cons)
  have u: "uint (word_of_int 0x12 :: u8) = 0x12" by simp
  have "HW_APIC_disableIntr (word_of_int 0x12) s = None"
    unfolding HW_APIC_disableIntr_def Let_def u by (simp add: handlerId_def set_enable_def read_rte)
  then show ?thesis
    using assms unfolding HW_APIC_suspend_def sp by (simp add: handlerId_def)
qed

theorem APIC_suspend_out_of_bounds_witness:
  "HW_APIC_suspend \<lparr>ioIndex = 0, ioRegs = (\<lambda>_. 0), enabled = (\<lambda>i. of_bool (i = 0x12)), supportFlag = 0, evs = []\<rparr> = None"
  by (rule APIC_suspend_out_of_bounds) (simp_all add: handlerId_def)

end
