(* ===== verification/Smp.thy ===== *)
theory Smp
  imports Apic Gate "HOL-Library.Multiset"
begin
text \<open>
  \<open>smp/smp.c\<close>: the table of processors, read from the MADT of the firmware, sorted by x2APIC number and
  searched by it; the interrupt vectors of each processor; and the messages between processors.
  The table is the list of the registered processors, at most \<open>Hardware_CPUNumber\<close> of them.
\<close>

definition Hardware_CPUNumber :: nat where "Hardware_CPUNumber = 64"

record SMP_CPUInfoPkg =
  x2apicID :: u32
  apicID :: u32
  trIdx :: u32
  initStk :: u64
  simdRegDomain :: u64
  tssTable :: u64
  idtTblSize :: u16
  idtTable :: u64
  intrMsk :: "nat \<Rightarrow> u64"
  cpuFlags :: u64
  ipiMsg :: u64

record SmpSys =
  cpuInfo :: "SMP_CPUInfoPkg list"
  trIdxCnt :: u32
  bspIdx :: u32
  bspx2ApicId :: u32
  smpGates :: Gates

section \<open>Interrupt vectors\<close>

text \<open>Words of 64 vectors; \<open>None\<close> is an access behind the four words of the mask.\<close>

definition msk_bit :: "SMP_CPUInfoPkg \<Rightarrow> nat \<Rightarrow> bool" where
  "msk_bit p i = bit (intrMsk p (i div 64)) (i mod 64)"

definition SMP_maskIntr_pkg :: "nat \<Rightarrow> nat \<Rightarrow> SMP_CPUInfoPkg \<Rightarrow> SMP_CPUInfoPkg option" where
  "SMP_maskIntr_pkg vecSt vecNum p =
    (if vecSt + vecNum > 256 then None
     else Some (p\<lparr>intrMsk := fold (\<lambda>i m. m(i div 64 := m (i div 64) OR push_bit (i mod 64) 1))
                  [vecSt..<vecSt + vecNum] (intrMsk p)\<rparr>))"

definition upd_cpu :: "nat \<Rightarrow> (SMP_CPUInfoPkg \<Rightarrow> SMP_CPUInfoPkg option) \<Rightarrow> SmpSys \<Rightarrow> SmpSys option" where
  "upd_cpu c f s =
    (if c < length (cpuInfo s)
     then map_option (\<lambda>p. s\<lparr>cpuInfo := (cpuInfo s)[c := p]\<rparr>) (f (cpuInfo s ! c)) else None)"

definition SMP_maskIntr :: "nat \<Rightarrow> u8 \<Rightarrow> u8 \<Rightarrow> SmpSys \<Rightarrow> SmpSys option" where
  "SMP_maskIntr cpuId vecSt vecNum = upd_cpu cpuId (SMP_maskIntr_pkg (unat vecSt) (unat vecNum))"

text \<open>The first masked vector of the range; the code's \<open>-1\<close> is \<open>None\<close>.\<close>

definition SMP_testIntr :: "nat \<Rightarrow> u8 \<Rightarrow> u8 \<Rightarrow> SmpSys \<Rightarrow> nat option" where
  "SMP_testIntr cpuId vecSt vecNum s =
    List.find (msk_bit (cpuInfo s ! cpuId)) [unat vecSt..<unat vecSt + unat vecNum]"

text \<open>The search for a run of vectors on one processor.\<close>

lemma SMP_testIntr_range:
  assumes "SMP_testIntr cpu (of_nat st) (of_nat num) s = Some err" "st + num \<le> 0x100"
  shows "st \<le> err \<and> err < st + num"
proof (cases "num = 0 \<or> num = 256")
  case True
  then show ?thesis using assms(1) by (auto simp: SMP_testIntr_def unat_of_nat)
next
  case False
  then have "unat (of_nat st :: u8) = st" "unat (of_nat num :: u8) = num"
    using assms(2) by (auto simp: unat_of_nat)
  then show ?thesis using assms(1) by (simp add: SMP_testIntr_def find_order(1))
qed

function find_vec :: "nat \<Rightarrow> nat \<Rightarrow> nat \<Rightarrow> SmpSys \<Rightarrow> nat option" where
  "find_vec num cpu st s =
    (if st + num \<le> 0x100 then
       (case SMP_testIntr cpu (of_nat st) (of_nat num) s of None \<Rightarrow> Some st
        | Some err \<Rightarrow> find_vec num cpu (Suc err) s)
     else None)"
  by pat_completeness auto
termination
  by (relation "measure (\<lambda>(num, cpu, st, s). 0x100 - st)") (auto dest: SMP_testIntr_range)

declare find_vec.simps [simp del]

text \<open>\<open>None\<close> for a processor number and a vector is the result \<open>-1\<close> of the code.\<close>

fun alloc_on :: "nat \<Rightarrow> nat list \<Rightarrow> SmpSys \<Rightarrow> ((nat \<times> nat) option \<times> SmpSys) option" where
  "alloc_on num [] s = Some (None, s)"
| "alloc_on num (c # cs) s =
    (case find_vec num c 0 s of
       Some st \<Rightarrow> map_option (Pair (Some (c, st))) (SMP_maskIntr c (of_nat st) (of_nat num) s)
     | None \<Rightarrow> alloc_on num cs s)"

definition SMP_allocIntrVec :: "nat \<Rightarrow> nat \<Rightarrow> SmpSys \<Rightarrow> ((nat \<times> nat) option \<times> SmpSys) option" where
  "SMP_allocIntrVec num cpuSt s =
    alloc_on num (map (\<lambda>i. (cpuSt + i) mod length (cpuInfo s)) [0..<length (cpuInfo s)]) s"

definition SMP_freeIntrVec :: "nat \<Rightarrow> nat \<Rightarrow> nat \<Rightarrow> SmpSys \<Rightarrow> SmpSys option" where
  "SMP_freeIntrVec cpuId vecSt vecNum =
    upd_cpu cpuId (\<lambda>p. if vecSt + vecNum > 256 then None
      else Some (p\<lparr>intrMsk := fold (\<lambda>i m. m(i div 64 := m (i div 64) AND NOT (push_bit (i mod 64) 1)))
                    [vecSt..<vecSt + vecNum] (intrMsk p)\<rparr>))"

section \<open>Searching and sorting\<close>

text \<open>The binary search; \<open>-1\<close> as an unsigned number when there is no such processor.\<close>

function cvt_loop :: "u32 \<Rightarrow> SMP_CPUInfoPkg list \<Rightarrow> int \<Rightarrow> int \<Rightarrow> u32" where
  "cvt_loop x ps l r =
    (if l \<le> r then
       let mid = (l + r) div 2; idx = x2apicID (ps ! nat mid) in
       if idx = x then word_of_int mid
       else if idx < x then cvt_loop x ps (mid + 1) r else cvt_loop x ps l (mid - 1)
     else - 1)"
  by pat_completeness auto
termination by (relation "measure (\<lambda>(x, ps, l, r). nat (r - l + 1))") auto

declare cvt_loop.simps [simp del]

definition cvtId :: "u32 \<Rightarrow> SmpSys \<Rightarrow> u32" where
  "cvtId x s = (if length (cpuInfo s) < 1 then 0 else cvt_loop x (cpuInfo s) 0 (int (length (cpuInfo s)) - 1))"

text \<open>Bubble sort; the flag tells whether a pass has swapped nothing.\<close>

definition swap_step :: "nat \<Rightarrow> SMP_CPUInfoPkg list \<times> bool \<Rightarrow> SMP_CPUInfoPkg list \<times> bool" where
  "swap_step j st =
    (let ps = fst st in
     if x2apicID (ps ! (j - 1)) > x2apicID (ps ! j) then (ps[j - 1 := ps ! j, j := ps ! (j - 1)], False) else st)"

definition sort_pass :: "nat \<Rightarrow> SMP_CPUInfoPkg list \<Rightarrow> SMP_CPUInfoPkg list \<times> bool" where
  "sort_pass i ps = fold swap_step [1..<length ps - i] (ps, True)"

fun sort_cpus :: "nat list \<Rightarrow> SMP_CPUInfoPkg list \<Rightarrow> SMP_CPUInfoPkg list" where
  "sort_cpus [] ps = ps"
| "sort_cpus (i # is) ps = (let (ps, fl) = sort_pass i ps in if fl then ps else sort_cpus is ps)"

section \<open>The MADT\<close>

text \<open>
  Registering a processor: the addresses of its segment, stack and interrupt table come from
  \<open>kmalloc\<close> and are arguments; \<open>None\<close> when the table of processors is full, which the code
  does not check.
\<close>

definition mask_spare :: "SmpSys \<Rightarrow> SmpSys option" where
  "mask_spare s = (let n = length (cpuInfo s) - 1 in Option.bind (SMP_maskIntr n 0 0x40 s) (SMP_maskIntr n 0x80 0x80))"

definition SMP_registerCPU :: "u32 \<Rightarrow> u32 \<Rightarrow> u64 \<times> u64 \<times> u64 \<Rightarrow> u64 \<times> u64 \<times> u64 \<Rightarrow> SmpSys \<Rightarrow> SmpSys option" where
  "SMP_registerCPU x2 ap bsp mems s =
    (if length (cpuInfo s) = Hardware_CPUNumber then None else
     let pkg = \<lparr>x2apicID = x2, apicID = ap, trIdx = 0, initStk = 0, simdRegDomain = 0, tssTable = 0, idtTblSize = 0,
                idtTable = 0, intrMsk = (\<lambda>_. 0), cpuFlags = 0, ipiMsg = 0\<rparr>;
         (pkg, s) =
           (if x2 = bspx2ApicId s then
              (case bsp of (tss, itbl, cur) \<Rightarrow>
                 (pkg\<lparr>tssTable := tss, idtTblSize := 512 * 8, idtTable := itbl, initStk := cur\<rparr>, s))
            else
              (case mems of (tss, stk, itbl) \<Rightarrow>
                 let tr = trIdxCnt s;
                     s = s\<lparr>trIdxCnt := trIdxCnt s + 2\<rparr>;
                     pkg = pkg\<lparr>tssTable := tss, trIdx := tr, initStk := stk, idtTblSize := 512 * 8, idtTable := itbl\<rparr>
                 in (pkg, s\<lparr>smpGates := Intr_Gate_setTSSDesc (unat tr) tss (smpGates s)\<rparr>)))
     in mask_spare (s\<lparr>cpuInfo := cpuInfo s @ [pkg]\<rparr>))"

definition MADTEntry :: ctype where
  "MADTEntry = (case memb MADTDescriptor ''entries'' 0 of Some (CArr n t, _) \<Rightarrow> t | _ \<Rightarrow> MADTDescriptor)"

definition can_enable :: "u32 \<Rightarrow> bool" where
  "can_enable t \<longleftrightarrow> t AND 1 \<noteq> 0 \<or> t AND 1 = 0 \<and> t AND 2 \<noteq> 0"

definition madt_field :: "sel list \<Rightarrow> nat \<Rightarrow> bytes \<Rightarrow> u32" where
  "madt_field p a m = the (rd_memb MADTEntry p a m)"

text \<open>
  A scan visits the entries from the end of the header; the next entry is \<open>length\<close> bytes further, so
  an entry of length 0 keeps the scan from ending.  \<open>mems\<close> gives the addresses for the next
  processor.
\<close>

partial_function (option) scan_madt ::
    "(nat \<Rightarrow> bytes \<Rightarrow> SmpSys \<Rightarrow> SmpSys option) \<Rightarrow> nat \<Rightarrow> bytes \<Rightarrow> nat \<Rightarrow> SmpSys \<Rightarrow> SmpSys option" where
  "scan_madt f len m off s =
    (if off < len then
       Option.bind (f off m s)
         (scan_madt f len m (off + unat (madt_field [Mem ''length''] off m)))
     else Some s)"

definition madt_type9 :: "u64 \<times> u64 \<times> u64 \<Rightarrow> (nat \<Rightarrow> u64 \<times> u64 \<times> u64) \<Rightarrow> nat \<Rightarrow> bytes \<Rightarrow> SmpSys \<Rightarrow> SmpSys option" where
  "madt_type9 bsp mems off m s =
    (if madt_field [Mem ''type''] off m = 9 then
       if can_enable (madt_field [Mem ''type9'', Mem ''flags''] off m)
       then SMP_registerCPU (madt_field [Mem ''type9'', Mem ''x2apicID''] off m)
              (madt_field [Mem ''type9'', Mem ''apicID''] off m) bsp (mems (length (cpuInfo s))) s
       else Some s
     else Some s)"

definition madt_type0 :: "u64 \<times> u64 \<times> u64 \<Rightarrow> (nat \<Rightarrow> u64 \<times> u64 \<times> u64) \<Rightarrow> nat \<Rightarrow> bytes \<Rightarrow> SmpSys \<Rightarrow> SmpSys option" where
  "madt_type0 bsp mems off m s =
    (if madt_field [Mem ''type''] off m = 0 then
       let ap = madt_field [Mem ''type0'', Mem ''apicID''] off m;
           flag = (\<forall>p\<in>set (cpuInfo s). apicID p \<noteq> ap)
       in if flag \<and> can_enable (madt_field [Mem ''type0'', Mem ''flags''] off m)
          then SMP_registerCPU ap ap bsp (mems (length (cpuInfo s))) s else Some s
     else Some s)"

definition find_bsp :: "SmpSys \<Rightarrow> SmpSys" where
  "find_bsp s =
    (case List.find (\<lambda>i. x2apicID (cpuInfo s ! i) = bspx2ApicId s) [0..<length (cpuInfo s)] of
       Some i \<Rightarrow> s\<lparr>bspIdx := of_nat i\<rparr> | None \<Rightarrow> s)"

text \<open>\<open>m\<close> is the MADT, if there is one.\<close>

definition parseMADT ::
    "u64 \<times> u64 \<times> u64 \<Rightarrow> (nat \<Rightarrow> u64 \<times> u64 \<times> u64) \<Rightarrow> bytes option \<Rightarrow> SmpSys \<Rightarrow> (bool \<times> SmpSys) option" where
  "parseMADT bsp mems madt s =
    (case madt of None \<Rightarrow> Some (False, s)
     | Some m \<Rightarrow>
         let len = unat (the (rd_memb MADTDescriptor [Mem ''header'', Mem ''length''] 0 m) :: u32);
             st = sizeof MADTDescriptor
         in map_option (\<lambda>s. (True, find_bsp (s\<lparr>cpuInfo := sort_cpus [0..<length (cpuInfo s)] (cpuInfo s)\<rparr>)))
              (Option.bind (scan_madt (madt_type9 bsp mems) len m st s) (scan_madt (madt_type0 bsp mems) len m st)))"

definition SMP_init ::
    "u64 \<Rightarrow> u32 \<Rightarrow> u32 \<Rightarrow> u64 \<times> u64 \<times> u64 \<Rightarrow> (nat \<Rightarrow> u64 \<times> u64 \<times> u64) \<Rightarrow> bytes option \<Rightarrow> SmpSys \<Rightarrow> (bool \<times> SmpSys) option" where
  "SMP_init supp edx ebx bsp mems madt s =
    (let s = s\<lparr>cpuInfo := [], trIdxCnt := 12\<rparr>;
         s = s\<lparr>bspx2ApicId := (if supp AND HW_APIC_supportFlag_X2APIC \<noteq> 0 then edx else drop_bit 24 ebx)\<rparr>
     in parseMADT bsp mems madt s)"

definition SMP_getCurCPUIndex :: "u64 \<Rightarrow> u32 \<Rightarrow> u32 \<Rightarrow> SmpSys \<Rightarrow> u32" where
  "SMP_getCurCPUIndex supp edx ebx s =
    (if supp AND HW_APIC_supportFlag_X2APIC \<noteq> 0 then cvtId edx s else cvtId (drop_bit 24 ebx) s)"

section \<open>Messages between processors\<close>

definition icr_set :: "(sel list \<times> u32) list \<Rightarrow> bytes \<Rightarrow> bytes" where
  "icr_set xs m = foldl (\<lambda>m (p, v). case wr_memb APIC_ICRDescriptor p v 0 m of Some m' \<Rightarrow> m' | None \<Rightarrow> m) m xs"

definition icr_word :: "bytes \<Rightarrow> u64" where "icr_word = get_bits 0 64"

definition HW_APIC_ICRDescriptor_setDesc :: "u64 \<Rightarrow> u32 \<Rightarrow> u32 \<Rightarrow> bytes \<Rightarrow> bytes" where
  "HW_APIC_ICRDescriptor_setDesc supp apic x2 =
    (if supp AND HW_APIC_supportFlag_X2APIC \<noteq> 0 then icr_set [([Mem ''dest'', Mem ''x2Apic''], x2)]
     else icr_set [([Mem ''dest'', Mem ''apic''], apic)])"

definition ipi_icr :: "u32 \<Rightarrow> u32 \<Rightarrow> bytes" where
  "ipi_icr vector shorthand =
    icr_set [([Mem ''vector''], vector), ([Mem ''level''], HW_APIC_Level_Assert),
      ([Mem ''deliverMode''], HW_APIC_DeliveryMode_Fixed), ([Mem ''destMode''], HW_APIC_DestMode_Physical),
      ([Mem ''triggerMode''], HW_APIC_TriggerMode_Edge), ([Mem ''DestShorthand''], shorthand)] (\<lambda>_. 0)"

definition set_msg :: "u64 \<Rightarrow> SMP_CPUInfoPkg \<Rightarrow> SMP_CPUInfoPkg" where "set_msg msg p = p\<lparr>ipiMsg := msg\<rparr>"

definition SMP_sendIPI :: "nat \<Rightarrow> u32 \<Rightarrow> u64 \<Rightarrow> SmpSys \<times> Apic \<Rightarrow> (SmpSys \<times> Apic) option" where
  "SMP_sendIPI cpuId vector msg st =
    (case st of (s, a) \<Rightarrow>
     map_option (\<lambda>s.
       let p = cpuInfo s ! cpuId;
           icr = HW_APIC_ICRDescriptor_setDesc (supportFlag a) (apicID p) (x2apicID p)
                   (ipi_icr vector HW_APIC_DestShorthand_None)
       in (s, HW_APIC_writeICR (icr_word icr) a)) (upd_cpu cpuId (\<lambda>p. Some (set_msg msg p)) s))"

definition SMP_sendIPI_all :: "u32 \<Rightarrow> u64 \<Rightarrow> SmpSys \<times> Apic \<Rightarrow> SmpSys \<times> Apic" where
  "SMP_sendIPI_all vector msg st =
    (case st of (s, a) \<Rightarrow>
       (s\<lparr>cpuInfo := map (set_msg msg) (cpuInfo s)\<rparr>,
        HW_APIC_writeICR (icr_word (ipi_icr vector HW_APIC_DestShorthand_AllIncludingSelf)) a))"

definition SMP_sendIPI_self :: "nat \<Rightarrow> u32 \<Rightarrow> u64 \<Rightarrow> SmpSys \<times> Apic \<Rightarrow> (SmpSys \<times> Apic) option" where
  "SMP_sendIPI_self cur vector msg st =
    (case st of (s, a) \<Rightarrow>
     map_option (\<lambda>s.
       (s, if supportFlag a AND HW_APIC_supportFlag_X2APIC \<noteq> 0
           then send [WrMSR 0x83F (icr_word (icr_set [([Mem ''vector''], vector)] (\<lambda>_. 0)))] a
           else HW_APIC_writeICR (icr_word (ipi_icr vector HW_APIC_DestShorthand_Self)) a))
       (upd_cpu cur (\<lambda>p. Some (set_msg msg p)) s))"

definition SMP_sendIPI_allButSelf :: "nat \<Rightarrow> u32 \<Rightarrow> u64 \<Rightarrow> SmpSys \<times> Apic \<Rightarrow> SmpSys \<times> Apic" where
  "SMP_sendIPI_allButSelf self vector msg st =
    (case st of (s, a) \<Rightarrow>
       (s\<lparr>cpuInfo := map (\<lambda>i. if i \<noteq> self then set_msg msg (cpuInfo s ! i) else cpuInfo s ! i) [0..<length (cpuInfo s)]\<rparr>,
        HW_APIC_writeICR (icr_word (ipi_icr vector HW_APIC_DestShorthand_AllExcludingSelf)) a))"

text \<open>Starting the other processors: one INIT to all, then two startup messages to each.\<close>

definition init_icr :: bytes where
  "init_icr =
    icr_set [([Mem ''vector''], 0x00), ([Mem ''deliverMode''], HW_APIC_DeliveryMode_INIT),
      ([Mem ''destMode''], HW_APIC_DestMode_Physical), ([Mem ''deliverStatus''], HW_APIC_DeliveryStatus_Idle),
      ([Mem ''level''], HW_APIC_Level_Assert), ([Mem ''triggerMode''], HW_APIC_TriggerMode_Edge),
      ([Mem ''DestShorthand''], HW_APIC_DestShorthand_AllExcludingSelf)] (\<lambda>_. 0)"

definition start_cpu :: "SmpSys \<Rightarrow> nat \<Rightarrow> bytes \<times> Apic \<Rightarrow> bytes \<times> Apic" where
  "start_cpu s i st =
    (if of_nat i \<noteq> bspIdx s then
       let p = cpuInfo s ! i;
           icr = icr_set [([Mem ''vector''], 0x20), ([Mem ''deliverMode''], HW_APIC_DeliveryMode_Startup),
                   ([Mem ''DestShorthand''], HW_APIC_DestShorthand_None)] (fst st);
           icr = HW_APIC_ICRDescriptor_setDesc (supportFlag (snd st)) (apicID p) (x2apicID p) icr
       in (icr, HW_APIC_writeICR (icr_word icr) (HW_APIC_writeICR (icr_word icr) (snd st)))
     else st)"

definition SMP_initAPU :: "SmpSys \<Rightarrow> Apic \<Rightarrow> Apic" where
  "SMP_initAPU s a =
    snd (fold (start_cpu s) [0..<length (cpuInfo s)] (init_icr, HW_APIC_writeICR (icr_word init_icr) a))"

section \<open>Vectors are handed out once\<close>

lemma mask_fold:
  assumes "distinct is"
  shows "bit (fold (\<lambda>i m. m(i div 64 := m (i div 64) OR push_bit (i mod 64) 1)) is m (j div 64)) (j mod 64) \<longleftrightarrow>
    j \<in> set is \<or> bit (m (j div 64) :: u64) (j mod 64)"
proof (induction "is" arbitrary: m)
  case (Cons i "is")
  have "bit ((m(i div 64 := m (i div 64) OR push_bit (i mod 64) (1 :: u64))) (j div 64)) (j mod 64) \<longleftrightarrow>
      j = i \<or> bit (m (j div 64)) (j mod 64)"
  proof (cases "j div 64 = i div 64")
    case True
    have "j = i \<longleftrightarrow> j mod 64 = i mod 64" using True by (metis div_mult_mod_eq)
    then show ?thesis using True by (auto simp: bit_or_iff bit_push_bit_iff bit_1_iff simp del: push_bit_of_1)
  next
    case False
    then show ?thesis by auto
  qed
  then show ?case using Cons.IH by auto
qed simp

lemma mask_pkg:
  "vecSt + vecNum \<le> 256 \<Longrightarrow> \<exists>p'. SMP_maskIntr_pkg vecSt vecNum p = Some p' \<and>
    (\<forall>i. msk_bit p' i \<longleftrightarrow> vecSt \<le> i \<and> i < vecSt + vecNum \<or> msk_bit p i) \<and> p' = p\<lparr>intrMsk := intrMsk p'\<rparr>"
  unfolding SMP_maskIntr_pkg_def msk_bit_def by (simp del: push_bit_of_1 add: mask_fold)

lemma find_vec_spec:
  assumes "0 < num" "num < 256" "c < length (cpuInfo s)"
  shows "case find_vec num c st s of
      Some v \<Rightarrow> st \<le> v \<and> v + num \<le> 256 \<and> (\<forall>i\<in>{v..<v + num}. \<not> msk_bit (cpuInfo s ! c) i)
    | None \<Rightarrow> (\<forall>v\<ge>st. v + num \<le> 256 \<longrightarrow> (\<exists>i\<in>{v..<v + num}. msk_bit (cpuInfo s ! c) i))"
  using assms
proof (induction num c st s rule: find_vec.induct)
  case (1 num c st s)
  show ?case
  proof (cases "st + num \<le> 0x100")
    case False
    then show ?thesis by (simp add: find_vec.simps)
  next
    case True
    have u: "unat (of_nat st :: u8) = st" "unat (of_nat num :: u8) = num" using True 1(2,3) by (simp_all add: unat_of_nat)
    show ?thesis
    proof (cases "SMP_testIntr c (of_nat st) (of_nat num) s")
      case None
      then have "find_vec num c st s = Some st" using True by (simp add: find_vec.simps)
      moreover have "\<forall>i\<in>{st..<st + num}. \<not> msk_bit (cpuInfo s ! c) i"
        using None unfolding SMP_testIntr_def u by (auto simp: find_order(2))
      ultimately show ?thesis using True by simp
    next
      case (Some err)
      have e: "find_vec num c st s = find_vec num c (Suc err) s" using True Some by (simp add: find_vec.simps)
      have f: "st \<le> err" "err < st + num" "msk_bit (cpuInfo s ! c) err"
        using Some unfolding SMP_testIntr_def u find_order(1) by auto
      note ih = "1.IH" [OF True Some "1.prems"]
      show ?thesis
      proof (cases "find_vec num c (Suc err) s")
        case (Some v)
        then show ?thesis using ih f e by auto
      next
        case None
        have "\<exists>i\<in>{v..<v + num}. msk_bit (cpuInfo s ! c) i" if "st \<le> v" "v + num \<le> 256" for v
        proof (cases "v \<le> err")
          case True
          then show ?thesis using f that by (intro bexI [of _ err]) auto
        next
          case False
          then show ?thesis using ih None that by simp
        qed
        then show ?thesis using e None by simp
      qed
    qed
  qed
qed

definition free_run :: "SMP_CPUInfoPkg \<Rightarrow> nat \<Rightarrow> nat \<Rightarrow> bool" where
  "free_run p v num \<longleftrightarrow> v + num \<le> 256 \<and> (\<forall>i\<in>{v..<v + num}. \<not> msk_bit p i)"

definition vec_post :: "nat \<Rightarrow> SmpSys \<Rightarrow> (nat \<times> nat) option \<Rightarrow> SmpSys \<Rightarrow> bool" where
  "vec_post num s r s' \<longleftrightarrow>
    (case r of
       Some (c, v) \<Rightarrow> c < length (cpuInfo s) \<and> free_run (cpuInfo s ! c) v num \<and>
         (\<exists>p. s' = s\<lparr>cpuInfo := (cpuInfo s)[c := p]\<rparr> \<and> p = (cpuInfo s ! c)\<lparr>intrMsk := intrMsk p\<rparr> \<and>
           (\<forall>i. msk_bit p i \<longleftrightarrow> i \<in> {v..<v + num} \<or> msk_bit (cpuInfo s ! c) i))
     | None \<Rightarrow> s' = s \<and> (\<forall>c<length (cpuInfo s). \<forall>v. \<not> free_run (cpuInfo s ! c) v num))"

lemma alloc_on_spec:
  assumes n: "0 < num" "num < 256" and cs: "\<forall>c\<in>set cs. c < length (cpuInfo s)"
    and before: "\<forall>c<length (cpuInfo s). c \<notin> set cs \<longrightarrow> (\<forall>v. \<not> free_run (cpuInfo s ! c) v num)"
  shows "\<exists>r s'. alloc_on num cs s = Some (r, s') \<and> vec_post num s r s'"
  using cs before
proof (induction cs)
  case Nil
  then show ?case by (simp add: vec_post_def)
next
  case (Cons c cs)
  have c: "c < length (cpuInfo s)" using Cons.prems(1) by simp
  note fv = find_vec_spec [OF n c, of 0]
  show ?case
  proof (cases "find_vec num c 0 s")
    case None
    then have "\<forall>v. \<not> free_run (cpuInfo s ! c) v num" using fv by (auto simp: free_run_def)
    then have "\<forall>d<length (cpuInfo s). d \<notin> set cs \<longrightarrow> (\<forall>v. \<not> free_run (cpuInfo s ! d) v num)"
      using Cons.prems(2) by (metis set_ConsD)
    then show ?thesis using Cons.IH Cons.prems(1) None by simp
  next
    case (Some v)
    have v: "v + num \<le> 256" "\<forall>i\<in>{v..<v + num}. \<not> msk_bit (cpuInfo s ! c) i" using fv Some by auto
    have u: "unat (of_nat v :: u8) = v" "unat (of_nat num :: u8) = num" using v n by (simp_all add: unat_of_nat)
    obtain p where p: "SMP_maskIntr_pkg v num (cpuInfo s ! c) = Some p"
      "\<forall>i. msk_bit p i \<longleftrightarrow> v \<le> i \<and> i < v + num \<or> msk_bit (cpuInfo s ! c) i"
      "p = (cpuInfo s ! c)\<lparr>intrMsk := intrMsk p\<rparr>"
      using mask_pkg [OF v(1), of "cpuInfo s ! c"] by blast
    have "alloc_on num (c # cs) s = Some (Some (c, v), s\<lparr>cpuInfo := (cpuInfo s)[c := p]\<rparr>)"
      using Some p(1) c by (simp add: SMP_maskIntr_def upd_cpu_def u)
    moreover have "vec_post num s (Some (c, v)) (s\<lparr>cpuInfo := (cpuInfo s)[c := p]\<rparr>)"
      using c v p(2,3) by (auto simp: vec_post_def free_run_def)
    ultimately show ?thesis by blast
  qed
qed

lemma rotation_covers:
  assumes "c < (n :: nat)" shows "c \<in> (\<lambda>i. (st + i) mod n) ` {0..<n}"
proof -
  have "(st + (c + (n - st mod n)) mod n) mod n = (st + (c + (n - st mod n))) mod n" by (simp add: mod_simps)
  also have "\<dots> = (st mod n + (c + (n - st mod n))) mod n" by (simp add: mod_simps)
  also have "st mod n + (c + (n - st mod n)) = c + n" using assms mod_less_divisor [of n st] by linarith
  also have "(c + n) mod n = c" using assms by simp
  finally show ?thesis using assms by (intro image_eqI [of _ _ "(c + (n - st mod n)) mod n"]) auto
qed

lemma allocIntrVec_spec:
  assumes "0 < num" "num < 256"
  shows "\<exists>r s'. SMP_allocIntrVec num cpuSt s = Some (r, s') \<and> vec_post num s r s'"
  unfolding SMP_allocIntrVec_def
proof (rule alloc_on_spec [OF assms])
  let ?n = "length (cpuInfo s)"
  show "\<forall>c\<in>set (map (\<lambda>i. (cpuSt + i) mod ?n) [0..<?n]). c < ?n" by (cases "?n = 0") auto
  have "c \<in> set (map (\<lambda>i. (cpuSt + i) mod ?n) [0..<?n])" if "c < ?n" for c
    using rotation_covers [OF that, of cpuSt] by simp
  then show "\<forall>c<?n. c \<notin> set (map (\<lambda>i. (cpuSt + i) mod ?n) [0..<?n]) \<longrightarrow> (\<forall>v. \<not> free_run (cpuInfo s ! c) v num)"
    by blast
qed

text \<open>C19: Allocating 1 to 255 interrupt vectors always answers: with a processor and a run of vectors that were
  all free there, which are then masked and nothing else is; or with -1, the table unchanged, and then no
  processor has such a run, whichever processor the search starts from.\<close>

theorem allocIntrVec_correct:
  assumes "0 < num" "num < 256"
  shows "\<exists>r s'. SMP_allocIntrVec num cpuSt s = Some (r, s') \<and> vec_post num s r s'"
  by (rule allocIntrVec_spec [OF assms])

definition demo_cpu :: "u32 \<Rightarrow> u64 \<Rightarrow> SMP_CPUInfoPkg" where
  "demo_cpu x msk = \<lparr>x2apicID = x, apicID = x, trIdx = 0, initStk = 0, simdRegDomain = 0, tssTable = 0, idtTblSize = 0,
     idtTable = 0, intrMsk = (\<lambda>_. msk), cpuFlags = 0, ipiMsg = 0\<rparr>"

definition demo_smp :: "SMP_CPUInfoPkg list \<Rightarrow> SmpSys" where
  "demo_smp ps = \<lparr>cpuInfo = ps, trIdxCnt = 12, bspIdx = 0, bspx2ApicId = 0, smpGates = \<lparr>idt = (\<lambda>_. (0, 0)), gdt = (\<lambda>_. 0)\<rparr>\<rparr>"

theorem allocIntrVec_correct_witness:
  "\<exists>r s'. SMP_allocIntrVec 4 7 (demo_smp [demo_cpu 1 (- 1), demo_cpu 2 0]) = Some (r, s') \<and>
    vec_post 4 (demo_smp [demo_cpu 1 (- 1), demo_cpu 2 0]) r s'"
  using allocIntrVec_correct [of 4 7 "demo_smp [demo_cpu 1 (- 1), demo_cpu 2 0]"] by simp

section \<open>The search\<close>

definition by_id :: "SMP_CPUInfoPkg list \<Rightarrow> bool" where
  "by_id ps \<longleftrightarrow> sorted_wrt (\<lambda>p q. x2apicID p < x2apicID q) ps"

lemma cvt_loop_spec:
  assumes "by_id ps" "0 \<le> l" "r < int (length ps)" "length ps < 2 ^ 31"
    and "\<forall>i<length ps. x2apicID (ps ! i) = x \<longrightarrow> l \<le> int i \<and> int i \<le> r"
  shows "(cvt_loop x ps l r = - 1 \<and> x \<notin> x2apicID ` set ps) \<or>
    (\<exists>i<length ps. cvt_loop x ps l r = of_nat i \<and> x2apicID (ps ! i) = x)"
  using assms
proof (induction x ps l r rule: cvt_loop.induct)
  case (1 x ps l r)
  show ?case
  proof (cases "l \<le> r")
    case False
    then have "\<forall>i<length ps. x2apicID (ps ! i) \<noteq> x" using "1.prems"(5) by auto
    then show ?thesis using False by (auto simp: cvt_loop.simps in_set_conv_nth)
  next
    case True
    define mid where "mid = (l + r) div 2"
    have m: "l \<le> mid" "mid \<le> r" "nat mid < length ps" using True "1.prems"(2,3) by (auto simp: mid_def)
    have lt: "x2apicID (ps ! i) < x2apicID (ps ! j)" if "i < j" "j < length ps" for i j
      using "1.prems"(1) that unfolding by_id_def by (rule sorted_wrt_nth_less)
    let ?y = "x2apicID (ps ! nat mid)"
    consider "?y = x" | "?y < x" | "x < ?y" by force
    then show ?thesis
    proof cases
      case 1
      then have "cvt_loop x ps l r = word_of_int mid" using True by (simp add: cvt_loop.simps mid_def Let_def)
      moreover have "(word_of_int mid :: u32) = of_nat (nat mid)" using m "1.prems"(2) by simp
      ultimately show ?thesis using 1 m(3) by auto
    next
      case 2
      then have e: "cvt_loop x ps l r = cvt_loop x ps (mid + 1) r"
        using True less_imp_neq by (subst cvt_loop.simps) (auto simp: mid_def Let_def)
      have "\<forall>i<length ps. x2apicID (ps ! i) = x \<longrightarrow> mid + 1 \<le> int i \<and> int i \<le> r"
      proof (intro allI impI)
        fix i assume i: "i < length ps" "x2apicID (ps ! i) = x"
        have "\<not> i \<le> nat mid" using lt [of i "nat mid"] m(3) 2 i by (cases "i = nat mid") auto
        then show "mid + 1 \<le> int i \<and> int i \<le> r" using "1.prems"(5) i by auto
      qed
      then show ?thesis
        unfolding e using "1.IH"(1) [OF True mid_def refl] 2 m "1.prems"(1-4) by auto
    next
      case 3
      then have e: "cvt_loop x ps l r = cvt_loop x ps l (mid - 1)"
        using True less_imp_neq by (subst cvt_loop.simps) (auto simp: mid_def Let_def)
      have "\<forall>i<length ps. x2apicID (ps ! i) = x \<longrightarrow> l \<le> int i \<and> int i \<le> mid - 1"
      proof (intro allI impI)
        fix i assume i: "i < length ps" "x2apicID (ps ! i) = x"
        have "\<not> nat mid \<le> i" using lt [of "nat mid" i] i 3 by (cases "i = nat mid") auto
        then show "l \<le> int i \<and> int i \<le> mid - 1" using "1.prems"(5) i by auto
      qed
      then show ?thesis
        unfolding e using "1.IH"(2) [OF True mid_def refl] 3 m "1.prems"(1-4) by auto
    qed
  qed
qed

section \<open>Sorting\<close>

definition ids_le :: "SMP_CPUInfoPkg list \<Rightarrow> nat \<Rightarrow> bool" where
  "ids_le ps k \<longleftrightarrow> (\<forall>i j. i < j \<longrightarrow> k \<le> j \<longrightarrow> j < length ps \<longrightarrow> x2apicID (ps ! i) \<le> x2apicID (ps ! j))"

lemma swap_step_perm:
  "j < length (fst st) \<Longrightarrow> mset (fst (swap_step j st)) = mset (fst st) \<and> length (fst (swap_step j st)) = length (fst st)"
  by (auto simp: swap_step_def Let_def mset_swap)

lemma sort_fold:
  assumes "k \<le> length ps" "0 < k"
  shows "let (qs, fl) = fold swap_step [1..<k] (ps, True) in
    mset qs = mset ps \<and> length qs = length ps \<and> (\<forall>i\<ge>k. i < length ps \<longrightarrow> qs ! i = ps ! i) \<and>
    (\<forall>i<k. x2apicID (qs ! i) \<le> x2apicID (qs ! (k - 1))) \<and>
    (fl \<longrightarrow> qs = ps \<and> (\<forall>j. 0 < j \<and> j < k \<longrightarrow> x2apicID (ps ! (j - 1)) \<le> x2apicID (ps ! j)))"
  using assms
proof (induction k)
  case (Suc k)
  show ?case
  proof (cases "k = 0")
    case True
    then show ?thesis by simp
  next
    case False
    obtain qs fl where q: "fold swap_step [1..<k] (ps, True) = (qs, fl)" by fastforce
    have ih: "mset qs = mset ps" "length qs = length ps" "\<forall>i\<ge>k. i < length ps \<longrightarrow> qs ! i = ps ! i"
      "\<forall>i<k. x2apicID (qs ! i) \<le> x2apicID (qs ! (k - 1))"
      "fl \<longrightarrow> qs = ps \<and> (\<forall>j. 0 < j \<and> j < k \<longrightarrow> x2apicID (ps ! (j - 1)) \<le> x2apicID (ps ! j))"
      using Suc.IH Suc.prems False q by auto
    have e: "fold swap_step [1..<Suc k] (ps, True) = swap_step k (qs, fl)" using False q by simp
    have perm: "mset (fst (swap_step k (qs, fl))) = mset ps" "length (fst (swap_step k (qs, fl))) = length ps"
      using swap_step_perm [of k "(qs, fl)"] ih(1,2) Suc.prems by simp_all
    show ?thesis
    proof (cases "x2apicID (qs ! (k - 1)) > x2apicID (qs ! k)")
      case True
      let ?r = "qs[k - 1 := qs ! k, k := qs ! (k - 1)]"
      have r: "swap_step k (qs, fl) = (?r, False)" using True by (simp add: swap_step_def Let_def)
      have l: "k < length qs" "k - 1 < length qs" "k - 1 < k" using Suc.prems ih(2) False by auto
      have "x2apicID (?r ! i) \<le> x2apicID (?r ! k)" if "i < Suc k" for i
        using that l ih(4) True by (cases "i = k"; cases "i = k - 1") (auto simp: nth_list_update)
      then show ?thesis using perm ih(3) l unfolding e r by auto
    next
      case False
      then have r: "swap_step k (qs, fl) = (qs, fl)" by (simp add: swap_step_def Let_def)
      have "x2apicID (qs ! i) \<le> x2apicID (qs ! k)" if "i < Suc k" for i
        using that ih(4) False order_trans [of "x2apicID (qs ! i)" "x2apicID (qs ! (k - 1))"] by (cases "i = k") auto
      moreover have "x2apicID (ps ! (j - 1)) \<le> x2apicID (ps ! j)" if "fl" "0 < j" "j < Suc k" for j
        using that ih(5) False by (cases "j = k") auto
      ultimately show ?thesis using ih unfolding e r by auto
    qed
  qed
qed simp

lemma chain_ids_le:
  assumes "\<forall>j. 0 < j \<and> j < k \<longrightarrow> x2apicID (ps ! (j - 1)) \<le> x2apicID (ps ! j)" "ids_le ps k"
  shows "ids_le ps 0"
proof -
  have "x2apicID (ps ! i) \<le> x2apicID (ps ! (i + d))" if "i + d < k" for i d
    using that
  proof (induction d)
    case (Suc d)
    have "x2apicID (ps ! (i + d)) \<le> x2apicID (ps ! (i + Suc d))" using assms(1) [rule_format, of "i + Suc d"] Suc.prems by simp
    then show ?case using Suc by simp
  qed simp
  note le = this
  show ?thesis unfolding ids_le_def
  proof (intro allI impI)
    fix i j assume a: "i < j" "j < length ps"
    show "x2apicID (ps ! i) \<le> x2apicID (ps ! j)"
    proof (cases "j < k")
      case True
      then show ?thesis using le [of i "j - i"] a by simp
    next
      case False
      then show ?thesis using assms(2) a unfolding ids_le_def by simp
    qed
  qed
qed

lemma sort_pass_spec:
  assumes "i < length ps" "ids_le ps (length ps - i)" "sort_pass i ps = (qs, fl)"
  shows "mset qs = mset ps" "length qs = length ps" "ids_le qs (length qs - Suc i)" "fl \<Longrightarrow> ids_le qs 0"
proof -
  let ?k = "length ps - i"
  have f: "mset qs = mset ps" "length qs = length ps" "\<forall>i\<ge>?k. i < length ps \<longrightarrow> qs ! i = ps ! i"
    "\<forall>i<?k. x2apicID (qs ! i) \<le> x2apicID (qs ! (?k - 1))"
    "fl \<longrightarrow> qs = ps \<and> (\<forall>j. 0 < j \<and> j < ?k \<longrightarrow> x2apicID (ps ! (j - 1)) \<le> x2apicID (ps ! j))"
    using sort_fold [of ?k ps] assms(1,3) by (simp_all add: sort_pass_def)
  show "mset qs = mset ps" "length qs = length ps" by (fact f(1,2))+
  show "ids_le qs 0" if fl
    using chain_ids_le [of ?k ps] f(5) that assms(2) by simp
  show "ids_le qs (length qs - Suc i)" unfolding ids_le_def
  proof (intro allI impI)
    fix a b assume ab: "a < b" "length qs - Suc i \<le> b" "b < length qs"
    show "x2apicID (qs ! a) \<le> x2apicID (qs ! b)"
    proof (cases "b = ?k - 1")
      case True
      then show ?thesis using f(4) ab assms(1) by simp
    next
      case False
      then have b: "?k \<le> b" "b < length ps" using ab f(2) by auto
      show ?thesis
      proof (cases "a < ?k")
        case True
        have d: "drop ?k qs = drop ?k ps" using f(2,3) by (intro nth_equalityI) auto
        have "mset (take ?k qs) + mset (drop ?k qs) = mset (take ?k ps) + mset (drop ?k ps)"
          using f(1) by (metis append_take_drop_id mset_append)
        then have "set (take ?k qs) = set (take ?k ps)" using d by (metis add_right_cancel mset_eq_setD)
        moreover have "qs ! a \<in> set (take ?k qs)" using True f(2) by (auto simp: in_set_conv_nth intro!: exI [of _ a])
        ultimately obtain c where "c < ?k" "qs ! a = ps ! c" by (auto simp: in_set_conv_nth)
        then show ?thesis using f(3) b assms(2) unfolding ids_le_def by auto
      next
        case False
        then show ?thesis using f(2,3) b ab assms(2) unfolding ids_le_def by auto
      qed
    qed
  qed
qed

lemma sort_cpus_spec:
  "ids_le ps (length ps - i) \<Longrightarrow> i \<le> length ps \<Longrightarrow>
    mset (sort_cpus [i..<length ps] ps) = mset ps \<and> sorted (map x2apicID (sort_cpus [i..<length ps] ps))"
proof (induction "length ps - i" arbitrary: i ps)
  case 0
  then show ?case by (simp add: ids_le_def sorted_iff_nth_mono_less)
next
  case (Suc d)
  obtain qs fl where q: "sort_pass i ps = (qs, fl)" by fastforce
  have i: "i < length ps" using Suc.hyps(2) by simp
  note sp = sort_pass_spec [OF i Suc.prems(1) q]
  show ?case
  proof (cases fl)
    case True
    then show ?thesis using sp i q by (simp add: upt_conv_Cons ids_le_def sorted_iff_nth_mono_less)
  next
    case False
    have "mset (sort_cpus [Suc i..<length qs] qs) = mset qs \<and> sorted (map x2apicID (sort_cpus [Suc i..<length qs] qs))"
      by (rule Suc.hyps(1)) (use Suc.hyps(2) sp(2,3) i in auto)
    then show ?thesis using False sp(1,2) i q by (simp add: upt_conv_Cons)
  qed
qed

lemma sort_cpus_correct:
  "mset (sort_cpus [0..<length ps] ps) = mset ps" "sorted (map x2apicID (sort_cpus [0..<length ps] ps))"
  using sort_cpus_spec [of ps 0] by (simp_all add: ids_le_def)

section \<open>The table of processors\<close>

lemma maskIntr_total:
  assumes "c < length (cpuInfo s)" "unat vecSt + unat vecNum \<le> 256"
  shows "\<exists>s'. SMP_maskIntr c vecSt vecNum s = Some s' \<and> length (cpuInfo s') = length (cpuInfo s)"
  using assms mask_pkg [OF assms(2), of "cpuInfo s ! c"] by (auto simp: SMP_maskIntr_def upd_cpu_def)

lemma mask_spare_total:
  assumes "cpuInfo s \<noteq> []" "length (cpuInfo s) = k"
  shows "\<exists>s'. mask_spare s = Some s' \<and> length (cpuInfo s') = k"
proof -
  have n: "length (cpuInfo s) - 1 < length (cpuInfo s)" using assms(1) by simp
  obtain t where t: "SMP_maskIntr (length (cpuInfo s) - 1) 0 0x40 s = Some t" "length (cpuInfo t) = length (cpuInfo s)"
    using maskIntr_total [OF n, of 0 "0x40"] by auto
  then obtain u where "SMP_maskIntr (length (cpuInfo s) - 1) 0x80 0x80 t = Some u" "length (cpuInfo u) = length (cpuInfo t)"
    using maskIntr_total [of "length (cpuInfo s) - 1" t "0x80" "0x80"] n by auto
  with t show ?thesis using assms(2) by (simp add: mask_spare_def)
qed

lemma registerCPU_total:
  assumes "length (cpuInfo s) < Hardware_CPUNumber"
  shows "\<exists>s'. SMP_registerCPU x2 ap bsp mems s = Some s' \<and> length (cpuInfo s') = Suc (length (cpuInfo s))"
  using assms unfolding SMP_registerCPU_def Let_def
  by (cases bsp; cases mems; cases "x2 = bspx2ApicId s") (simp_all, (rule mask_spare_total; simp)+)

text \<open>The table has \<open>n\<close> entries from \<open>off\<close> on.\<close>

fun madt_entries :: "nat \<Rightarrow> nat \<Rightarrow> bytes \<Rightarrow> nat \<Rightarrow> bool" where
  "madt_entries 0 len m off \<longleftrightarrow> len \<le> off"
| "madt_entries (Suc n) len m off \<longleftrightarrow>
    off < len \<and> madt_entries n len m (off + unat (madt_field [Mem ''length''] off m))"

lemma scan_madt_returns:
  assumes f: "\<And>off s. length (cpuInfo s) < Hardware_CPUNumber \<Longrightarrow>
      \<exists>s'. f off m s = Some s' \<and> length (cpuInfo s') \<le> Suc (length (cpuInfo s))"
    and "madt_entries n len m off" "length (cpuInfo s) + n \<le> Hardware_CPUNumber"
  shows "\<exists>s'. scan_madt f len m off s = Some s' \<and> length (cpuInfo s') \<le> length (cpuInfo s) + n"
  using assms(2,3)
proof (induction n arbitrary: off s)
  case 0
  then show ?case by (subst scan_madt.simps) simp
next
  case (Suc n)
  obtain t where t: "f off m s = Some t" "length (cpuInfo t) \<le> Suc (length (cpuInfo s))"
    using f [of s off] Suc.prems(2) by auto
  obtain u where "scan_madt f len m (off + unat (madt_field [Mem ''length''] off m)) t = Some u"
    "length (cpuInfo u) \<le> length (cpuInfo t) + n"
    using Suc.IH [of "off + unat (madt_field [Mem ''length''] off m)" t] Suc.prems t(2) by auto
  then show ?case using t Suc.prems(1) by (subst scan_madt.simps) simp
qed

lemma madt_types_total:
  assumes "length (cpuInfo s) < Hardware_CPUNumber"
  shows "\<exists>s'. madt_type9 bsp mems off m s = Some s' \<and> length (cpuInfo s') \<le> Suc (length (cpuInfo s))"
    "\<exists>s'. madt_type0 bsp mems off m s = Some s' \<and> length (cpuInfo s') \<le> Suc (length (cpuInfo s))"
proof -
  have r: "\<exists>s'. SMP_registerCPU x2 ap bsp mm s = Some s' \<and> length (cpuInfo s') \<le> Suc (length (cpuInfo s))" for x2 ap mm
    using registerCPU_total [OF assms, of x2 ap bsp mm] by auto
  show "\<exists>s'. madt_type9 bsp mems off m s = Some s' \<and> length (cpuInfo s') \<le> Suc (length (cpuInfo s))"
    "\<exists>s'. madt_type0 bsp mems off m s = Some s' \<and> length (cpuInfo s') \<le> Suc (length (cpuInfo s))"
    using r by (simp_all add: madt_type9_def madt_type0_def Let_def)
qed

lemma find_bsp_cpuInfo [simp]: "cpuInfo (find_bsp s) = cpuInfo s"
  by (simp add: find_bsp_def split: option.split)

definition madt_len :: "bytes \<Rightarrow> nat" where
  "madt_len m = unat (the (rd_memb MADTDescriptor [Mem ''header'', Mem ''length''] 0 m) :: u32)"


definition demo_madt :: bytes where
  "demo_madt i = (if i = 4 then 52 else if i = 45 then 8 else if i = 47 then 3 else if i = 48 then 1 else 0)"


text \<open>An entry of length 0 keeps the scan from ending.\<close>

lemma scan_madt_stuck:
  assumes "off < len" "madt_field [Mem ''length''] off m = 0"
  shows "scan_madt f len m off s = None"
proof -
  have "scan_madt f' len' m' off' s' = Some r \<Longrightarrow> \<not> (off' < len' \<and> madt_field [Mem ''length''] off' m' = 0)" for f' len' m' off' s' r
    by (erule scan_madt.raw_induct [rotated]) (fastforce split: if_splits simp: Option.bind_eq_Some_conv)
  then show ?thesis using assms by (cases "scan_madt f len m off s") auto
qed

text \<open>C21: For processors with distinct x2APIC numbers, once sorted, the binary search finds what a linear search
  finds, and answers -1 for a number that is not in the table.\<close>

theorem cvtId_linear_search:
  assumes "cpuInfo s \<noteq> []" "length (cpuInfo s) < 2 ^ 31" "distinct (map x2apicID (cpuInfo s))"
    and t: "t = s\<lparr>cpuInfo := sort_cpus [0..<length (cpuInfo s)] (cpuInfo s)\<rparr>"
  shows "cvtId x t =
    (case List.find (\<lambda>i. x2apicID (cpuInfo t ! i) = x) [0..<length (cpuInfo t)] of Some i \<Rightarrow> of_nat i | None \<Rightarrow> - 1)"
proof -
  let ?ps = "sort_cpus [0..<length (cpuInfo s)] (cpuInfo s)"
  have l: "length ?ps = length (cpuInfo s)" by (rule mset_eq_length) (rule sort_cpus_correct(1))
  have "mset (map x2apicID ?ps) = mset (map x2apicID (cpuInfo s))" using sort_cpus_correct(1) by simp
  then have d: "distinct (map x2apicID ?ps)" using assms(3) mset_eq_imp_distinct_iff by blast
  have "by_id ?ps"
    using sort_cpus_correct(2) [of "cpuInfo s"] d strict_sorted_iff [of "map x2apicID ?ps"]
    by (simp add: by_id_def sorted_wrt_map)
  then have "(cvtId x t = - 1 \<and> x \<notin> x2apicID ` set ?ps) \<or> (\<exists>i<length ?ps. cvtId x t = of_nat i \<and> x2apicID (?ps ! i) = x)"
    using cvt_loop_spec [of ?ps 0 "int (length ?ps) - 1" x] assms(1,2) l t by (auto simp: cvtId_def Suc_le_eq)
  then show ?thesis
  proof
    assume "cvtId x t = - 1 \<and> x \<notin> x2apicID ` set ?ps"
    then have "cvtId x t = - 1" "List.find (\<lambda>i. x2apicID (cpuInfo t ! i) = x) [0..<length (cpuInfo t)] = None"
      using t unfolding find_order(2) by auto
    then show ?thesis by simp
  next
    assume "\<exists>i<length ?ps. cvtId x t = of_nat i \<and> x2apicID (?ps ! i) = x"
    then obtain i where i: "i < length ?ps" "cvtId x t = of_nat i" "x2apicID (?ps ! i) = x" by blast
    have "List.find (\<lambda>i. x2apicID (cpuInfo t ! i) = x) [0..<length (cpuInfo t)] = Some i"
      unfolding find_order(1) using i t d by (auto simp: distinct_conv_nth)
    then show ?thesis using i by simp
  qed
qed

theorem cvtId_linear_search_witness:
  "cvtId 7 ((demo_smp [demo_cpu 7 0, demo_cpu 3 0])
     \<lparr>cpuInfo := sort_cpus [0..<length [demo_cpu 7 0, demo_cpu 3 0]] [demo_cpu 7 0, demo_cpu 3 0]\<rparr>) = 1"
proof -
  let ?ps = "[demo_cpu 7 0, demo_cpu 3 0]"
  let ?t = "(demo_smp ?ps)\<lparr>cpuInfo := sort_cpus [0..<length ?ps] ?ps\<rparr>"
  have s: "sort_cpus [0..<length ?ps] ?ps = [demo_cpu 3 0, demo_cpu 7 0]"
    by (simp add: sort_pass_def swap_step_def demo_cpu_def upt_rec Let_def)
  have "cvtId 7 ?t = (case List.find (\<lambda>i. x2apicID (cpuInfo ?t ! i) = 7) [0..<length (cpuInfo ?t)] of
      Some i \<Rightarrow> of_nat i | None \<Rightarrow> - 1)"
    by (rule cvtId_linear_search [of "demo_smp ?ps"]) (simp_all add: demo_smp_def demo_cpu_def)
  then show ?thesis unfolding s by (simp add: demo_cpu_def upt_rec)
qed

end
