(* ===== verification/Timer.thy ===== *)
theory Timer
  imports RBTree_Queue
begin

text \<open>
  \<open>interrupt/softirq/softirq.c\<close> and \<open>timer.c\<close>: the deferred interrupts and the kernel timers.  The
  timers wait in a red-black tree ordered by expiration; the pointer to a timer stands for the one
  to its tree node, which lies at a fixed offset.  Handlers and timer functions are arguments.
  Switching interrupts on and off does not show in the state and is left out.
\<close>

section \<open>Deferred interrupts\<close>

definition Intr_SoftIrq_State_Timer :: u64 where "Intr_SoftIrq_State_Timer = push_bit 0 1"
definition Intr_SoftIrq_State_TestSchedule :: u64 where "Intr_SoftIrq_State_TestSchedule = push_bit 1 1"

record SoftIrq =
  handler :: u64
  sdata :: u64

record SoftSys =
  irqState :: "nat \<Rightarrow> u64"
  softIrqs :: "nat \<Rightarrow> SoftIrq"

definition Intr_SoftIrq_getState :: "nat \<Rightarrow> 'a SoftSys_scheme \<Rightarrow> u64" where
  "Intr_SoftIrq_getState cpu s = irqState s cpu"

definition Intr_SoftIrq_setState :: "nat \<Rightarrow> u64 \<Rightarrow> 'a SoftSys_scheme \<Rightarrow> 'a SoftSys_scheme" where
  "Intr_SoftIrq_setState cpu state s = s\<lparr>irqState := (irqState s)(cpu := irqState s cpu OR state)\<rparr>"

text \<open>\<open>irq\<close> is a byte; the table has 64 entries.\<close>

definition Intr_SoftIrq_register :: "u8 \<Rightarrow> u64 \<Rightarrow> u64 \<Rightarrow> 'a SoftSys_scheme \<Rightarrow> 'a SoftSys_scheme option" where
  "Intr_SoftIrq_register irq h d s =
    (if unat irq < 64 then Some (s\<lparr>softIrqs := (softIrqs s)(unat irq := \<lparr>handler = h, sdata = d\<rparr>)\<rparr>) else None)"

definition Intr_SoftIrq_unregister :: "u8 \<Rightarrow> 'a SoftSys_scheme \<Rightarrow> 'a SoftSys_scheme option" where
  "Intr_SoftIrq_unregister irq = Intr_SoftIrq_register irq NULL NULL"

text \<open>
  The test of a bit is \<open>*state & (1 << i)\<close> with a 1 of type \<open>int\<close>.  \<open>sh1 i\<close> is the value of
  \<open>1 << i\<close>, which C defines only for \<open>i < 31\<close>; on the processor it is \<open>x86_sh1\<close>.
\<close>

definition x86_sh1 :: "nat \<Rightarrow> i32" where
  "x86_sh1 i = push_bit (i mod 32) 1"

definition dispatch_step ::
    "(nat \<Rightarrow> i32) \<Rightarrow> (u64 \<Rightarrow> u64 \<Rightarrow> 'a SoftSys_scheme \<Rightarrow> 'a SoftSys_scheme option) \<Rightarrow> nat \<Rightarrow> nat \<Rightarrow>
      'a SoftSys_scheme \<Rightarrow> 'a SoftSys_scheme option" where
  "dispatch_step sh1 call cpu i s =
    (if irqState s cpu AND scast (sh1 i) \<noteq> 0 \<and> handler (softIrqs s i) \<noteq> NULL
     then map_option (\<lambda>s. s\<lparr>irqState := (irqState s)(cpu := irqState s cpu AND NOT (push_bit i 1))\<rparr>)
            (call (handler (softIrqs s i)) (sdata (softIrqs s i)) s)
     else Some s)"

fun dispatch_from ::
    "(nat \<Rightarrow> i32) \<Rightarrow> (u64 \<Rightarrow> u64 \<Rightarrow> 'a SoftSys_scheme \<Rightarrow> 'a SoftSys_scheme option) \<Rightarrow> nat \<Rightarrow> nat list \<Rightarrow>
      'a SoftSys_scheme \<Rightarrow> 'a SoftSys_scheme option" where
  "dispatch_from sh1 call cpu [] s = Some s"
| "dispatch_from sh1 call cpu (i # is) s = Option.bind (dispatch_step sh1 call cpu i s) (dispatch_from sh1 call cpu is)"

definition Intr_SoftIrq_dispatch where
  "Intr_SoftIrq_dispatch sh1 call cpu = dispatch_from sh1 call cpu [0..<64]"

section \<open>Timers\<close>

record TimerIrq =
  expireJiffies :: u64
  tfunc :: u64
  tdata :: u64
  tid :: u64

record TimerSys = SoftSys +
  timerIdCnt :: u64
  timerTree :: rbs
  timers :: "ptr \<Rightarrow> TimerIrq"
  timerLock :: SpinLock
  jiffies :: u64

definition TimerTree_comparator :: "(ptr \<Rightarrow> TimerIrq) \<Rightarrow> ptr \<Rightarrow> ptr \<Rightarrow> bool" where
  "TimerTree_comparator ts a b =
    (if expireJiffies (ts a) \<noteq> expireJiffies (ts b) then expireJiffies (ts a) < expireJiffies (ts b)
     else tid (ts a) < tid (ts b))"

text \<open>Something done to the tree under the lock; \<open>None\<close> when the lock is held and the caller spins.\<close>

definition timer_locked :: "(rbs \<Rightarrow> ('r \<times> rbs) option) \<Rightarrow> 'a TimerSys_scheme \<Rightarrow> ('r \<times> 'a TimerSys_scheme) option" where
  "timer_locked f s =
    (case SpinLock_acquire (timerLock s) of None \<Rightarrow> None
     | Some l \<Rightarrow> map_option (\<lambda>(r, t). (r, s\<lparr>timerTree := t, timerLock := SpinLock_unlock l\<rparr>)) (f (timerTree s)))"

text \<open>The tree is a global variable; its address only serves tests against \<open>NULL\<close>.\<close>

definition timerTree_addr :: ptr where "timerTree_addr = 8"

definition Intr_SoftIrq_Timer_initIrq :: "ptr \<Rightarrow> u64 \<Rightarrow> u64 \<Rightarrow> u64 \<Rightarrow> 'a TimerSys_scheme \<Rightarrow> 'a TimerSys_scheme" where
  "Intr_SoftIrq_Timer_initIrq irq expire func data s =
    s\<lparr>timers := (timers s)(irq := \<lparr>expireJiffies = jiffies s + expire, tfunc = func, tdata = data, tid = timerIdCnt s\<rparr>),
      timerIdCnt := timerIdCnt s + 1\<rparr>"

definition Intr_SoftIrq_Timer_addIrq :: "ptr \<Rightarrow> 'a TimerSys_scheme \<Rightarrow> 'a TimerSys_scheme option" where
  "Intr_SoftIrq_Timer_addIrq irq s =
    map_option snd (timer_locked (\<lambda>t. map_option (Pair ()) (RBTree_insNode (TimerTree_comparator (timers s)) timerTree_addr irq t)) s)"

definition Intr_SoftIrq_Timer_updateState :: "'a TimerSys_scheme \<Rightarrow> 'a TimerSys_scheme option" where
  "Intr_SoftIrq_Timer_updateState s =
    map_option (\<lambda>(minNode, s).
        if minNode \<noteq> NULL \<and> expireJiffies (timers s minNode) \<le> jiffies s
        then Intr_SoftIrq_setState 0 Intr_SoftIrq_State_Timer s else s)
      (timer_locked (RBTree_getMin timerTree_addr) s)"

definition take_timer :: "ptr \<Rightarrow> rbs \<Rightarrow> (ptr \<times> rbs) option" where
  "take_timer minNode t = Option.bind (RBTree_delNode timerTree_addr minNode t) (RBTree_getMin timerTree_addr)"

partial_function (option) doTimer_loop ::
    "(u64 \<Rightarrow> ptr \<Rightarrow> u64 \<Rightarrow> 'a TimerSys_scheme \<Rightarrow> 'a TimerSys_scheme option) \<Rightarrow> u64 \<Rightarrow> ptr \<Rightarrow>
      'a TimerSys_scheme \<Rightarrow> 'a TimerSys_scheme option" where
  "doTimer_loop call j irq s =
    (if irq \<noteq> NULL \<and> expireJiffies (timers s irq) \<le> j
     then Option.bind (timer_locked (take_timer irq) s)
            (\<lambda>(minNode, s). Option.bind (call (tfunc (timers s irq)) irq (tdata (timers s irq)) s)
               (doTimer_loop call j minNode))
     else Some s)"

text \<open>At the end the function unlocks once more.\<close>

definition doTimer ::
    "(u64 \<Rightarrow> ptr \<Rightarrow> u64 \<Rightarrow> 'a TimerSys_scheme \<Rightarrow> 'a TimerSys_scheme option) \<Rightarrow>
      'a TimerSys_scheme \<Rightarrow> 'a TimerSys_scheme option" where
  "doTimer call s =
    Option.bind (timer_locked (RBTree_getMin timerTree_addr) s)
      (\<lambda>(minNode, s). map_option (\<lambda>s. s\<lparr>timerLock := SpinLock_unlock (timerLock s)\<rparr>)
         (doTimer_loop call (jiffies s) minNode s))"

definition doTimer_addr :: u64 where "doTimer_addr = 0xffff800000100000"

definition Intr_SoftIrq_Timer_init :: "'a TimerSys_scheme \<Rightarrow> 'a TimerSys_scheme option" where
  "Intr_SoftIrq_Timer_init s =
    Intr_SoftIrq_register 0 doTimer_addr NULL
      (s\<lparr>timerIdCnt := 0, timerTree := RBTree_init (timerTree s), timerLock := SpinLock_init (timerLock s)\<rparr>)"

definition Intr_SoftIrq_init :: "'a TimerSys_scheme \<Rightarrow> 'a TimerSys_scheme option" where
  "Intr_SoftIrq_init s =
    Intr_SoftIrq_Timer_init (s\<lparr>irqState := (\<lambda>_. 0), softIrqs := (\<lambda>_. \<lparr>handler = NULL, sdata = NULL\<rparr>)\<rparr>)"

text \<open>The only handler the kernel registers is \<open>_doTimer\<close>.\<close>

definition soft_handlers ::
    "(u64 \<Rightarrow> ptr \<Rightarrow> u64 \<Rightarrow> 'a TimerSys_scheme \<Rightarrow> 'a TimerSys_scheme option) \<Rightarrow> u64 \<Rightarrow> u64 \<Rightarrow>
      'a TimerSys_scheme \<Rightarrow> 'a TimerSys_scheme option" where
  "soft_handlers call h d s = (if h = doTimer_addr then doTimer call s else None)"

text \<open>Waiting, given the values that successive reads of the counter return.\<close>

fun mdelay_reads :: "u64 \<Rightarrow> u64 \<Rightarrow> u64 list \<Rightarrow> nat" where
  "mdelay_reads st msec [] = 0"
| "mdelay_reads st msec (r # rs) = (if r - st < msec then Suc (mdelay_reads st msec rs) else 0)"

definition Intr_SoftIrq_Timer_mdelay :: "u64 \<Rightarrow> u64 \<Rightarrow> u64 list \<Rightarrow> u64 \<Rightarrow> nat" where
  "Intr_SoftIrq_Timer_mdelay rflags st rs msec =
    (if rflags AND push_bit 9 1 = 0 then 0 else mdelay_reads st msec rs)"

section \<open>The timers as an ordered queue\<close>

lemma weak_order_timer: "weak_order (TimerTree_comparator ts)"
  by (auto simp: weak_order_def TimerTree_comparator_def split: if_splits)

interpretation tmq: ordered_queue
  "RBTree_insNode (TimerTree_comparator ts) timerTree_addr" "RBTree_delNode timerTree_addr"
  "RBTree_getMin timerTree_addr" tree_ok okp "TimerTree_comparator ts"
  for ts :: "ptr \<Rightarrow> TimerIrq"
  by (rule rbtree_queue [OF weak_order_timer]) (simp add: timerTree_addr_def)

lemma timer_locked_free:
  "lock (timerLock s) = 0 \<Longrightarrow> timer_locked f s = map_option (\<lambda>(r, t). (r, s\<lparr>timerTree := t\<rparr>)) (f (timerTree s))"
  unfolding timer_locked_def SpinLock_unlock_def by (cases s; cases "timerLock s") (auto simp: SpinLock_acquire_free)

lemma getMin_timers:
  "tree_ok t xs \<Longrightarrow> \<exists>t'. RBTree_getMin timerTree_addr t = Some (if xs = [] then NULL else hd xs, t') \<and> tree_ok t' xs"
  by (erule tree_ok_min) (simp add: timerTree_addr_def)

text \<open>Timer functions that leave the timers alone, as the one of the tasks does, are effects on the rest of the state.\<close>

definition quiet :: "(u64 \<Rightarrow> ptr \<Rightarrow> u64 \<Rightarrow> 'a \<Rightarrow> 'a) \<Rightarrow> u64 \<Rightarrow> ptr \<Rightarrow> u64 \<Rightarrow> 'a TimerSys_scheme \<Rightarrow> 'a TimerSys_scheme option" where
  "quiet eff f p d s = Some (TimerSys.more_update (eff f p d) s)"

definition due :: "'a TimerSys_scheme \<Rightarrow> ptr \<Rightarrow> bool" where
  "due s p \<longleftrightarrow> expireJiffies (timers s p) \<le> jiffies s"

definition run_all :: "(u64 \<Rightarrow> ptr \<Rightarrow> u64 \<Rightarrow> 'a \<Rightarrow> 'a) \<Rightarrow> (ptr \<Rightarrow> TimerIrq) \<Rightarrow> ptr list \<Rightarrow> 'a \<Rightarrow> 'a" where
  "run_all eff ts ps = fold (\<lambda>p. eff (tfunc (ts p)) p (tdata (ts p))) ps"

lemma doTimer_loop_quiet:
  assumes "tree_ok (timerTree s) xs" "lock (timerLock s) = 0"
  shows "\<exists>t. doTimer_loop (quiet eff) j (if xs = [] then NULL else hd xs) s =
      Some (TimerSys.more_update (run_all eff (timers s) (takeWhile (\<lambda>p. expireJiffies (timers s p) \<le> j) xs)) (s\<lparr>timerTree := t\<rparr>)) \<and>
    tree_ok t (dropWhile (\<lambda>p. expireJiffies (timers s p) \<le> j) xs)"
  using assms
proof (induction xs arbitrary: s)
  case Nil
  then show ?case by (subst doTimer_loop.simps) (auto simp: run_all_def intro!: exI [of _ "timerTree s"])
next
  case (Cons x xs)
  show ?case
  proof (cases "expireJiffies (timers s x) \<le> j")
    case False
    then show ?thesis using Cons.prems
      by (subst doTimer_loop.simps) (auto simp: run_all_def intro!: exI [of _ "timerTree s"])
  next
    case True
    have x: "x \<noteq> NULL" using Cons.prems(1) tree_ok_okp [of "timerTree s" "x # xs" x] by auto
    obtain t1 where t1: "RBTree_delNode timerTree_addr x (timerTree s) = Some t1" "tree_ok t1 xs"
      using tmq.del_law [OF Cons.prems(1), of x] by auto
    obtain t2 where t2: "RBTree_getMin timerTree_addr t1 = Some (if xs = [] then NULL else hd xs, t2)" "tree_ok t2 xs"
      using getMin_timers [OF t1(2)] by blast
    define u where "u = TimerSys.more_update (eff (tfunc (timers s x)) x (tdata (timers s x))) (s\<lparr>timerTree := t2\<rparr>)"
    have u: "timers u = timers s" "timerTree u = t2" "timerLock u = timerLock s" by (simp_all add: u_def)
    obtain t where t: "doTimer_loop (quiet eff) j (if xs = [] then NULL else hd xs) u =
        Some (TimerSys.more_update (run_all eff (timers u) (takeWhile (\<lambda>p. expireJiffies (timers u p) \<le> j) xs)) (u\<lparr>timerTree := t\<rparr>))"
      "tree_ok t (dropWhile (\<lambda>p. expireJiffies (timers u p) \<le> j) xs)"
      using Cons.IH [of u] t2(2) Cons.prems(2) u by auto
    have "doTimer_loop (quiet eff) j x s = doTimer_loop (quiet eff) j (if xs = [] then NULL else hd xs) u"
      using True x t1(1) t2(1) Cons.prems(2)
      by (subst doTimer_loop.simps) (simp add: timer_locked_free take_timer_def quiet_def u_def)
    then show ?thesis using t True u by (auto simp: run_all_def u_def intro!: exI [of _ t])
  qed
qed

lemma doTimer_quiet:
  assumes "tree_ok (timerTree s) xs" "lock (timerLock s) = 0"
  shows "\<exists>t. doTimer (quiet eff) s =
      Some (TimerSys.more_update (run_all eff (timers s) (takeWhile (due s) xs)) (s\<lparr>timerTree := t\<rparr>)) \<and>
    tree_ok t (dropWhile (due s) xs)"
proof -
  obtain t1 where t1: "RBTree_getMin timerTree_addr (timerTree s) = Some (if xs = [] then NULL else hd xs, t1)" "tree_ok t1 xs"
    using getMin_timers [OF assms(1)] by blast
  define u where "u = s\<lparr>timerTree := t1\<rparr>"
  obtain t where t: "doTimer_loop (quiet eff) (jiffies s) (if xs = [] then NULL else hd xs) u =
      Some (TimerSys.more_update (run_all eff (timers u) (takeWhile (\<lambda>p. expireJiffies (timers u p) \<le> jiffies s) xs)) (u\<lparr>timerTree := t\<rparr>))"
    "tree_ok t (dropWhile (\<lambda>p. expireJiffies (timers u p) \<le> jiffies s) xs)"
    using doTimer_loop_quiet [of u xs eff "jiffies s"] t1(2) assms(2) by (auto simp: u_def)
  have l: "SpinLock_unlock (timerLock s) = timerLock s"
    using assms(2) by (cases "timerLock s") (simp add: SpinLock_unlock_def)
  have d: "(\<lambda>p. expireJiffies (timers s p) \<le> jiffies s) = due s" by (rule ext) (simp add: due_def)
  show ?thesis
    using t t1(1) assms(2) by (auto simp: doTimer_def timer_locked_free u_def l d intro!: exI [of _ t])
qed

text \<open>The interrupts other than the one of the timers have no handler.\<close>

definition timer_only :: "'a SoftSys_scheme \<Rightarrow> bool" where
  "timer_only s \<longleftrightarrow> handler (softIrqs s 0) = doTimer_addr \<and> (\<forall>i. 0 < i \<longrightarrow> handler (softIrqs s i) = NULL)"

lemma dispatch_others: "\<forall>i\<in>set is. handler (softIrqs s i) = NULL \<Longrightarrow> dispatch_from sh1 call cpu is s = Some s"
  by (induction "is") (auto simp: dispatch_step_def)

lemma Intr_SoftIrq_init_ok:
  "\<exists>s'. Intr_SoftIrq_init s = Some s' \<and> timer_only s' \<and> tree_ok (timerTree s') [] \<and> lock (timerLock s') = 0 \<and> irqState s' = (\<lambda>_. 0)"
  by (auto simp: Intr_SoftIrq_init_def Intr_SoftIrq_Timer_init_def Intr_SoftIrq_register_def timer_only_def
      tree_ok_empty SpinLock_init_def)

lemma due_first:
  "ordered (TimerTree_comparator (timers s)) xs \<Longrightarrow> takeWhile (due s) xs = filter (due s) xs"
  "ordered (TimerTree_comparator (timers s)) xs \<Longrightarrow> dropWhile (due s) xs = filter (\<lambda>p. \<not> due s p) xs"
proof (induction xs)
  case (Cons x xs)
  have "\<not> due s p" if "\<not> due s x" "p \<in> set xs" "ordered (TimerTree_comparator (timers s)) (x # xs)" for p
    using that by (force simp: ordered_def TimerTree_comparator_def due_def split: if_splits)
  moreover have o: "ordered (TimerTree_comparator (timers s)) (x # xs) \<Longrightarrow> ordered (TimerTree_comparator (timers s)) xs"
    by (simp add: ordered_def)
  ultimately show
    "ordered (TimerTree_comparator (timers s)) (x # xs) \<Longrightarrow> takeWhile (due s) (x # xs) = filter (due s) (x # xs)"
    "ordered (TimerTree_comparator (timers s)) (x # xs) \<Longrightarrow> dropWhile (due s) (x # xs) = filter (\<lambda>p. \<not> due s p) (x # xs)"
    using Cons.IH by (auto simp: filter_empty_conv filter_id_conv)
qed simp_all

text \<open>Adding a timer puts it behind the timers that expire not later.\<close>

lemma addIrq_ok:
  assumes "tree_ok (timerTree s) xs" "ordered (TimerTree_comparator (timers s)) xs" "lock (timerLock s) = 0"
    "okp p" "p \<notin> set xs"
  shows "\<exists>t ys zs. Intr_SoftIrq_Timer_addIrq p s = Some (s\<lparr>timerTree := t\<rparr>) \<and> xs = ys @ zs \<and>
    tree_ok t (ys @ p # zs) \<and> ordered (TimerTree_comparator (timers s)) (ys @ p # zs)"
proof -
  obtain t ys zs where "RBTree_insNode (TimerTree_comparator (timers s)) timerTree_addr p (timerTree s) = Some t"
    "tree_ok t (ys @ p # zs)" "xs = ys @ zs" "ordered (TimerTree_comparator (timers s)) (ys @ p # zs)"
    using tmq.ins_law [OF assms(1,4,5)] assms(2) unfolding ordered_def by blast
  then show ?thesis using assms(3) by (auto simp: Intr_SoftIrq_Timer_addIrq_def timer_locked_free)
qed

text \<open>Nothing is due when the first timer is not.\<close>

lemma updateState_ok:
  assumes "tree_ok (timerTree s) xs" "ordered (TimerTree_comparator (timers s)) xs" "lock (timerLock s) = 0"
  shows "\<exists>t. Intr_SoftIrq_Timer_updateState s =
      Some (s\<lparr>timerTree := t, irqState := (irqState s)(0 := irqState s 0 OR of_bool (filter (due s) xs \<noteq> []))\<rparr>) \<and> tree_ok t xs"
proof -
  obtain t where t: "RBTree_getMin timerTree_addr (timerTree s) = Some (if xs = [] then NULL else hd xs, t)" "tree_ok t xs"
    using getMin_timers [OF assms(1)] by blast
  have nn: "hd xs \<noteq> NULL" if "xs \<noteq> []" using tree_ok_okp [OF assms(1), of "hd xs"] that by auto
  have "filter (due s) xs \<noteq> [] \<longleftrightarrow> xs \<noteq> [] \<and> due s (hd xs)"
    unfolding due_first(1) [OF assms(2), symmetric] by (cases xs) auto
  then show ?thesis
    using t nn assms(3)
    by (auto simp: Intr_SoftIrq_Timer_updateState_def timer_locked_free Intr_SoftIrq_setState_def
        Intr_SoftIrq_State_Timer_def due_def)
qed

lemma low_bit_clear:
  fixes x :: u64
  assumes "(x OR of_bool b) AND 1 = 0" shows "\<not> b" "(x OR of_bool b) = x AND NOT 1"
proof -
  show b: "\<not> b"
  proof
    assume b
    then have "bit ((x OR of_bool b) AND 1) 0" by (simp add: bit_or_iff bit_and_iff)
    then show False using assms by simp
  qed
  have "\<not> bit x 0"
  proof
    assume "bit x 0"
    then have "bit ((x OR of_bool b) AND 1) 0" by (simp add: bit_or_iff bit_and_iff)
    then show False using assms by simp
  qed
  then show "(x OR of_bool b) = x AND NOT 1"
    using b by (intro bit_word_eqI) (auto simp: bit_and_iff bit_not_iff bit_1_iff intro: Nat.gr0I)
qed

lemma low_bit_masked: "((x :: u64) OR of_bool b) AND NOT 1 = x AND NOT 1"
  by (rule bit_word_eqI) (auto simp: bit_and_iff bit_or_iff bit_not_iff bit_1_iff)


definition demo_timers :: "ptr list TimerSys_scheme" where
  "demo_timers = \<lparr>irqState = (\<lambda>_. 0), softIrqs = (\<lambda>i. \<lparr>handler = (if i = 0 then doTimer_addr else 0), sdata = 0\<rparr>),
     timerIdCnt = 3, timerTree = sample_tree, timers = (\<lambda>p. \<lparr>expireJiffies = p, tfunc = 0, tdata = 0, tid = 0\<rparr>),
     timerLock = \<lparr>lock = 0\<rparr>, jiffies = 40, \<dots> = []\<rparr>"


text \<open>
  On the processor the test of interrupt 32 looks at bit 0, so a pending timer interrupt also calls
  the handler of interrupt 32, if there is one.
\<close>

lemma dispatch_alias: "dispatch_step x86_sh1 call cpu 32 s =
    (if bit (irqState s cpu) 0 \<and> handler (softIrqs s 32) \<noteq> NULL
     then map_option (\<lambda>s. s\<lparr>irqState := (irqState s)(cpu := irqState s cpu AND NOT (push_bit 32 1))\<rparr>)
            (call (handler (softIrqs s 32)) (sdata (softIrqs s 32)) s)
     else Some s)"
proof -
  have "irqState s cpu AND 1 = 0 \<longleftrightarrow> \<not> bit (irqState s cpu) 0" by (simp add: and_one_eq bit_0 even_iff_mod_2_eq_zero)
  then show ?thesis by (simp add: dispatch_step_def x86_sh1_def)
qed

end
