(* ===== verification/Sched.thy ===== *)
theory Sched
  imports Timer "HOL-Library.Signed_Division"
begin

text \<open>
  \<open>task/mgr.c\<close>: tasks, the queues of waiting tasks, switching, signals and the timers of tasks.  A
  pointer to a task (or task timer) also stands for the one to its tree node, which lies at a fixed
  offset.  Each processor has a queue, a red-black tree ordered by virtual run time; the trees
  share the nodes.  \<open>Task_current\<close> is \<open>current s cpu\<close>.
\<close>

section \<open>State\<close>

definition Init_taskStackSize :: u64 where "Init_taskStackSize = 32768"
definition Task_Flag_Slaver :: u64 where "Task_Flag_Slaver = push_bit 0 1"
definition Task_Flag_Kernel :: u64 where "Task_Flag_Kernel = push_bit 1 1"
definition Task_Flag_Inner :: u64 where "Task_Flag_Inner = push_bit 2 1"
definition Task_Flag_UseFloat :: u64 where "Task_Flag_UseFloat = push_bit 3 1"
definition Task_Flag_InKillTree :: u64 where "Task_Flag_InKillTree = push_bit 4 1"
definition Task_Flag_NeedSchedule :: u64 where "Task_Flag_NeedSchedule = push_bit 5 1"
definition Task_State_Uninterruptible :: i64 where "Task_State_Uninterruptible = push_bit 0 1"
definition Task_State_Running :: i64 where "Task_State_Running = push_bit 1 1"
definition Task_State_Sleeping :: i64 where "Task_State_Sleeping = push_bit 2 1"
definition Task_userStackEnd :: u64 where "Task_userStackEnd = 0x00007ffffffffff0"
definition Task_userStackSize :: u64 where "Task_userStackSize = 0x0000000000fffff0"
definition Task_userStackStart :: u64 where "Task_userStackStart = 0x00007fffff000000"
definition Task_kernelStackSize :: u64 where "Task_kernelStackSize = 0x0000000000008000"
definition Task_userBrkStart :: u64 where "Task_userBrkStart = 0x0000000000100000"
definition Task_kernelBrkStart :: u64 where "Task_kernelBrkStart = 0xffff800000000000"
definition Task_Priority_Normal :: u64 where "Task_Priority_Normal = 0"
definition Task_Priority_IO :: u64 where "Task_Priority_IO = 1"
definition Task_Priority_Sleeping :: u64 where "Task_Priority_Sleeping = 3"
definition Task_Priority_Trapped :: u64 where "Task_Priority_Trapped = 4"
definition Task_Priority_Killed :: u64 where "Task_Priority_Killed = 5"
definition Task_KrlPagePhyAddr :: u64 where "Task_KrlPagePhyAddr = 0x101000"
definition Task_signalNum :: nat where "Task_signalNum = 64"
definition Task_Signal_Int :: u64 where "Task_Signal_Int = 0"
definition Task_Signal_Kill :: u64 where "Task_Signal_Kill = 1"
definition Task_Signal_FloatError :: u64 where "Task_Signal_FloatError = 32"
definition Task_Signal_Timer :: u64 where "Task_Signal_Timer = 33"
definition Task_Timer_Flag_Enabled :: u64 where "Task_Timer_Flag_Enabled = push_bit 0 1"
definition Task_Timer_Flag_Expire :: u64 where "Task_Timer_Flag_Expire = push_bit 1 1"
definition Task_Timer_Flag_InQueue :: u64 where "Task_Timer_Flag_InQueue = push_bit 2 1"
definition Segment_kernelData :: u64 where "Segment_kernelData = 0x10"
definition Segment_kernelCode :: u64 where "Segment_kernelCode = 0x18"
definition Segment_userData :: u64 where "Segment_userData = 0x30"
definition Segment_userCode :: u64 where "Segment_userCode = 0x38"

record ThreadStruct =
  rip :: u64
  rsp :: u64
  fs :: u64
  gs :: u64
  cr2 :: u64
  trapNum :: u64
  errCode :: u64
  rflags :: u64

record TaskMemStruct =
  pgdPhyAddr :: u64
  totUsage :: u64
  pageUsage :: "ptr list"
  kmallocUsage :: "ptr list"
  krlStkPage :: ptr

record TSSRegs =
  rsps :: "nat \<Rightarrow> u64"
  ists :: "nat \<Rightarrow> u64"

record TaskStruct =
  state :: i64
  thread :: ThreadStruct
  tmem :: TaskMemStruct
  tss :: TSSRegs
  flags :: u64
  vRunTime :: i64
  resRunTime :: i64
  pid :: u64
  cpuId :: u64
  signal :: u64
  priority :: u64
  taskTimers :: RBTree
  timerTreeLock :: SpinLock
  signalHandler :: "nat \<Rightarrow> u64"
  signalHandlerParam :: "nat \<Rightarrow> u64"
  simdRegs :: ptr

record Task_Timer =
  tmFunc :: u64
  tmData :: u64
  tmFlags :: u64

record CFS_rq =
  cfsTree :: "nat \<Rightarrow> RBTree"
  killedTree :: RBTree
  cfsLock :: "nat \<Rightarrow> SpinLock"
  killedTreeLock :: SpinLock
  taskNum :: "nat \<Rightarrow> Atomic"
  cfsFlags :: u64
  killedTaskNum :: Atomic
  recycTskState :: Atomic

record PtRegs =
  rdi :: u64
  rsi :: u64
  segs :: u64
  ripReg :: u64
  csReg :: u64
  rflagsReg :: u64
  rspReg :: u64

text \<open>
  \<open>segs\<close> is the common value of \<open>ds\<close>, \<open>es\<close> and \<open>ss\<close>; \<open>stackRegs p\<close> are the registers stored at the
  top of the stack of task \<open>p\<close>.
\<close>

record TaskSys = TimerSys +
  cfs :: CFS_rq
  tasks :: "ptr \<Rightarrow> TaskStruct"
  wnodes :: "ptr \<Rightarrow> RBNode"
  tmNodes :: "ptr \<Rightarrow> RBNode"
  taskTmr :: "ptr \<Rightarrow> Task_Timer"
  current :: "nat \<Rightarrow> ptr"
  cpuTss :: "nat \<Rightarrow> TSSRegs"
  stackRegs :: "ptr \<Rightarrow> PtRegs"
  pidCounter :: i32

definition upd_task :: "ptr \<Rightarrow> (TaskStruct \<Rightarrow> TaskStruct) \<Rightarrow> 'a TaskSys_scheme \<Rightarrow> 'a TaskSys_scheme" where
  "upd_task p f s = s\<lparr>tasks := (tasks s)(p := f (tasks s p))\<rparr>"

section \<open>Trees that share nodes\<close>

definition with_nodes :: "RBTree \<Rightarrow> (ptr \<Rightarrow> RBNode) \<Rightarrow> rbs" where
  "with_nodes t h = \<lparr>root = root t, tlock = tlock t, nd = h\<rparr>"

definition tree_part :: "rbs \<Rightarrow> RBTree" where
  "tree_part r = \<lparr>root = root r, tlock = tlock r\<rparr>"

text \<open>An operation on the queue of processor \<open>c\<close>, and on the tree of the killed tasks.\<close>

definition on_queue :: "nat \<Rightarrow> (rbs \<Rightarrow> ('r \<times> rbs) option) \<Rightarrow> 'a TaskSys_scheme \<Rightarrow> ('r \<times> 'a TaskSys_scheme) option" where
  "on_queue c f s = map_option (\<lambda>(x, r). (x, s\<lparr>cfs := (cfs s)\<lparr>cfsTree := (cfsTree (cfs s))(c := tree_part r)\<rparr>, wnodes := nd r\<rparr>))
    (f (with_nodes (cfsTree (cfs s) c) (wnodes s)))"

definition on_killed :: "(rbs \<Rightarrow> ('r \<times> rbs) option) \<Rightarrow> 'a TaskSys_scheme \<Rightarrow> ('r \<times> 'a TaskSys_scheme) option" where
  "on_killed f s = map_option (\<lambda>(x, r). (x, s\<lparr>cfs := (cfs s)\<lparr>killedTree := tree_part r\<rparr>, wnodes := nd r\<rparr>))
    (f (with_nodes (killedTree (cfs s)) (wnodes s)))"

definition no_result :: "('s \<Rightarrow> 's option) \<Rightarrow> 's \<Rightarrow> (unit \<times> 's) option" where
  "no_result f s = map_option (Pair ()) (f s)"

text \<open>The trees are parts of structures, at addresses that are not \<open>NULL\<close>.\<close>

definition cfs_addr :: ptr where "cfs_addr = 8"

definition CFSTree_comparator :: "(ptr \<Rightarrow> TaskStruct) \<Rightarrow> ptr \<Rightarrow> ptr \<Rightarrow> bool" where
  "CFSTree_comparator ts a b =
    (if vRunTime (ts a) \<noteq> vRunTime (ts b) then vRunTime (ts a) <s vRunTime (ts b) else pid (ts a) < pid (ts b))"

section \<open>The scheduler\<close>

text \<open>The table of weights has 50 entries.\<close>

definition weight :: "u64 \<Rightarrow> i64 option" where
  "weight p = (if p < 6 then Some (ucast p + 1) else if p < 50 then Some (- 1) else None)"

definition Task_kernelEntryHeader :: "nat \<Rightarrow> 'a TaskSys_scheme \<Rightarrow> 'a TaskSys_scheme" where
  "Task_kernelEntryHeader cpu s = upd_task (current s cpu) (\<lambda>t. t\<lparr>state := Task_State_Running\<rparr>) s"

definition Task_switchTo_inner :: "nat \<Rightarrow> ptr \<Rightarrow> 'a TaskSys_scheme \<Rightarrow> 'a TaskSys_scheme" where
  "Task_switchTo_inner cpu next s =
    (let n = tss (tasks s next); o' = cpuTss s cpu in
     s\<lparr>cpuTss := (cpuTss s)(cpu := \<lparr>rsps = (rsps o')(0 := rsps n 0), ists = (ists o')(1 := ists n 1, 2 := ists n 2)\<rparr>)\<rparr>)"

text \<open>Switching: the processor continues with the stack of the next task.\<close>

definition Task_switch :: "nat \<Rightarrow> ptr \<Rightarrow> 'a TaskSys_scheme \<Rightarrow> 'a TaskSys_scheme" where
  "Task_switch cpu next s = (Task_switchTo_inner cpu next s)\<lparr>current := (current s)(cpu := next)\<rparr>"

text \<open>Giving up the processor; the result says that the processor sends itself the vector for scheduling.\<close>

definition Task_releaseProcessor :: "nat \<Rightarrow> 'a TaskSys_scheme \<Rightarrow> 'a TaskSys_scheme" where
  "Task_releaseProcessor cpu s =
    upd_task (current s cpu) (\<lambda>t. t\<lparr>flags := flags t OR Task_Flag_NeedSchedule, resRunTime := 0\<rparr>) s"

text \<open>\<open>None\<close>: a priority behind the table, or a division by zero.\<close>

definition account :: "i64 \<Rightarrow> i64 \<Rightarrow> TaskStruct \<Rightarrow> TaskStruct option" where
  "account w n t =
    (let t = t\<lparr>vRunTime := vRunTime t + w, resRunTime := resRunTime t - w\<rparr> in
     if sint (resRunTime t) \<le> 0 then
       if n = 0 then None
       else Some (t\<lparr>flags := flags t OR Task_Flag_NeedSchedule,
         resRunTime := w * (let q = word_of_int (20 sdiv sint n) in if 1 <s q then q else 1)\<rparr>)
     else Some (t\<lparr>flags := flags t AND NOT Task_Flag_NeedSchedule\<rparr>))"

definition Task_updateCurState :: "nat \<Rightarrow> 'a TaskSys_scheme \<Rightarrow> 'a TaskSys_scheme option" where
  "Task_updateCurState cpu s =
    (let p = current s cpu; t = tasks s p in
     Option.bind (weight (priority t)) (\<lambda>w.
       map_option (\<lambda>t. s\<lparr>tasks := (tasks s)(p := t)\<rparr>) (account w (value (taskNum (cfs s) (unat (cpuId t)))) t)))"

text \<open>What a call of the scheduler leads to: it returns, has switched, the task has ended, or the processor halts.\<close>

datatype outcome = Returns | Switched | Exits | Halts

definition Task_defaultSignalHandler :: "nat \<Rightarrow> outcome" where
  "Task_defaultSignalHandler i =
    (if of_nat i = Task_Signal_Kill \<or> of_nat i = Task_Signal_Int \<or> of_nat i = Task_Signal_FloatError then Exits else Halts)"

text \<open>Handling the signals of the task \<open>p\<close>; \<open>call h i d\<close> calls the handler \<open>h\<close>.\<close>

fun signals_from ::
    "(u64 \<Rightarrow> nat \<Rightarrow> u64 \<Rightarrow> 'a TaskSys_scheme \<Rightarrow> 'a TaskSys_scheme option) \<Rightarrow> ptr \<Rightarrow> nat list \<Rightarrow>
      'a TaskSys_scheme \<Rightarrow> (outcome \<times> 'a TaskSys_scheme) option" where
  "signals_from call p [] s = Some (Returns, s)"
| "signals_from call p (i # is) s =
    (if signal (tasks s p) AND push_bit i 1 \<noteq> 0 then
       let s = upd_task p (\<lambda>t. t\<lparr>signal := signal t AND NOT (push_bit i 1)\<rparr>) s in
       if signalHandler (tasks s p) i \<noteq> NULL
       then Option.bind (call (signalHandler (tasks s p) i) i (signalHandlerParam (tasks s p) i) s) (signals_from call p is)
       else Some (Task_defaultSignalHandler i, s)
     else signals_from call p is s)"

text \<open>Putting the current task into a tree.\<close>

definition enqueue_cur :: "nat \<Rightarrow> 'a TaskSys_scheme \<Rightarrow> 'a TaskSys_scheme option" where
  "enqueue_cur cpu s =
    (let p = current s cpu; c = unat (cpuId (tasks s p));
         ins = no_result (RBTree_insNode (CFSTree_comparator (tasks s)) cfs_addr p) in
     if priority (tasks s p) = Task_Priority_Killed \<and> value (recycTskState (cfs s)) = 0 then
       map_option (\<lambda>(_, s).
           let s = s\<lparr>cfs := (cfs s)\<lparr>killedTaskNum := Atomic_inc (killedTaskNum (cfs s))\<rparr>\<rparr>;
               s = upd_task p (\<lambda>t. t\<lparr>flags := flags t OR Task_Flag_InKillTree\<rparr>) s
           in s\<lparr>cfs := (cfs s)\<lparr>taskNum := (taskNum (cfs s))(c := Atomic_dec (taskNum (cfs s) c))\<rparr>\<rparr>)
         (on_killed ins s)
     else map_option snd (on_queue c ins s))"

text \<open>Taking the first task of a queue out; \<open>None\<close> when there is none, since the code switches to it nevertheless.\<close>

definition dequeue_min :: "nat \<Rightarrow> 'a TaskSys_scheme \<Rightarrow> (ptr \<times> 'a TaskSys_scheme) option" where
  "dequeue_min c s =
    Option.bind (on_queue c (RBTree_getMin cfs_addr) s)
      (\<lambda>(leftMost, s). Option.bind (on_queue c (no_result (RBTree_delNode cfs_addr leftMost)) s)
         (\<lambda>(_, s). if leftMost = NULL then None else Some (leftMost, s)))"

definition Task_schedule ::
    "(u64 \<Rightarrow> nat \<Rightarrow> u64 \<Rightarrow> 'a TaskSys_scheme \<Rightarrow> 'a TaskSys_scheme option) \<Rightarrow> nat \<Rightarrow>
      'a TaskSys_scheme \<Rightarrow> (outcome \<times> 'a TaskSys_scheme) option" where
  "Task_schedule call cpu s =
    (let p = current s cpu in
     if cfsFlags (cfs s) = 0 \<or> flags (tasks s p) AND Task_Flag_NeedSchedule = 0 then Some (Returns, s)
     else
       let s = upd_task p (\<lambda>t. t\<lparr>flags := flags t AND NOT Task_Flag_NeedSchedule\<rparr>) s in
       if signal (tasks s p) \<noteq> 0
       then signals_from call p [0..<Task_signalNum] (upd_task p (\<lambda>t. t\<lparr>state := Task_State_Running\<rparr>) s)
       else Option.bind (enqueue_cur cpu s)
              (\<lambda>s. Option.bind (dequeue_min (unat (cpuId (tasks s p))) s)
                 (\<lambda>(next, s). Some (Switched, Task_switch cpu next s))))"

section \<open>Signals and timers of tasks\<close>

text \<open>The table of handlers has 64 entries; a parameter is kept for the signals below 32 only.\<close>

definition Task_setSignalHandler :: "ptr \<Rightarrow> u64 \<Rightarrow> u64 \<Rightarrow> u64 \<Rightarrow> 'a TaskSys_scheme \<Rightarrow> 'a TaskSys_scheme option" where
  "Task_setSignalHandler p sig h param s =
    (let i = unat sig in
     if i < Task_signalNum then
       Some (upd_task p (\<lambda>t. t\<lparr>signalHandler := (signalHandler t)(i := h),
         signalHandlerParam := (if sig < 32 then (signalHandlerParam t)(i := param) else signalHandlerParam t)\<rparr>) s)
     else None)"

text \<open>
  \<open>1 << signal\<close> with a 1 of type \<open>int\<close>: the value is \<open>sh1 signal\<close>, which C does not define from
  31 on.
\<close>

definition Task_setSignal :: "(nat \<Rightarrow> i32) \<Rightarrow> ptr \<Rightarrow> u64 \<Rightarrow> 'a TaskSys_scheme \<Rightarrow> 'a TaskSys_scheme" where
  "Task_setSignal sh1 p sig = upd_task p (\<lambda>t. t\<lparr>signal := signal t OR scast (sh1 (unat sig))\<rparr>)"

definition Task_SysSignal_Timer_addr :: u64 where "Task_SysSignal_Timer_addr = 0xffff800000110000"

definition Task_setSysSignalHandler :: "ptr \<Rightarrow> 'a TaskSys_scheme \<Rightarrow> 'a TaskSys_scheme option" where
  "Task_setSysSignalHandler p = Task_setSignalHandler p Task_Signal_Timer Task_SysSignal_Timer_addr 0"

definition on_timers :: "ptr \<Rightarrow> (rbs \<Rightarrow> ('r \<times> rbs) option) \<Rightarrow> 'a TaskSys_scheme \<Rightarrow> ('r \<times> 'a TaskSys_scheme) option" where
  "on_timers p f s = map_option (\<lambda>(x, r). (x, upd_task p (\<lambda>t. t\<lparr>taskTimers := tree_part r\<rparr>) (s\<lparr>tmNodes := nd r\<rparr>)))
    (f (with_nodes (taskTimers (tasks s p)) (tmNodes s)))"

definition task_lock :: "ptr \<Rightarrow> 'a TaskSys_scheme \<Rightarrow> 'a TaskSys_scheme option" where
  "task_lock p s = map_option (\<lambda>l. upd_task p (\<lambda>t. t\<lparr>timerTreeLock := l\<rparr>) s) (SpinLock_acquire (timerTreeLock (tasks s p)))"

definition task_unlock :: "ptr \<Rightarrow> 'a TaskSys_scheme \<Rightarrow> 'a TaskSys_scheme" where
  "task_unlock p = upd_task p (\<lambda>t. t\<lparr>timerTreeLock := SpinLock_unlock (timerTreeLock t)\<rparr>)"

definition upd_tmr :: "ptr \<Rightarrow> (u64 \<Rightarrow> u64) \<Rightarrow> 'a TaskSys_scheme \<Rightarrow> 'a TaskSys_scheme" where
  "upd_tmr tm f s = s\<lparr>taskTmr := (taskTmr s)(tm := (taskTmr s tm)\<lparr>tmFlags := f (tmFlags (taskTmr s tm))\<rparr>)\<rparr>"

text \<open>The handler of the timer signal of task \<open>p\<close>: it runs the timers at the front that have expired.\<close>

partial_function (option) Task_SysSignal_Timer ::
    "(u64 \<Rightarrow> u64 \<Rightarrow> 'a TaskSys_scheme \<Rightarrow> 'a TaskSys_scheme option) \<Rightarrow> ptr \<Rightarrow> 'a TaskSys_scheme \<Rightarrow> 'a TaskSys_scheme option" where
  "Task_SysSignal_Timer call p s =
    Option.bind (task_lock p s) (\<lambda>s.
    Option.bind (on_timers p (RBTree_getMin cfs_addr) s) (\<lambda>(node, s).
      if node = NULL \<or> tmFlags (taskTmr s node) AND Task_Timer_Flag_Expire = 0 then Some (task_unlock p s)
      else Option.bind (on_timers p (no_result (RBTree_delNode cfs_addr node)) s) (\<lambda>(_, s).
        let s = task_unlock p (upd_tmr node (\<lambda>f. f AND NOT Task_Timer_Flag_InQueue) s) in
        Option.bind (call (tmFunc (taskTmr s node)) (tmData (taskTmr s node)) s) (\<lambda>s.
          Task_SysSignal_Timer call p (upd_tmr node (\<lambda>f. f OR Task_Timer_Flag_Enabled) s)))))"

definition Task_Timer_irqFunc :: "(nat \<Rightarrow> i32) \<Rightarrow> ptr \<Rightarrow> ptr \<Rightarrow> 'a TaskSys_scheme \<Rightarrow> 'a TaskSys_scheme" where
  "Task_Timer_irqFunc sh1 irq tsk s =
    Task_setSignal sh1 tsk Task_Signal_Timer (upd_tmr irq (\<lambda>f. f OR Task_Timer_Flag_Expire) s)"

definition Task_Timer_irqFunc_addr :: u64 where "Task_Timer_irqFunc_addr = 0xffff800000120000"

definition Task_Timer_init :: "nat \<Rightarrow> ptr \<Rightarrow> u64 \<Rightarrow> 'a TaskSys_scheme \<Rightarrow> 'a TaskSys_scheme" where
  "Task_Timer_init cpu timer j s =
    Intr_SoftIrq_Timer_initIrq timer j Task_Timer_irqFunc_addr (current s cpu)
      (s\<lparr>taskTmr := (taskTmr s)(timer := \<lparr>tmFunc = 0, tmData = 0, tmFlags = 0\<rparr>)\<rparr>)"

definition Task_Timer_modJiffies :: "nat \<Rightarrow> ptr \<Rightarrow> u64 \<Rightarrow> 'a TaskSys_scheme \<Rightarrow> int \<times> 'a TaskSys_scheme" where
  "Task_Timer_modJiffies cpu timer j s =
    (let f = tmFlags (taskTmr s timer) in
     if f AND Task_Timer_Flag_InQueue \<noteq> 0 then (- 1, s)
     else (if f AND Task_Timer_Flag_Enabled \<noteq> 0 then 1 else 0,
           Intr_SoftIrq_Timer_initIrq timer j Task_Timer_irqFunc_addr (current s cpu) s))"

definition Task_Timer_comparator :: "(ptr \<Rightarrow> TimerIrq) \<Rightarrow> ptr \<Rightarrow> ptr \<Rightarrow> bool" where
  "Task_Timer_comparator ts a b =
    (if expireJiffies (ts a) = expireJiffies (ts b) then a < b else expireJiffies (ts a) < expireJiffies (ts b))"

text \<open>The result is missing when the timer was added, since the function ends without one.\<close>

definition Task_Timer_add :: "nat \<Rightarrow> ptr \<Rightarrow> 'a TaskSys_scheme \<Rightarrow> (int option \<times> 'a TaskSys_scheme) option" where
  "Task_Timer_add cpu timer s =
    (if tmFlags (taskTmr s timer) AND Task_Timer_Flag_InQueue \<noteq> 0 then Some (Some (- 1), s)
     else let p = current s cpu in
       Option.bind (task_lock p s) (\<lambda>s.
       Option.bind (on_timers p (no_result (RBTree_insNode (Task_Timer_comparator (timers s)) cfs_addr timer)) s) (\<lambda>(_, s).
       map_option (Pair None) (Intr_SoftIrq_Timer_addIrq timer (task_unlock p s)))))"

section \<open>Creating and recycling tasks\<close>

definition zero_task :: TaskStruct where
  "zero_task = \<lparr>state = 0, thread = \<lparr>rip = 0, rsp = 0, fs = 0, gs = 0, cr2 = 0, trapNum = 0, errCode = 0, rflags = 0\<rparr>,
     tmem = \<lparr>pgdPhyAddr = 0, totUsage = 0, pageUsage = [], kmallocUsage = [], krlStkPage = 0\<rparr>,
     tss = \<lparr>rsps = (\<lambda>_. 0), ists = (\<lambda>_. 0)\<rparr>, flags = 0, vRunTime = 0, resRunTime = 0, pid = 0, cpuId = 0, signal = 0,
     priority = 0, taskTimers = \<lparr>root = 0, tlock = \<lparr>lock = 0\<rparr>\<rparr>, timerTreeLock = \<lparr>lock = 0\<rparr>,
     signalHandler = (\<lambda>_. 0), signalHandlerParam = (\<lambda>_. 0), simdRegs = 0\<rparr>"

text \<open>All stacks of the task state segment start at the top of the task's stack.\<close>

definition one_stack :: "u64 \<Rightarrow> TSSRegs" where
  "one_stack sp = \<lparr>rsps = (\<lambda>i. if i < 3 then sp else 0), ists = (\<lambda>i. if 1 \<le> i \<and> i \<le> 7 then sp else 0)\<rparr>"

definition next_pid :: "'a TaskSys_scheme \<Rightarrow> u64" where "next_pid s = scast (pidCounter s)"

definition Task_buildInitTask :: "nat \<Rightarrow> u64 \<Rightarrow> 'a TaskSys_scheme \<Rightarrow> 'a TaskSys_scheme option" where
  "Task_buildInitTask cpu cpuid s =
    (let p = current s cpu; sp = p + Task_kernelStackSize;
         t = zero_task\<lparr>cpuId := cpuid, thread := (thread zero_task)\<lparr>rsp := sp, fs := Segment_kernelData, gs := Segment_kernelData\<rparr>,
               state := Task_State_Running, flags := Task_Flag_Kernel OR Task_Flag_Inner, tss := one_stack sp,
               tmem := (tmem zero_task)\<lparr>pgdPhyAddr := Task_KrlPagePhyAddr\<rparr>, pid := next_pid s, resRunTime := 20, simdRegs := 0\<rparr>
     in Task_setSysSignalHandler p
          (s\<lparr>pidCounter := pidCounter s + 1, tasks := (tasks s)(p := t),
             cfs := (cfs s)\<lparr>taskNum := (taskNum (cfs s))(unat cpuid := \<lparr>value = 1\<rparr>)\<rparr>\<rparr>))"

text \<open>
  Creating a task at the address \<open>task\<close> of its stack page \<open>krlStk\<close>.  \<open>pgd\<close> is what
  \<open>MM_PageTable_alloc\<close> answered, \<open>argPkg\<close> the block for the arguments; \<open>initAddr\<close> is the
  address of \<open>init\<close> and \<open>entryAddr\<close> that of \<open>Task_kernelThreadEntry\<close>.  \<open>ptRegsSize\<close> is the size of
  the registers on the stack.
\<close>

definition ptRegsSize :: u64 where "ptRegsSize = 24 * 8"

definition new_task :: "ptr \<Rightarrow> ptr \<Rightarrow> u64 \<Rightarrow> u64 \<Rightarrow> u64 \<Rightarrow> u64 \<Rightarrow> ThreadStruct \<Rightarrow> TaskStruct" where
  "new_task task krlStk flag pgd newPid entryAddr initThread =
    zero_task\<lparr>flags := flag, pid := newPid, state := Task_State_Uninterruptible,
      thread := initThread\<lparr>rip := entryAddr, rsp := task + Task_kernelStackSize - ptRegsSize,
        fs := Segment_kernelData, gs := Segment_kernelData\<rparr>,
      tss := one_stack (task + Task_kernelStackSize), resRunTime := 20,
      tmem := (tmem zero_task)\<lparr>pgdPhyAddr := (if flag AND Task_Flag_Kernel \<noteq> 0 then Task_KrlPagePhyAddr else pgd),
        krlStkPage := krlStk\<rparr>\<rparr>"

definition new_regs :: "u64 \<Rightarrow> u64 \<Rightarrow> u64 \<Rightarrow> u64 \<Rightarrow> u64 \<Rightarrow> u64 \<Rightarrow> u64 \<Rightarrow> PtRegs" where
  "new_regs entry arg1 arg2 flag argPkg initAddr sp =
    (let k = flag AND Task_Flag_Kernel \<noteq> 0 in
     \<lparr>rdi = (if k then arg1 else entry), rsi = (if k then arg2 else argPkg), segs = Segment_kernelData,
      ripReg = (if k then entry else initAddr), csReg = Segment_kernelCode, rflagsReg = push_bit 9 1, rspReg = sp\<rparr>)"

definition Task_createTask ::
    "nat \<Rightarrow> (nat \<Rightarrow> ptr) \<Rightarrow> ThreadStruct \<Rightarrow> u64 \<Rightarrow> u64 \<Rightarrow> ptr \<Rightarrow> ptr \<Rightarrow> u64 \<Rightarrow> u64 \<Rightarrow> u64 \<Rightarrow> u64 \<Rightarrow> u64 \<Rightarrow> u64 \<Rightarrow>
      'a TaskSys_scheme \<Rightarrow> 'a TaskSys_scheme option" where
  "Task_createTask cpuNum initStk initThread entryAddr initAddr task krlStk pgd argPkg entry arg1 arg2 flag s =
    (let t = new_task task krlStk flag pgd (next_pid s) entryAddr initThread;
         s = s\<lparr>pidCounter := pidCounter s + 1, tasks := (tasks s)(task := t),
               stackRegs := (stackRegs s)(task := new_regs entry arg1 arg2 flag argPkg initAddr (rsp (thread t)))\<rparr>
     in Option.bind (Task_setSysSignalHandler task s) (\<lambda>s.
        let c = unat (pid t mod of_nat cpuNum);
            s = upd_task task (\<lambda>t. t\<lparr>cpuId := of_nat c, vRunTime := vRunTime (tasks s (initStk c))\<rparr>) s
        in map_option (\<lambda>(_, s). s\<lparr>cfs := (cfs s)\<lparr>taskNum := (taskNum (cfs s))(c := Atomic_inc (taskNum (cfs s) c))\<rparr>\<rparr>)
             (on_queue c (no_result (RBTree_insNode (CFSTree_comparator (tasks s)) cfs_addr task)) s)))"

text \<open>
  One turn of the recycling task: \<open>None\<close> in the result when there is nothing to recycle, else the
  task whose page table and stack are freed.
\<close>

definition recycle_step :: "'a TaskSys_scheme \<Rightarrow> (ptr option \<times> 'a TaskSys_scheme) option" where
  "recycle_step s =
    (if value (killedTaskNum (cfs s)) = 0 then Some (None, s)
     else
       let inc = (\<lambda>s. s\<lparr>cfs := (cfs s)\<lparr>recycTskState := Atomic_inc (recycTskState (cfs s))\<rparr>\<rparr>);
           dec = (\<lambda>s. s\<lparr>cfs := (cfs s)\<lparr>recycTskState := Atomic_dec (recycTskState (cfs s))\<rparr>\<rparr>)
       in Option.bind (on_killed (RBTree_getMax cfs_addr) (inc s)) (\<lambda>(rMost, s).
            if rMost = NULL \<or> flags (tasks s rMost) AND Task_Flag_InKillTree = 0 then Some (None, dec s)
            else map_option (\<lambda>(_, s). (Some rMost,
                   dec (s\<lparr>cfs := (cfs s)\<lparr>killedTaskNum := Atomic_dec (killedTaskNum (cfs s))\<rparr>\<rparr>)))
                   (on_killed (no_result (RBTree_delNode cfs_addr rMost)) s)))"

definition init_trees :: "nat \<Rightarrow> (ptr \<Rightarrow> RBNode) \<Rightarrow> CFS_rq \<Rightarrow> CFS_rq" where
  "init_trees n h q = q\<lparr>cfsTree := (\<lambda>i. if i < n then tree_part (RBTree_init (with_nodes (cfsTree q i) h)) else cfsTree q i),
     cfsLock := (\<lambda>i. if i < n then SpinLock_init (cfsLock q i) else cfsLock q i)\<rparr>"

definition Task_initMgr :: "nat \<Rightarrow> 'a TaskSys_scheme \<Rightarrow> 'a TaskSys_scheme" where
  "Task_initMgr cpuNum s =
    s\<lparr>cfs := (init_trees cpuNum (wnodes s) (cfs s))\<lparr>taskNum := (\<lambda>_. \<lparr>value = 0\<rparr>),
        killedTree := tree_part (RBTree_init (with_nodes (killedTree (cfs s)) (wnodes s))),
        killedTreeLock := SpinLock_init (killedTreeLock (cfs s)),
        killedTaskNum := \<lparr>value = 0\<rparr>, recycTskState := \<lparr>value = 0\<rparr>\<rparr>, pidCounter := 0\<rparr>"

end
