(* ===== verification/Sched_Props.thy ===== *)
theory Sched_Props
  imports Sched
begin

text \<open>
  Properties of the task manager: the invariant of the queues and its preservation by scheduling,
  accounting and creation of tasks; the choice of the scheduler; the signal of the task timers.
\<close>

section \<open>Operations on one of several trees\<close>

lemma cfs_addr_ok: "cfs_addr \<noteq> 0"
  by (simp add: cfs_addr_def)

lemma tree_part_nodes [simp]: "with_nodes (tree_part r) (nd r) = r"
  by (cases r) (simp add: with_nodes_def tree_part_def)

lemma nd_with_nodes [simp]: "nd (with_nodes t h) = h"
  by (simp add: with_nodes_def)

lemma tree_ok_nodes:
  "tree_ok (with_nodes t h) xs \<Longrightarrow> \<forall>q\<in>set xs. h' q = h q \<Longrightarrow> tree_ok (with_nodes t h') xs"
  by (erule tree_ok_cong) (simp_all add: with_nodes_def)

lemma queue_ins:
  assumes "tree_ok (with_nodes (cfsTree (cfs s) c) (wnodes s)) xs" "okp p" "p \<notin> set xs" "ordered cmp xs" "weak_order cmp"
  shows "\<exists>t h. on_queue c (no_result (RBTree_insNode cmp cfs_addr p)) s =
      Some ((), s\<lparr>cfs := (cfs s)\<lparr>cfsTree := (cfsTree (cfs s))(c := t)\<rparr>, wnodes := h\<rparr>) \<and>
    tree_ok (with_nodes t h) (ins_at cmp p xs) \<and> (\<forall>q. q \<notin> insert p (set xs) \<longrightarrow> h q = wnodes s q)"
  using tree_ok_ins_frame [OF assms cfs_addr_ok] by (auto simp: on_queue_def no_result_def) (metis tree_part_nodes)

lemma killed_ins:
  assumes "tree_ok (with_nodes (killedTree (cfs s)) (wnodes s)) xs" "okp p" "p \<notin> set xs" "ordered cmp xs" "weak_order cmp"
  shows "\<exists>t h. on_killed (no_result (RBTree_insNode cmp cfs_addr p)) s =
      Some ((), s\<lparr>cfs := (cfs s)\<lparr>killedTree := t\<rparr>, wnodes := h\<rparr>) \<and>
    tree_ok (with_nodes t h) (ins_at cmp p xs) \<and> (\<forall>q. q \<notin> insert p (set xs) \<longrightarrow> h q = wnodes s q)"
  using tree_ok_ins_frame [OF assms cfs_addr_ok] by (auto simp: on_killed_def no_result_def) (metis tree_part_nodes)

lemma dequeue_ok:
  assumes "tree_ok (with_nodes (cfsTree (cfs s) c) (wnodes s)) (p # xs)"
  shows "\<exists>t h. dequeue_min c s = Some (p, s\<lparr>cfs := (cfs s)\<lparr>cfsTree := (cfsTree (cfs s))(c := t)\<rparr>, wnodes := h\<rparr>) \<and>
    tree_ok (with_nodes t h) xs \<and> (\<forall>q. q \<notin> set (p # xs) \<longrightarrow> h q = wnodes s q)"
proof -
  have p: "p \<noteq> 0" using tree_ok_okp [OF assms, of p] by auto
  obtain r1 where r1: "RBTree_getMin cfs_addr (with_nodes (cfsTree (cfs s) c) (wnodes s)) = Some (p, r1)"
    "tree_ok r1 (p # xs)" "nd r1 = wnodes s"
    using tree_ok_min_frame [OF assms cfs_addr_ok] by auto
  obtain r2 where r2: "RBTree_delNode cfs_addr p r1 = Some r2" "tree_ok r2 xs" "\<forall>q. q \<notin> set (p # xs) \<longrightarrow> nd r2 q = nd r1 q"
    using tree_ok_del_frame [OF r1(2) _ cfs_addr_ok, of p] by auto
  have "with_nodes (tree_part r1) (nd r1) = r1" by simp
  then show ?thesis
    using r1 r2 p
    by (intro exI [of _ "tree_part r2"] exI [of _ "nd r2"])
      (simp add: dequeue_min_def on_queue_def no_result_def)
qed

section \<open>The invariant of the scheduler\<close>

text \<open>
  There are \<open>N\<close> processors.  \<open>Q c\<close> are the tasks waiting for processor \<open>c\<close>, in order, \<open>K\<close> the killed ones: no task is in two
  trees, and the running tasks are in none.
\<close>

definition queues_ok :: "'a TaskSys_scheme \<Rightarrow> (nat \<Rightarrow> ptr list) \<Rightarrow> ptr list \<Rightarrow> bool" where
  "queues_ok s Q K \<longleftrightarrow>
    (\<forall>c. tree_ok (with_nodes (cfsTree (cfs s) c) (wnodes s)) (Q c) \<and> ordered (CFSTree_comparator (tasks s)) (Q c)) \<and>
    tree_ok (with_nodes (killedTree (cfs s)) (wnodes s)) K \<and> ordered (CFSTree_comparator (tasks s)) K \<and>
    (\<forall>c d. c \<noteq> d \<longrightarrow> set (Q c) \<inter> set (Q d) = {}) \<and> (\<forall>c. set (Q c) \<inter> set K = {}) \<and>
    (\<forall>c. \<forall>p\<in>set (Q c). unat (cpuId (tasks s p)) = c)"

definition running_ok :: "nat \<Rightarrow> 'a TaskSys_scheme \<Rightarrow> (nat \<Rightarrow> ptr list) \<Rightarrow> ptr list \<Rightarrow> bool" where
  "running_ok N s Q K \<longleftrightarrow>
    (\<forall>c<N. okp (current s c) \<and> current s c \<notin> set K \<and> (\<forall>d. current s c \<notin> set (Q d)) \<and>
      unat (cpuId (tasks s (current s c))) = c)"

definition sched_inv :: "nat \<Rightarrow> 'a TaskSys_scheme \<Rightarrow> (nat \<Rightarrow> ptr list) \<Rightarrow> ptr list \<Rightarrow> bool" where
  "sched_inv N s Q K \<longleftrightarrow> queues_ok s Q K \<and> running_ok N s Q K"

text \<open>The running tasks differ, since each has the number of its processor.\<close>

lemma running_distinct: "running_ok N s Q K \<Longrightarrow> c < N \<Longrightarrow> d < N \<Longrightarrow> current s c = current s d \<Longrightarrow> c = d"
  unfolding running_ok_def by metis

lemma weak_order_cfs: "weak_order (CFSTree_comparator ts)"
  by (auto simp: weak_order_def CFSTree_comparator_def word_sless_alt dest!: signed_word_eqI split: if_splits)

interpretation cfsq: ordered_queue
  "RBTree_insNode (CFSTree_comparator ts) cfs_addr" "RBTree_delNode cfs_addr" "RBTree_getMin cfs_addr" tree_ok okp
  "CFSTree_comparator ts"
  for ts :: "ptr \<Rightarrow> TaskStruct"
  by (rule rbtree_queue [OF weak_order_cfs cfs_addr_ok])

lemma comparator_cong:
  "\<forall>p. vRunTime (ts p) = vRunTime (us p) \<and> pid (ts p) = pid (us p) \<Longrightarrow> CFSTree_comparator ts = CFSTree_comparator us"
  by (intro ext) (simp add: CFSTree_comparator_def)

lemma queues_cong:
  assumes "queues_ok s Q K" "cfsTree (cfs s') = cfsTree (cfs s)" "killedTree (cfs s') = killedTree (cfs s)" "wnodes s' = wnodes s"
    "\<forall>p. vRunTime (tasks s' p) = vRunTime (tasks s p) \<and> pid (tasks s' p) = pid (tasks s p) \<and> cpuId (tasks s' p) = cpuId (tasks s p)"
  shows "queues_ok s' Q K"
  using assms comparator_cong [of "tasks s'" "tasks s"] by (simp add: queues_ok_def)

lemma queues_upd:
  assumes q: "queues_ok s Q K" and t: "tree_ok (with_nodes t h) xs" "ordered (CFSTree_comparator (tasks s)) xs"
    and h: "\<forall>q. q \<notin> set xs \<union> set (Q c) \<longrightarrow> h q = wnodes s q"
    and d: "\<forall>d. d \<noteq> c \<longrightarrow> set xs \<inter> set (Q d) = {}" "set xs \<inter> set K = {}" "\<forall>p\<in>set xs. unat (cpuId (tasks s p)) = c"
  shows "queues_ok (s\<lparr>cfs := (cfs s)\<lparr>cfsTree := (cfsTree (cfs s))(c := t)\<rparr>, wnodes := h\<rparr>) (Q(c := xs)) K"
proof -
  have "tree_ok (with_nodes (cfsTree (cfs s) e) h) (Q e)" if "e \<noteq> c" for e
  proof (rule tree_ok_nodes [of _ "wnodes s"])
    have "set (Q e) \<inter> set (Q c) = {}" using q that unfolding queues_ok_def by blast
    then show "\<forall>q\<in>set (Q e). h q = wnodes s q" using h d(1) that by blast
  qed (use q in \<open>simp add: queues_ok_def\<close>)
  moreover have "tree_ok (with_nodes (killedTree (cfs s)) h) K"
  proof (rule tree_ok_nodes [of _ "wnodes s"])
    have "set (Q c) \<inter> set K = {}" using q unfolding queues_ok_def by blast
    then show "\<forall>q\<in>set K. h q = wnodes s q" using h d(2) by blast
  qed (use q in \<open>simp add: queues_ok_def\<close>)
  ultimately show ?thesis using q t d by (auto simp: queues_ok_def)
qed

lemma killed_upd:
  assumes q: "queues_ok s Q K" and t: "tree_ok (with_nodes t h) xs" "ordered (CFSTree_comparator (tasks s)) xs"
    and h: "\<forall>q. q \<notin> set xs \<union> set K \<longrightarrow> h q = wnodes s q" and d: "\<forall>c. set (Q c) \<inter> set xs = {}"
  shows "queues_ok (s\<lparr>cfs := (cfs s)\<lparr>killedTree := t\<rparr>, wnodes := h\<rparr>) Q xs"
proof -
  have "tree_ok (with_nodes (cfsTree (cfs s) e) h) (Q e)" for e
  proof (rule tree_ok_nodes [of _ "wnodes s"])
    have "set (Q e) \<inter> set K = {}" using q unfolding queues_ok_def by blast
    then show "\<forall>q\<in>set (Q e). h q = wnodes s q" using h d by blast
  qed (use q in \<open>simp add: queues_ok_def\<close>)
  then show ?thesis using q t d by (auto simp: queues_ok_def)
qed

section \<open>A processor with three waiting tasks\<close>

definition demo_task :: "u64 \<Rightarrow> TaskStruct" where
  "demo_task p = zero_task\<lparr>vRunTime := p, pid := p, flags := Task_Flag_NeedSchedule\<rparr>"

definition demo_sched :: TaskSys where
  "demo_sched = \<lparr>irqState = (\<lambda>_. 0), softIrqs = (\<lambda>_. \<lparr>handler = 0, sdata = 0\<rparr>), timerIdCnt = 0, timerTree = sample_tree,
     timers = (\<lambda>_. \<lparr>expireJiffies = 0, tfunc = 0, tdata = 0, tid = 0\<rparr>), timerLock = \<lparr>lock = 0\<rparr>, jiffies = 0,
     cfs = \<lparr>cfsTree = (\<lambda>c. \<lparr>root = (if c = 0 then 32 else 0), tlock = \<lparr>lock = 0\<rparr>\<rparr>), killedTree = \<lparr>root = 0, tlock = \<lparr>lock = 0\<rparr>\<rparr>,
       cfsLock = (\<lambda>_. \<lparr>lock = 0\<rparr>), killedTreeLock = \<lparr>lock = 0\<rparr>, taskNum = (\<lambda>_. \<lparr>value = 4\<rparr>), cfsFlags = 1,
       killedTaskNum = \<lparr>value = 0\<rparr>, recycTskState = \<lparr>value = 0\<rparr>\<rparr>,
     tasks = demo_task, wnodes = nd sample_tree, tmNodes = nd sample_tree,
     taskTmr = (\<lambda>_. \<lparr>tmFunc = 0, tmData = 0, tmFlags = 0\<rparr>), current = (\<lambda>_. 64),
     cpuTss = (\<lambda>_. one_stack 0), stackRegs = (\<lambda>_. new_regs 0 0 0 0 0 0 0), pidCounter = 65\<rparr>"

definition demo_queue :: "nat \<Rightarrow> ptr list" where
  "demo_queue c = (if c = 0 then [16, 32, 48] else [])"

lemma tree_ok_nil: "tree_ok (with_nodes \<lparr>root = 0, tlock = \<lparr>lock = 0\<rparr>\<rparr> h) []"
  by (rule tree_ok_cong [OF tree_ok_empty [of "with_nodes \<lparr>root = 0, tlock = \<lparr>lock = 0\<rparr>\<rparr> h"]])
    (simp_all add: with_nodes_def RBTree_init_def SpinLock_init_def)

lemma demo_sched_inv: "sched_inv 1 demo_sched demo_queue []"
proof -
  have "tree_ok (with_nodes (cfsTree (cfs demo_sched) c) (wnodes demo_sched)) (demo_queue c)" for c
  proof (cases "c = 0")
    case True
    have "with_nodes (cfsTree (cfs demo_sched) 0) (wnodes demo_sched) = sample_tree"
      by (simp add: with_nodes_def demo_sched_def sample_tree_def)
    then show ?thesis using True sample_tree_ok by (simp add: demo_queue_def)
  next
    case False
    then show ?thesis by (simp add: demo_queue_def demo_sched_def tree_ok_nil)
  qed
  moreover have "tree_ok (with_nodes (killedTree (cfs demo_sched)) (wnodes demo_sched)) []"
    by (simp add: demo_sched_def tree_ok_nil)
  moreover have "ordered (CFSTree_comparator (tasks demo_sched)) (demo_queue c)" for c
    by (simp add: ordered_def demo_queue_def CFSTree_comparator_def demo_sched_def demo_task_def word_sless_alt)
  ultimately show ?thesis
    by (auto simp: sched_inv_def queues_ok_def running_ok_def okp_samples demo_queue_def demo_sched_def
        demo_task_def zero_task_def ordered_def)
qed

section \<open>Scheduling\<close>

definition ends :: "nat \<Rightarrow> 'a TaskSys_scheme \<Rightarrow> bool" where
  "ends cpu s \<longleftrightarrow> priority (tasks s (current s cpu)) = Task_Priority_Killed \<and> value (recycTskState (cfs s)) = 0"

text \<open>What the two ways of putting the current task away have in common.\<close>

definition put_away :: "nat \<Rightarrow> 'a TaskSys_scheme \<Rightarrow> (nat \<Rightarrow> ptr list) \<Rightarrow> ptr list \<Rightarrow> (nat \<Rightarrow> ptr list) \<times> ptr list" where
  "put_away cpu s Q K =
    (let p = current s cpu; cmp = CFSTree_comparator (tasks s) in
     if ends cpu s then (Q, ins_at cmp p K) else (Q(cpu := ins_at cmp p (Q cpu)), K))"

lemma enqueue_ok:
  assumes "sched_inv N s Q K" "cpu < N"
  shows "\<exists>s'. enqueue_cur cpu s = Some s' \<and> (case put_away cpu s Q K of (Q', K') \<Rightarrow> queues_ok s' Q' K') \<and>
    current s' = current s \<and>
    (\<forall>p. vRunTime (tasks s' p) = vRunTime (tasks s p) \<and> pid (tasks s' p) = pid (tasks s p) \<and> cpuId (tasks s' p) = cpuId (tasks s p))"
proof -
  let ?p = "current s cpu" and ?cmp = "CFSTree_comparator (tasks s)"
  have q: "queues_ok s Q K" and r: "running_ok N s Q K" using assms by (auto simp: sched_inv_def)
  have p: "okp ?p" "?p \<notin> set K" "\<forall>d. ?p \<notin> set (Q d)" "unat (cpuId (tasks s ?p)) = cpu"
    using r assms(2) by (auto simp: running_ok_def)
  show ?thesis
  proof (cases "ends cpu s")
    case True
    obtain t h where t: "on_killed (no_result (RBTree_insNode ?cmp cfs_addr ?p)) s = Some ((), s\<lparr>cfs := (cfs s)\<lparr>killedTree := t\<rparr>, wnodes := h\<rparr>)"
      "tree_ok (with_nodes t h) (ins_at ?cmp ?p K)" "\<forall>q. q \<notin> insert ?p (set K) \<longrightarrow> h q = wnodes s q"
      using killed_ins [OF _ p(1,2) _ weak_order_cfs, of s "tasks s"] q by (auto simp: queues_ok_def)
    have "queues_ok (s\<lparr>cfs := (cfs s)\<lparr>killedTree := t\<rparr>, wnodes := h\<rparr>) Q (ins_at ?cmp ?p K)"
      by (rule killed_upd [OF q t(2)]) (use t(3) p q ordered_ins_at [OF weak_order_cfs] in \<open>auto simp: queues_ok_def\<close>)
    then have "queues_ok (the (enqueue_cur cpu s)) Q (ins_at ?cmp ?p K)"
      by (rule queues_cong) (use True t(1) in \<open>auto simp: enqueue_cur_def ends_def Let_def upd_task_def\<close>)
    then show ?thesis using True t(1)
      by (auto simp: enqueue_cur_def ends_def put_away_def Let_def upd_task_def)
  next
    case False
    obtain t h where t: "on_queue cpu (no_result (RBTree_insNode ?cmp cfs_addr ?p)) s =
        Some ((), s\<lparr>cfs := (cfs s)\<lparr>cfsTree := (cfsTree (cfs s))(cpu := t)\<rparr>, wnodes := h\<rparr>)"
      "tree_ok (with_nodes t h) (ins_at ?cmp ?p (Q cpu))" "\<forall>q. q \<notin> insert ?p (set (Q cpu)) \<longrightarrow> h q = wnodes s q"
      using queue_ins [OF _ p(1) _ _ weak_order_cfs, of s cpu "Q cpu" "tasks s"] q p(3) by (auto simp: queues_ok_def)
    have "queues_ok (s\<lparr>cfs := (cfs s)\<lparr>cfsTree := (cfsTree (cfs s))(cpu := t)\<rparr>, wnodes := h\<rparr>) (Q(cpu := ins_at ?cmp ?p (Q cpu))) K"
      by (rule queues_upd [OF q t(2)]) (use t(3) p q ordered_ins_at [OF weak_order_cfs] in \<open>auto simp: queues_ok_def\<close>)
    then show ?thesis using False t(1) p(4) by (auto simp: enqueue_cur_def ends_def put_away_def Let_def)
  qed
qed

lemma ends_upd [simp]:
  "ends cpu (upd_task p (\<lambda>t. t\<lparr>flags := f t\<rparr>) s) = ends cpu s"
  "put_away cpu (upd_task p (\<lambda>t. t\<lparr>flags := f t\<rparr>) s) Q K = put_away cpu s Q K"
proof -
  show e: "ends cpu (upd_task p (\<lambda>t. t\<lparr>flags := f t\<rparr>) s) = ends cpu s" by (simp add: ends_def upd_task_def)
  have "CFSTree_comparator (tasks (upd_task p (\<lambda>t. t\<lparr>flags := f t\<rparr>) s)) = CFSTree_comparator (tasks s)"
    by (rule comparator_cong) (simp add: upd_task_def)
  then show "put_away cpu (upd_task p (\<lambda>t. t\<lparr>flags := f t\<rparr>) s) Q K = put_away cpu s Q K"
    by (simp add: put_away_def e) (simp add: upd_task_def)
qed

lemma sched_inv_flags: "sched_inv N s Q K \<Longrightarrow> sched_inv N (upd_task p (\<lambda>t. t\<lparr>flags := f t\<rparr>) s) Q K"
  unfolding sched_inv_def
  by (auto simp: running_ok_def upd_task_def intro: queues_cong)

lemma put_away_sets:
  "put_away cpu s Q K = (Q', K') \<Longrightarrow>
    (\<forall>d. d \<noteq> cpu \<longrightarrow> Q' d = Q d) \<and> set (Q' cpu) \<subseteq> insert (current s cpu) (set (Q cpu)) \<and>
    set K' \<subseteq> insert (current s cpu) (set K)"
  by (auto simp: put_away_def Let_def split: if_splits)

text \<open>
  C23: Scheduling.  Under the invariant (no task in two trees, the running tasks in none, the
  trees ordered), when the task of a processor has to give way and has no signal, the scheduler
  puts it into the queue, or into the tree of killed tasks if it is to end, and switches to the
  task of that queue that no other one precedes in virtual run time; the invariant holds again.
  A task that ends needs another one waiting.
\<close>

theorem Task_schedule_correct:
  assumes "sched_inv N s Q K" "cfsFlags (cfs s) \<noteq> 0" "flags (tasks s (current s cpu)) AND Task_Flag_NeedSchedule \<noteq> 0"
    "signal (tasks s (current s cpu)) = 0" "ends cpu s \<longrightarrow> Q cpu \<noteq> []" "cpu < N"
  shows "\<exists>s' nxt rest Q' K'. Task_schedule call cpu s = Some (Switched, s') \<and> put_away cpu s Q K = (Q', K') \<and>
    Q' cpu = nxt # rest \<and> current s' = (current s)(cpu := nxt) \<and> sched_inv N s' (Q'(cpu := rest)) K' \<and>
    (\<forall>p\<in>set rest. \<not> CFSTree_comparator (tasks s) p nxt)"
proof -
  let ?p = "current s cpu"
  define s0 where "s0 = upd_task ?p (\<lambda>t. t\<lparr>flags := flags t AND NOT Task_Flag_NeedSchedule\<rparr>) s"
  have i0: "sched_inv N s0 Q K" unfolding s0_def by (rule sched_inv_flags) (rule assms(1))
  have s0: "current s0 = current s" "cfs s0 = cfs s" "signal (tasks s0 ?p) = 0" by (simp_all add: s0_def upd_task_def assms(4))
  obtain Q' K' where pa: "put_away cpu s Q K = (Q', K')" by fastforce
  have pa0: "put_away cpu s0 Q K = (Q', K')" using pa by (simp add: s0_def)
  obtain s1 where s1: "enqueue_cur cpu s0 = Some s1" "queues_ok s1 Q' K'" "current s1 = current s"
    "\<forall>p. vRunTime (tasks s1 p) = vRunTime (tasks s0 p) \<and> pid (tasks s1 p) = pid (tasks s0 p) \<and> cpuId (tasks s1 p) = cpuId (tasks s0 p)"
    using enqueue_ok [OF i0 assms(6)] pa0 s0(1) by auto
  have cid: "unat (cpuId (tasks s1 ?p)) = cpu" using i0 s1(4) s0(1) assms(6) by (auto simp: sched_inv_def running_ok_def)
  have "Q' cpu \<noteq> []" using pa assms(5) by (auto simp: put_away_def Let_def ins_at_def split: if_splits)
  then obtain nxt rest where Q': "Q' cpu = nxt # rest" by (cases "Q' cpu") auto
  have q1: "tree_ok (with_nodes (cfsTree (cfs s1) cpu) (wnodes s1)) (nxt # rest)"
    "ordered (CFSTree_comparator (tasks s1)) (nxt # rest)" "\<forall>d. d \<noteq> cpu \<longrightarrow> set (nxt # rest) \<inter> set (Q' d) = {}"
    "set (nxt # rest) \<inter> set K' = {}" "\<forall>p\<in>set (nxt # rest). unat (cpuId (tasks s1 p)) = cpu"
    using s1(2) Q' unfolding queues_ok_def by metis+
  obtain t h where t: "dequeue_min cpu s1 = Some (nxt, s1\<lparr>cfs := (cfs s1)\<lparr>cfsTree := (cfsTree (cfs s1))(cpu := t)\<rparr>, wnodes := h\<rparr>)"
    "tree_ok (with_nodes t h) rest" "\<forall>q. q \<notin> set (nxt # rest) \<longrightarrow> h q = wnodes s1 q"
    using dequeue_ok [OF q1(1)] by blast
  define s2 where "s2 = s1\<lparr>cfs := (cfs s1)\<lparr>cfsTree := (cfsTree (cfs s1))(cpu := t)\<rparr>, wnodes := h\<rparr>"
  have "queues_ok s2 (Q'(cpu := rest)) K'"
    unfolding s2_def
    by (rule queues_upd [OF s1(2) t(2)]) (use q1 t(3) Q' in \<open>auto simp: ordered_def\<close>)
  then have q2: "queues_ok (Task_switch cpu nxt s2) (Q'(cpu := rest)) K'"
    by (rule queues_cong) (simp_all add: Task_switch_def Task_switchTo_inner_def Let_def)
  have "running_ok N (Task_switch cpu nxt s2) (Q'(cpu := rest)) K'"
    unfolding running_ok_def
  proof (intro allI impI conjI)
    fix c assume c: "c < N"
    have r: "okp (current s c)" "current s c \<notin> set K" "\<forall>d. current s c \<notin> set (Q d)" "unat (cpuId (tasks s (current s c))) = c"
      using assms(1) c by (auto simp: sched_inv_def running_ok_def)
    have o: "current s c \<noteq> ?p" if "c \<noteq> cpu" using running_distinct assms(1,6) c that unfolding sched_inv_def by blast
    let ?s = "Task_switch cpu nxt s2"
    have cur: "current ?s = (current s)(cpu := nxt)" and ts: "tasks ?s = tasks s1"
      by (simp_all add: Task_switch_def Task_switchTo_inner_def Let_def s2_def s1(3))
    have n: "okp nxt" using tree_ok_okp [OF q1(1)] by simp
    have d: "nxt \<notin> set rest" using tree_ok_distinct [OF q1(1)] by simp
    note sets = put_away_sets [OF pa]
    show "okp (current ?s c)" using cur n r by simp
    show "current ?s c \<notin> set K'" using cur q1(4) r(2) o sets by auto
    show "unat (cpuId (tasks ?s (current ?s c))) = c"
      using cur ts q1(5) r(4) s1(4) by (auto simp: s0_def upd_task_def)
    fix e
    show "current ?s c \<notin> set ((Q'(cpu := rest)) e)"
    proof (cases "c = cpu")
      case True
      then show ?thesis using cur d q1(3) by auto
    next
      case False
      then show ?thesis using cur r(3) o [OF False] sets Q' by (cases "e = cpu") auto
    qed
  qed
  then have inv: "sched_inv N (Task_switch cpu nxt s2) (Q'(cpu := rest)) K'" using q2 by (simp add: sched_inv_def)
  have "Task_schedule call cpu s = Some (Switched, Task_switch cpu nxt s2)"
    using assms(2,3) s0(3) s1(1) t(1) cid by (simp add: Task_schedule_def Let_def s0_def s2_def)
  moreover have "current (Task_switch cpu nxt s2) = (current s)(cpu := nxt)"
    by (simp add: Task_switch_def Task_switchTo_inner_def Let_def s2_def s1(3))
  moreover have "\<forall>p\<in>set rest. \<not> CFSTree_comparator (tasks s) p nxt"
  proof -
    have "CFSTree_comparator (tasks s1) = CFSTree_comparator (tasks s)"
      by (rule comparator_cong) (use s1(4) in \<open>simp add: s0_def upd_task_def\<close>)
    then show ?thesis using q1(2) by (simp add: ordered_def)
  qed
  ultimately show ?thesis using pa Q' inv by blast
qed

theorem Task_schedule_correct_witness:
  "\<exists>s' nxt rest Q' K'. Task_schedule (\<lambda>h i d s. None) 0 demo_sched = Some (Switched, s') \<and>
    put_away 0 demo_sched demo_queue [] = (Q', K') \<and>
    Q' 0 = nxt # rest \<and> current s' = (current demo_sched)(0 := nxt) \<and> sched_inv 1 s' (Q'(0 := rest)) K' \<and>
    (\<forall>p\<in>set rest. \<not> CFSTree_comparator (tasks demo_sched) p nxt)"
  by (rule Task_schedule_correct [OF demo_sched_inv])
    (simp_all add: demo_sched_def demo_task_def zero_task_def Task_Flag_NeedSchedule_def ends_def Task_Priority_Killed_def)

section \<open>Accounting and creation\<close>

lemma ordered_cfs_cong:
  assumes "\<forall>p\<in>set xs. vRunTime (ts p) = vRunTime (us p) \<and> pid (ts p) = pid (us p)"
  shows "ordered (CFSTree_comparator ts) xs = ordered (CFSTree_comparator us) xs"
proof -
  have "CFSTree_comparator ts a b = CFSTree_comparator us a b" if "a \<in> set xs" "b \<in> set xs" for a b
    using assms that by (simp add: CFSTree_comparator_def)
  then show ?thesis unfolding ordered_def by (intro iffI) (auto elim!: sorted_wrt_mono_rel [rotated])
qed

text \<open>A task that is in no tree may change.\<close>

lemma queues_task:
  assumes "queues_ok s Q K" "\<forall>c. p \<notin> set (Q c)" "p \<notin> set K" "\<forall>q. q \<noteq> p \<longrightarrow> tasks s' q = tasks s q"
    "cfsTree (cfs s') = cfsTree (cfs s)" "killedTree (cfs s') = killedTree (cfs s)" "wnodes s' = wnodes s"
  shows "queues_ok s' Q K"
proof -
  have q: "\<forall>q\<in>set (Q c). tasks s' q = tasks s q" "\<forall>q\<in>set K. tasks s' q = tasks s q" for c using assms(2-4) by metis+
  have "ordered (CFSTree_comparator (tasks s')) (Q c) = ordered (CFSTree_comparator (tasks s)) (Q c)" for c
    by (rule ordered_cfs_cong) (use q(1) in auto)
  moreover have "ordered (CFSTree_comparator (tasks s')) K = ordered (CFSTree_comparator (tasks s)) K"
    by (rule ordered_cfs_cong) (use q(2) in auto)
  ultimately show ?thesis using assms(1,5-7) q(1) unfolding queues_ok_def by simp
qed

lemma account_ok:
  "n \<noteq> 0 \<Longrightarrow> \<exists>t'. account w n t = Some t' \<and> cpuId t' = cpuId t \<and> vRunTime t' = vRunTime t + w"
  by (simp add: account_def Let_def)

lemma Task_updateCurState_ok:
  assumes "sched_inv N s Q K" "cpu < N" "priority (tasks s (current s cpu)) < 6" "value (taskNum (cfs s) cpu) \<noteq> 0"
  shows "\<exists>s'. Task_updateCurState cpu s = Some s' \<and> sched_inv N s' Q K \<and>
    vRunTime (tasks s' (current s cpu)) = vRunTime (tasks s (current s cpu)) + ucast (priority (tasks s (current s cpu))) + 1 \<and>
    (\<forall>q. q \<noteq> current s cpu \<longrightarrow> tasks s' q = tasks s q)"
proof -
  let ?p = "current s cpu"
  have q: "queues_ok s Q K" and r: "running_ok N s Q K" using assms(1) by (auto simp: sched_inv_def)
  have p: "\<forall>c. ?p \<notin> set (Q c)" "?p \<notin> set K" "unat (cpuId (tasks s ?p)) = cpu" using r assms(2) by (auto simp: running_ok_def)
  obtain t where t: "Task_updateCurState cpu s = Some (s\<lparr>tasks := (tasks s)(?p := t)\<rparr>)" "cpuId t = cpuId (tasks s ?p)"
    "vRunTime t = vRunTime (tasks s ?p) + ucast (priority (tasks s ?p)) + 1"
    using account_ok [OF assms(4), of "ucast (priority (tasks s ?p)) + 1" "tasks s ?p"] assms(3) p(3)
    by (auto simp: Task_updateCurState_def weight_def Let_def add.assoc)
  have "queues_ok (s\<lparr>tasks := (tasks s)(?p := t)\<rparr>) Q K" by (rule queues_task [OF q p(1,2)]) simp_all
  moreover have "\<forall>q. cpuId (((tasks s)(?p := t)) q) = cpuId (tasks s q)" using t(2) by simp
  then have "running_ok N (s\<lparr>tasks := (tasks s)(?p := t)\<rparr>) Q K" using r by (simp add: running_ok_def)
  ultimately show ?thesis using t by (simp add: sched_inv_def)
qed

definition new_cpu :: "nat \<Rightarrow> 'a TaskSys_scheme \<Rightarrow> nat" where
  "new_cpu N s = unat (next_pid s mod of_nat N)"

text \<open>
  C24: Creating a task at a fresh address succeeds: it gets the next number, goes to the processor
  of that number modulo the number of processors, starts there with the virtual run time of the
  processor's first task and is put into the queue at its place; the invariant holds again, the
  count of tasks goes up, and a kernel task starts with its own argument, a user task with
  its entry point as the argument of \<open>init\<close>.
\<close>

theorem Task_createTask_correct:
  assumes "sched_inv N s Q K" "okp task" "\<forall>c. task \<notin> set (Q c)" "task \<notin> set K" "\<forall>c<N. task \<noteq> current s c"
    "0 < N" "N \<le> 64" "\<forall>c<N. initStk c \<noteq> task"
  shows "\<exists>s' ys zs. Task_createTask N initStk initThread entryAddr initAddr task krlStk pgd argPkg entry arg1 arg2 flag s = Some s' \<and>
    Q (new_cpu N s) = ys @ zs \<and> sched_inv N s' (Q(new_cpu N s := ys @ task # zs)) K \<and>
    new_cpu N s < N \<and> pid (tasks s' task) = next_pid s \<and> pidCounter s' = pidCounter s + 1 \<and>
    vRunTime (tasks s' task) = vRunTime (tasks s (initStk (new_cpu N s))) \<and>
    taskNum (cfs s') = (taskNum (cfs s))(new_cpu N s := Atomic_inc (taskNum (cfs s) (new_cpu N s))) \<and>
    rdi (stackRegs s' task) = (if flag AND Task_Flag_Kernel \<noteq> 0 then arg1 else entry)"
proof -
  let ?c = "new_cpu N s"
  have q: "queues_ok s Q K" and r: "running_ok N s Q K" using assms(1) by (auto simp: sched_inv_def)
  have n: "unat (of_nat N :: u64) = N" using assms(7) by (simp add: unat_of_nat)
  have c: "?c < N" "unat (of_nat ?c :: u64) = ?c"
  proof -
    have "unat (next_pid s) mod N < N" using assms(6) by simp
    then show "?c < N" "unat (of_nat ?c :: u64) = ?c"
      using assms(7) by (simp_all add: new_cpu_def unat_mod n unat_of_nat)
  qed
  define t where "t = new_task task krlStk flag pgd (next_pid s) entryAddr initThread"
  define t' where "t' = t\<lparr>signalHandler := (signalHandler t)(33 := Task_SysSignal_Timer_addr),
    cpuId := of_nat ?c, vRunTime := vRunTime (tasks s (initStk ?c))\<rparr>"
  define s1 where "s1 = s\<lparr>pidCounter := pidCounter s + 1, tasks := (tasks s)(task := t'),
    stackRegs := (stackRegs s)(task := new_regs entry arg1 arg2 flag argPkg initAddr (rsp (thread t)))\<rparr>"
  have q1: "queues_ok s1 Q K" by (rule queues_task [OF q]) (use assms(3,4) in \<open>auto simp: s1_def\<close>)
  obtain tr h where tq: "on_queue ?c (no_result (RBTree_insNode (CFSTree_comparator (tasks s1)) cfs_addr task)) s1 =
      Some ((), s1\<lparr>cfs := (cfs s1)\<lparr>cfsTree := (cfsTree (cfs s1))(?c := tr)\<rparr>, wnodes := h\<rparr>)"
    "tree_ok (with_nodes tr h) (ins_at (CFSTree_comparator (tasks s1)) task (Q ?c))" "\<forall>q. q \<notin> insert task (set (Q ?c)) \<longrightarrow> h q = wnodes s1 q"
    using queue_ins [OF _ assms(2) _ _ weak_order_cfs, of s1 ?c "Q ?c" "tasks s1"] q1 assms(3) by (auto simp: queues_ok_def)
  obtain ys zs where y: "ins_at (CFSTree_comparator (tasks s1)) task (Q ?c) = ys @ task # zs" "Q ?c = ys @ zs"
    using ins_at_split by blast
  define s2 where "s2 = s1\<lparr>cfs := (cfs s1)\<lparr>cfsTree := (cfsTree (cfs s1))(?c := tr)\<rparr>, wnodes := h\<rparr>"
  define s3 where "s3 = s2\<lparr>cfs := (cfs s2)\<lparr>taskNum := (taskNum (cfs s2))(?c := Atomic_inc (taskNum (cfs s2) ?c))\<rparr>\<rparr>"
  have q2: "queues_ok s2 (Q(?c := ys @ task # zs)) K"
    unfolding s2_def y(1) [symmetric]
    by (rule queues_upd [OF q1 tq(2)])
      (use tq(3) q1 assms(3,4) c ordered_ins_at [OF weak_order_cfs] in \<open>auto simp: queues_ok_def s1_def t'_def\<close>)
  have "queues_ok s3 (Q(?c := ys @ task # zs)) K" by (rule queues_cong [OF q2]) (simp_all add: s3_def)
  moreover have "running_ok N s3 (Q(?c := ys @ task # zs)) K"
  proof -
    have sub: "set ((Q(?c := ys @ task # zs)) d) \<subseteq> insert task (set (Q d))" for d using y(2) by auto
    have "current s3 = current s" "tasks s3 = (tasks s)(task := t')" by (simp_all add: s3_def s2_def s1_def)
    moreover have "current s c \<notin> set ((Q(?c := ys @ task # zs)) d)" if "c < N" for c d
      using r assms(5) sub [of d] that unfolding running_ok_def by blast
    moreover have "((tasks s)(task := t')) (current s c) = tasks s (current s c)" if "c < N" for c using assms(5) that by auto
    ultimately show ?thesis using r by (simp add: running_ok_def)
  qed
  moreover have "Task_createTask N initStk initThread entryAddr initAddr task krlStk pgd argPkg entry arg1 arg2 flag s = Some s3"
  proof -
    have i: "initStk ?c \<noteq> task" using assms(8) c(1) by simp
    define v where "v = s\<lparr>pidCounter := pidCounter s + 1,
      tasks := (tasks s)(task := t\<lparr>signalHandler := (signalHandler t)(33 := Task_SysSignal_Timer_addr)\<rparr>),
      stackRegs := (stackRegs s)(task := new_regs entry arg1 arg2 flag argPkg initAddr (rsp (thread t)))\<rparr>"
    have v: "Task_setSysSignalHandler task (s\<lparr>pidCounter := pidCounter s + 1, tasks := (tasks s)(task := t),
        stackRegs := (stackRegs s)(task := new_regs entry arg1 arg2 flag argPkg initAddr (rsp (thread t)))\<rparr>) = Some v"
      by (simp add: Task_setSysSignalHandler_def Task_setSignalHandler_def upd_task_def Task_signalNum_def
          Task_Signal_Timer_def v_def Let_def)
    have u: "upd_task task (\<lambda>u. u\<lparr>cpuId := of_nat ?c, vRunTime := vRunTime (tasks v (initStk ?c))\<rparr>) v = s1"
      using i by (simp add: upd_task_def v_def s1_def t'_def)
    have p: "unat (pid t mod of_nat N) = ?c" by (simp add: t_def new_task_def new_cpu_def)
    show ?thesis
      unfolding Task_createTask_def Let_def t_def [symmetric] v Option.bind.bind_lunit p u tq(1)
      by (simp add: s2_def s3_def)
  qed
  ultimately show ?thesis
    using c y(2) by (intro exI [of _ s3] exI [of _ ys] exI [of _ zs])
      (simp add: sched_inv_def s3_def s2_def s1_def t'_def t_def new_task_def new_regs_def Let_def)
qed

theorem Task_createTask_correct_witness:
  "\<exists>s' ys zs. Task_createTask 1 (\<lambda>_. 64) (thread zero_task) 0 0 96 0 0 0 7 8 9 Task_Flag_Kernel demo_sched = Some s' \<and>
    demo_queue 0 = ys @ zs \<and> sched_inv 1 s' (demo_queue(0 := ys @ 96 # zs)) [] \<and> vRunTime (tasks s' 96) = 64"
proof -
  have o: "okp 96" by (simp add: okp_def al_def)
  have c: "new_cpu 1 demo_sched = 0" by (simp add: new_cpu_def)
  from Task_createTask_correct [OF demo_sched_inv o, of "\<lambda>_. 64" "thread zero_task" 0 0 0 0 0 7 8 9 Task_Flag_Kernel]
  show ?thesis
    unfolding c by (simp add: demo_queue_def demo_sched_def demo_task_def) blast
qed

section \<open>The timer of a task\<close>

text \<open>
  C25: The expiry of a task timer does not reach the task.  \<open>Task_setSignal\<close> shifts a 1 of type
  \<open>int\<close> by 33, and whatever the compiler makes of that, the signals of the task are never just the
  timer signal; with the shift of the processor the task gets the signal 1, \<open>Task_Signal_Kill\<close>,
  and ends at its next scheduling.
\<close>

theorem task_timer_signal:
  assumes "signal (tasks s p) = 0" "current s cpu = p" "cfsFlags (cfs s) \<noteq> 0" "flags (tasks s p) AND Task_Flag_NeedSchedule \<noteq> 0"
    "signalHandler (tasks s p) 1 = NULL"
  shows "signal (tasks (Task_Timer_irqFunc sh1 irq p s) p) \<noteq> push_bit (unat Task_Signal_Timer) 1 \<and>
    (\<exists>s'. Task_schedule call cpu (Task_Timer_irqFunc x86_sh1 irq p s) = Some (Exits, s'))"
proof
  have "signal (tasks (Task_Timer_irqFunc sh1 irq p s) p) = scast (sh1 33)"
    using assms(1) by (simp add: Task_Timer_irqFunc_def Task_setSignal_def upd_tmr_def upd_task_def Task_Signal_Timer_def)
  moreover have "(scast (x :: i32) :: u64) \<noteq> push_bit 33 1" for x
  proof
    assume e: "(scast x :: u64) = push_bit 33 1"
    have "bit (scast x :: u64) 33 = bit (scast x :: u64) 34" by (simp add: bit_signed_iff)
    then show False unfolding e by (simp add: bit_push_bit_iff bit_1_iff del: push_bit_of_1)
  qed
  ultimately show "signal (tasks (Task_Timer_irqFunc sh1 irq p s) p) \<noteq> push_bit (unat Task_Signal_Timer) 1"
    by (simp add: Task_Signal_Timer_def del: push_bit_of_1)
next
  show "\<exists>s'. Task_schedule call cpu (Task_Timer_irqFunc x86_sh1 irq p s) = Some (Exits, s')"
  proof -
    let ?s = "Task_Timer_irqFunc x86_sh1 irq p s"
    have t: "tasks ?s = (tasks s)(p := (tasks s p)\<lparr>signal := 2\<rparr>)" "current ?s = current s" "cfs ?s = cfs s"
      using assms(1) by (simp_all add: Task_Timer_irqFunc_def Task_setSignal_def upd_tmr_def upd_task_def
          Task_Signal_Timer_def x86_sh1_def)
    have sp: "[0..<Task_signalNum] = 0 # 1 # [2..<64]" by (simp add: Task_signalNum_def upt_rec)
    show ?thesis
      using assms t unfolding Task_schedule_def sp
      by (simp add: Let_def upd_task_def Task_defaultSignalHandler_def Task_Signal_Kill_def)
  qed
qed

theorem task_timer_signal_witness:
  "signal (tasks (Task_Timer_irqFunc x86_sh1 8 64 demo_sched) 64) \<noteq> push_bit (unat Task_Signal_Timer) 1 \<and>
    (\<exists>s'. Task_schedule (\<lambda>h i d s. None) 0 (Task_Timer_irqFunc x86_sh1 8 64 demo_sched) = Some (Exits, s'))"
  by (rule task_timer_signal) (simp_all add: demo_sched_def demo_task_def zero_task_def Task_Flag_NeedSchedule_def)

end
