(* ===== verification/Printk.thy ===== *)
theory Printk
  imports Prelude "HOL-Library.Char_ord"
begin

text \<open>
  The formatter of \<open>log/printk.c\<close>: \<open>_number\<close> and \<open>sprintf\<close>, with the output as the list of the
  characters written.  The format ends with the list; its end is read as \<open>NUL\<close>.
\<close>

section \<open>Numbers\<close>

definition flag_fill_zero :: u32 where "flag_fill_zero = 0x01"
definition flag_left :: u32 where "flag_left = 0x02"
definition flag_space :: u32 where "flag_space = 0x04"
definition flag_sign :: u32 where "flag_sign = 0x08"
definition flag_special :: u32 where "flag_special = 0x10"

definition isDigit :: "char \<Rightarrow> bool" where
  "isDigit ch \<longleftrightarrow> CHR ''0'' \<le> ch \<and> ch \<le> CHR ''9''"

fun atoI_loop :: "int \<Rightarrow> string \<Rightarrow> int \<times> string" where
  "atoI_loop i [] = (i, [])"
| "atoI_loop i (c # cs) = (if isDigit c then atoI_loop (i * 10 + of_char c - 48) cs else (i, c # cs))"

definition skipAtoI :: "string \<Rightarrow> int \<times> string" where
  "skipAtoI fmt =
    (case fmt of CHR ''-'' # r \<Rightarrow> (case atoI_loop 0 r of (i, r') \<Rightarrow> (- i, r')) | _ \<Rightarrow> atoI_loop 0 fmt)"

definition digits :: string where
  "digits = ''0123456789ABCDEFGHIJKLMNOPQRSTUVWXYZ''"

text \<open>The instruction \<open>divq\<close> on a 64-bit number: quotient and remainder, without sign.\<close>

definition do_div :: "u64 \<Rightarrow> u64 \<Rightarrow> u64 \<times> nat" where
  "do_div n base = (n div base, unat (n mod base))"

lemma do_div_less:
  assumes "do_div num base = (q, r)" "\<not> base < 2" "num \<noteq> 0"
  shows "unat q < unat num"
proof -
  have "2 \<le> unat base" using assms(2) by (simp add: word_less_nat_alt)
  then show ?thesis using assms(1,3) by (auto simp: do_div_def unat_div unat_gt_0)
qed

text \<open>The array \<open>tmp\<close>: the digits from the lowest one on.\<close>

function tmp_digits :: "u64 \<Rightarrow> u64 \<Rightarrow> string" where
  "tmp_digits base num =
    (if base < 2 \<or> num = 0 then []
     else case do_div num base of (q, r) \<Rightarrow> digits ! r # tmp_digits base q)"
  by pat_completeness auto

termination
  by (relation "measure (\<lambda>(base, num). unat num)") (auto dest: do_div_less [OF sym])

declare tmp_digits.simps [simp del]

text \<open>The loop \<open>while (size-- > 0) *str++ = c\<close>: what it writes and what is left of \<open>size\<close>.\<close>

definition pad :: "int \<Rightarrow> char \<Rightarrow> string \<times> int" where
  "pad sz c = (replicate (nat sz) c, if 0 \<le> sz then - 1 else sz - 1)"

text \<open>\<open>None\<close> is the result 0 for a base that is not supported.\<close>

definition number :: "i64 \<Rightarrow> int \<Rightarrow> int \<Rightarrow> int \<Rightarrow> u32 \<Rightarrow> string option" where
  "number num base sz precision type =
    (let type = (if type AND flag_left \<noteq> 0 then type AND NOT flag_fill_zero else type) in
     if base < 2 \<or> 36 < base then None
     else
       let c = (if type AND flag_fill_zero \<noteq> 0 then CHR ''0'' else CHR '' '');
           (sign, num, sz) =
             (if type AND flag_sign \<noteq> 0 then
                if num <s 0 then ([CHR ''-''], - num, sz - 1)
                else if type AND flag_space \<noteq> 0 then ([CHR '' ''], num, sz - 1)
                else ([], num, sz)
              else ([], num, sz));
           (pre, sz) =
             (if type AND flag_special \<noteq> 0 then
                if base = 16 then (''0x'', sz - 2) else if base = 8 then (''0'', sz - 1) else ([], sz)
              else ([], sz));
           tmp = (if num = 0 then ''0'' else tmp_digits (of_int base) num);
           i = int (length tmp);
           precision = (if precision < i then i else precision);
           sz = sz - precision;
           (spaces, sz) = (if type AND (flag_left OR flag_fill_zero) = 0 then pad sz CHR '' '' else ([], sz));
           (fill, sz) = (if type AND flag_left = 0 then pad sz c else ([], sz))
       in Some (pre @ spaces @ sign @ fill @ replicate (nat (precision - i)) CHR ''0'' @ rev tmp @ fst (pad sz CHR '' '')))"

section \<open>Formats\<close>

text \<open>An argument is a number or a string; \<open>None\<close> is a format that reads behind its end or an argument that is missing.\<close>

datatype arg = ANum u64 | AStr string

fun va_num :: "arg list \<Rightarrow> (u64 \<times> arg list) option" where
  "va_num (ANum n # as) = Some (n, as)"
| "va_num _ = None"

fun va_str :: "arg list \<Rightarrow> (string \<times> arg list) option" where
  "va_str (AStr s # as) = Some (s, as)"
| "va_str _ = None"

definition peek :: "string \<Rightarrow> char" where
  "peek fmt = (case fmt of [] \<Rightarrow> CHR 0x00 | c # _ \<Rightarrow> c)"

fun scanFlags :: "string \<Rightarrow> u32 \<Rightarrow> string \<times> u32" where
  "scanFlags [] flags = ([], flags)"
| "scanFlags (c # cs) flags =
    (if c = CHR ''0'' then scanFlags cs (flags OR flag_fill_zero)
     else if c = CHR ''-'' then scanFlags cs (flags OR flag_left)
     else if c = CHR '' '' then scanFlags cs (flags OR flag_space)
     else if c = CHR ''+'' then scanFlags cs (flags OR flag_sign)
     else if c = CHR ''#'' then scanFlags cs (flags OR flag_special)
     else (c # cs, flags))"

definition sint32 :: "u64 \<Rightarrow> int" where "sint32 n = sint (ucast n :: i32)"

text \<open>The width, and the precision behind a dot.\<close>

definition scanWidth :: "string \<Rightarrow> u32 \<Rightarrow> arg list \<Rightarrow> (int \<times> u32 \<times> string \<times> arg list) option" where
  "scanWidth fmt flags args =
    (if isDigit (peek fmt) then (case skipAtoI fmt of (w, r) \<Rightarrow> Some (w, flags, r, args))
     else if peek fmt = CHR ''*'' then
       map_option (\<lambda>(n, as). if sint32 n < 0 then (- sint32 n, flags OR flag_left, tl fmt, as) else (sint32 n, flags, tl fmt, as))
         (va_num args)
     else Some (- 1, flags, fmt, args))"

definition scanPrec :: "string \<Rightarrow> arg list \<Rightarrow> (int \<times> string \<times> arg list) option" where
  "scanPrec fmt args =
    (if peek fmt = CHR ''.'' then
       let fmt = tl fmt in
       map_option (\<lambda>(p, r, as). (max p 0, r, as))
         (if isDigit (peek fmt) then (case skipAtoI fmt of (p, r) \<Rightarrow> Some (p, r, args))
          else if peek fmt = CHR ''*'' then map_option (\<lambda>(n, as). (sint32 n, tl fmt, as)) (va_num args)
          else Some (- 1, fmt, args))
     else Some (- 1, fmt, args))"

definition scanQlf :: "string \<Rightarrow> char \<times> string" where
  "scanQlf fmt =
    (let c = peek fmt; d = peek (tl fmt) in
     if c = CHR ''h'' then (if d = CHR ''h'' then (CHR ''H'', drop 2 fmt) else (CHR ''h'', tl fmt))
     else if c = CHR ''l'' then (if d = CHR ''l'' then (CHR ''L'', drop 2 fmt) else (CHR ''L'', tl fmt))
     else if c \<in> {CHR ''j'', CHR ''z'', CHR ''t'', CHR ''L''} then (c, tl fmt)
     else (CHR 0x00, fmt))"

text \<open>An unsigned argument, as a 64-bit number or, without the qualifier, the low 32 bits of one.\<close>

definition u_arg :: "char \<Rightarrow> u64 \<Rightarrow> u64" where
  "u_arg qlf n = (if qlf = CHR ''L'' then n else ucast (ucast n :: u32))"

definition s_arg :: "char \<Rightarrow> u64 \<Rightarrow> u64" where
  "s_arg qlf n = (if qlf = CHR ''L'' then n else scast (ucast n :: i32))"

definition fmt_char :: "int \<Rightarrow> u32 \<Rightarrow> u64 \<Rightarrow> string" where
  "fmt_char fld_w flags n =
    (let p = replicate (nat (fld_w - 1)) CHR '' '' in
     if flags AND flag_left = 0 then p @ [char_of (unat (ucast n :: u8))] else char_of (unat (ucast n :: u8)) # p)"

definition fmt_str :: "int \<Rightarrow> int \<Rightarrow> u32 \<Rightarrow> string \<Rightarrow> string" where
  "fmt_str fld_w prec flags s =
    (let len = (if 0 \<le> prec \<and> prec < int (length s) then nat prec else length s);
         p = replicate (nat (fld_w - int len)) CHR '' '' in
     if flags AND flag_left = 0 then p @ take len s else take len s @ p)"

text \<open>A conversion: what it writes and the arguments that are left.\<close>

definition conversion :: "char \<Rightarrow> char \<Rightarrow> int \<Rightarrow> int \<Rightarrow> u32 \<Rightarrow> arg list \<Rightarrow> (string \<times> arg list) option" where
  "conversion c qlf fld_w prec flags args =
    (let num = (\<lambda>f base w fl. Option.bind (va_num args) (\<lambda>(n, as). map_option (\<lambda>s. (s, as)) (number (f n) base w prec fl))) in
     if c = CHR ''c'' then map_option (\<lambda>(n, as). (fmt_char fld_w flags n, as)) (va_num args)
     else if c = CHR ''s'' then map_option (\<lambda>(s, as). (fmt_str fld_w prec flags s, as)) (va_str args)
     else if c = CHR ''o'' then num (u_arg qlf) 8 fld_w flags
     else if c = CHR ''p'' then
       if fld_w = - 1 then num id 16 16 (flags OR flag_fill_zero) else num id 16 fld_w flags
     else if c = CHR ''x'' \<or> c = CHR ''X'' then num (u_arg qlf) 16 fld_w flags
     else if c = CHR ''d'' \<or> c = CHR ''i'' then num (s_arg qlf) 10 fld_w (flags OR flag_sign)
     else if c = CHR ''u'' then num (u_arg qlf) 10 fld_w flags
     else Some (''%'', args))"

definition directive :: "string \<Rightarrow> arg list \<Rightarrow> (string \<times> string \<times> arg list) option" where
  "directive fmt args =
    (case scanFlags fmt 0 of (fmt, flags) \<Rightarrow>
     Option.bind (scanWidth fmt flags args) (\<lambda>(fld_w, flags, fmt, args).
     Option.bind (scanPrec fmt args) (\<lambda>(prec, fmt, args).
     case scanQlf fmt of (qlf, fmt) \<Rightarrow>
     Option.bind (conversion (peek fmt) qlf fld_w prec flags args) (\<lambda>(out, args).
       if fmt = [] then None else Some (out, tl fmt, args)))))"

text \<open>Each turn of the loop consumes characters, so it ends.\<close>

lemma atoI_loop_length: "length (snd (atoI_loop i fmt)) \<le> length fmt"
  by (induction i fmt rule: atoI_loop.induct) auto

lemma skipAtoI_length: "skipAtoI fmt = (i, r) \<Longrightarrow> length r \<le> length fmt"
  using atoI_loop_length [of 0 fmt] atoI_loop_length [of 0 "tl fmt"]
  by (auto simp: skipAtoI_def split: list.splits char.splits bool.splits prod.splits)

lemma scanFlags_length: "length (fst (scanFlags fmt flags)) \<le> length fmt"
  by (induction fmt flags rule: scanFlags.induct) auto

lemma scanWidth_length: "scanWidth fmt flags args = Some (w, f, r, as) \<Longrightarrow> length r \<le> length fmt"
  by (auto simp: scanWidth_def split: if_splits prod.splits dest: skipAtoI_length)

lemma scanPrec_length: "scanPrec fmt args = Some (p, r, as) \<Longrightarrow> length r \<le> length fmt"
  by (auto simp: scanPrec_def Let_def split: if_splits prod.splits dest: skipAtoI_length)

lemma scanQlf_length: "length (snd (scanQlf fmt)) \<le> length fmt"
  by (auto simp: scanQlf_def Let_def)

lemma directive_length:
  assumes "directive fmt args = Some (out, r, as)" shows "length r < length fmt"
proof -
  obtain f0 flags where f0: "scanFlags fmt 0 = (f0, flags)" by fastforce
  obtain w flags' f1 a1 where f1: "scanWidth f0 flags args = Some (w, flags', f1, a1)"
    using assms f0 by (auto simp: directive_def Option.bind_eq_Some_conv)
  obtain p f2 a2 where f2: "scanPrec f1 a1 = Some (p, f2, a2)"
    using assms f0 f1 by (auto simp: directive_def Option.bind_eq_Some_conv)
  obtain q f3 where f3: "scanQlf f2 = (q, f3)" by fastforce
  have "f3 \<noteq> []" "r = tl f3"
    using assms f0 f1 f2 f3 by (auto simp: directive_def Option.bind_eq_Some_conv split: if_splits)
  then have "length r < length f3" by (cases f3) auto
  moreover have "length f3 \<le> length fmt"
    using scanFlags_length [of fmt 0] scanWidth_length [OF f1] scanPrec_length [OF f2] scanQlf_length [of f2] f0 f3 by simp
  ultimately show ?thesis by simp
qed

function sprintf :: "string \<Rightarrow> arg list \<Rightarrow> string option" where
  "sprintf [] args = Some []"
| "sprintf (c # cs) args =
    (if c \<noteq> CHR ''%'' then map_option ((#) c) (sprintf cs args)
     else if peek cs = CHR ''%'' then map_option ((#) (CHR ''%'')) (sprintf (tl cs) args)
     else case directive cs args of None \<Rightarrow> None
       | Some (out, fmt, args) \<Rightarrow> map_option ((@) out) (sprintf fmt args))"
  by pat_completeness auto
termination
  by (relation "measure (\<lambda>(fmt, args). length fmt)") (auto dest: directive_length)

section \<open>Reading the numbers back\<close>

definition dig :: "char \<Rightarrow> nat" where
  "dig c = (if c \<le> CHR ''9'' then of_char c - 48 else of_char c - 55)"

definition read_num :: "nat \<Rightarrow> string \<Rightarrow> nat" where
  "read_num b = foldl (\<lambda>n c. n * b + dig c) 0"

lemma digits_nth: "r < 36 \<Longrightarrow> dig (digits ! r) = r"
proof -
  assume r: "r < 36"
  have "map dig digits = [0..<36]" by (simp add: digits_def dig_def upt_rec)
  then have "map dig digits ! r = [0..<36] ! r" by simp
  moreover have "length digits = 36" by (simp add: digits_def)
  ultimately show ?thesis using r by simp
qed

lemma read_snoc: "read_num b (xs @ [c]) = read_num b xs * b + dig c"
  by (simp add: read_num_def)

lemma read_zeros: "read_num b (replicate n CHR ''0'' @ xs) = read_num b xs"
  by (induction n) (simp_all add: read_num_def dig_def)

lemma read_tmp_digits:
  "2 \<le> base \<Longrightarrow> base \<le> 36 \<Longrightarrow> read_num (unat base) (rev (tmp_digits base num)) = unat num"
proof (induction base num rule: tmp_digits.induct)
  case (1 base num)
  show ?case
  proof (cases "num = 0")
    case True
    then show ?thesis by (simp add: tmp_digits.simps read_num_def)
  next
    case False
    have b: "\<not> base < 2" "unat base \<le> 36" using "1.prems" by (simp_all add: word_le_nat_alt word_less_nat_alt)
    have "unat num mod unat base < unat base" using b(1) by (intro mod_less_divisor) (simp add: word_less_nat_alt)
    then have "unat (num mod base) < 36" using b(2) by (simp add: unat_mod)
    then show ?thesis
      using "1.IH" [of "num div base" "unat (num mod base)"] "1.prems" False b
      by (subst tmp_digits.simps) (simp add: do_div_def read_snoc digits_nth unat_div unat_mod)
  qed
qed

lemma length_tmp_digits:
  "2 \<le> base \<Longrightarrow> unat num < unat base ^ k \<Longrightarrow> length (tmp_digits base num) \<le> k"
proof (induction k arbitrary: num)
  case 0
  then show ?case by (simp add: tmp_digits.simps unat_eq_0)
next
  case (Suc k)
  have "unat num div unat base < unat base ^ k"
    using Suc.prems by (simp add: word_le_nat_alt less_mult_imp_div_less algebra_simps)
  then have "length (tmp_digits base (num div base)) \<le> k" using Suc by (simp add: unat_div)
  then show ?case by (subst tmp_digits.simps) (simp add: do_div_def)
qed

definition the_digits :: "u64 \<Rightarrow> u64 \<Rightarrow> string" where
  "the_digits base num = (if num = 0 then ''0'' else tmp_digits base num)"

lemma the_digits_read:
  "2 \<le> base \<Longrightarrow> base \<le> 36 \<Longrightarrow> read_num (unat base) (rev (the_digits base num)) = unat num"
  by (simp add: the_digits_def read_tmp_digits) (simp add: read_num_def dig_def)

lemma the_digits_length: "0 < length (the_digits base num) \<or> base < 2"
  by (subst the_digits_def, subst tmp_digits.simps) (simp add: do_div_def)

lemma the_digits_16: "length (the_digits 16 num) \<le> 16"
proof -
  have "unat num < unat (16 :: u64) ^ 16" using unat_u64_less [of num] by simp
  then show ?thesis using length_tmp_digits [of 16 num 16] by (simp add: the_digits_def)
qed

lemmas format_simps =
  directive_def scanWidth_def scanPrec_def scanQlf_def peek_def isDigit_def conversion_def number_def
  u_arg_def s_arg_def pad_def flag_fill_zero_def flag_left_def flag_space_def flag_sign_def flag_special_def skipAtoI_def Let_def

lemma format_ld: "sprintf ''%ld'' [ANum x] = Some ((if x <s 0 then ''-'' else []) @ rev (the_digits 10 (if x <s 0 then - x else x)))"
  by (simp add: format_simps the_digits_def)

lemma format_lu: "sprintf ''%lu'' [ANum x] = Some (rev (the_digits 10 x))"
  by (simp add: format_simps the_digits_def)

lemma format_lx: "sprintf ''%#018lx'' [ANum x] =
    Some (''0x'' @ replicate (16 - length (the_digits 16 x)) CHR ''0'' @ rev (the_digits 16 x))"
  using the_digits_16 [of x] by (simp add: format_simps the_digits_def nat_diff_distrib')

lemma magnitude_i64: "int (unat (if sint x < 0 then - x else x)) = \<bar>sint (x :: i64)\<bar>"
proof -
  have u: "0 \<le> uint x" "uint x < 2 ^ 64" using uint_lt2p [of x] by simp_all
  then have "take_bit 64 (uint x) = uint x" by (simp add: take_bit_int_eq_self)
  then have s: "sint x = uint x - 2 ^ 64 * of_bool (bit (uint x) 63)"
    using signed_take_bit_eq_take_bit_minus [of 63 "uint x"] by (simp add: sint_uint)
  show ?thesis
  proof (cases "sint x < 0")
    case True
    then have "x \<noteq> 0" by auto
    then have "uint (- x) = 2 ^ 64 - uint x"
      using u by (simp add: uint_word_ariths zmod_zminus1_eq_if uint_0_iff)
    then show ?thesis using True s u by (auto split: if_splits simp: of_bool_def)
  next
    case False
    then show ?thesis using s u by (auto simp: of_bool_def split: if_splits)
  qed
qed

text \<open>
  C27: Numbers printed by the kernel read back.  \<open>%ld\<close> writes the sign and the magnitude of the signed
  number, \<open>%lu\<close> the unsigned one, and \<open>%#018lx\<close>, which the kernel uses for addresses, \<open>0x\<close> and
  exactly 16 hexadecimal digits of it, for all numbers of 64 bits.
\<close>

theorem sprintf_roundtrip:
  "(\<exists>d. sprintf ''%ld'' [ANum x] = Some ((if sint x < 0 then ''-'' else []) @ d) \<and> int (read_num 10 d) = \<bar>sint x\<bar>) \<and>
   (\<exists>d. sprintf ''%lu'' [ANum x] = Some d \<and> read_num 10 d = unat x) \<and>
   (\<exists>d. sprintf ''%#018lx'' [ANum x] = Some (''0x'' @ d) \<and> length d = 16 \<and> read_num 16 d = unat x)"
proof (intro conjI)
  have r: "read_num 10 (rev (the_digits 10 y)) = unat y" "read_num 16 (rev (the_digits 16 y)) = unat y" for y
    using the_digits_read [of 10 y] the_digits_read [of 16 y] by simp_all
  show "\<exists>d. sprintf ''%ld'' [ANum x] = Some ((if sint x < 0 then ''-'' else []) @ d) \<and> int (read_num 10 d) = \<bar>sint x\<bar>"
    unfolding format_ld using r(1) by (simp add: word_sless_alt magnitude_i64 del: of_nat_unat)
  show "\<exists>d. sprintf ''%lu'' [ANum x] = Some d \<and> read_num 10 d = unat x" unfolding format_lu using r(1) by simp
  show "\<exists>d. sprintf ''%#018lx'' [ANum x] = Some (''0x'' @ d) \<and> length d = 16 \<and> read_num 16 d = unat x"
    unfolding format_lx using r(2) the_digits_16 [of x]
    by (intro exI [of _ "replicate (16 - length (the_digits 16 x)) CHR ''0'' @ rev (the_digits 16 x)"]) (simp add: read_zeros)
qed

text \<open>A percent sign at the end of the format makes the formatter read behind it.\<close>

lemma sprintf_trailing_percent: "sprintf ''%'' args = None" "sprintf ''100%'' args = None"
  by (simp_all add: format_simps)

end
