(* ===== verification/Screen.thy ===== *)
theory Screen
  imports Font Locks
begin

text \<open>
  The screen of \<open>log/printk.c\<close>: cursor, drawing, scrolling.  Pixels are numbered from the address of
  the frame buffer on, in the frame buffer and in the copy of it that \<open>Log_enableBuf\<close> makes.
\<close>

section \<open>State and drawing\<close>

record Screen =
  XResolution :: int
  YResolution :: int
  XPosition :: int
  YPosition :: int
  XCharSize :: int
  YCharSize :: int
  ppsl :: nat
  fb :: "nat \<Rightarrow> u32"
  bufm :: "(nat \<Rightarrow> u32) option"
  lineLength :: "nat \<Rightarrow> nat"
  printLock :: SpinLock

text \<open>The resolution of the firmware, and the cursor at the origin.\<close>

definition Log_init :: "u32 \<Rightarrow> u32 \<Rightarrow> nat \<Rightarrow> Screen \<Rightarrow> Screen" where
  "Log_init hres vres pp s =
    s\<lparr>bufm := None, lineLength := (\<lambda>_. 0), printLock := SpinLock_init (printLock s),
      XResolution := uint (hres AND 0xffff), YResolution := uint (vres AND 0xffff),
      XCharSize := 8, YCharSize := 16, XPosition := 0, YPosition := 0, ppsl := pp\<rparr>"

text \<open>The buffer starts as a copy of the visible pixels; \<open>m\<close> is what the memory held before.\<close>

definition Log_enableBuf :: "nat \<Rightarrow> (nat \<Rightarrow> u32) \<Rightarrow> Screen \<Rightarrow> Screen" where
  "Log_enableBuf vres m s = s\<lparr>bufm := Some (\<lambda>a. if a < vres * ppsl s then fb s a else m a)\<rparr>"

definition copy_pix :: "(nat \<Rightarrow> u32) \<Rightarrow> nat \<Rightarrow> nat \<Rightarrow> nat \<Rightarrow> (nat \<Rightarrow> u32) \<Rightarrow> nat \<Rightarrow> u32" where
  "copy_pix from src dst n m = (\<lambda>a. if dst \<le> a \<and> a < dst + n then from (src + (a - dst)) else m a)"

definition clear_pix :: "nat \<Rightarrow> nat \<Rightarrow> (nat \<Rightarrow> u32) \<Rightarrow> nat \<Rightarrow> u32" where
  "clear_pix dst n m = (\<lambda>a. if dst \<le> a \<and> a < dst + n then 0 else m a)"

text \<open>A row of the glyph, then the glyph; \<open>off\<close> is where its first row starts.\<close>

definition glyph_row :: "u32 \<Rightarrow> u32 \<Rightarrow> u8 \<Rightarrow> nat \<Rightarrow> nat \<Rightarrow> (nat \<Rightarrow> u32) \<Rightarrow> nat \<Rightarrow> u32" where
  "glyph_row fcol bcol bits w off m =
    fold (\<lambda>x m. m(off + x := (if bits AND drop_bit x 0x80 \<noteq> 0 then fcol else bcol))) [0..<w] m"

definition glyph :: "u32 \<Rightarrow> u32 \<Rightarrow> nat \<Rightarrow> nat \<Rightarrow> nat \<Rightarrow> nat \<Rightarrow> nat \<Rightarrow> (nat \<Rightarrow> u32) \<Rightarrow> nat \<Rightarrow> u32" where
  "glyph fcol bcol ch w h pp off m =
    fold (\<lambda>y m. glyph_row fcol bcol (font_ascii ch y) w (off + pp * y) m) [0..<h] m"

text \<open>
  A \<open>char\<close> is signed: a code of 128 or more is an index before the table.  A place above the
  screen lies before the frame buffer.
\<close>

definition drawchar :: "u32 \<Rightarrow> u32 \<Rightarrow> int \<Rightarrow> int \<Rightarrow> char \<Rightarrow> Screen \<Rightarrow> Screen option" where
  "drawchar fcol bcol px py ch s =
    (if 128 \<le> (of_char ch :: nat) \<or> py < 0 \<or> px < 0 then None
     else
       let g = glyph fcol bcol (of_char ch) (nat (XCharSize s)) (nat (YCharSize s)) (ppsl s) (ppsl s * nat py + nat px)
       in Some (s\<lparr>fb := g (fb s), bufm := map_option g (bufm s)\<rparr>))"

section \<open>Scrolling\<close>

text \<open>One row of pixels of a line, copied from the line below.\<close>

definition scroll_row :: "nat \<Rightarrow> nat \<Rightarrow> nat \<Rightarrow> Screen \<Rightarrow> Screen" where
  "scroll_row src dst n s =
    (case bufm s of
       None \<Rightarrow> s\<lparr>fb := copy_pix (fb s) src dst n (fb s)\<rparr>
     | Some b \<Rightarrow> s\<lparr>fb := copy_pix b src dst n (fb s), bufm := Some (copy_pix b src dst n b)\<rparr>)"

definition scroll_line :: "nat \<Rightarrow> Screen \<Rightarrow> Screen" where
  "scroll_line i s =
    (let per = ppsl s * nat (YCharSize s);
         n = max (lineLength s (Suc i)) (lineLength s i) * nat (XCharSize s);
         s = fold (\<lambda>j. scroll_row (Suc i * per + j * ppsl s) (i * per + j * ppsl s) n) [0..<nat (YCharSize s)] s
     in s\<lparr>lineLength := (lineLength s)(i := lineLength s (Suc i))\<rparr>)"

definition scroll :: "Screen \<Rightarrow> Screen" where
  "scroll s =
    (let n = nat (YPosition s - 1); per = ppsl s * nat (YCharSize s);
         s = fold scroll_line [0..<n] s
     in s\<lparr>fb := clear_pix (n * per) per (fb s), bufm := map_option (clear_pix (n * per) per) (bufm s),
          lineLength := (lineLength s)(n := 0)\<rparr>)"

section \<open>Characters\<close>

definition newline :: "Screen \<Rightarrow> Screen" where
  "newline s =
    (let s = s\<lparr>YPosition := YPosition s + 1, XPosition := 0\<rparr> in
     if min 96 (YResolution s div YCharSize s) \<le> YPosition s
     then let s = scroll s in s\<lparr>YPosition := YPosition s - 1\<rparr> else s)"

definition put_glyph :: "u32 \<Rightarrow> u32 \<Rightarrow> char \<Rightarrow> Screen \<Rightarrow> Screen option" where
  "put_glyph fcol bcol ch s =
    (let s = (if XPosition s = XResolution s div XCharSize s then newline s else s) in
     map_option (\<lambda>s.
         let s = s\<lparr>XPosition := XPosition s + 1\<rparr>; y = nat (YPosition s)
         in s\<lparr>lineLength := (lineLength s)(y := max (lineLength s y) (nat (XPosition s)))\<rparr>)
       (drawchar fcol bcol (XCharSize s * XPosition s) (YCharSize s * YPosition s) ch s))"

partial_function (option) tab_loop :: "u32 \<Rightarrow> u32 \<Rightarrow> Screen \<Rightarrow> Screen option" where
  "tab_loop fcol bcol s =
    Option.bind (put_glyph fcol bcol (CHR '' '') s)
      (\<lambda>s. if XPosition s mod 4 \<noteq> 0 then tab_loop fcol bcol s else Some s)"

definition putchar :: "u32 \<Rightarrow> u32 \<Rightarrow> char \<Rightarrow> Screen \<Rightarrow> Screen option" where
  "putchar fcol bcol ch s =
    (if ch = CHR 0x0A then Some (newline s)
     else if ch = CHR 0x0D then Some (s\<lparr>XPosition := 0\<rparr>)
     else if ch = CHR 0x08 then
       Some (if XPosition s \<noteq> 0 then s\<lparr>XPosition := XPosition s - 1\<rparr>
             else s\<lparr>YPosition := YPosition s - 1, XPosition := XResolution s div XCharSize s\<rparr>)
     else if ch = CHR 0x09 then tab_loop fcol bcol s
     else put_glyph fcol bcol ch s)"

fun putchars :: "u32 \<Rightarrow> u32 \<Rightarrow> string \<Rightarrow> Screen \<Rightarrow> Screen option" where
  "putchars fcol bcol [] s = Some s"
| "putchars fcol bcol (c # cs) s = Option.bind (putchar fcol bcol c s) (putchars fcol bcol cs)"

definition printStr :: "u32 \<Rightarrow> u32 \<Rightarrow> string \<Rightarrow> Screen \<Rightarrow> Screen option" where
  "printStr fcol bcol str s =
    Option.bind (SpinLock_acquire (printLock s)) (\<lambda>l.
      map_option (\<lambda>s. s\<lparr>printLock := SpinLock_unlock (printLock s)\<rparr>) (putchars fcol bcol str (s\<lparr>printLock := l\<rparr>)))"

definition clearScreen :: "Screen \<Rightarrow> Screen option" where
  "clearScreen s =
    map_option (\<lambda>l.
        let n = nat ((YPosition s + 1) * YCharSize s) * ppsl s in
        s\<lparr>fb := clear_pix 0 n (fb s), bufm := map_option (clear_pix 0 n) (bufm s), lineLength := (\<lambda>_. 0),
          XPosition := 0, YPosition := 0, printLock := SpinLock_unlock l\<rparr>)
      (SpinLock_acquire (printLock s))"

section \<open>The cursor stays on the screen\<close>

text \<open>The lines and columns that are used; at least four columns make the tabulator end.\<close>

definition lines_of :: "Screen \<Rightarrow> int" where "lines_of s = min 96 (YResolution s div 16)"
definition cols_of :: "Screen \<Rightarrow> int" where "cols_of s = XResolution s div 8"

definition screen_ok :: "Screen \<Rightarrow> bool" where
  "screen_ok s \<longleftrightarrow> XCharSize s = 8 \<and> YCharSize s = 16 \<and> 32 \<le> XResolution s \<and> XResolution s \<le> int (ppsl s) \<and>
    16 \<le> YResolution s \<and> 0 \<le> XPosition s \<and> XPosition s \<le> cols_of s \<and> 0 \<le> YPosition s \<and> YPosition s < lines_of s \<and>
    (\<forall>i. int (lineLength s i) \<le> cols_of s)"

definition same_size :: "Screen \<Rightarrow> Screen \<Rightarrow> bool" where
  "same_size s s' \<longleftrightarrow> XCharSize s' = XCharSize s \<and> YCharSize s' = YCharSize s \<and> XResolution s' = XResolution s \<and>
    YResolution s' = YResolution s \<and> ppsl s' = ppsl s \<and> printLock s' = printLock s"

text \<open>Nothing from \<open>L\<close> on is written, in the frame buffer and in its copy.\<close>

definition keeps :: "nat \<Rightarrow> Screen \<Rightarrow> Screen \<Rightarrow> bool" where
  "keeps L s s' \<longleftrightarrow> (\<forall>a\<ge>L. fb s' a = fb s a \<and> map_option (\<lambda>m. m a) (bufm s') = map_option (\<lambda>m. m a) (bufm s))"

definition limit :: "Screen \<Rightarrow> nat" where "limit s = nat (lines_of s) * (16 * ppsl s)"

lemma keeps_refl [simp]: "keeps L s s" by (simp add: keeps_def)
lemma keeps_trans [trans]: "keeps L s t \<Longrightarrow> keeps L t u \<Longrightarrow> keeps L s u" by (simp add: keeps_def)
lemma same_size_refl [simp]: "same_size s s" by (simp add: same_size_def)
lemma same_size_trans [trans]: "same_size s t \<Longrightarrow> same_size t u \<Longrightarrow> same_size s u" by (simp add: same_size_def)

lemma same_size_derived: "same_size s t \<Longrightarrow> lines_of t = lines_of s \<and> cols_of t = cols_of s \<and> limit t = limit s"
  by (simp add: same_size_def lines_of_def cols_of_def limit_def)

lemma glyph_row_beyond: "off + w \<le> L \<Longrightarrow> L \<le> a \<Longrightarrow> glyph_row fcol bcol bits w off m a = m a"
  unfolding glyph_row_def by (induction w) auto

lemma glyph_beyond:
  "\<forall>y<h. off + pp * y + w \<le> L \<Longrightarrow> L \<le> a \<Longrightarrow> glyph fcol bcol ch w h pp off m a = m a"
  unfolding glyph_def by (induction h) (auto simp: glyph_row_beyond)

lemma fold_inv:
  assumes "\<And>x s. x \<in> set xs \<Longrightarrow> P s \<Longrightarrow> P (f x s)" "P s" shows "P (fold f xs s)"
  using assms by (induction xs arbitrary: s) auto

lemma scroll_row_keeps: "dst + n \<le> L \<Longrightarrow> keeps L s (scroll_row src dst n s)"
  by (auto simp: keeps_def scroll_row_def copy_pix_def split: option.split)

lemma scroll_row_fields [simp]:
  "same_size s (scroll_row src dst n s)" "XPosition (scroll_row src dst n s) = XPosition s"
  "YPosition (scroll_row src dst n s) = YPosition s" "lineLength (scroll_row src dst n s) = lineLength s"
  by (simp_all add: scroll_row_def same_size_def split: option.split)

lemma keeps_clear:
  "dst + n \<le> L \<Longrightarrow> keeps L s (s\<lparr>fb := clear_pix dst n (fb s), bufm := map_option (clear_pix dst n) (bufm s), lineLength := f\<rparr>)"
  by (cases "bufm s") (auto simp: keeps_def clear_pix_def)

lemma scroll_line_ok:
  assumes "YCharSize s = 16" "XCharSize s = 8" "\<forall>k. lineLength s k \<le> c" "c * 8 \<le> ppsl s" "Suc i * (16 * ppsl s) \<le> L"
  shows "keeps L s (scroll_line i s) \<and> same_size s (scroll_line i s) \<and> XPosition (scroll_line i s) = XPosition s \<and>
    YPosition (scroll_line i s) = YPosition s \<and> (\<forall>k. lineLength (scroll_line i s) k \<le> c)"
proof -
  let ?n = "max (lineLength s (Suc i)) (lineLength s i) * 8"
  let ?f = "\<lambda>j. scroll_row (Suc i * (ppsl s * 16) + j * ppsl s) (i * (ppsl s * 16) + j * ppsl s) ?n"
  have n: "?n \<le> ppsl s" using assms(3) [rule_format, of i] assms(3) [rule_format, of "Suc i"] assms(4) by (auto simp: max_def)
  have "keeps L s (fold ?f [0..<16] s) \<and> same_size s (fold ?f [0..<16] s) \<and> XPosition (fold ?f [0..<16] s) = XPosition s \<and>
      YPosition (fold ?f [0..<16] s) = YPosition s \<and> lineLength (fold ?f [0..<16] s) = lineLength s"
  proof (rule fold_inv)
    fix j t
    assume j: "j \<in> set [0..<16]"
      and t: "keeps L s t \<and> same_size s t \<and> XPosition t = XPosition s \<and> YPosition t = YPosition s \<and> lineLength t = lineLength s"
    have "j * ppsl s + ppsl s \<le> 16 * ppsl s" using mult_le_mono1 [of "Suc j" 16 "ppsl s"] j by simp
    moreover have "16 * ppsl s + i * (ppsl s * 16) \<le> L" using assms(5) by (simp add: mult.commute)
    ultimately have "i * (ppsl s * 16) + j * ppsl s + ?n \<le> L" using n by linarith
    then have "keeps L t (?f j t)" by (rule scroll_row_keeps)
    then show "keeps L s (?f j t) \<and> same_size s (?f j t) \<and> XPosition (?f j t) = XPosition s \<and> YPosition (?f j t) = YPosition s \<and>
        lineLength (?f j t) = lineLength s"
      using t keeps_trans same_size_trans [OF _ scroll_row_fields(1)] by auto
  qed simp
  then show ?thesis
    using assms(1-3) unfolding scroll_line_def Let_def
    by (auto simp: keeps_def same_size_def)
qed

lemma scroll_ok:
  assumes s: "YCharSize s = 16" "XCharSize s = 8" "\<forall>k. lineLength s k \<le> c" "c * 8 \<le> ppsl s" and y: "1 \<le> YPosition s"
    and L: "nat (YPosition s) * (16 * ppsl s) \<le> L"
  shows "keeps L s (scroll s) \<and> same_size s (scroll s) \<and> XPosition (scroll s) = XPosition s \<and>
    YPosition (scroll s) = YPosition s \<and> (\<forall>k. lineLength (scroll s) k \<le> c)"
proof -
  let ?n = "nat (YPosition s - 1)"
  let ?t = "fold scroll_line [0..<?n] s"
  have ny: "nat (YPosition s) = Suc ?n" using y by simp
  have "keeps L s ?t \<and> same_size s ?t \<and> XPosition ?t = XPosition s \<and> YPosition ?t = YPosition s \<and> (\<forall>k. lineLength ?t k \<le> c)"
  proof (rule fold_inv)
    fix i t
    assume i: "i \<in> set [0..<?n]" and t: "keeps L s t \<and> same_size s t \<and> XPosition t = XPosition s \<and> YPosition t = YPosition s \<and>
      (\<forall>k. lineLength t k \<le> c)"
    have e: "YCharSize t = 16" "XCharSize t = 8" "ppsl t = ppsl s" using t s by (auto simp: same_size_def)
    have "Suc i * (16 * ppsl s) \<le> nat (YPosition s) * (16 * ppsl s)" using i ny by (intro mult_le_mono1) auto
    then have "Suc i * (16 * ppsl t) \<le> L" using L e(3) by simp
    from scroll_line_ok [OF e(1,2) _ _ this, of c] t e(3) s(4)
    show "keeps L s (scroll_line i t) \<and> same_size s (scroll_line i t) \<and> XPosition (scroll_line i t) = XPosition s \<and>
        YPosition (scroll_line i t) = YPosition s \<and> (\<forall>k. lineLength (scroll_line i t) k \<le> c)"
      using keeps_trans same_size_trans by auto
  qed (use s in auto)
  moreover have "?n * (ppsl s * 16) + ppsl s * 16 \<le> L" using L ny by (simp add: algebra_simps)
  then have "keeps L ?t (?t\<lparr>fb := clear_pix (?n * (ppsl s * 16)) (ppsl s * 16) (fb ?t),
      bufm := map_option (clear_pix (?n * (ppsl s * 16)) (ppsl s * 16)) (bufm ?t), lineLength := (lineLength ?t)(?n := 0)\<rparr>)"
    by (rule keeps_clear)
  ultimately show ?thesis
    using s(1) keeps_trans unfolding scroll_def Let_def by (auto simp: same_size_def)
qed

lemma okD:
  assumes "screen_ok s"
  shows "XCharSize s = 8" "YCharSize s = 16" "32 \<le> XResolution s" "XResolution s \<le> int (ppsl s)" "16 \<le> YResolution s"
    "0 \<le> XPosition s" "XPosition s \<le> cols_of s" "0 \<le> YPosition s" "YPosition s < lines_of s"
    "\<And>i. int (lineLength s i) \<le> cols_of s" "nat (cols_of s) * 8 \<le> ppsl s" "4 \<le> cols_of s"
proof -
  show c: "XCharSize s = 8" "YCharSize s = 16" "32 \<le> XResolution s" "XResolution s \<le> int (ppsl s)" "16 \<le> YResolution s"
    "0 \<le> XPosition s" "XPosition s \<le> cols_of s" "0 \<le> YPosition s" "YPosition s < lines_of s"
    "\<And>i. int (lineLength s i) \<le> cols_of s"
    using assms by (simp_all add: screen_ok_def)
  show "4 \<le> cols_of s" using c(3) by (simp add: cols_of_def)
  have "cols_of s * 8 \<le> XResolution s" by (simp add: cols_of_def)
  then show "nat (cols_of s) * 8 \<le> ppsl s" using c(4) \<open>4 \<le> cols_of s\<close> by linarith
qed

lemma newline_ok:
  assumes "screen_ok s"
  shows "screen_ok (newline s) \<and> same_size s (newline s) \<and> keeps (limit s) s (newline s) \<and> XPosition (newline s) = 0"
proof -
  note o = okD [OF assms]
  let ?s = "s\<lparr>YPosition := YPosition s + 1, XPosition := 0\<rparr>"
  have l: "lines_of ?s = lines_of s" "cols_of ?s = cols_of s" by (simp_all add: lines_of_def cols_of_def)
  show ?thesis
  proof (cases "lines_of s \<le> YPosition s + 1")
    case True
    then have y: "YPosition ?s = lines_of s" using o(9) by simp
    have "keeps (limit s) ?s (scroll ?s) \<and> same_size ?s (scroll ?s) \<and> XPosition (scroll ?s) = XPosition ?s \<and>
      YPosition (scroll ?s) = YPosition ?s \<and> (\<forall>k. lineLength (scroll ?s) k \<le> nat (cols_of s))"
      by (rule scroll_ok) (use o y in \<open>auto simp: limit_def le_nat_iff\<close>)
    moreover have "newline s = (scroll ?s)\<lparr>YPosition := YPosition (scroll ?s) - 1\<rparr>"
      using True o(2) by (simp add: newline_def lines_of_def Let_def)
    ultimately show ?thesis
      using o y by (auto simp: screen_ok_def same_size_def keeps_def lines_of_def cols_of_def le_nat_iff)
  next
    case False
    then have "newline s = ?s" using o(2) by (simp add: newline_def lines_of_def Let_def)
    then show ?thesis using o False by (auto simp: screen_ok_def same_size_def keeps_def lines_of_def cols_of_def)
  qed
qed

lemma glyph_inside:
  assumes "screen_ok s" "XPosition s < cols_of s" "y < 16"
  shows "ppsl s * nat (16 * YPosition s) + nat (8 * XPosition s) + ppsl s * y + 8 \<le> limit s"
proof -
  note o = okD [OF assms(1)]
  have x: "nat (8 * XPosition s) + 8 \<le> ppsl s" using assms(2) o(6,11) by linarith
  have "16 * nat (YPosition s) + Suc y \<le> nat (lines_of s) * 16" using o(8,9) assms(3) by linarith
  then have "ppsl s * (16 * nat (YPosition s) + Suc y) \<le> ppsl s * (nat (lines_of s) * 16)" by (rule mult_le_mono2)
  moreover have "nat (16 * YPosition s) = 16 * nat (YPosition s)" by (simp add: nat_mult_distrib)
  ultimately show ?thesis using x by (simp add: limit_def algebra_simps)
qed

lemma draw_ok:
  assumes "screen_ok s" "XPosition s < cols_of s" "(of_char ch :: nat) < 128"
  shows "\<exists>m b. drawchar fcol bcol (8 * XPosition s) (16 * YPosition s) ch s = Some (s\<lparr>fb := m, bufm := b\<rparr>) \<and>
    keeps (limit s) s (s\<lparr>fb := m, bufm := b\<rparr>)"
proof -
  note o = okD [OF assms(1)]
  let ?g = "glyph fcol bcol (of_char ch) 8 16 (ppsl s) (ppsl s * nat (16 * YPosition s) + nat (8 * XPosition s))"
  have "?g m a = m a" if "limit s \<le> a" for m a
    by (rule glyph_beyond [where L = "limit s"]) (use glyph_inside [OF assms(1,2)] that in auto)
  then have "keeps (limit s) s (s\<lparr>fb := ?g (fb s), bufm := map_option ?g (bufm s)\<rparr>)"
    by (cases "bufm s") (auto simp: keeps_def)
  moreover have "drawchar fcol bcol (8 * XPosition s) (16 * YPosition s) ch s = Some (s\<lparr>fb := ?g (fb s), bufm := map_option ?g (bufm s)\<rparr>)"
    using o(1,2,6,8) assms(3) by (simp add: drawchar_def Let_def)
  ultimately show ?thesis by blast
qed

lemma put_glyph_ok:
  assumes "screen_ok s" "(of_char ch :: nat) < 128"
  shows "\<exists>s'. put_glyph fcol bcol ch s = Some s' \<and> screen_ok s' \<and> same_size s s' \<and> keeps (limit s) s s' \<and>
    XPosition s' = (if XPosition s = cols_of s then 1 else XPosition s + 1)"
proof -
  note o = okD [OF assms(1)]
  define t where "t = (if XPosition s = cols_of s then newline s else s)"
  have t: "screen_ok t" "same_size s t" "keeps (limit s) s t" "XPosition t = (if XPosition s = cols_of s then 0 else XPosition s)"
    using newline_ok [OF assms(1)] assms(1) by (auto simp: t_def)
  note d = same_size_derived [OF t(2)]
  note u = okD [OF t(1)]
  have x: "XPosition t < cols_of t" using t(4) d o(7,12) by auto
  obtain m b where m: "drawchar fcol bcol (8 * XPosition t) (16 * YPosition t) ch t = Some (t\<lparr>fb := m, bufm := b\<rparr>)"
    "keeps (limit t) t (t\<lparr>fb := m, bufm := b\<rparr>)"
    using draw_ok [OF t(1) x assms(2)] by blast
  let ?y = "nat (YPosition t)"
  define r where "r = t\<lparr>fb := m, bufm := b, XPosition := XPosition t + 1,
    lineLength := (lineLength t)(?y := max (lineLength t ?y) (nat (XPosition t + 1)))\<rparr>"
  have e: "(if XPosition s = XResolution s div XCharSize s then newline s else s) = t"
    using o(1) by (simp add: t_def cols_of_def)
  have "put_glyph fcol bcol ch s = Some r"
    unfolding put_glyph_def Let_def e u(1,2) m(1) by (simp add: r_def)
  moreover have "screen_ok r"
  proof -
    have c: "cols_of r = cols_of t" "lines_of r = lines_of t" by (simp_all add: r_def cols_of_def lines_of_def)
    have "int (lineLength r i) \<le> cols_of t" for i
      using u(6) u(10) [of i] x by (cases "i = ?y") (simp_all add: r_def)
    then show ?thesis unfolding screen_ok_def c using u(1-9) x by (simp add: r_def)
  qed
  moreover have "same_size s r" using t(2) by (simp add: same_size_def r_def)
  moreover have "keeps (limit t) t r" using m(2) by (simp add: keeps_def r_def)
  then have "keeps (limit s) s r" using keeps_trans [OF t(3), of r] d by simp
  moreover have "XPosition r = (if XPosition s = cols_of s then 1 else XPosition s + 1)" using t(4) by (simp add: r_def)
  ultimately show ?thesis by blast
qed

text \<open>The tabulator: how many characters are written at most before the column is a multiple of 4.\<close>

lemma tab_ok:
  assumes "screen_ok s"
  shows "\<exists>s'. tab_loop fcol bcol s = Some s' \<and> screen_ok s' \<and> same_size s s' \<and> keeps (limit s) s s'"
  using assms
proof (induction "nat (if XPosition s < 4 then 4 - XPosition s else cols_of s - XPosition s + 5)" arbitrary: s rule: less_induct)
  case less
  note o = okD [OF less.prems]
  obtain t where t: "put_glyph fcol bcol (CHR '' '') s = Some t" "screen_ok t" "same_size s t" "keeps (limit s) s t"
    "XPosition t = (if XPosition s = cols_of s then 1 else XPosition s + 1)"
    using put_glyph_ok [OF less.prems, of "CHR '' ''" fcol bcol] by auto
  note d = same_size_derived [OF t(3)]
  show ?case
  proof (cases "XPosition t mod 4 = 0")
    case True
    then show ?thesis using t by (subst tab_loop.simps) auto
  next
    case False
    have "nat (if XPosition t < 4 then 4 - XPosition t else cols_of t - XPosition t + 5) <
        nat (if XPosition s < 4 then 4 - XPosition s else cols_of s - XPosition s + 5)"
    proof (cases "XPosition t = 4")
      case True
      then show ?thesis using False by simp
    next
      case n: False
      then show ?thesis using t(5) d o(6,7,12) by (auto split: if_splits)
    qed
    from less.hyps [OF this t(2)] obtain u where
      "tab_loop fcol bcol t = Some u" "screen_ok u" "same_size t u" "keeps (limit t) t u" by blast
    then show ?thesis
      using t(1) False d keeps_trans [OF t(4), of u] same_size_trans [OF t(3), of u] by (subst tab_loop.simps) auto
  qed
qed

lemma putchar_ok:
  assumes "screen_ok s" "(of_char ch :: nat) < 128" "ch \<noteq> CHR 0x08"
  shows "\<exists>s'. putchar fcol bcol ch s = Some s' \<and> screen_ok s' \<and> same_size s s' \<and> keeps (limit s) s s'"
proof -
  have "screen_ok (s\<lparr>XPosition := 0\<rparr>) \<and> same_size s (s\<lparr>XPosition := 0\<rparr>) \<and> keeps (limit s) s (s\<lparr>XPosition := 0\<rparr>)"
    using okD [OF assms(1)] by (auto simp: screen_ok_def same_size_def keeps_def cols_of_def lines_of_def)
  then show ?thesis
    using newline_ok [OF assms(1)] tab_ok [OF assms(1), of fcol bcol] put_glyph_ok [OF assms(1,2), of fcol bcol] assms(3)
    by (auto simp: putchar_def)
qed

lemma putchars_ok:
  "screen_ok s \<Longrightarrow> \<forall>c\<in>set str. (of_char c :: nat) < 128 \<and> c \<noteq> CHR 0x08 \<Longrightarrow>
    \<exists>s'. putchars fcol bcol str s = Some s' \<and> screen_ok s' \<and> same_size s s' \<and> keeps (limit s) s s'"
proof (induction str arbitrary: s)
  case (Cons c cs)
  obtain t where t: "putchar fcol bcol c s = Some t" "screen_ok t" "same_size s t" "keeps (limit s) s t"
    using putchar_ok [OF Cons.prems(1), of c fcol bcol] Cons.prems(2) by auto
  obtain u where "putchars fcol bcol cs t = Some u" "screen_ok u" "same_size t u" "keeps (limit t) t u"
    using Cons.IH [OF t(2)] Cons.prems(2) by auto
  then show ?case using t(1) same_size_derived [OF t(3)] keeps_trans [OF t(4), of u] same_size_trans [OF t(3), of u] by auto
qed auto

text \<open>
  C28: Printing a text of ASCII characters without backspace returns, with the print lock free again
  and the cursor on the screen, and writes no pixel behind the lines that are used, neither in the
  frame buffer nor in its copy, however often it scrolls.
\<close>

theorem printStr_in_bounds:
  assumes "screen_ok s" "lock (printLock s) = 0" "\<forall>c\<in>set str. (of_char c :: nat) < 128 \<and> c \<noteq> CHR 0x08"
  shows "\<exists>s'. printStr fcol bcol str s = Some s' \<and> screen_ok s' \<and> lock (printLock s') = 0 \<and>
    (\<forall>a\<ge>limit s. fb s' a = fb s a \<and> map_option (\<lambda>m. m a) (bufm s') = map_option (\<lambda>m. m a) (bufm s))"
proof -
  let ?s = "s\<lparr>printLock := (printLock s)\<lparr>lock := 1\<rparr>\<rparr>"
  have "screen_ok ?s" using assms(1) by (simp add: screen_ok_def cols_of_def lines_of_def)
  from putchars_ok [OF this assms(3)] obtain t where t: "putchars fcol bcol str ?s = Some t" "screen_ok t" "keeps (limit ?s) ?s t"
    by blast
  have "limit ?s = limit s" by (simp add: limit_def lines_of_def)
  then show ?thesis
    using t assms(2) by (auto simp: printStr_def SpinLock_acquire_free SpinLock_unlock_def keeps_def screen_ok_def cols_of_def lines_of_def)
qed

definition demo_screen :: Screen where
  "demo_screen = Log_init 640 480 640 \<lparr>XResolution = 0, YResolution = 0, XPosition = 0, YPosition = 0, XCharSize = 0,
     YCharSize = 0, ppsl = 0, fb = (\<lambda>_. 0), bufm = None, lineLength = (\<lambda>_. 0), printLock = \<lparr>lock = 0\<rparr>\<rparr>"

lemma demo_screen_ok: "screen_ok demo_screen" "lock (printLock demo_screen) = 0" "limit demo_screen = 480 * 640"
  by (simp_all add: demo_screen_def Log_init_def screen_ok_def cols_of_def lines_of_def limit_def SpinLock_init_def)

theorem printStr_in_bounds_witness:
  "\<exists>s'. printStr 1 0 ''PCIe found'' demo_screen = Some s' \<and> screen_ok s' \<and> fb s' 307200 = 0"
proof -
  have "fb demo_screen 307200 = 0" by (simp add: demo_screen_def Log_init_def)
  then show ?thesis using printStr_in_bounds [OF demo_screen_ok(1,2), of "''PCIe found''" 1 0] demo_screen_ok(3) by auto
qed

text \<open>A backspace at the origin leaves the screen, and the next character is written before the frame buffer.\<close>

lemma backspace_at_origin:
  "XPosition s = 0 \<Longrightarrow> YPosition s = 0 \<Longrightarrow> XCharSize s = 8 \<Longrightarrow> YCharSize s = 16 \<Longrightarrow>
    \<exists>s'. putchar fcol bcol (CHR 0x08) s = Some s' \<and> YPosition s' = - 1"
  by (simp add: putchar_def)

end
