(* ===== verification/Xhci.thy ===== *)
theory Xhci
  imports Locks MemDesc HwLayout Bits
begin

text \<open>
  \<open>hardware/USB/XHCI/api.h\<close> and \<open>api.c\<close>: registers, transfer request blocks (TRBs), contexts, and the
  rings through which the kernel and the host controller exchange TRBs.  What both sides read and write
  is a memory of dwords, \<open>dmem\<close>, at virtual addresses; every access of the code is to an aligned dword.
  The arrays \<open>reqSrc\<close> of the rings are a map from the addresses of their elements, requests a map from
  their addresses.
\<close>

type_synonym dmem = "u64 \<Rightarrow> u32"

section \<open>Registers\<close>

definition HW_USB_XHCI_readDword :: "dmem \<Rightarrow> u64 \<Rightarrow> u32" where
  "HW_USB_XHCI_readDword m a = m a"

definition HW_USB_XHCI_writeDword :: "u64 \<Rightarrow> u32 \<Rightarrow> dmem \<Rightarrow> dmem" where
  "HW_USB_XHCI_writeDword a v m = m(a := v)"

definition HW_USB_XHCI_readQuad :: "dmem \<Rightarrow> u64 \<Rightarrow> u64" where
  "HW_USB_XHCI_readQuad m a = (ucast (m a) :: u64) OR push_bit 32 (ucast (m (a + 4)))"

definition HW_USB_XHCI_writeQuad :: "u64 \<Rightarrow> u64 \<Rightarrow> dmem \<Rightarrow> dmem" where
  "HW_USB_XHCI_writeQuad a v m = m(a := ucast v, a + 4 := ucast (drop_bit 32 v))"

definition byte_shift :: "u64 \<Rightarrow> nat" where
  "byte_shift a = unat (push_bit 3 (a AND 0x3))"

definition HW_USB_XHCI_readWord :: "dmem \<Rightarrow> u64 \<Rightarrow> u16" where
  "HW_USB_XHCI_readWord m a = ucast (drop_bit (byte_shift a) (m (a AND NOT 0x3)) AND 0xffff)"

definition HW_USB_XHCI_readByte :: "dmem \<Rightarrow> u64 \<Rightarrow> u8" where
  "HW_USB_XHCI_readByte m a = ucast (drop_bit (byte_shift a) (m (a AND NOT 0x3)) AND 0xff)"

definition HW_USB_XHCI_writeWord :: "u64 \<Rightarrow> u16 \<Rightarrow> dmem \<Rightarrow> dmem" where
  "HW_USB_XHCI_writeWord a v m =
    (let prev = m (a AND NOT 0x3); msk = push_bit (byte_shift a) 0xffff in
     HW_USB_XHCI_writeDword (a AND NOT 0x3) ((prev AND NOT msk) OR push_bit (byte_shift a) (ucast v)) m)"

definition HW_USB_XHCI_writeByte :: "u64 \<Rightarrow> u8 \<Rightarrow> dmem \<Rightarrow> dmem" where
  "HW_USB_XHCI_writeByte a v m =
    (let prev = m (a AND NOT 0x3); msk = push_bit (byte_shift a) 0xff in
     HW_USB_XHCI_writeDword (a AND NOT 0x3) ((prev AND NOT msk) OR push_bit (byte_shift a) (ucast v)) m)"

text \<open>The four groups of registers, by the virtual addresses that \<open>HW_USB_XHCI_init\<close> finds for them.\<close>

record XHCI_regs =
  capRegAddr :: u64
  opRegAddr :: u64
  rtRegAddr :: u64
  dbRegAddr :: u64

definition HW_USB_XHCI_CapReg_capLen :: "XHCI_regs \<Rightarrow> dmem \<Rightarrow> u8" where
  "HW_USB_XHCI_CapReg_capLen h m = HW_USB_XHCI_readByte m (capRegAddr h + ucast XHCI_CapReg_capLen)"

definition HW_USB_XHCI_CapReg_hciVer :: "XHCI_regs \<Rightarrow> dmem \<Rightarrow> u16" where
  "HW_USB_XHCI_CapReg_hciVer h m = HW_USB_XHCI_readWord m (capRegAddr h + ucast XHCI_CapReg_hciVer)"

definition HW_USB_XHCI_CapReg_rtsOff :: "XHCI_regs \<Rightarrow> dmem \<Rightarrow> u32" where
  "HW_USB_XHCI_CapReg_rtsOff h m = HW_USB_XHCI_readDword m (capRegAddr h + ucast XHCI_CapReg_rtsOff) AND NOT 0x1f"

definition HW_USB_XHCI_CapReg_dbOffset :: "XHCI_regs \<Rightarrow> dmem \<Rightarrow> u32" where
  "HW_USB_XHCI_CapReg_dbOffset h m = HW_USB_XHCI_readDword m (capRegAddr h + ucast XHCI_CapReg_dbOff) AND NOT 0x03"

definition HW_USB_XHCI_writeOpReg :: "XHCI_regs \<Rightarrow> u32 \<Rightarrow> u32 \<Rightarrow> dmem \<Rightarrow> dmem" where
  "HW_USB_XHCI_writeOpReg h off v = HW_USB_XHCI_writeDword (opRegAddr h + ucast off) v"

definition HW_USB_XHCI_readOpReg :: "XHCI_regs \<Rightarrow> u32 \<Rightarrow> dmem \<Rightarrow> u32" where
  "HW_USB_XHCI_readOpReg h off m = HW_USB_XHCI_readDword m (opRegAddr h + ucast off)"

definition HW_USB_XHCI_writeOpRegQuad :: "XHCI_regs \<Rightarrow> u32 \<Rightarrow> u64 \<Rightarrow> dmem \<Rightarrow> dmem" where
  "HW_USB_XHCI_writeOpRegQuad h off v = HW_USB_XHCI_writeQuad (opRegAddr h + ucast off) v"

definition HW_USB_XHCI_writeDCBAAP :: "XHCI_regs \<Rightarrow> u64 \<Rightarrow> dmem \<Rightarrow> dmem" where
  "HW_USB_XHCI_writeDCBAAP h a = HW_USB_XHCI_writeQuad (opRegAddr h + ucast XHCI_OpReg_dcbaa) a"

definition HW_USB_XHCI_readDCBAAP :: "XHCI_regs \<Rightarrow> dmem \<Rightarrow> u64" where
  "HW_USB_XHCI_readDCBAAP h m = HW_USB_XHCI_readQuad m (opRegAddr h + ucast XHCI_OpReg_dcbaa)"

text \<open>The number of a port is signed: \<open>(portId - 1) * 0x10\<close> is extended with its sign.\<close>

definition port_reg :: "XHCI_regs \<Rightarrow> i32 \<Rightarrow> u32 \<Rightarrow> u64" where
  "port_reg h portId off = opRegAddr h + 0x400 + scast ((portId - 1) * 0x10) + ucast off"

definition HW_USB_XHCI_writePortReg :: "XHCI_regs \<Rightarrow> i32 \<Rightarrow> u32 \<Rightarrow> u32 \<Rightarrow> dmem \<Rightarrow> dmem" where
  "HW_USB_XHCI_writePortReg h portId off v = HW_USB_XHCI_writeDword (port_reg h portId off) v"

definition HW_USB_XHCI_readPortReg :: "XHCI_regs \<Rightarrow> i32 \<Rightarrow> u32 \<Rightarrow> dmem \<Rightarrow> u32" where
  "HW_USB_XHCI_readPortReg h portId off m = HW_USB_XHCI_readDword m (port_reg h portId off)"

definition intr_reg :: "XHCI_regs \<Rightarrow> u32 \<Rightarrow> u32 \<Rightarrow> u64" where
  "intr_reg h intrId off = rtRegAddr h + 0x20 + ucast (intrId * 0x20) + ucast off"

definition HW_USB_XHCI_readIntrDword :: "XHCI_regs \<Rightarrow> u32 \<Rightarrow> u32 \<Rightarrow> dmem \<Rightarrow> u32" where
  "HW_USB_XHCI_readIntrDword h intrId off m = HW_USB_XHCI_readDword m (intr_reg h intrId off)"

definition HW_USB_XHCI_writeIntrDword :: "XHCI_regs \<Rightarrow> u32 \<Rightarrow> u32 \<Rightarrow> u32 \<Rightarrow> dmem \<Rightarrow> dmem" where
  "HW_USB_XHCI_writeIntrDword h intrId off v = HW_USB_XHCI_writeDword (intr_reg h intrId off) v"

definition HW_USB_XHCI_readIntrQuad :: "XHCI_regs \<Rightarrow> u32 \<Rightarrow> u32 \<Rightarrow> dmem \<Rightarrow> u64" where
  "HW_USB_XHCI_readIntrQuad h intrId off m = HW_USB_XHCI_readQuad m (intr_reg h intrId off)"

definition HW_USB_XHCI_writeIntrQuad :: "XHCI_regs \<Rightarrow> u32 \<Rightarrow> u32 \<Rightarrow> u64 \<Rightarrow> dmem \<Rightarrow> dmem" where
  "HW_USB_XHCI_writeIntrQuad h intrId off v = HW_USB_XHCI_writeQuad (intr_reg h intrId off) v"

definition HW_USB_XHCI_writeDbReg :: "XHCI_regs \<Rightarrow> u32 \<Rightarrow> u32 \<Rightarrow> u32 \<Rightarrow> dmem \<Rightarrow> dmem" where
  "HW_USB_XHCI_writeDbReg h slotId epId taskId =
    HW_USB_XHCI_writeDword (dbRegAddr h + ucast (slotId * 0x4)) (epId OR push_bit 16 taskId)"

definition HW_USB_XHCI_CapReg_hcsParam1 :: "XHCI_regs \<Rightarrow> dmem \<Rightarrow> u32" where
  "HW_USB_XHCI_CapReg_hcsParam1 h m = HW_USB_XHCI_readDword m (capRegAddr h + ucast XHCI_CapReg_hcsParam1)"

definition HW_USB_XHCI_CapReg_hcsParam2 :: "XHCI_regs \<Rightarrow> dmem \<Rightarrow> u32" where
  "HW_USB_XHCI_CapReg_hcsParam2 h m = HW_USB_XHCI_readDword m (capRegAddr h + ucast XHCI_CapReg_hcsParam2)"

definition HW_USB_XHCI_CapReg_hccParam1 :: "XHCI_regs \<Rightarrow> dmem \<Rightarrow> u32" where
  "HW_USB_XHCI_CapReg_hccParam1 h m = HW_USB_XHCI_readDword m (capRegAddr h + ucast XHCI_CapReg_hccParam1)"

definition HW_USB_XHCI_maxSlot :: "XHCI_regs \<Rightarrow> dmem \<Rightarrow> u32" where
  "HW_USB_XHCI_maxSlot h m = HW_USB_XHCI_CapReg_hcsParam1 h m AND (push_bit 8 1 - 1)"

definition HW_USB_XHCI_maxIntr :: "XHCI_regs \<Rightarrow> dmem \<Rightarrow> u32" where
  "HW_USB_XHCI_maxIntr h m = drop_bit 8 (HW_USB_XHCI_CapReg_hcsParam1 h m) AND (push_bit 11 1 - 1)"

definition HW_USB_XHCI_maxPort :: "XHCI_regs \<Rightarrow> dmem \<Rightarrow> u32" where
  "HW_USB_XHCI_maxPort h m = drop_bit 24 (HW_USB_XHCI_CapReg_hcsParam1 h m) AND (push_bit 8 1 - 1)"

definition HW_USB_XHCI_maxERST :: "XHCI_regs \<Rightarrow> dmem \<Rightarrow> u32" where
  "HW_USB_XHCI_maxERST h m = push_bit (unat (drop_bit 4 (HW_USB_XHCI_CapReg_hcsParam2 h m) AND 0xf)) 1"

definition HW_USB_XHCI_maxScrSz :: "XHCI_regs \<Rightarrow> dmem \<Rightarrow> u32" where
  "HW_USB_XHCI_maxScrSz h m =
    (let val = HW_USB_XHCI_CapReg_hcsParam2 h m; msk = push_bit 5 1 - 1 in
     push_bit 5 (drop_bit 21 val AND msk) OR (drop_bit 27 val AND msk))"

definition HW_USB_XHCI_getNxtECP :: "XHCI_regs \<Rightarrow> u64 \<Rightarrow> dmem \<Rightarrow> u64" where
  "HW_USB_XHCI_getNxtECP h cur m =
    (if cur = NULL then capRegAddr h + ucast (drop_bit 16 (HW_USB_XHCI_CapReg_hccParam1 h m) * 4)
     else let off = HW_USB_XHCI_readByte m (cur + 1) in
          if off \<noteq> 0 then cur + ucast (ucast off * 4 :: u32) else NULL)"

definition HW_USB_XHCI_ECP_id :: "u64 \<Rightarrow> dmem \<Rightarrow> u8" where
  "HW_USB_XHCI_ECP_id cur m = HW_USB_XHCI_readByte m cur"

section \<open>Transfer request blocks\<close>

definition trb_data1 :: "u64 \<Rightarrow> u64" where "trb_data1 trb = trb"
definition trb_status :: "u64 \<Rightarrow> u64" where "trb_status trb = trb + 8"
definition trb_ctrl :: "u64 \<Rightarrow> u64" where "trb_ctrl trb = trb + 12"
definition sizeof_TRB :: u64 where "sizeof_TRB = 16"

definition HW_USB_XHCI_TRB_getType :: "dmem \<Rightarrow> u64 \<Rightarrow> u32" where
  "HW_USB_XHCI_TRB_getType m trb = drop_bit 10 (HW_USB_XHCI_readDword m (trb_ctrl trb)) AND (push_bit 6 1 - 1)"

definition HW_USB_XHCI_TRB_setType :: "u64 \<Rightarrow> u32 \<Rightarrow> dmem \<Rightarrow> dmem" where
  "HW_USB_XHCI_TRB_setType trb type m =
    HW_USB_XHCI_writeDword (trb_ctrl trb)
      ((HW_USB_XHCI_readDword m (trb_ctrl trb) AND 0xffff03ff) OR push_bit 10 type) m"

definition HW_USB_XHCI_TRB_getCmplCode :: "dmem \<Rightarrow> u64 \<Rightarrow> u32" where
  "HW_USB_XHCI_TRB_getCmplCode m trb = drop_bit 24 (HW_USB_XHCI_readDword m (trb_status trb)) AND 0xff"

definition HW_USB_XHCI_TRB_setCycBit :: "u64 \<Rightarrow> u32 \<Rightarrow> dmem \<Rightarrow> dmem" where
  "HW_USB_XHCI_TRB_setCycBit trb val m =
    HW_USB_XHCI_writeDword (trb_ctrl trb) ((HW_USB_XHCI_readDword m (trb_ctrl trb) AND NOT 0x1) OR val) m"

definition HW_USB_XHCI_TRB_getCycBit :: "dmem \<Rightarrow> u64 \<Rightarrow> u32" where
  "HW_USB_XHCI_TRB_getCycBit m trb = HW_USB_XHCI_readDword m (trb_ctrl trb) AND 1"

definition HW_USB_XHCI_TRB_setToggle :: "u64 \<Rightarrow> u32 \<Rightarrow> dmem \<Rightarrow> dmem" where
  "HW_USB_XHCI_TRB_setToggle trb val m =
    HW_USB_XHCI_writeDword (trb_ctrl trb)
      ((HW_USB_XHCI_readDword m (trb_ctrl trb) AND NOT 0x2) OR push_bit 1 val) m"

definition HW_USB_XHCI_TRB_getToggle :: "dmem \<Rightarrow> u64 \<Rightarrow> u32" where
  "HW_USB_XHCI_TRB_getToggle m trb = drop_bit 1 (HW_USB_XHCI_readDword m (trb_ctrl trb)) AND 1"

definition HW_USB_XHCI_TRB_setCtrlBit :: "u64 \<Rightarrow> u32 \<Rightarrow> dmem \<Rightarrow> dmem" where
  "HW_USB_XHCI_TRB_setCtrlBit trb val m =
    HW_USB_XHCI_writeDword (trb_ctrl trb)
      (val OR (HW_USB_XHCI_readDword m (trb_ctrl trb) AND NOT XHCI_TRB_Ctrl_allBit)) m"

definition HW_USB_XHCI_TRB_getCtrlBit :: "dmem \<Rightarrow> u64 \<Rightarrow> u32" where
  "HW_USB_XHCI_TRB_getCtrlBit m trb = HW_USB_XHCI_readDword m (trb_ctrl trb) AND XHCI_TRB_Ctrl_allBit"

definition HW_USB_XHCI_TRB_setTRT :: "u64 \<Rightarrow> u32 \<Rightarrow> dmem \<Rightarrow> dmem" where
  "HW_USB_XHCI_TRB_setTRT trb val m =
    HW_USB_XHCI_writeDword (trb_ctrl trb)
      (push_bit 16 val OR (HW_USB_XHCI_readDword m (trb_ctrl trb) AND 0xfffcffff)) m"

definition HW_USB_XHCI_TRB_setDir :: "u64 \<Rightarrow> u32 \<Rightarrow> dmem \<Rightarrow> dmem" where
  "HW_USB_XHCI_TRB_setDir trb val = HW_USB_XHCI_TRB_setTRT trb (val AND 0x1)"

definition HW_USB_XHCI_TRB_getData :: "dmem \<Rightarrow> u64 \<Rightarrow> u64" where
  "HW_USB_XHCI_TRB_getData m trb = HW_USB_XHCI_readQuad m (trb_data1 trb)"

definition HW_USB_XHCI_TRB_setData :: "u64 \<Rightarrow> u64 \<Rightarrow> dmem \<Rightarrow> dmem" where
  "HW_USB_XHCI_TRB_setData trb d = HW_USB_XHCI_writeQuad (trb_data1 trb) d"

definition HW_USB_XHCI_TRB_getIntrTarget :: "dmem \<Rightarrow> u64 \<Rightarrow> u32" where
  "HW_USB_XHCI_TRB_getIntrTarget m trb = HW_USB_XHCI_TRB_getCmplCode m trb"

definition HW_USB_XHCI_TRB_setIntrTarget :: "u64 \<Rightarrow> u32 \<Rightarrow> dmem \<Rightarrow> dmem" where
  "HW_USB_XHCI_TRB_setIntrTarget trb val m =
    HW_USB_XHCI_writeDword (trb_status trb)
      ((HW_USB_XHCI_readDword m (trb_status trb) AND 0xffffff) OR push_bit 24 val) m"

definition HW_USB_XHCI_TRB_setStatus :: "u64 \<Rightarrow> u32 \<Rightarrow> dmem \<Rightarrow> dmem" where
  "HW_USB_XHCI_TRB_setStatus trb val = HW_USB_XHCI_writeDword (trb_status trb) val"

definition HW_USB_XHCI_TRB_mkSetup :: "u8 \<Rightarrow> u8 \<Rightarrow> u16 \<Rightarrow> u16 \<Rightarrow> u16 \<Rightarrow> u64" where
  "HW_USB_XHCI_TRB_mkSetup bmReqT bReq wVal wIdx wLen =
    (ucast bmReqT :: u64) OR push_bit 8 (ucast bReq) OR push_bit 16 (ucast wVal) OR
    push_bit 32 (ucast wIdx) OR push_bit 48 (ucast wLen)"

definition HW_USB_XHCI_TRB_mkStatus :: "u32 \<Rightarrow> u32 \<Rightarrow> u32 \<Rightarrow> u32" where
  "HW_USB_XHCI_TRB_mkStatus trbTransLen tdSize intrTarget =
    trbTransLen OR push_bit 17 tdSize OR push_bit 22 intrTarget"

definition HW_USB_XHCI_TRB_getSlot :: "dmem \<Rightarrow> u64 \<Rightarrow> u32" where
  "HW_USB_XHCI_TRB_getSlot m trb = drop_bit 24 (HW_USB_XHCI_readDword m (trb_ctrl trb))"

definition HW_USB_XHCI_TRB_setSlot :: "u64 \<Rightarrow> u32 \<Rightarrow> dmem \<Rightarrow> dmem" where
  "HW_USB_XHCI_TRB_setSlot trb val m =
    HW_USB_XHCI_writeDword (trb_ctrl trb)
      ((HW_USB_XHCI_readDword m (trb_ctrl trb) AND 0xffffff) OR push_bit 24 val) m"

definition HW_USB_XHCI_TRB_setBSR :: "u64 \<Rightarrow> u32 \<Rightarrow> dmem \<Rightarrow> dmem" where
  "HW_USB_XHCI_TRB_setBSR trb val m =
    HW_USB_XHCI_writeDword (trb_ctrl trb)
      ((HW_USB_XHCI_readDword m (trb_ctrl trb) AND NOT (push_bit 9 1)) OR push_bit 9 val) m"

definition HW_USB_XHCI_TRB_getPos :: "u64 \<Rightarrow> i32" where
  "HW_USB_XHCI_TRB_getPos trb = ucast ((trb - (trb AND NOT 0xffff)) div sizeof_TRB)"

definition HW_USB_XHCI_TRB_copy :: "u64 \<Rightarrow> u64 \<Rightarrow> dmem \<Rightarrow> dmem" where
  "HW_USB_XHCI_TRB_copy from to m =
    (let m = HW_USB_XHCI_writeQuad to (HW_USB_XHCI_readQuad m from) m in
     HW_USB_XHCI_writeQuad (to + 0x8) (HW_USB_XHCI_readQuad m (trb_status from)) m)"

section \<open>Contexts\<close>

definition HW_USB_XHCI_writeCtx :: "u64 \<Rightarrow> u64 \<Rightarrow> u32 \<Rightarrow> u32 \<Rightarrow> dmem \<Rightarrow> dmem" where
  "HW_USB_XHCI_writeCtx ctx dwId msk val m =
    HW_USB_XHCI_writeDword (ctx + dwId * 4)
      ((HW_USB_XHCI_readDword m (ctx + dwId * 4) AND NOT msk) OR push_bit (unat (Bit_ffs (ucast msk) - 1)) val) m"

definition HW_USB_XHCI_readCtx :: "u64 \<Rightarrow> u64 \<Rightarrow> u32 \<Rightarrow> dmem \<Rightarrow> u32" where
  "HW_USB_XHCI_readCtx ctx dwId msk m =
    drop_bit (unat (Bit_ffs (ucast msk) - 1)) (HW_USB_XHCI_readDword m (ctx + dwId * 4) AND msk)"

definition HW_USB_XHCI_getCtx :: "u64 \<Rightarrow> u64 \<Rightarrow> u64 \<Rightarrow> u64" where
  "HW_USB_XHCI_getCtx inCtx ctxSize ctxId = inCtx + ctxId * ctxSize"

text \<open>
  The macro \<open>abs\<close> of \<open>lib/algorithm.h\<close> takes the type of its argument, here an unsigned dword, so that
  it changes nothing; the differences wrap around and are compared without sign.
\<close>

definition interval_dist :: "nat \<Rightarrow> u32 \<Rightarrow> u32" where
  "interval_dist i bInterval = push_bit i 1 - 8 * bInterval"

definition HW_USB_XHCI_EpCtx_interval :: "u32 \<Rightarrow> u32 \<Rightarrow> u32 \<Rightarrow> u32" where
  "HW_USB_XHCI_EpCtx_interval speed epType bInterval =
    (if speed = XHCI_Port_Speed_Full \<or> speed = XHCI_Port_Speed_Low then
       if epType AND 0x3 = 0x3 then
         of_nat (fold (\<lambda>i interval. if interval_dist i bInterval < interval_dist interval bInterval then i else interval)
           [3..<11] 0)
       else bInterval
     else bInterval)"

definition HW_USB_XHCI_EpCtx_readMxESITPay :: "u64 \<Rightarrow> dmem \<Rightarrow> u32" where
  "HW_USB_XHCI_EpCtx_readMxESITPay ep m =
    push_bit 16 (HW_USB_XHCI_readCtx ep 0 XHCI_EpCtx_mxESITPayH m) OR HW_USB_XHCI_readCtx ep 4 XHCI_EpCtx_mxESITPayL m"

definition HW_USB_XHCI_EpCtx_writeMxESITPay :: "u64 \<Rightarrow> u32 \<Rightarrow> dmem \<Rightarrow> dmem" where
  "HW_USB_XHCI_EpCtx_writeMxESITPay ep val m =
    HW_USB_XHCI_writeCtx ep 4 XHCI_EpCtx_mxESITPayL (val AND 0xffff)
      (HW_USB_XHCI_writeCtx ep 0 XHCI_EpCtx_mxESITPayH (drop_bit 16 val AND 0xff) m)"

definition HW_USB_XHCI_EpCtx_getMxPackSize0 :: "u32 \<Rightarrow> u32" where
  "HW_USB_XHCI_EpCtx_getMxPackSize0 speed =
    (if speed = XHCI_Port_Speed_Super then 512
     else if speed = XHCI_Port_Speed_Low then 8
     else if speed = XHCI_Port_Speed_Full \<or> speed = XHCI_Port_Speed_High then 64
     else 512)"

end
