(* ===== verification/XhciRing.thy ===== *)
theory XhciRing
  imports Xhci
begin

text \<open>
  The rings of \<open>hardware/USB/XHCI/api.c\<close>: the producer side of a command or transfer ring
  (\<open>HW_USB_XHCI_Ring_tryInsReq\<close>, \<open>Ring_release\<close>, \<open>Ring_reset\<close>), the consumer side of an event ring and the
  control requests.  The host controller is the other side: \<open>xhc_step\<close> is the fetch of the xHCI
  specification (4.9.2), which follows the cycle bits.  The invariant \<open>ring_inv\<close> numbers the slots
  that were ever used; \<open>q\<close> is the number of the slot the controller reads, \<open>w\<close> of the one the kernel writes.
\<close>

section \<open>Requests and rings\<close>

text \<open>
  A request is at the address that identifies it; its result is the TRB inside of it.  The elements of
  \<open>target\<close> are the addresses of elements of arrays \<open>reqSrc\<close>.
\<close>

record XHCI_Request =
  rq_flags :: u64
  rq_trbCnt :: u64
  rq_trb :: u64
  rq_target :: "nat \<Rightarrow> u64"

definition req_res :: "ptr \<Rightarrow> u64" where "req_res req = req + 16"

record XHCI_Ring = SpinLock +
  rg_ring :: u64
  rg_cur :: u64
  rg_curPos :: u32
  rg_cycBit :: u32
  rg_size :: u32
  rg_reqSrc :: u64

record XHCI_Mem =
  dm :: dmem
  src :: "u64 \<Rightarrow> ptr"
  reqs :: "ptr \<Rightarrow> XHCI_Request"

definition upd_dm :: "(dmem \<Rightarrow> dmem) \<Rightarrow> XHCI_Mem \<Rightarrow> XHCI_Mem" where
  "upd_dm f st = st\<lparr>dm := f (dm st)\<rparr>"

definition upd_req :: "ptr \<Rightarrow> (XHCI_Request \<Rightarrow> XHCI_Request) \<Rightarrow> XHCI_Mem \<Rightarrow> XHCI_Mem" where
  "upd_req r f st = st\<lparr>reqs := (reqs st)(r := f (reqs st r))\<rparr>"

definition XHCI_Ring_maxSize :: u64 where
  "XHCI_Ring_maxSize = Page_4KSize * 16 div sizeof_TRB"

definition trb_idx :: "u64 \<Rightarrow> u64 \<Rightarrow> u64" where
  "trb_idx base i = base + sizeof_TRB * i"

definition src_idx :: "u64 \<Rightarrow> u64 \<Rightarrow> u64" where
  "src_idx base i = base + 8 * i"

text \<open>Memory from \<open>kmalloc\<close> with \<open>Slab_Flag_Clear\<close>; the addresses are arguments.\<close>

definition clear_dm :: "u64 \<Rightarrow> u64 \<Rightarrow> dmem \<Rightarrow> dmem" where
  "clear_dm a n m = (\<lambda>x. if x - a < n then 0 else m x)"

definition clear_src :: "u64 \<Rightarrow> u64 \<Rightarrow> (u64 \<Rightarrow> ptr) \<Rightarrow> u64 \<Rightarrow> ptr" where
  "clear_src a n m = (\<lambda>x. if x - a < n then 0 else m x)"

definition HW_USB_XHCI_allocRing :: "u64 \<Rightarrow> u64 \<Rightarrow> u64 \<Rightarrow> XHCI_Mem \<Rightarrow> XHCI_Ring \<times> XHCI_Mem" where
  "HW_USB_XHCI_allocRing sz ringA srcA st =
    (let st = upd_dm (clear_dm ringA (sizeof_TRB * sz)) st;
         st = st\<lparr>src := clear_src srcA (8 * sz) (src st)\<rparr>;
         ring = \<lparr>lock = 0, rg_ring = ringA, rg_cur = ringA, rg_curPos = 0, rg_cycBit = 1, rg_size = ucast sz,
                 rg_reqSrc = srcA\<rparr>;
         lk = trb_idx ringA (sz - 1);
         st = upd_dm (HW_USB_XHCI_TRB_setData lk (DMAS_virt2Phys (trb_idx ringA 0))) st;
         st = upd_dm (HW_USB_XHCI_TRB_setType lk XHCI_TRB_Type_Link) st;
         st = upd_dm (HW_USB_XHCI_TRB_setToggle lk 1) st
     in (ring\<lparr>lock := 0\<rparr>, st))"

text \<open>
  The first loop of \<open>HW_USB_XHCI_Ring_tryInsReq\<close>: \<open>(full, ring, pos and cyc)\<close>.  It is \<open>None\<close> when the
  arrays of 16 elements overflow.  A link TRB leaves \<open>i\<close> as it is.
\<close>

definition follow_link :: "XHCI_Mem \<Rightarrow> XHCI_Ring \<Rightarrow> XHCI_Ring" where
  "follow_link st r =
    (let c = rg_cur r;
         r = (if HW_USB_XHCI_TRB_getToggle (dm st) c \<noteq> 0 then r\<lparr>rg_cycBit := rg_cycBit r XOR 1\<rparr> else r);
         r = r\<lparr>rg_cur := DMAS_phys2Virt (HW_USB_XHCI_TRB_getData (dm st) (rg_cur r))\<rparr>
     in r\<lparr>rg_curPos := HW_USB_XHCI_TRB_getPos (rg_cur r)\<rparr>)"

function Ring_place :: "XHCI_Mem \<Rightarrow> u64 \<Rightarrow> u64 \<Rightarrow> XHCI_Ring \<Rightarrow> (u64 \<times> u8) list \<Rightarrow>
    (bool \<times> XHCI_Ring \<times> (u64 \<times> u8) list) option" where
  "Ring_place st cnt i r ps =
    (if \<not> i < cnt then Some (False, r, ps)
     else if 16 \<le> length ps then None
     else
       let ps = ps @ [(ucast (rg_curPos r), ucast (rg_cycBit r))] in
       if HW_USB_XHCI_TRB_getType (dm st) (rg_cur r) = XHCI_TRB_Type_Link then
         Ring_place st cnt i (follow_link st r) ps
       else if src st (src_idx (rg_reqSrc r) (ucast (rg_curPos r))) \<noteq> NULL then Some (True, r, ps)
       else Ring_place st cnt (i + 1) (r\<lparr>rg_cur := rg_cur r + sizeof_TRB, rg_curPos := rg_curPos r + 1\<rparr>) ps)"
  by pat_completeness auto
termination
  by (relation "measure (\<lambda>(st, cnt, i, r, ps). 16 - length ps)") auto

declare Ring_place.simps [simp del]

text \<open>The second loop.\<close>

fun Ring_write :: "XHCI_Ring \<Rightarrow> ptr \<Rightarrow> (u64 \<times> u8) list \<Rightarrow> nat \<Rightarrow> XHCI_Mem \<Rightarrow> XHCI_Mem" where
  "Ring_write r req [] reqP st = st"
| "Ring_write r req ((pos, cyc) # ps) reqP st =
    (let trb = trb_idx (rg_ring r) pos;
         (st, reqP) =
           (if HW_USB_XHCI_TRB_getType (dm st) trb \<noteq> XHCI_TRB_Type_Link then
              let st = upd_dm (HW_USB_XHCI_TRB_copy (trb_idx (rq_trb (reqs st req)) (of_nat reqP)) trb) st;
                  st = st\<lparr>src := (src st)(src_idx (rg_reqSrc r) pos := req)\<rparr>;
                  st = upd_req req (\<lambda>q. q\<lparr>rq_target := (rq_target q)(reqP := src_idx (rg_reqSrc r) pos)\<rparr>) st
              in (st, reqP + 1)
            else (st, reqP));
         st = upd_dm (HW_USB_XHCI_TRB_setCycBit trb (ucast cyc)) st
     in Ring_write r req ps reqP st)"

text \<open>\<open>None\<close>: the lock is held and the caller spins, or the arrays overflow.\<close>

definition HW_USB_XHCI_Ring_tryInsReq :: "XHCI_Ring \<Rightarrow> ptr \<Rightarrow> XHCI_Mem \<Rightarrow> (i32 \<times> XHCI_Ring \<times> XHCI_Mem) option" where
  "HW_USB_XHCI_Ring_tryInsReq ring req st =
    (let st = upd_req req (\<lambda>q. q\<lparr>rq_flags := rq_flags q AND NOT (ucast XHCI_Request_Flag_Finished)\<rparr>) st in
     if lock ring \<noteq> 0 then None
     else
       let ring = ring\<lparr>lock := 1\<rparr>;
           lstCur = rg_cur ring; lstPos = rg_curPos ring; lstCyc = rg_cycBit ring in
       case Ring_place st (rq_trbCnt (reqs st req)) 0 ring [] of
         None \<Rightarrow> None
       | Some (full, ring, ps) \<Rightarrow>
           if full then
             Some (0, ring\<lparr>rg_cur := lstCur, rg_curPos := lstPos, rg_cycBit := lstCyc, lock := 0\<rparr>, st)
           else Some (1, ring\<lparr>lock := 0\<rparr>, Ring_write ring req ps 0 st))"

definition HW_USB_XHCI_Ring_reset :: "XHCI_Ring \<Rightarrow> XHCI_Mem \<Rightarrow> (XHCI_Ring \<times> XHCI_Mem) option" where
  "HW_USB_XHCI_Ring_reset ring st =
    (if lock ring \<noteq> 0 then None
     else
       let ring = ring\<lparr>lock := 1\<rparr>;
           ring = ring\<lparr>rg_cur := trb_idx (rg_ring ring) 0, rg_curPos := 0, rg_cycBit := 1\<rparr>;
           st = (if 0 < rg_size ring - 1 then
                   upd_dm (\<lambda>m. HW_USB_XHCI_writeQuad (trb_idx (rg_ring ring) 0 + 0x08) 0
                     (HW_USB_XHCI_writeQuad (trb_idx (rg_ring ring) 0) 0 m)) st
                 else st);
           st = st\<lparr>src := clear_src (rg_reqSrc ring) (8 * ucast (rg_size ring)) (src st)\<rparr>
       in Some (ring\<lparr>lock := 0\<rparr>, st))"

definition HW_USB_XHCI_Ring_release :: "XHCI_Ring \<Rightarrow> u64 \<Rightarrow> XHCI_Mem \<Rightarrow> (ptr \<times> XHCI_Mem) option" where
  "HW_USB_XHCI_Ring_release ring pos st =
    (if lock ring \<noteq> 0 then None
     else
       let req = src st (src_idx (rg_reqSrc ring) pos) in
       Some (req, fold (\<lambda>i st. st\<lparr>src := (src st)(rq_target (reqs st req) i := NULL)\<rparr>)
                    [0..<unat (rq_trbCnt (reqs st req))] st))"

section \<open>Control requests\<close>

definition HW_USB_XHCI_allocReq :: "u64 \<Rightarrow> ptr \<Rightarrow> u64 \<Rightarrow> XHCI_Mem \<Rightarrow> XHCI_Mem" where
  "HW_USB_XHCI_allocReq trbCnt req trb st =
    upd_req req (\<lambda>_. \<lparr>rq_flags = 0, rq_trbCnt = trbCnt, rq_trb = trb, rq_target = (\<lambda>_. 0)\<rparr>)
      (upd_dm (clear_dm trb (sizeof_TRB * trbCnt)) st)"

definition setup_stage :: "u64 \<Rightarrow> u64 \<Rightarrow> u32 \<Rightarrow> dmem \<Rightarrow> dmem" where
  "setup_stage trb setup trt m =
    (let m = HW_USB_XHCI_TRB_setData trb setup m;
         m = HW_USB_XHCI_TRB_setStatus trb (HW_USB_XHCI_TRB_mkStatus 0x08 0 0) m;
         m = HW_USB_XHCI_TRB_setType trb XHCI_TRB_Type_SetupStage m;
         m = HW_USB_XHCI_TRB_setCtrlBit trb XHCI_TRB_Ctrl_idt m
     in HW_USB_XHCI_TRB_setTRT trb trt m)"

definition status_stage :: "u64 \<Rightarrow> i32 \<Rightarrow> dmem \<Rightarrow> dmem" where
  "status_stage trb dir m =
    (let m = HW_USB_XHCI_TRB_setDir trb (NOT dir AND 1) m;
         m = HW_USB_XHCI_TRB_setType trb XHCI_TRB_Type_StatusStage m
     in HW_USB_XHCI_TRB_setCtrlBit trb XHCI_TRB_Ctrl_ioc m)"

definition HW_USB_XHCI_ctrlReq :: "u64 \<Rightarrow> u64 \<Rightarrow> i32 \<Rightarrow> dmem \<Rightarrow> dmem" where
  "HW_USB_XHCI_ctrlReq trb setup dir m =
    (let m = setup_stage (trb_idx trb 0) setup XHCI_TRB_TRT_No m in status_stage (trb_idx trb 1) dir m)"

definition HW_USB_XHCI_ctrlDataReq :: "u64 \<Rightarrow> u64 \<Rightarrow> i32 \<Rightarrow> u64 \<Rightarrow> u16 \<Rightarrow> dmem \<Rightarrow> dmem" where
  "HW_USB_XHCI_ctrlDataReq trb setup dir data len m =
    (let m = setup_stage (trb_idx trb 0) setup (if dir = XHCI_TRB_Ctrl_Dir_In then XHCI_TRB_TRT_In else XHCI_TRB_TRT_Out) m;
         dataStage = trb_idx trb 1;
         m = HW_USB_XHCI_TRB_setData dataStage (DMAS_virt2Phys data) m;
         m = HW_USB_XHCI_TRB_setStatus dataStage (HW_USB_XHCI_TRB_mkStatus (ucast len) 0 0) m;
         m = HW_USB_XHCI_TRB_setType dataStage XHCI_TRB_Type_DataStage m;
         m = HW_USB_XHCI_TRB_setDir dataStage dir m
     in status_stage (trb_idx trb 2) dir m)"

text \<open>\<open>None\<close>: the request is not finished and the processor halts until the next interrupt.\<close>

definition HW_USB_XHCI_Req_wait :: "ptr \<Rightarrow> XHCI_Mem \<Rightarrow> u32 option" where
  "HW_USB_XHCI_Req_wait req st =
    (if rq_flags (reqs st req) AND (ucast XHCI_Request_Flag_Finished) = 0 then None
     else Some (HW_USB_XHCI_TRB_getCmplCode (dm st) (req_res req)))"

section \<open>Event rings\<close>

record XHCI_EveRing =
  ev_rings :: "u64 list"
  ev_curRingId :: u32
  ev_curPos :: u32
  ev_ringNum :: u32
  ev_ringSize :: u32
  ev_cycBit :: u32

definition HW_USB_XHCI_allocEveRing :: "u32 \<Rightarrow> u32 \<Rightarrow> u64 list \<Rightarrow> dmem \<Rightarrow> XHCI_EveRing \<times> dmem" where
  "HW_USB_XHCI_allocEveRing num sz mems m =
    (\<lparr>ev_rings = mems, ev_curRingId = 0, ev_curPos = 0, ev_ringNum = num, ev_ringSize = sz, ev_cycBit = 1\<rparr>,
     fold (\<lambda>a. clear_dm a (ucast sz * sizeof_TRB)) mems m)"

definition EveRing_cur :: "XHCI_EveRing \<Rightarrow> u64" where
  "EveRing_cur ring = trb_idx (ev_rings ring ! unat (ev_curRingId ring)) (ucast (ev_curPos ring))"

text \<open>The result, the TRB and the ring.\<close>

definition HW_USB_XHCI_EveRing_getNxt :: "XHCI_EveRing \<Rightarrow> dmem \<Rightarrow> i32 \<times> u64 \<times> XHCI_EveRing" where
  "HW_USB_XHCI_EveRing_getNxt ring m =
    (let tmp = EveRing_cur ring in
     if HW_USB_XHCI_TRB_getCycBit m tmp \<noteq> ev_cycBit ring then (0, tmp, ring)
     else
       let ring = ring\<lparr>ev_curPos := ev_curPos ring + 1\<rparr> in
       if ev_curPos ring = ev_ringSize ring then
         let ring = ring\<lparr>ev_curRingId := ev_curRingId ring + 1\<rparr>;
             ring = (if ev_curRingId ring = ev_ringNum ring
                     then ring\<lparr>ev_curRingId := 0, ev_cycBit := ev_cycBit ring XOR 1\<rparr> else ring)
         in (1, tmp, ring\<lparr>ev_curPos := 0\<rparr>)
       else (1, tmp, ring))"

section \<open>Descriptors of a configuration\<close>

definition HW_USB_XHCI_EpDesc_epId :: "u8 \<Rightarrow> u32" where
  "HW_USB_XHCI_EpDesc_epId bEpAddr = push_bit 1 (ucast bEpAddr AND 0xf) + ucast (drop_bit 7 bEpAddr) - 1"

text \<open>
  \<open>HW_USB_XHCI_Desc_nxtCfgItem\<close> on the bytes of the configuration descriptor; the result is the
  address of the next item, or \<open>NULL\<close>.
\<close>

definition HW_USB_XHCI_Desc_nxtCfgItem :: "(u64 \<Rightarrow> u8) \<Rightarrow> u64 \<Rightarrow> u64 \<Rightarrow> u64" where
  "HW_USB_XHCI_Desc_nxtCfgItem b cfg cur =
    (let wtotLen = ucast (b (cfg + 2)) + push_bit 8 (ucast (b (cfg + 3))); len = ucast (b cur) in
     if wtotLen \<le> cur - cfg + len then NULL else cur + len)"

end
