(* ===== verification/XhciRing_Props.thy ===== *)
theory XhciRing_Props
  imports XhciRing
begin

text \<open>
  The command and transfer rings of the XHCI driver: what the kernel inserts is what the host
  controller fetches, in order, and a TRB that is not fetched is never overwritten.
\<close>

section \<open>Slots\<close>

definition slot :: "u64 \<Rightarrow> nat \<Rightarrow> u64" where
  "slot B p = B + 16 * of_nat p"

definition trb_dwords :: "u64 \<Rightarrow> u64 set" where
  "trb_dwords a = (\<lambda>c. a + of_nat c) ` {0, 4, 8, 12}"

lemma trb_dwords_eq: "trb_dwords a = {a, a + 4, a + 8, a + 12}"
  by (simp add: trb_dwords_def)

definition trb_area :: "u64 \<Rightarrow> nat \<Rightarrow> u64 set" where
  "trb_area B n = (\<Union>p<n. trb_dwords (slot B p))"

text \<open>The contents of a TRB but its cycle bit.\<close>

definition nocyc :: "u32 \<Rightarrow> u32" where
  "nocyc x = x AND NOT 1"

lemma bit_nocyc [simp]: "bit (nocyc x) n \<longleftrightarrow> bit x n \<and> n \<noteq> 0"
  by (auto simp: nocyc_def bit_simps simp del: not_one_eq dest: bit_imp_le_length)

definition trb_of :: "dmem \<Rightarrow> u64 \<Rightarrow> u32 \<times> u32 \<times> u32 \<times> u32" where
  "trb_of m a = (m a, m (a + 4), m (a + 8), nocyc (m (a + 12)))"

lemma trb_idx_slot: "trb_idx B (of_nat p) = slot B p"
  by (simp add: trb_idx_def slot_def sizeof_TRB_def)

lemma unat_slot_off: "p < 4096 \<Longrightarrow> c < 16 \<Longrightarrow> unat (16 * of_nat p + of_nat c :: u64) = 16 * p + c"
proof -
  assume *: "p < 4096" "c < 16"
  have "(16 * of_nat p + of_nat c :: u64) = of_nat (16 * p + c)" by simp
  also have "unat (\<dots> :: u64) = (16 * p + c) mod 2 ^ 64" by (simp only: unat_of_nat) simp
  finally show ?thesis using * by simp
qed

lemma slot_dw_eq:
  assumes "p < 4096" "p' < 4096" "c < 16" "c' < 16"
  shows "slot B p + of_nat c = slot B p' + of_nat c' \<longleftrightarrow> 16 * p + c = 16 * p' + c'"
proof -
  have "slot B p + of_nat c = slot B p' + of_nat c' \<longleftrightarrow>
        (16 * of_nat p + of_nat c :: u64) = 16 * of_nat p' + of_nat c'"
    by (simp add: slot_def add.assoc)
  also have "\<dots> \<longleftrightarrow> unat (16 * of_nat p + of_nat c :: u64) = unat (16 * of_nat p' + of_nat c' :: u64)"
    by (rule word_unat_eq_iff)
  finally show ?thesis using assms by (simp add: unat_slot_off)
qed

lemma slot_dwords_disjoint:
  assumes "p < 4096" "p' < 4096" "p \<noteq> p'"
  shows "trb_dwords (slot B p) \<inter> trb_dwords (slot B p') = {}"
proof (rule Int_emptyI)
  fix x assume "x \<in> trb_dwords (slot B p)" "x \<in> trb_dwords (slot B p')"
  then obtain c c' where c: "c \<in> {0, 4, 8, 12}" "c' \<in> {0, 4, 8, 12}" "slot B p + of_nat c = slot B p' + of_nat c'"
    unfolding trb_dwords_def by (elim imageE) metis
  then have "c < 16" "c' < 16" by auto
  then have "16 * p + c = 16 * p' + c'" using c(3) slot_dw_eq [OF assms(1,2)] by blast
  then show False using assms(3) \<open>c < 16\<close> \<open>c' < 16\<close> by linarith
qed

lemma dwords_distinct: "a + 4 \<noteq> (a :: u64)" "a + 8 \<noteq> a" "a + 12 \<noteq> a" "a + 8 \<noteq> a + 4" "a + 12 \<noteq> a + 4" "a + 12 \<noteq> a + 8"
  by simp_all

lemma getPos_slot:
  assumes "B AND 0xffff = 0" "p < 4096"
  shows "HW_USB_XHCI_TRB_getPos (slot B p) = of_nat p"
proof -
  have m: "0xffff = (mask 16 :: u64)" by (simp add: mask_eq_exp_minus_1)
  have *: "x - (x AND NOT 0xffff) = take_bit 16 x" for x :: u64
  proof -
    have "x = (x AND NOT 0xffff) + (x AND 0xffff)"
      by (subst disjunctive_add) (auto simp: bit_simps intro!: bit_eqI)
    then show ?thesis by (metis m add_diff_cancel_left' take_bit_eq_mask)
  qed
  have u: "unat (16 * of_nat p :: u64) = 16 * p" using unat_slot_off [OF assms(2), of 0] by simp
  have t: "take_bit 16 (slot B p) = 16 * of_nat p"
  proof (rule word_unat_eq_iff [THEN iffD2])
    have "take_bit 16 B = 0" using assms(1) by (simp add: m take_bit_eq_mask)
    then have "take_bit 16 (unat B) = 0" by (metis unsigned_take_bit_eq unsigned_0)
    then have B: "unat B mod 65536 = 0" by (simp add: take_bit_eq_mod)
    have "unat (slot B p) mod 65536 = (unat B + 16 * p) mod 2 ^ 64 mod 65536"
      unfolding slot_def unat_word_ariths(1) u by simp
    also have "\<dots> = (unat B + 16 * p) mod 65536" by (rule mod_mod_cancel) simp
    also have "\<dots> = 16 * p" using B assms(2) by (simp add: mod_add_left_eq [of "unat B", symmetric])
    finally show "unat (take_bit 16 (slot B p)) = unat (16 * of_nat p :: u64)"
      unfolding unsigned_take_bit_eq u by (simp add: take_bit_eq_mod)
  qed
  have "(16 * of_nat p :: u64) div 16 = of_nat p"
    using assms(2) by (simp add: word_unat_eq_iff unat_div unat_of_nat unat_mult_less)
  moreover have "(ucast (of_nat p :: u64) :: i32) = of_nat p"
    using assms(2) by (simp add: word_unat_eq_iff unat_ucast_mod unat_of_nat)
  ultimately show ?thesis unfolding HW_USB_XHCI_TRB_getPos_def * t sizeof_TRB_def by simp
qed

section \<open>Accessors\<close>

lemmas trb_acc = HW_USB_XHCI_readDword_def HW_USB_XHCI_writeDword_def HW_USB_XHCI_readQuad_def
  HW_USB_XHCI_writeQuad_def trb_data1_def trb_status_def trb_ctrl_def

lemma mask6: "(push_bit 6 1 - 1 :: u32) = mask 6"
  by (simp add: mask_eq_exp_minus_1)

lemma getType_of: "HW_USB_XHCI_TRB_getType m a = (case trb_of m a of (_, _, _, c) \<Rightarrow> drop_bit 10 c AND mask 6)"
  unfolding HW_USB_XHCI_TRB_getType_def trb_of_def trb_acc prod.case mask6
  by (rule bit_word_eqI) (auto simp: bit_drop_bit_eq bit_and_iff bit_mask_iff)

lemma getToggle_of: "HW_USB_XHCI_TRB_getToggle m a = (case trb_of m a of (_, _, _, c) \<Rightarrow> drop_bit 1 c AND 1)"
  unfolding HW_USB_XHCI_TRB_getToggle_def trb_of_def trb_acc prod.case
  by (rule bit_word_eqI) (auto simp: bit_drop_bit_eq bit_and_iff bit_1_iff)

lemma getData_of: "HW_USB_XHCI_TRB_getData m a = (case trb_of m a of (x, y, _, _) \<Rightarrow> ucast x OR push_bit 32 (ucast y))"
  by (simp add: HW_USB_XHCI_TRB_getData_def trb_of_def trb_acc)

lemma trb_of_cong: "(\<And>x. x \<in> trb_dwords a \<Longrightarrow> m x = m' x) \<Longrightarrow> trb_of m a = trb_of m' a"
  by (simp add: trb_of_def trb_dwords_eq)

lemma getCycBit_cong: "(\<And>x. x \<in> trb_dwords a \<Longrightarrow> m x = m' x) \<Longrightarrow>
    HW_USB_XHCI_TRB_getCycBit m a = HW_USB_XHCI_TRB_getCycBit m' a"
  by (simp add: HW_USB_XHCI_TRB_getCycBit_def trb_acc trb_dwords_eq)

lemma setCycBit_frame: "x \<notin> trb_dwords a \<Longrightarrow> HW_USB_XHCI_TRB_setCycBit a c m x = m x"
  by (simp add: HW_USB_XHCI_TRB_setCycBit_def trb_acc trb_dwords_eq)

lemma setCycBit_eq:
  "HW_USB_XHCI_TRB_setCycBit a c m = m(a + 12 := nocyc (m (a + 12)) OR c)"
  by (simp add: HW_USB_XHCI_TRB_setCycBit_def trb_acc nocyc_def)

lemma nocyc_or: "c = 0 \<or> c = 1 \<Longrightarrow> nocyc (nocyc x OR c) = nocyc x"
  by (auto intro!: bit_word_eqI simp: bit_or_iff bit_1_iff)

lemma nocyc_and1: "c = 0 \<or> c = 1 \<Longrightarrow> (nocyc x OR c) AND 1 = c"
  by (auto intro!: bit_word_eqI simp: bit_and_iff bit_or_iff bit_1_iff)

lemma setCycBit_same:
  assumes "c = 0 \<or> c = 1"
  shows "trb_of (HW_USB_XHCI_TRB_setCycBit a c m) a = trb_of m a"
    "HW_USB_XHCI_TRB_getCycBit (HW_USB_XHCI_TRB_setCycBit a c m) a = c"
  by (simp_all add: setCycBit_eq HW_USB_XHCI_TRB_getCycBit_def trb_acc trb_of_def nocyc_or [OF assms] nocyc_and1 [OF assms])

lemma quad_split: "ucast ((ucast (x :: u32) :: u64) OR push_bit 32 (ucast (y :: u32))) = x"
  "ucast (drop_bit 32 ((ucast (x :: u32) :: u64) OR push_bit 32 (ucast (y :: u32)))) = y"
  by (rule bit_word_eqI; auto simp: bit_simps dest: bit_imp_le_length)+

lemma readQuad_split: "ucast (HW_USB_XHCI_readQuad m a) = m a" "ucast (drop_bit 32 (HW_USB_XHCI_readQuad m a)) = m (a + 4)"
  unfolding HW_USB_XHCI_readQuad_def by (rule quad_split)+

lemma readQuad_other: "a \<noteq> b \<Longrightarrow> a + 4 \<noteq> b \<Longrightarrow> HW_USB_XHCI_readQuad (m(b := v)) a = HW_USB_XHCI_readQuad m a"
  by (simp add: HW_USB_XHCI_readQuad_def)

lemma TRB_copy_eq:
  assumes "trb_dwords from \<inter> trb_dwords to = {}"
  shows "HW_USB_XHCI_TRB_copy from to m =
    m(to := m from, to + 4 := m (from + 4), to + 8 := m (from + 8), to + 12 := m (from + 12))"
proof -
  have *: "from + 8 \<noteq> to" "from + 8 \<noteq> to + 4" "from + 8 + 4 \<noteq> to" "from + 8 + 4 \<noteq> to + 4"
    using assms by (auto simp: trb_dwords_eq)
  then show ?thesis
    unfolding HW_USB_XHCI_TRB_copy_def HW_USB_XHCI_writeQuad_def Let_def readQuad_split trb_status_def
    by (simp add: readQuad_other readQuad_split) (simp add: add.commute)
qed

lemma TRB_copy_frame: "x \<notin> trb_dwords to \<Longrightarrow> HW_USB_XHCI_TRB_copy from to m x = m x"
  by (auto simp: HW_USB_XHCI_TRB_copy_def HW_USB_XHCI_writeQuad_def trb_dwords_def Let_def)

lemma TRB_copy_same:
  "trb_dwords from \<inter> trb_dwords to = {} \<Longrightarrow> trb_of (HW_USB_XHCI_TRB_copy from to m) to = trb_of m from"
  by (simp add: TRB_copy_eq trb_of_def)

section \<open>The controller\<close>

text \<open>
  One fetch of the host controller from the address and with the cycle state it keeps: nothing when the
  cycle bit is not its own, else the TRB; a link TRB leads to another address and may toggle the state.
\<close>

definition xhc_step :: "dmem \<Rightarrow> u64 \<times> u32 \<Rightarrow> ((u32 \<times> u32 \<times> u32 \<times> u32) list \<times> (u64 \<times> u32)) option" where
  "xhc_step m = (\<lambda>(deq, ccs).
    if HW_USB_XHCI_TRB_getCycBit m deq \<noteq> ccs then None
    else if HW_USB_XHCI_TRB_getType m deq = XHCI_TRB_Type_Link then
      Some ([], DMAS_phys2Virt (HW_USB_XHCI_TRB_getData m deq AND NOT 0xf),
        if HW_USB_XHCI_TRB_getToggle m deq \<noteq> 0 then ccs XOR 1 else ccs)
    else Some ([trb_of m deq], deq + 16, ccs))"

fun xhc_fetch :: "nat \<Rightarrow> dmem \<Rightarrow> u64 \<times> u32 \<Rightarrow> (u32 \<times> u32 \<times> u32 \<times> u32) list \<times> (u64 \<times> u32)" where
  "xhc_fetch 0 m c = ([], c)"
| "xhc_fetch (Suc k) m c =
    (case xhc_step m c of None \<Rightarrow> ([], c) | Some (ts, c') \<Rightarrow> (case xhc_fetch k m c' of (us, c'') \<Rightarrow> (ts @ us, c'')))"

section \<open>The invariant\<close>

text \<open>The cycle bit of the lap of slot number \<open>t\<close>, and whether this slot holds the link TRB.\<close>

definition lap :: "nat \<Rightarrow> nat \<Rightarrow> u32" where
  "lap n t = (if even (t div n) then 1 else 0)"

definition is_link :: "nat \<Rightarrow> nat \<Rightarrow> bool" where
  "is_link n t \<longleftrightarrow> t mod n = n - 1"

definition ring_at :: "nat \<Rightarrow> nat \<Rightarrow> XHCI_Ring \<Rightarrow> XHCI_Ring" where
  "ring_at n t r = r\<lparr>rg_cur := slot (rg_ring r) (t mod n), rg_curPos := of_nat (t mod n), rg_cycBit := lap n t\<rparr>"

definition src_at :: "XHCI_Ring \<Rightarrow> nat \<Rightarrow> u64" where
  "src_at r p = src_idx (rg_reqSrc r) (of_nat p)"

text \<open>What never changes: where the ring is and which TRB is the link.\<close>

definition ring_shape :: "nat \<Rightarrow> XHCI_Ring \<Rightarrow> dmem \<Rightarrow> bool" where
  "ring_shape n r m \<longleftrightarrow>
    2 \<le> n \<and> n \<le> 4096 \<and> rg_size r = of_nat n \<and> rg_ring r AND 0xffff = 0 \<and>
    HW_USB_XHCI_TRB_getType m (slot (rg_ring r) (n - 1)) = XHCI_TRB_Type_Link \<and>
    HW_USB_XHCI_TRB_getToggle m (slot (rg_ring r) (n - 1)) \<noteq> 0 \<and>
    HW_USB_XHCI_TRB_getData m (slot (rg_ring r) (n - 1)) = DMAS_virt2Phys (rg_ring r) \<and>
    (\<forall>p<n - 1. HW_USB_XHCI_TRB_getType m (slot (rg_ring r) p) \<noteq> XHCI_TRB_Type_Link)"

definition ring_inv :: "nat \<Rightarrow> nat \<Rightarrow> nat \<Rightarrow> XHCI_Ring \<Rightarrow> XHCI_Mem \<Rightarrow> bool" where
  "ring_inv n q w r st \<longleftrightarrow>
    ring_shape n r (dm st) \<and> lock r = 0 \<and> q \<le> w \<and> w \<le> q + n \<and> ring_at n w r = r \<and>
    (\<forall>t. q \<le> t \<and> t < w \<longrightarrow> HW_USB_XHCI_TRB_getCycBit (dm st) (slot (rg_ring r) (t mod n)) = lap n t) \<and>
    (\<forall>t. w \<le> t \<and> t < q + n \<longrightarrow> HW_USB_XHCI_TRB_getCycBit (dm st) (slot (rg_ring r) (t mod n)) \<noteq> lap n t) \<and>
    (\<forall>t. q \<le> t \<and> t < w \<and> \<not> is_link n t \<longrightarrow> src st (src_at r (t mod n)) \<noteq> NULL)"

definition deq_at :: "nat \<Rightarrow> nat \<Rightarrow> XHCI_Ring \<Rightarrow> u64 \<times> u32" where
  "deq_at n t r = (slot (rg_ring r) (t mod n), lap n t)"

definition contents :: "nat \<Rightarrow> XHCI_Ring \<Rightarrow> dmem \<Rightarrow> nat list \<Rightarrow> (u32 \<times> u32 \<times> u32 \<times> u32) list" where
  "contents n r m ts = map (\<lambda>t. trb_of m (slot (rg_ring r) (t mod n))) (filter (\<lambda>t. \<not> is_link n t) ts)"

lemma lap_01: "lap n t = 0 \<or> lap n t = 1"
  by (simp add: lap_def)

lemma lap_add: "0 < n \<Longrightarrow> lap n (t + n) \<noteq> lap n t"
  using div_add_self2 [of n t] by (simp add: lap_def)

lemma Suc_mod: "0 < n \<Longrightarrow> Suc t mod n = (if is_link n t then 0 else Suc (t mod n))"
  by (auto simp: is_link_def mod_Suc)

lemma Suc_div: "0 < n \<Longrightarrow> Suc t div n = (if is_link n t then Suc (t div n) else t div n)"
  by (auto simp: is_link_def div_Suc mod_Suc)

lemma lap_Suc: "0 < n \<Longrightarrow> lap n (Suc t) = (if is_link n t then lap n t XOR 1 else lap n t)"
  by (auto simp: lap_def Suc_div)

lemma slot_Suc: "slot B (Suc p) = slot B p + 16"
  by (simp add: slot_def algebra_simps)

lemma slot_0 [simp]: "slot B 0 = B"
  by (simp add: slot_def)

lemma ring_shape_type:
  assumes "ring_shape n r m"
  shows "HW_USB_XHCI_TRB_getType m (slot (rg_ring r) (t mod n)) = XHCI_TRB_Type_Link \<longleftrightarrow> is_link n t"
proof (cases "is_link n t")
  case True
  then show ?thesis using assms by (simp add: ring_shape_def is_link_def)
next
  case False
  have "t mod n < n" using assms by (simp add: ring_shape_def)
  then have "t mod n < n - 1" using False by (simp add: is_link_def)
  then show ?thesis using assms False by (simp add: ring_shape_def)
qed

lemma virt2Phys_aligned:
  assumes "B AND 0xffff = 0"
  shows "DMAS_virt2Phys B AND NOT 0xf = DMAS_virt2Phys B"
proof -
  have "0xffff = (mask 16 :: u64)" by (simp add: mask_eq_exp_minus_1)
  then have "take_bit 16 B = 0" using assms by (simp add: take_bit_eq_mask)
  then have "B = push_bit 16 (drop_bit 16 B)"
    by (metis bits_ident add.right_neutral)
  then have "DMAS_virt2Phys B = push_bit 16 (drop_bit 16 B) - push_bit 16 0xffff88000000"
    by (simp add: DMAS_virt2Phys_def DMAS_physAddrStart_def DMAS_virtAddrStart_def)
  also have "\<dots> = push_bit 16 (drop_bit 16 B - 0xffff88000000)"
    by (simp add: push_bit_eq_mult algebra_simps)
  finally have v: "DMAS_virt2Phys B = push_bit 16 (drop_bit 16 B - 0xffff88000000)" .
  have f: "(0xf :: u64) = mask 4" by (simp add: mask_eq_exp_minus_1)
  show ?thesis unfolding v f
    by (rule bit_word_eqI) (auto simp: bit_and_iff bit_not_iff bit_mask_iff bit_push_bit_iff)
qed

lemma xhc_step_at:
  assumes "ring_shape n r m"
  shows "xhc_step m (deq_at n t r) =
    (if HW_USB_XHCI_TRB_getCycBit m (slot (rg_ring r) (t mod n)) \<noteq> lap n t then None
     else Some (contents n r m [t], deq_at n (Suc t) r))"
proof -
  have n: "0 < n" using assms by (simp add: ring_shape_def)
  have al: "DMAS_virt2Phys (rg_ring r) AND NOT 0xf = DMAS_virt2Phys (rg_ring r)"
    using assms by (intro virt2Phys_aligned) (simp add: ring_shape_def)
  then have al: "DMAS_virt2Phys (rg_ring r) AND - 16 = DMAS_virt2Phys (rg_ring r)" by simp
  show ?thesis
  proof (cases "is_link n t")
    case True
    then have t: "t mod n = n - 1" by (simp add: is_link_def)
    show ?thesis using assms True
      by (simp add: xhc_step_def deq_at_def t ring_shape_def contents_def lap_Suc [OF n] Suc_mod [OF n] al)
  next
    case False
    then show ?thesis using ring_shape_type [OF assms, of t]
      by (simp add: xhc_step_def deq_at_def contents_def lap_Suc [OF n] Suc_mod [OF n] slot_Suc)
  qed
qed

lemma xhc_fetch_pending:
  assumes "ring_shape n r m"
    and "\<forall>t. q \<le> t \<and> t < w \<longrightarrow> HW_USB_XHCI_TRB_getCycBit m (slot (rg_ring r) (t mod n)) = lap n t"
    and "HW_USB_XHCI_TRB_getCycBit m (slot (rg_ring r) (w mod n)) \<noteq> lap n w"
    and "q \<le> w" "w - q \<le> k"
  shows "xhc_fetch k m (deq_at n q r) = (contents n r m [q..<w], deq_at n w r)"
  using assms(2,4,5)
proof (induction k arbitrary: q)
  case 0
  then show ?case by (simp add: contents_def)
next
  case (Suc k)
  show ?case
  proof (cases "q = w")
    case True
    then show ?thesis using assms(3) by (simp add: xhc_step_at [OF assms(1)]) (simp add: contents_def)
  next
    case False
    then have "q < w" using Suc.prems by simp
    then have "xhc_fetch k m (deq_at n (Suc q) r) = (contents n r m [Suc q..<w], deq_at n w r)"
      using Suc.prems by (intro Suc.IH) auto
    then show ?thesis using Suc.prems(1) \<open>q < w\<close>
      by (simp add: xhc_step_at [OF assms(1)] upt_conv_Cons) (simp add: contents_def)
  qed
qed

section \<open>Finding the slots\<close>

text \<open>Slot number \<open>adv n t k\<close> is the next one when \<open>k\<close> TRBs are written from slot number \<open>t\<close> on.\<close>

fun adv :: "nat \<Rightarrow> nat \<Rightarrow> nat \<Rightarrow> nat" where
  "adv n t 0 = t"
| "adv n t (Suc k) = (if is_link n t then adv n (Suc (Suc t)) k else adv n (Suc t) k)"

lemma adv_ge: "t + k \<le> adv n t k"
proof (induction k arbitrary: t)
  case (Suc k)
  show ?case using Suc.IH [of "Suc t"] Suc.IH [of "Suc (Suc t)"] by simp
qed simp

lemma link_next: "2 \<le> n \<Longrightarrow> is_link n t \<Longrightarrow> \<not> is_link n (Suc t)"
  by (auto simp: is_link_def mod_Suc)

lemma adv_le:
  assumes "2 \<le> n"
  shows "k < n \<Longrightarrow> adv n t k \<le> t + k + (if n \<le> t mod n + k then 1 else 0)"
proof (induction k arbitrary: t)
  case (Suc k)
  have n: "0 < n" using assms by simp
  show ?case
  proof (cases "is_link n t")
    case True
    then have "Suc (Suc t) mod n = 1" "t mod n = n - 1"
      using assms link_next [OF assms True] by (auto simp: Suc_mod [OF n] is_link_def)
    then show ?thesis using Suc.IH [of "Suc (Suc t)"] Suc.prems True by (auto split: if_splits)
  next
    case False
    then show ?thesis using Suc.IH [of "Suc t"] Suc.prems by (auto simp: Suc_mod [OF n] split: if_splits)
  qed
qed simp

lemma adv_last: "\<exists>d. adv n t (Suc k) = Suc d \<and> \<not> is_link n d \<and> t \<le> d" if "2 \<le> n"
proof (induction k arbitrary: t)
  case 0
  show ?case using link_next [OF that, of t] by auto
next
  case (Suc k)
  show ?case
  proof (cases "is_link n t")
    case True
    then show ?thesis using Suc.IH [of "Suc (Suc t)"] by (auto simp del: adv.simps(2) simp: adv.simps(2) [of n t])
  next
    case False
    then show ?thesis using Suc.IH [of "Suc t"] by (auto simp del: adv.simps(2) simp: adv.simps(2) [of n t])
  qed
qed

lemma adv_data: "2 \<le> n \<Longrightarrow> length (filter (\<lambda>d. \<not> is_link n d) [t..<adv n t k]) = k"
proof (induction k arbitrary: t)
  case (Suc k)
  show ?case
  proof (cases "is_link n t")
    case True
    then show ?thesis using Suc.IH [OF Suc.prems, of "Suc (Suc t)"] adv_ge [of "Suc (Suc t)" k n] link_next [OF Suc.prems True]
      by (simp add: upt_conv_Cons)
  next
    case False
    then show ?thesis using Suc.IH [OF Suc.prems, of "Suc t"] adv_ge [of "Suc t" k n]
      by (simp add: upt_conv_Cons)
  qed
qed simp

definition pos_cyc :: "nat \<Rightarrow> nat \<Rightarrow> u64 \<times> u8" where
  "pos_cyc n t = (of_nat (t mod n), ucast (lap n t))"

lemma ring_at_sel [simp]:
  "rg_ring (ring_at n t r) = rg_ring r" "rg_reqSrc (ring_at n t r) = rg_reqSrc r" "rg_size (ring_at n t r) = rg_size r"
  "lock (ring_at n t r) = lock r" "ring_at n t (ring_at n u r) = ring_at n t r"
  "rg_cur (ring_at n t r) = slot (rg_ring r) (t mod n)" "rg_curPos (ring_at n t r) = of_nat (t mod n)"
  "rg_cycBit (ring_at n t r) = lap n t"
  by (simp_all add: ring_at_def)

lemma ring_shape_at [simp]: "ring_shape n (ring_at n t r) m = ring_shape n r m"
  by (simp add: ring_shape_def)

lemma src_at_at [simp]: "src_at (ring_at n t r) p = src_at r p"
  by (simp add: src_at_def)

lemma pos_word:
  assumes "2 \<le> n" "n \<le> 4096"
  shows "(ucast (of_nat (t mod n) :: u32) :: u64) = of_nat (t mod n)"
proof -
  have "t mod n < n" using assms(1) by simp
  then have "t mod n < 4096" using assms(2) by simp
  then show ?thesis by (simp add: word_unat_eq_iff unat_ucast_mod unat_of_nat)
qed

lemma follow_link_at:
  assumes "ring_shape n r (dm st)" "is_link n t"
  shows "follow_link st (ring_at n t r) = ring_at n (Suc t) r"
proof -
  have n: "0 < n" using assms(1) by (simp add: ring_shape_def)
  have t: "t mod n = n - 1" using assms(2) by (simp add: is_link_def)
  have p: "HW_USB_XHCI_TRB_getPos (rg_ring r) = 0"
    using getPos_slot [of "rg_ring r" 0] assms(1) by (simp add: ring_shape_def)
  have "HW_USB_XHCI_TRB_getToggle (dm st) (slot (rg_ring r) (t mod n)) \<noteq> 0"
    "HW_USB_XHCI_TRB_getData (dm st) (slot (rg_ring r) (t mod n)) = DMAS_virt2Phys (rg_ring r)"
    using assms(1) unfolding t by (simp_all add: ring_shape_def)
  then show ?thesis using assms(2) unfolding follow_link_def Let_def ring_at_sel
    by (simp add: ring_at_def lap_Suc [OF n] Suc_mod [OF n] p)
qed

lemma Ring_place_link:
  assumes "ring_shape n r (dm st)" "i < cnt" "length ps < 16" "is_link n t"
  shows "Ring_place st cnt i (ring_at n t r) ps = Ring_place st cnt i (ring_at n (Suc t) r) (ps @ [pos_cyc n t])"
  using assms ring_shape_type [OF assms(1), of t] follow_link_at [OF assms(1,4)] pos_word [of n t]
  by (subst Ring_place.simps) (simp add: pos_cyc_def ring_shape_def)

lemma Ring_place_data:
  assumes "ring_shape n r (dm st)" "i < cnt" "length ps < 16" "\<not> is_link n t"
  shows "Ring_place st cnt i (ring_at n t r) ps =
    (if src st (src_at r (t mod n)) \<noteq> NULL then Some (True, ring_at n t r, ps @ [pos_cyc n t])
     else Ring_place st cnt (i + 1) (ring_at n (Suc t) r) (ps @ [pos_cyc n t]))"
proof -
  have n: "2 \<le> n" "n \<le> 4096" using assms(1) by (simp_all add: ring_shape_def)
  then have "ring_at n t r\<lparr>rg_cur := slot (rg_ring r) (t mod n) + sizeof_TRB, rg_curPos := of_nat (t mod n) + 1\<rparr> =
      ring_at n (Suc t) r"
    using assms(4) by (simp add: ring_at_def Suc_mod lap_Suc slot_Suc sizeof_TRB_def add.commute)
  then show ?thesis using assms ring_shape_type [OF assms(1), of t] pos_word [OF n, of t]
    by (subst Ring_place.simps) (simp add: pos_cyc_def src_at_def)
qed

lemma Ring_place_at:
  assumes "ring_shape n r (dm st)"
    and "unat cnt - unat i = k" "length ps + (adv n t k - t) \<le> 16"
  shows "if \<forall>d. t \<le> d \<and> d < adv n t k \<and> \<not> is_link n d \<longrightarrow> src st (src_at r (d mod n)) = NULL
    then Ring_place st cnt i (ring_at n t r) ps = Some (False, ring_at n (adv n t k) r, ps @ map (pos_cyc n) [t..<adv n t k])
    else \<exists>u ps'. Ring_place st cnt i (ring_at n t r) ps = Some (True, ring_at n u r, ps')"
  using assms(2,3)
proof (induction k arbitrary: i t ps)
  case 0
  then have "\<not> i < cnt" by (simp add: word_less_nat_alt)
  then show ?case by (simp add: Ring_place.simps)
next
  case (Suc k)
  have i: "i < cnt" "unat cnt - unat (i + 1) = k"
    using Suc.prems(1) unat_u64_less [of cnt] by (auto simp: word_less_nat_alt unat_word_ariths(1))
  have n: "2 \<le> n" using assms(1) by (simp add: ring_shape_def)
  have data: "if \<forall>d. u \<le> d \<and> d < adv n u (Suc k) \<and> \<not> is_link n d \<longrightarrow> src st (src_at r (d mod n)) = NULL
    then Ring_place st cnt i (ring_at n u r) qs =
      Some (False, ring_at n (adv n u (Suc k)) r, qs @ map (pos_cyc n) [u..<adv n u (Suc k)])
    else \<exists>v ps'. Ring_place st cnt i (ring_at n u r) qs = Some (True, ring_at n v r, ps')"
    if u: "\<not> is_link n u" and qs: "length qs + (adv n u (Suc k) - u) \<le> 16" for u qs
  proof -
    have a: "adv n u (Suc k) = adv n (Suc u) k" "Suc u + k \<le> adv n (Suc u) k" using u adv_ge [of "Suc u" k n] by simp_all
    then have l: "length qs < 16" "length (qs @ [pos_cyc n u]) + (adv n (Suc u) k - Suc u) \<le> 16" using qs by auto
    note step = Ring_place_data [OF assms(1) i(1) l(1) u]
    show ?thesis
    proof (cases "src st (src_at r (u mod n)) = NULL")
      case True
      have all: "(\<forall>d. u \<le> d \<and> d < adv n (Suc u) k \<and> \<not> is_link n d \<longrightarrow> src st (src_at r (d mod n)) = NULL) \<longleftrightarrow>
          (\<forall>d. Suc u \<le> d \<and> d < adv n (Suc u) k \<and> \<not> is_link n d \<longrightarrow> src st (src_at r (d mod n)) = NULL)"
        using True by (metis Suc_leD le_antisym not_less_eq_eq)
      show ?thesis using Suc.IH [OF i(2) l(2)] True a(2) unfolding step a(1) all
        by (simp add: upt_conv_Cons)
    next
      case False
      then have "\<not> (\<forall>d. u \<le> d \<and> d < adv n (Suc u) k \<and> \<not> is_link n d \<longrightarrow> src st (src_at r (d mod n)) = NULL)"
        using u a(2) by auto
      then show ?thesis using False unfolding step a(1) by auto
    qed
  qed
  show ?case
  proof (cases "is_link n t")
    case True
    then have u: "\<not> is_link n (Suc t)" using link_next n by blast
    have a: "adv n t (Suc k) = adv n (Suc t) (Suc k)" using True u by simp
    have "Suc t + Suc k \<le> adv n (Suc t) (Suc k)" by (rule adv_ge)
    then have l: "length ps < 16" "length (ps @ [pos_cyc n t]) + (adv n (Suc t) (Suc k) - Suc t) \<le> 16" "t < adv n (Suc t) (Suc k)"
      using Suc.prems(2) unfolding a by auto
    have all: "(\<forall>d. t \<le> d \<and> d < adv n (Suc t) (Suc k) \<and> \<not> is_link n d \<longrightarrow> src st (src_at r (d mod n)) = NULL) \<longleftrightarrow>
        (\<forall>d. Suc t \<le> d \<and> d < adv n (Suc t) (Suc k) \<and> \<not> is_link n d \<longrightarrow> src st (src_at r (d mod n)) = NULL)"
      using True by (metis Suc_leD le_antisym not_less_eq_eq)
    show ?thesis using data [OF u l(2)] l(3)
      unfolding a all Ring_place_link [OF assms(1) i(1) l(1) True] by (simp add: upt_conv_Cons del: adv.simps)
  next
    case False
    then show ?thesis using data Suc.prems(2) by blast
  qed
qed

section \<open>Writing the slots\<close>

definition put :: "nat \<Rightarrow> XHCI_Ring \<Rightarrow> ptr \<Rightarrow> nat \<Rightarrow> nat \<Rightarrow> XHCI_Mem \<Rightarrow> XHCI_Mem" where
  "put n r req t j st =
    (let a = slot (rg_ring r) (t mod n) in
     upd_dm (HW_USB_XHCI_TRB_setCycBit a (lap n t))
       (if is_link n t then st
        else upd_req req (\<lambda>q. q\<lparr>rq_target := (rq_target q)(j := src_at r (t mod n))\<rparr>)
          ((upd_dm (HW_USB_XHCI_TRB_copy (slot (rq_trb (reqs st req)) j) a) st)
            \<lparr>src := (src st)(src_at r (t mod n) := req)\<rparr>)))"

text \<open>The TRBs of the request are outside of the ring, and none is a link.\<close>

definition req_ok :: "nat \<Rightarrow> XHCI_Ring \<Rightarrow> nat \<Rightarrow> u64 \<Rightarrow> dmem \<Rightarrow> bool" where
  "req_ok n r K T m \<longleftrightarrow>
    (\<forall>i<K. trb_dwords (slot T i) \<inter> trb_area (rg_ring r) n = {} \<and>
      HW_USB_XHCI_TRB_getType m (slot T i) \<noteq> XHCI_TRB_Type_Link)"

lemma req_slot_disjoint:
  assumes "ring_shape n r m" "req_ok n r K T m'" "i < K"
  shows "trb_dwords (slot T i) \<inter> trb_dwords (slot (rg_ring r) (t mod n)) = {}"
proof -
  have "t mod n < n" using assms(1) by (simp add: ring_shape_def)
  then have "trb_dwords (slot (rg_ring r) (t mod n)) \<subseteq> trb_area (rg_ring r) n" unfolding trb_area_def by blast
  moreover have "trb_dwords (slot T i) \<inter> trb_area (rg_ring r) n = {}" using assms(2,3) by (simp add: req_ok_def)
  ultimately show ?thesis by blast
qed

lemma Ring_write_put:
  assumes "ring_shape n r (dm st)"
  shows "Ring_write r req (pos_cyc n t # ps) j st =
    Ring_write r req ps (if is_link n t then j else Suc j) (put n r req t j st)"
proof -
  have "(ucast (ucast (lap n t) :: u8) :: u32) = lap n t" using lap_01 [of n t] by auto
  then show ?thesis using ring_shape_type [OF assms, of t]
    by (simp add: pos_cyc_def put_def Let_def trb_idx_slot src_at_def)
      (simp add: upd_dm_def upd_req_def)
qed

lemma put_sel [simp]:
  "src (put n r req t j st) = (if is_link n t then src st else (src st)(src_at r (t mod n) := req))"
  "rq_trb (reqs (put n r req t j st) q) = rq_trb (reqs st q)"
  "rq_trbCnt (reqs (put n r req t j st) q) = rq_trbCnt (reqs st q)"
  "rq_flags (reqs (put n r req t j st) q) = rq_flags (reqs st q)"
  "q \<noteq> req \<Longrightarrow> reqs (put n r req t j st) q = reqs st q"
  "rq_target (reqs (put n r req t j st) req) =
    (if is_link n t then rq_target (reqs st req) else (rq_target (reqs st req))(j := src_at r (t mod n)))"
  by (simp_all add: put_def Let_def upd_dm_def upd_req_def)

lemma put_frame: "x \<notin> trb_dwords (slot (rg_ring r) (t mod n)) \<Longrightarrow> dm (put n r req t j st) x = dm st x"
  by (simp add: put_def Let_def upd_dm_def upd_req_def setCycBit_frame TRB_copy_frame)

lemma put_trb:
  assumes "ring_shape n r (dm st)" "req_ok n r K (rq_trb (reqs st req)) m" "j < K \<or> is_link n t"
  shows "trb_of (dm (put n r req t j st)) (slot (rg_ring r) (t mod n)) =
      (if is_link n t then trb_of (dm st) (slot (rg_ring r) (t mod n)) else trb_of (dm st) (slot (rq_trb (reqs st req)) j))"
    "HW_USB_XHCI_TRB_getCycBit (dm (put n r req t j st)) (slot (rg_ring r) (t mod n)) = lap n t"
proof -
  have p: "t mod n < n" using assms(1) by (simp add: ring_shape_def)
  have "trb_dwords (slot (rq_trb (reqs st req)) j) \<inter> trb_dwords (slot (rg_ring r) (t mod n)) = {}" if "\<not> is_link n t"
    using that assms(2,3) p unfolding req_ok_def trb_area_def by blast
  then show "trb_of (dm (put n r req t j st)) (slot (rg_ring r) (t mod n)) =
      (if is_link n t then trb_of (dm st) (slot (rg_ring r) (t mod n)) else trb_of (dm st) (slot (rq_trb (reqs st req)) j))"
    using lap_01 [of n t]
    by (simp add: put_def Let_def upd_dm_def upd_req_def setCycBit_same TRB_copy_same)
  show "HW_USB_XHCI_TRB_getCycBit (dm (put n r req t j st)) (slot (rg_ring r) (t mod n)) = lap n t"
    using lap_01 [of n t] by (simp add: put_def Let_def upd_dm_def setCycBit_same)
qed

lemma trb_of_frame:
  "(\<And>x. x \<notin> trb_dwords a \<Longrightarrow> m' x = m x) \<Longrightarrow> trb_dwords b \<inter> trb_dwords a = {} \<Longrightarrow> trb_of m' b = trb_of m b"
  by (rule trb_of_cong) blast

lemma put_other:
  assumes "trb_dwords b \<inter> trb_dwords (slot (rg_ring r) (t mod n)) = {}"
  shows "trb_of (dm (put n r req t j st)) b = trb_of (dm st) b"
    "HW_USB_XHCI_TRB_getCycBit (dm (put n r req t j st)) b = HW_USB_XHCI_TRB_getCycBit (dm st) b"
  by (rule trb_of_cong getCycBit_cong, rule put_frame, use assms in blast)+

lemma ring_shape_cong:
  assumes "ring_shape n r m"
    and "\<And>p. p < n \<Longrightarrow> trb_of m' (slot (rg_ring r) p) = trb_of m (slot (rg_ring r) p) \<or>
      p < n - 1 \<and> HW_USB_XHCI_TRB_getType m' (slot (rg_ring r) p) \<noteq> XHCI_TRB_Type_Link"
  shows "ring_shape n r m'"
proof -
  have "n - 1 < n" using assms(1) by (simp add: ring_shape_def)
  from assms(2) [OF this] have l: "trb_of m' (slot (rg_ring r) (n - 1)) = trb_of m (slot (rg_ring r) (n - 1))" by simp
  have "HW_USB_XHCI_TRB_getType m' (slot (rg_ring r) p) \<noteq> XHCI_TRB_Type_Link" if "p < n - 1" for p
    using assms(1) assms(2) [of p] that by (auto simp: ring_shape_def getType_of)
  then show ?thesis using assms(1) by (simp add: ring_shape_def getType_of getToggle_of getData_of l [simplified])
qed

lemma put_shape:
  assumes "ring_shape n r (dm st)" "req_ok n r K (rq_trb (reqs st req)) (dm st)" "j < K \<or> is_link n t"
  shows "ring_shape n r (dm (put n r req t j st))" "req_ok n r K (rq_trb (reqs st req)) (dm (put n r req t j st))"
proof -
  have n: "0 < n" "n \<le> 4096" and p: "t mod n < n" using assms(1) by (simp_all add: ring_shape_def)
  show "ring_shape n r (dm (put n r req t j st))"
  proof (rule ring_shape_cong [OF assms(1)])
    fix p assume "p < n"
    show "trb_of (dm (put n r req t j st)) (slot (rg_ring r) p) = trb_of (dm st) (slot (rg_ring r) p) \<or>
      p < n - 1 \<and> HW_USB_XHCI_TRB_getType (dm (put n r req t j st)) (slot (rg_ring r) p) \<noteq> XHCI_TRB_Type_Link"
    proof (cases "p = t mod n")
      case True
      then show ?thesis using put_trb [OF assms] assms(2,3) \<open>p < n\<close>
        by (auto simp: getType_of req_ok_def is_link_def)
    next
      case False
      then have "trb_dwords (slot (rg_ring r) p) \<inter> trb_dwords (slot (rg_ring r) (t mod n)) = {}"
        using \<open>p < n\<close> n p by (intro slot_dwords_disjoint) linarith+
      then show ?thesis using put_other by blast
    qed
  qed
  show "req_ok n r K (rq_trb (reqs st req)) (dm (put n r req t j st))"
    unfolding req_ok_def
  proof (intro allI impI conjI)
    fix i assume i: "i < K"
    show d: "trb_dwords (slot (rq_trb (reqs st req)) i) \<inter> trb_area (rg_ring r) n = {}"
      using assms(2) i by (simp add: req_ok_def)
    then have "trb_dwords (slot (rq_trb (reqs st req)) i) \<inter> trb_dwords (slot (rg_ring r) (t mod n)) = {}"
      using p unfolding trb_area_def by blast
    then show "HW_USB_XHCI_TRB_getType (dm (put n r req t j st)) (slot (rq_trb (reqs st req)) i) \<noteq> XHCI_TRB_Type_Link"
      using assms(2) i put_other [of "slot (rq_trb (reqs st req)) i" r t n req j st] by (simp add: req_ok_def getType_of)
  qed
qed

abbreviation (input) data_of :: "nat \<Rightarrow> nat list \<Rightarrow> nat list" where
  "data_of n \<equiv> filter (\<lambda>t. \<not> is_link n t)"

lemma Ring_write_shape:
  assumes "ring_shape n r (dm st)" "req_ok n r K (rq_trb (reqs st req)) (dm st)" "j + length (data_of n ds) \<le> K"
  shows "ring_shape n r (dm (Ring_write r req (map (pos_cyc n) ds) j st))"
  using assms
proof (induction ds arbitrary: j st)
  case (Cons t ds)
  have j: "j < K \<or> is_link n t" using Cons.prems(3) by (auto split: if_splits)
  show ?case unfolding list.map(2) Ring_write_put [OF Cons.prems(1)]
    using put_shape [OF Cons.prems(1,2) j] Cons.prems(3) by (intro Cons.IH) auto
qed simp

lemma Ring_write_frame:
  assumes "ring_shape n r (dm st)" "req_ok n r K (rq_trb (reqs st req)) (dm st)" "j + length (data_of n ds) \<le> K"
    and "x \<notin> (\<Union>t\<in>set ds. trb_dwords (slot (rg_ring r) (t mod n)))"
  shows "dm (Ring_write r req (map (pos_cyc n) ds) j st) x = dm st x"
  using assms
proof (induction ds arbitrary: j st)
  case (Cons t ds)
  have j: "j < K \<or> is_link n t" using Cons.prems(3) by (auto split: if_splits)
  have x: "x \<notin> trb_dwords (slot (rg_ring r) (t mod n))" "x \<notin> (\<Union>t\<in>set ds. trb_dwords (slot (rg_ring r) (t mod n)))"
    using Cons.prems(4) by auto
  have "dm (Ring_write r req (map (pos_cyc n) ds) (if is_link n t then j else Suc j) (put n r req t j st)) x =
      dm (put n r req t j st) x"
    using put_shape [OF Cons.prems(1,2) j] Cons.prems(3) x(2) by (intro Cons.IH) auto
  then show ?case unfolding list.map(2) Ring_write_put [OF Cons.prems(1)] using put_frame [OF x(1)] by simp
qed simp

lemma Ring_write_reqs:
  assumes "ring_shape n r (dm st)" "req_ok n r K (rq_trb (reqs st req)) (dm st)" "j + length (data_of n ds) \<le> K"
  shows "rq_trb (reqs (Ring_write r req (map (pos_cyc n) ds) j st) q) = rq_trb (reqs st q)"
    "rq_trbCnt (reqs (Ring_write r req (map (pos_cyc n) ds) j st) q) = rq_trbCnt (reqs st q)"
    "rq_flags (reqs (Ring_write r req (map (pos_cyc n) ds) j st) q) = rq_flags (reqs st q)"
    "q \<noteq> req \<Longrightarrow> reqs (Ring_write r req (map (pos_cyc n) ds) j st) q = reqs st q"
    "i < j \<Longrightarrow> rq_target (reqs (Ring_write r req (map (pos_cyc n) ds) j st) req) i = rq_target (reqs st req) i"
proof -
  have "let st' = Ring_write r req (map (pos_cyc n) ds) j st in
    rq_trb (reqs st' q) = rq_trb (reqs st q) \<and> rq_trbCnt (reqs st' q) = rq_trbCnt (reqs st q) \<and>
    rq_flags (reqs st' q) = rq_flags (reqs st q) \<and> (q \<noteq> req \<longrightarrow> reqs st' q = reqs st q) \<and>
    (i < j \<longrightarrow> rq_target (reqs st' req) i = rq_target (reqs st req) i)"
    using assms
  proof (induction ds arbitrary: j st)
    case (Cons t ds)
    have j: "j < K \<or> is_link n t" using Cons.prems(3) by (auto split: if_splits)
    let ?j = "if is_link n t then j else Suc j" and ?st = "put n r req t j st"
    have "ring_shape n r (dm ?st)" "req_ok n r K (rq_trb (reqs ?st req)) (dm ?st)" "?j + length (data_of n ds) \<le> K"
      using put_shape [OF Cons.prems(1,2) j] Cons.prems(3) by auto
    from Cons.IH [OF this] show ?case unfolding list.map(2) Ring_write_put [OF Cons.prems(1)] Let_def
      by (auto split: if_splits)
  qed simp
  then show "rq_trb (reqs (Ring_write r req (map (pos_cyc n) ds) j st) q) = rq_trb (reqs st q)"
    "rq_trbCnt (reqs (Ring_write r req (map (pos_cyc n) ds) j st) q) = rq_trbCnt (reqs st q)"
    "rq_flags (reqs (Ring_write r req (map (pos_cyc n) ds) j st) q) = rq_flags (reqs st q)"
    "q \<noteq> req \<Longrightarrow> reqs (Ring_write r req (map (pos_cyc n) ds) j st) q = reqs st q"
    "i < j \<Longrightarrow> rq_target (reqs (Ring_write r req (map (pos_cyc n) ds) j st) req) i = rq_target (reqs st req) i"
    by (simp_all add: Let_def)
qed

lemma slots_disjoint:
  assumes "ring_shape n r m" "t mod n \<notin> (\<lambda>t. t mod n) ` set ds"
  shows "trb_dwords (slot (rg_ring r) (t mod n)) \<inter> (\<Union>u\<in>set ds. trb_dwords (slot (rg_ring r) (u mod n))) = {}"
proof -
  have n: "u mod n < 4096" for u using assms(1) mod_less_divisor [of n u] by (simp add: ring_shape_def del: mod_less_divisor)
  have "trb_dwords (slot (rg_ring r) (t mod n)) \<inter> trb_dwords (slot (rg_ring r) (u mod n)) = {}" if "u \<in> set ds" for u
    using assms(2) that n by (intro slot_dwords_disjoint) auto
  then show ?thesis by blast
qed

lemma Ring_write_contents:
  assumes "ring_shape n r (dm st)" "req_ok n r K (rq_trb (reqs st req)) (dm st)" "j + length (data_of n ds) \<le> K"
    and "distinct (map (\<lambda>t. t mod n) ds)"
  shows "contents n r (dm (Ring_write r req (map (pos_cyc n) ds) j st)) ds =
      map (\<lambda>i. trb_of (dm st) (slot (rq_trb (reqs st req)) i)) [j..<j + length (data_of n ds)] \<and>
    (\<forall>t\<in>set ds. HW_USB_XHCI_TRB_getCycBit (dm (Ring_write r req (map (pos_cyc n) ds) j st)) (slot (rg_ring r) (t mod n)) = lap n t) \<and>
    src (Ring_write r req (map (pos_cyc n) ds) j st) =
      (\<lambda>x. if x \<in> (\<lambda>t. src_at r (t mod n)) ` set (data_of n ds) then req else src st x) \<and>
    map (rq_target (reqs (Ring_write r req (map (pos_cyc n) ds) j st) req)) [j..<j + length (data_of n ds)] =
      map (\<lambda>t. src_at r (t mod n)) (data_of n ds)"
  using assms
proof (induction ds arbitrary: j st)
  case Nil
  then show ?case by (simp add: contents_def)
next
  case (Cons t ds)
  have j: "j < K \<or> is_link n t" using Cons.prems(3) by (auto split: if_splits)
  let ?j = "if is_link n t then j else Suc j" and ?st = "put n r req t j st"
  let ?st' = "Ring_write r req (map (pos_cyc n) ds) ?j ?st"
  have pre: "ring_shape n r (dm ?st)" "req_ok n r K (rq_trb (reqs ?st req)) (dm ?st)" "?j + length (data_of n ds) \<le> K"
    "distinct (map (\<lambda>t. t mod n) ds)"
    using put_shape [OF Cons.prems(1,2) j] Cons.prems(3,4) by auto
  note IH = Cons.IH [OF pre]
  have dj: "trb_dwords (slot (rg_ring r) (t mod n)) \<inter> (\<Union>u\<in>set ds. trb_dwords (slot (rg_ring r) (u mod n))) = {}"
    using Cons.prems(4) by (intro slots_disjoint [OF Cons.prems(1)]) auto
  have fr: "dm ?st' x = dm ?st x" if "x \<in> trb_dwords (slot (rg_ring r) (t mod n))" for x
    using that dj by (intro Ring_write_frame [OF pre(1-3)]) blast
  have tr: "trb_of (dm ?st) (slot (rq_trb (reqs st req)) i) = trb_of (dm st) (slot (rq_trb (reqs st req)) i)" if "i < K" for i
  proof (rule put_other)
    show "trb_dwords (slot (rq_trb (reqs st req)) i) \<inter> trb_dwords (slot (rg_ring r) (t mod n)) = {}"
      by (rule req_slot_disjoint [OF Cons.prems(1,2) that])
  qed
  have st': "Ring_write r req (map (pos_cyc n) (t # ds)) j st = ?st'"
    by (simp add: Ring_write_put [OF Cons.prems(1)])
  have h1: "trb_of (dm ?st') (slot (rg_ring r) (t mod n)) = trb_of (dm ?st) (slot (rg_ring r) (t mod n))"
    by (rule trb_of_cong) (rule fr)
  have "HW_USB_XHCI_TRB_getCycBit (dm ?st') (slot (rg_ring r) (t mod n)) =
      HW_USB_XHCI_TRB_getCycBit (dm ?st) (slot (rg_ring r) (t mod n))"
    by (rule getCycBit_cong) (rule fr)
  then have h2: "HW_USB_XHCI_TRB_getCycBit (dm ?st') (slot (rg_ring r) (t mod n)) = lap n t"
    unfolding put_trb(2) [OF Cons.prems(1,2) j] .
  have trs: "map (\<lambda>i. trb_of (dm ?st) (slot (rq_trb (reqs ?st req)) i)) [?j..<?j + length (data_of n ds)] =
      map (\<lambda>i. trb_of (dm st) (slot (rq_trb (reqs st req)) i)) [?j..<?j + length (data_of n ds)]"
    using pre(3) by (auto simp: tr)
  have up: "[j..<j + length (data_of n (t # ds))] = j # [Suc j..<Suc j + length (data_of n ds)]" if "\<not> is_link n t"
    using that by (subst upt_conv_Cons) simp_all
  have tgt: "rq_target (reqs ?st' req) j = src_at r (t mod n)" if "\<not> is_link n t"
    using Ring_write_reqs(5) [OF pre(1-3), of j] that by simp
  show ?case
    unfolding st'
  proof (intro conjI)
    show "contents n r (dm ?st') (t # ds) =
        map (\<lambda>i. trb_of (dm st) (slot (rq_trb (reqs st req)) i)) [j..<j + length (data_of n (t # ds))]"
    proof (cases "is_link n t")
      case True
      then show ?thesis using IH trs by (simp add: contents_def)
    next
      case False
      then have "contents n r (dm ?st') (t # ds) = trb_of (dm ?st') (slot (rg_ring r) (t mod n)) # contents n r (dm ?st') ds"
        by (simp add: contents_def)
      also have "\<dots> = trb_of (dm st) (slot (rq_trb (reqs st req)) j) #
          map (\<lambda>i. trb_of (dm st) (slot (rq_trb (reqs st req)) i)) [Suc j..<Suc j + length (data_of n ds)]"
        using IH trs put_trb(1) [OF Cons.prems(1,2) j] False unfolding h1 by simp
      finally show ?thesis unfolding up [OF False] by simp
    qed
    show "\<forall>u\<in>set (t # ds). HW_USB_XHCI_TRB_getCycBit (dm ?st') (slot (rg_ring r) (u mod n)) = lap n u"
      using IH h2 by auto
    show "src ?st' = (\<lambda>x. if x \<in> (\<lambda>t. src_at r (t mod n)) ` set (data_of n (t # ds)) then req else src st x)"
      using IH by (auto simp: fun_eq_iff)
    show "map (rq_target (reqs ?st' req)) [j..<j + length (data_of n (t # ds))] =
        map (\<lambda>t. src_at r (t mod n)) (data_of n (t # ds))"
    proof (cases "is_link n t")
      case True
      then show ?thesis using IH by simp
    next
      case False
      then show ?thesis using IH tgt [OF False] unfolding up [OF False] by simp
    qed
  qed
qed

section \<open>Insertion\<close>

lemma mod_window:
  assumes "a \<le> x" "x < a + n" "a \<le> y" "y < a + n" "x mod n = y mod (n :: nat)"
  shows "x = y"
proof -
  have "n dvd (max x y - min x y)" using assms(5) by (metis max_def min_def mod_eq_dvd_iff_nat nat_le_linear)
  moreover have "max x y - min x y < n" using assms by auto
  ultimately have "max x y - min x y = 0" using nat_dvd_not_less by blast
  then show ?thesis by (auto simp: max_def min_def split: if_splits)
qed

lemma distinct_window: "e \<le> w + n \<Longrightarrow> distinct (map (\<lambda>t. t mod n) [w..<e])"
  by (auto simp: distinct_map intro!: inj_onI) (rule mod_window [of w], auto)

lemma ring_inv_shape: "ring_inv n q w r st \<Longrightarrow> ring_shape n r (dm st)"
  by (simp add: ring_inv_def)

text \<open>When the slots are free, writing them does not overtake the controller.\<close>

lemma insert_window:
  assumes "ring_inv n q w r st" "1 \<le> k" "k < n"
    and "\<forall>d. w \<le> d \<and> d < adv n w k \<and> \<not> is_link n d \<longrightarrow> src st (src_at r (d mod n)) = NULL"
  shows "adv n w k \<le> q + n"
proof -
  have n: "2 \<le> n" and qw: "q \<le> w" using assms(1) by (simp_all add: ring_inv_def ring_shape_def)
  obtain k' where k: "k = Suc k'" using assms(2) by (cases k) auto
  obtain d where d: "adv n w k = Suc d" "\<not> is_link n d" "w \<le> d" using adv_last [OF n, of w k'] k by auto
  show ?thesis
  proof (rule ccontr)
    assume "\<not> adv n w k \<le> q + n"
    then have dn: "q \<le> d - n" "n \<le> d" using d(1) by auto
    have "d - n < w" using adv_le [OF n assms(3), of w] d(1) assms(3) dn by (auto split: if_splits)
    moreover have "(d - n) mod n = d mod n" using dn(2) by (simp add: le_mod_geq)
    moreover have "\<not> is_link n (d - n)" using d(2) dn(2) by (simp add: is_link_def le_mod_geq)
    ultimately have "src st (src_at r (d mod n)) \<noteq> NULL" using assms(1) dn(1) by (fastforce simp: ring_inv_def)
    then show False using assms(4) d by auto
  qed
qed

lemma insert_inv:
  assumes inv: "ring_inv n q w r st" and k: "1 \<le> k" "k < n" and ok: "req_ok n r k (rq_trb (reqs st req)) (dm st)" "req \<noteq> NULL"
    and free: "\<forall>d. w \<le> d \<and> d < adv n w k \<and> \<not> is_link n d \<longrightarrow> src st (src_at r (d mod n)) = NULL"
  defines "e \<equiv> adv n w k"
  defines "st' \<equiv> Ring_write r req (map (pos_cyc n) [w..<e]) 0 st"
  shows "ring_inv n q e (ring_at n e r) st'"
    "contents n r (dm st') [q..<e] = contents n r (dm st) [q..<w] @ map (\<lambda>i. trb_of (dm st) (slot (rq_trb (reqs st req)) i)) [0..<k]"
    "src st' = (\<lambda>x. if x \<in> (\<lambda>t. src_at r (t mod n)) ` set (data_of n [w..<e]) then req else src st x)"
    "map (rq_target (reqs st' req)) [0..<k] = map (\<lambda>t. src_at r (t mod n)) (data_of n [w..<e])"
proof -
  note sh = ring_inv_shape [OF inv]
  have n: "2 \<le> n" and qw: "q \<le> w" "w \<le> q + n" using inv by (simp_all add: ring_inv_def ring_shape_def)
  have e: "e \<le> q + n" unfolding e_def by (rule insert_window [OF inv k free])
  have we: "w \<le> e" using adv_ge [of w k n] by (simp add: e_def)
  have len: "0 + length (data_of n [w..<e]) \<le> k" by (simp add: e_def adv_data [OF n])
  have dist: "distinct (map (\<lambda>t. t mod n) [w..<e])" using e qw by (intro distinct_window) simp
  note W = Ring_write_contents [OF sh ok(1) len dist, folded st'_def]
  have L: "length (data_of n [w..<e]) = k" by (simp add: e_def adv_data [OF n])
  have fr: "dm st' x = dm st x" if "q \<le> t" "t < q + n" "\<not> (w \<le> t \<and> t < e)" "x \<in> trb_dwords (slot (rg_ring r) (t mod n))" for t x
  proof -
    have "t mod n \<notin> (\<lambda>t. t mod n) ` set [w..<e]"
    proof
      assume "t mod n \<in> (\<lambda>t. t mod n) ` set [w..<e]"
      then obtain u where "t mod n = u mod n" "w \<le> u" "u < e" by auto
      then have "t = u" using that(1,2) qw e by (intro mod_window [of q t n u]) auto
      then show False using that(3) \<open>w \<le> u\<close> \<open>u < e\<close> by simp
    qed
    from slots_disjoint [OF sh this] that(4) show ?thesis
      unfolding st'_def by (intro Ring_write_frame [OF sh ok(1) len]) blast
  qed
  have cyc: "HW_USB_XHCI_TRB_getCycBit (dm st') (slot (rg_ring r) (t mod n)) =
      HW_USB_XHCI_TRB_getCycBit (dm st) (slot (rg_ring r) (t mod n))" if "q \<le> t" "t < q + n" "\<not> (w \<le> t \<and> t < e)" for t
    by (rule getCycBit_cong) (rule fr [OF that])
  have old: "contents n r (dm st') [q..<w] = contents n r (dm st) [q..<w]"
    unfolding contents_def using qw by (intro map_cong refl trb_of_cong fr) auto
  show "src st' = (\<lambda>x. if x \<in> (\<lambda>t. src_at r (t mod n)) ` set (data_of n [w..<e]) then req else src st x)"
    using W by blast
  show "map (rq_target (reqs st' req)) [0..<k] = map (\<lambda>t. src_at r (t mod n)) (data_of n [w..<e])"
    using W L by simp
  have "[q..<e] = [q..<w] @ [w..<e]" using qw we by (metis le_add_diff_inverse upt_add_eq_append)
  then show "contents n r (dm st') [q..<e] =
      contents n r (dm st) [q..<w] @ map (\<lambda>i. trb_of (dm st) (slot (rq_trb (reqs st req)) i)) [0..<k]"
    using W old L by (simp add: contents_def)
  show "ring_inv n q e (ring_at n e r) st'"
    unfolding ring_inv_def ring_shape_at ring_at_sel src_at_at
  proof (intro conjI allI impI)
    show "ring_shape n r (dm st')" unfolding st'_def by (rule Ring_write_shape [OF sh ok(1) len])
    show "lock r = 0" using inv by (simp add: ring_inv_def)
    show "q \<le> e" "e \<le> q + n" using qw we e by simp_all
    show "ring_at n e r = ring_at n e r" ..
  next
    fix t assume t: "q \<le> t \<and> t < e"
    show "HW_USB_XHCI_TRB_getCycBit (dm st') (slot (rg_ring r) (t mod n)) = lap n t"
    proof (cases "w \<le> t")
      case True
      then show ?thesis using W t by auto
    next
      case False
      then show ?thesis using cyc [of t] t qw inv by (simp add: ring_inv_def)
    qed
  next
    fix t assume t: "e \<le> t \<and> t < q + n"
    then show "HW_USB_XHCI_TRB_getCycBit (dm st') (slot (rg_ring r) (t mod n)) \<noteq> lap n t"
      using cyc [of t] qw we inv by (simp add: ring_inv_def)
  next
    fix t assume t: "q \<le> t \<and> t < e \<and> \<not> is_link n t"
    show "src st' (src_at r (t mod n)) \<noteq> NULL"
    proof (cases "w \<le> t")
      case True
      then show ?thesis using W t ok(2) by (auto simp: image_iff)
    next
      case False
      then have "src st (src_at r (t mod n)) \<noteq> NULL" using t inv by (simp add: ring_inv_def)
      then show ?thesis using W ok(2) by (auto simp: image_iff)
    qed
  qed
qed

text \<open>What the controller fetches from a ring until it stops.\<close>

lemma ring_inv_stop:
  assumes "ring_inv n q w r st"
  shows "HW_USB_XHCI_TRB_getCycBit (dm st) (slot (rg_ring r) (w mod n)) \<noteq> lap n w"
proof (cases "w < q + n")
  case True
  then show ?thesis using assms by (simp add: ring_inv_def)
next
  case False
  have n: "0 < n" using assms by (simp add: ring_inv_def ring_shape_def)
  have w: "w = q + n" using False assms by (simp add: ring_inv_def)
  then have "HW_USB_XHCI_TRB_getCycBit (dm st) (slot (rg_ring r) (q mod n)) = lap n q"
    using assms n by (simp add: ring_inv_def)
  then show ?thesis using lap_add [OF n, of q] w by simp
qed

lemma fetch_inv:
  assumes "ring_inv n q w r st"
  shows "xhc_fetch n (dm st) (deq_at n q r) = (contents n r (dm st) [q..<w], deq_at n w r)"
  using assms ring_inv_stop [OF assms] by (intro xhc_fetch_pending) (auto simp: ring_inv_def)

text \<open>The controller goes on: what is fetched need not be kept.\<close>

lemma ring_inv_fetched:
  assumes "ring_inv n q w r st" "q \<le> q'" "q' \<le> w"
  shows "ring_inv n q' w r st"
proof -
  have n: "0 < n" using assms by (simp add: ring_inv_def ring_shape_def)
  have "HW_USB_XHCI_TRB_getCycBit (dm st) (slot (rg_ring r) (t mod n)) \<noteq> lap n t" if "w \<le> t" "t < q' + n" for t
  proof (cases "t < q + n")
    case True
    then show ?thesis using assms(1) that by (simp add: ring_inv_def)
  next
    case False
    then have u: "t = (t - n) + n" "q \<le> t - n" "t - n < w" using that assms(3) by auto
    then have "HW_USB_XHCI_TRB_getCycBit (dm st) (slot (rg_ring r) ((t - n) mod n)) = lap n (t - n)"
      using assms(1) by (simp add: ring_inv_def)
    moreover have "(t - n) mod n = t mod n" using u(1) by (metis mod_add_self2)
    ultimately show ?thesis using lap_add [OF n, of "t - n"] u(1) by simp
  qed
  then show ?thesis using assms by (simp add: ring_inv_def)
qed

lemma tryInsReq_eq:
  assumes inv: "ring_inv n q w r st" and k: "unat (rq_trbCnt (reqs st req)) = k" "k \<le> 15" "16 \<le> n"
  defines "st0 \<equiv> upd_req req (\<lambda>q. q\<lparr>rq_flags := rq_flags q AND NOT (ucast XHCI_Request_Flag_Finished)\<rparr>) st"
  shows "HW_USB_XHCI_Ring_tryInsReq r req st =
    (if \<forall>d. w \<le> d \<and> d < adv n w k \<and> \<not> is_link n d \<longrightarrow> src st (src_at r (d mod n)) = NULL
     then Some (1, ring_at n (adv n w k) r, Ring_write r req (map (pos_cyc n) [w..<adv n w k]) 0 st0)
     else Some (0, r, st0))"
proof -
  have sh: "ring_shape n (r\<lparr>lock := 1\<rparr>) (dm st0)" and n: "2 \<le> n"
    using ring_inv_shape [OF inv] by (simp_all add: st0_def upd_req_def ring_shape_def)
  have at: "r\<lparr>lock := 1\<rparr> = ring_at n w (r\<lparr>lock := 1\<rparr>)" "ring_at n u (r\<lparr>lock := 1\<rparr>)\<lparr>lock := 0\<rparr> = ring_at n u r"
    "ring_at n u (r\<lparr>lock := 1\<rparr>)\<lparr>rg_cur := rg_cur r, rg_curPos := rg_curPos r, rg_cycBit := rg_cycBit r, lock := 0\<rparr> = r"
    "lock r = 0" for u
    using inv by (cases r; simp add: ring_inv_def ring_at_def)+
  have cnt: "unat (rq_trbCnt (reqs st0 req)) - unat 0 = k" using k by (simp add: st0_def upd_req_def)
  have len: "length [] + (adv n w k - w) \<le> 16" using adv_le [OF n, of k w] k by (auto split: if_splits)
  have wr: "Ring_write (ring_at n u (r\<lparr>lock := 1\<rparr>)) req ps j s = Ring_write r req ps j s" for u ps j s
    by (induction "ring_at n u (r\<lparr>lock := 1\<rparr>)" req ps j s rule: Ring_write.induct) (simp_all add: Let_def split: prod.splits)
  have "src st0 = src st" "\<And>p. src_at (r\<lparr>lock := 1\<rparr>) p = src_at r p" by (simp_all add: st0_def upd_req_def src_at_def)
  note P = Ring_place_at [OF sh cnt len, folded at(1), unfolded this]
  show ?thesis
  proof (cases "\<forall>d. w \<le> d \<and> d < adv n w k \<and> \<not> is_link n d \<longrightarrow> src st (src_at r (d mod n)) = NULL")
    case True
    then have "Ring_place st0 (rq_trbCnt (reqs st0 req)) 0 (r\<lparr>lock := 1\<rparr>) [] =
        Some (False, ring_at n (adv n w k) (r\<lparr>lock := 1\<rparr>), map (pos_cyc n) [w..<adv n w k])"
      using P by simp
    then show ?thesis using True unfolding HW_USB_XHCI_Ring_tryInsReq_def st0_def [symmetric] Let_def
      by (simp add: at(2,4) wr)
  next
    case False
    then obtain u ps' where "Ring_place st0 (rq_trbCnt (reqs st0 req)) 0 (r\<lparr>lock := 1\<rparr>) [] =
        Some (True, ring_at n u (r\<lparr>lock := 1\<rparr>), ps')"
      using P by (auto simp only: if_False)
    then show ?thesis using False at(3) [of u] at(4) unfolding HW_USB_XHCI_Ring_tryInsReq_def st0_def [symmetric] Let_def
      by (simp only: option.case prod.case if_True if_False if_not_P at(4)) simp
  qed
qed

end
