(* ===== verification/XhciRing_Run.thy ===== *)
theory XhciRing_Run
  imports XhciRing_Props
begin

text \<open>
  Runs of a command or transfer ring: the kernel inserts requests, the host controller fetches TRBs, the
  kernel releases the slots of requests that are complete, and meanwhile other memory changes.
\<close>

section \<open>A new ring\<close>

lemma slot_off: "p < 4096 \<Longrightarrow> c < 16 \<Longrightarrow> unat (slot B p + of_nat c - B) = 16 * p + c"
  using unat_slot_off [of p c] by (simp add: slot_def add.commute add.left_commute)

lemma clear_slot:
  assumes "p < n" "n \<le> 4096" "x \<in> trb_dwords (slot B p)"
  shows "clear_dm B (sizeof_TRB * of_nat n) m x = 0"
proof -
  obtain c :: nat where c: "c < 16" "x = slot B p + of_nat c"
    using assms(3) that [of 0] that [of 4] that [of 8] that [of 12] by (auto simp: trb_dwords_eq)
  have "unat (sizeof_TRB * of_nat n) = 16 * n"
    using assms(2) by (simp add: sizeof_TRB_def unat_mult_less unat_of_nat)
  then show ?thesis using c(1) assms(1,2) by (simp add: clear_dm_def c(2) word_less_nat_alt slot_off)
qed

lemma allocRing_inv:
  assumes "2 \<le> n" "n \<le> 4096" "B AND 0xffff = 0" "HW_USB_XHCI_allocRing (of_nat n) B S st = (r, st')"
  shows "ring_inv n 0 0 r st'" "rg_ring r = B" "rg_reqSrc r = S" "reqs st' = reqs st"
    "16 * n \<le> unat (x - B) \<Longrightarrow> dm st' x = dm st x"
proof -
  let ?c = "clear_dm B (sizeof_TRB * of_nat n) (dm st)"
  let ?lk = "slot B (n - 1)"
  have sz: "(ucast (of_nat n :: u64) :: u32) = of_nat n"
    using assms(2) by (simp add: word_unat_eq_iff unat_ucast_mod unat_of_nat)
  have r: "r = \<lparr>lock = 0, rg_ring = B, rg_cur = B, rg_curPos = 0, rg_cycBit = 1, rg_size = of_nat n, rg_reqSrc = S\<rparr>"
    and re: "reqs st' = reqs st"
    using assms(4) sz by (auto simp: HW_USB_XHCI_allocRing_def Let_def upd_dm_def)
  have lk: "trb_idx B (of_nat n - 1) = ?lk"
    using assms(1) trb_idx_slot [of B "n - 1"] by (simp add: of_nat_diff)
  have z: "?c (?lk + 12) = 0" using assms(1,2) by (intro clear_slot) (auto simp: trb_dwords_eq)
  let ?d = "DMAS_virt2Phys B"
  have m: "dm st' = ?c(?lk := ucast ?d, ?lk + 4 := ucast (drop_bit 32 ?d), ?lk + 12 := 0x1802)"
    using assms(4) z unfolding HW_USB_XHCI_allocRing_def Let_def lk
    by (auto simp: upd_dm_def trb_idx_def HW_USB_XHCI_TRB_setType_def HW_USB_XHCI_TRB_setToggle_def HW_USB_XHCI_TRB_setData_def
        trb_acc XHCI_TRB_Type_Link_def)
  show "rg_ring r = B" "rg_reqSrc r = S" "reqs st' = reqs st" using r re by simp_all
  have lkd: "trb_dwords ?lk = {?lk, ?lk + 4, ?lk + 8, ?lk + 12}" by (rule trb_dwords_eq)
  show "dm st' x = dm st x" if "16 * n \<le> unat (x - B)"
  proof -
    have "unat (sizeof_TRB * of_nat n) = 16 * n"
      using assms(2) by (simp add: sizeof_TRB_def unat_mult_less unat_of_nat)
    then have "?c x = dm st x" using that by (simp add: clear_dm_def word_less_nat_alt)
    moreover have "x \<noteq> ?lk + of_nat c" if "c < 16" for c
      using slot_off [of "n - 1" c B] \<open>16 * n \<le> unat (x - B)\<close> that assms(1,2) by auto
    from this [of 0] this [of 4] this [of 12] have "x \<noteq> ?lk" "x \<noteq> ?lk + 4" "x \<noteq> ?lk + 12" by simp_all
    ultimately show ?thesis by (simp add: m)
  qed
  have other: "dm st' x = 0" if "p < n - 1" "x \<in> trb_dwords (slot B p)" for p x
  proof -
    have "trb_dwords (slot B p) \<inter> trb_dwords ?lk = {}" using that(1) assms(1,2) by (intro slot_dwords_disjoint) auto
    then have "x \<noteq> ?lk" "x \<noteq> ?lk + 4" "x \<noteq> ?lk + 12" using that(2) unfolding lkd by blast+
    moreover have "?c x = 0" using that assms(1,2) by (intro clear_slot) auto
    ultimately show ?thesis by (simp add: m)
  qed
  have split: "ucast (ucast ?d :: u32) OR push_bit 32 (ucast (ucast (drop_bit 32 ?d) :: u32)) = ?d"
    by (rule bit_word_eqI) (auto simp: bit_simps)
  have z0: "HW_USB_XHCI_TRB_getType (dm st') (slot B p) = 0" "HW_USB_XHCI_TRB_getCycBit (dm st') (slot B p) = 0" if "p < n - 1" for p
    using other [OF that, of "slot B p + 12"]
    by (simp_all add: HW_USB_XHCI_TRB_getType_def HW_USB_XHCI_TRB_getCycBit_def trb_acc trb_dwords_eq)
  have zl: "HW_USB_XHCI_TRB_getType (dm st') ?lk = XHCI_TRB_Type_Link" "HW_USB_XHCI_TRB_getToggle (dm st') ?lk = 1"
      "HW_USB_XHCI_TRB_getCycBit (dm st') ?lk = 0" "HW_USB_XHCI_TRB_getData (dm st') ?lk = ?d"
    using split by (simp_all add: m HW_USB_XHCI_TRB_getType_def HW_USB_XHCI_TRB_getToggle_def HW_USB_XHCI_TRB_getCycBit_def
        HW_USB_XHCI_TRB_getData_def trb_acc XHCI_TRB_Type_Link_def)
  have cyc: "HW_USB_XHCI_TRB_getCycBit (dm st') (slot B (t mod n)) \<noteq> lap n t" if "t < n" for t
    using z0(2) [of t] zl(3) that by (cases "t = n - 1") (auto simp: lap_def)
  show "ring_inv n 0 0 r st'"
    using assms(1-3) zl z0(1) cyc by (simp add: ring_inv_def ring_shape_def r ring_at_def lap_def XHCI_TRB_Type_Link_def)
qed

section \<open>Steps\<close>

text \<open>
  \<open>rs_deq\<close> is where the controller stands, \<open>rs_sent\<close> and \<open>rs_got\<close> are all TRBs that were inserted and
  fetched, \<open>rs_live\<close> the requests in the ring, each with the number of TRBs sent up to its end.  A request is
  complete when its TRBs are fetched.
\<close>

record ring_sys =
  rs_ring :: XHCI_Ring
  rs_mem :: XHCI_Mem
  rs_deq :: "u64 \<times> u32"
  rs_got :: "(u32 \<times> u32 \<times> u32 \<times> u32) list"
  rs_sent :: "(u32 \<times> u32 \<times> u32 \<times> u32) list"
  rs_live :: "(ptr \<times> nat) list"

definition ring_start :: "nat \<Rightarrow> u64 \<Rightarrow> u64 \<Rightarrow> XHCI_Mem \<Rightarrow> ring_sys" where
  "ring_start n B S st =
    (case HW_USB_XHCI_allocRing (of_nat n) B S st of (r, st') \<Rightarrow>
      \<lparr>rs_ring = r, rs_mem = st', rs_deq = (B, 1), rs_got = [], rs_sent = [], rs_live = []\<rparr>)"

definition req_trbs :: "ptr \<Rightarrow> XHCI_Mem \<Rightarrow> (u32 \<times> u32 \<times> u32 \<times> u32) list" where
  "req_trbs req st = map (\<lambda>i. trb_of (dm st) (slot (rq_trb (reqs st req)) i)) [0..<unat (rq_trbCnt (reqs st req))]"

inductive ring_step :: "nat \<Rightarrow> ring_sys \<Rightarrow> ring_sys \<Rightarrow> bool" for n where
  insert: "\<lbrakk>req \<noteq> NULL; req \<notin> fst ` set (rs_live s); k = unat (rq_trbCnt (reqs (rs_mem s) req)); 1 \<le> k; k \<le> 15;
      req_ok n (rs_ring s) k (rq_trb (reqs (rs_mem s) req)) (dm (rs_mem s));
      HW_USB_XHCI_Ring_tryInsReq (rs_ring s) req (rs_mem s) = Some (1, r', st')\<rbrakk>
    \<Longrightarrow> ring_step n s (s\<lparr>rs_ring := r', rs_mem := st', rs_sent := rs_sent s @ req_trbs req (rs_mem s),
          rs_live := (req, length (rs_sent s) + k) # rs_live s\<rparr>)"
| full: "\<lbrakk>req \<notin> fst ` set (rs_live s); unat (rq_trbCnt (reqs (rs_mem s) req)) \<le> 15;
      HW_USB_XHCI_Ring_tryInsReq (rs_ring s) req (rs_mem s) = Some (0, r', st')\<rbrakk>
    \<Longrightarrow> ring_step n s (s\<lparr>rs_ring := r', rs_mem := st'\<rparr>)"
| fetch: "xhc_step (dm (rs_mem s)) (rs_deq s) = Some (ts, d)
    \<Longrightarrow> ring_step n s (s\<lparr>rs_deq := d, rs_got := rs_got s @ ts\<rparr>)"
| release: "\<lbrakk>(req, c) \<in> set (rs_live s); c \<le> length (rs_got s); src (rs_mem s) (src_idx (rg_reqSrc (rs_ring s)) pos) = req;
      HW_USB_XHCI_Ring_release (rs_ring s) pos (rs_mem s) = Some (req', st')\<rbrakk>
    \<Longrightarrow> ring_step n s (s\<lparr>rs_mem := st', rs_live := filter (\<lambda>l. fst l \<noteq> req') (rs_live s)\<rparr>)"
| other: "\<lbrakk>\<forall>x\<in>trb_area (rg_ring (rs_ring s)) n. m' x = dm (rs_mem s) x;
      \<forall>l\<in>set (rs_live s). rs' (fst l) = reqs (rs_mem s) (fst l)\<rbrakk>
    \<Longrightarrow> ring_step n s (s\<lparr>rs_mem := rs_mem s\<lparr>dm := m', reqs := rs'\<rparr>\<rparr>)"

inductive ring_reach :: "nat \<Rightarrow> u64 \<Rightarrow> u64 \<Rightarrow> ring_sys \<Rightarrow> bool" for n B S where
  start: "ring_reach n B S (ring_start n B S st)"
| step: "ring_reach n B S s \<Longrightarrow> ring_step n s s' \<Longrightarrow> ring_reach n B S s'"

section \<open>The invariant of the runs\<close>

definition dcount :: "nat \<Rightarrow> nat \<Rightarrow> nat" where
  "dcount n t = length (data_of n [0..<t])"

definition live_ok :: "nat \<Rightarrow> nat \<Rightarrow> XHCI_Ring \<Rightarrow> XHCI_Mem \<Rightarrow> ptr \<times> nat \<Rightarrow> bool" where
  "live_ok n w r st = (\<lambda>(req, c). req \<noteq> NULL \<and>
    (\<exists>a e. e \<le> w \<and> dcount n e = c \<and>
      map (rq_target (reqs st req)) [0..<unat (rq_trbCnt (reqs st req))] = map (\<lambda>t. src_at r (t mod n)) (data_of n [a..<e]) \<and>
      (\<forall>t\<in>set (data_of n [a..<e]). w \<le> t + n \<and> src st (src_at r (t mod n)) = req)))"

definition run_inv :: "nat \<Rightarrow> ring_sys \<Rightarrow> bool" where
  "run_inv n s \<longleftrightarrow> 16 \<le> n \<and>
    (\<exists>q w. ring_inv n q w (rs_ring s) (rs_mem s) \<and> rs_deq s = deq_at n q (rs_ring s) \<and>
      rs_sent s = rs_got s @ contents n (rs_ring s) (dm (rs_mem s)) [q..<w] \<and> length (rs_got s) = dcount n q \<and>
      (\<forall>l\<in>set (rs_live s). live_ok n w (rs_ring s) (rs_mem s) l) \<and> distinct (map fst (rs_live s)))"

lemma live_okE:
  assumes "live_ok n w r st (req, c)"
  obtains a e where "req \<noteq> NULL" "e \<le> w" "dcount n e = c"
    "map (rq_target (reqs st req)) [0..<unat (rq_trbCnt (reqs st req))] = map (\<lambda>t. src_at r (t mod n)) (data_of n [a..<e])"
    "\<forall>t\<in>set (data_of n [a..<e]). w \<le> t + n \<and> src st (src_at r (t mod n)) = req"
  using assms unfolding live_ok_def prod.case by blast

lemma live_ok_cong:
  "src st' = src st \<Longrightarrow> reqs st' (fst l) = reqs st (fst l) \<Longrightarrow> live_ok n w r st' l = live_ok n w r st l"
  by (cases l) (simp add: live_ok_def)

lemma run_invI:
  assumes "16 \<le> n" "ring_inv n q w (rs_ring s) (rs_mem s)" "rs_deq s = deq_at n q (rs_ring s)"
    "rs_sent s = rs_got s @ contents n (rs_ring s) (dm (rs_mem s)) [q..<w]" "length (rs_got s) = dcount n q"
    "\<And>l. l \<in> set (rs_live s) \<Longrightarrow> live_ok n w (rs_ring s) (rs_mem s) l" "distinct (map fst (rs_live s))"
  shows "run_inv n s"
  using assms unfolding run_inv_def by blast

lemma run_invE:
  assumes "run_inv n s"
  obtains q w where "16 \<le> n" "ring_inv n q w (rs_ring s) (rs_mem s)" "rs_deq s = deq_at n q (rs_ring s)"
    "rs_sent s = rs_got s @ contents n (rs_ring s) (dm (rs_mem s)) [q..<w]" "length (rs_got s) = dcount n q"
    "\<forall>l\<in>set (rs_live s). live_ok n w (rs_ring s) (rs_mem s) l" "distinct (map fst (rs_live s))"
  using assms unfolding run_inv_def by blast

lemma dcount_Suc: "dcount n (Suc t) = dcount n t + (if is_link n t then 0 else 1)"
  by (simp add: dcount_def)

lemma dcount_mono: "t \<le> u \<Longrightarrow> dcount n t \<le> dcount n u"
  by (rule lift_Suc_mono_le [of "dcount n"]) (simp_all add: dcount_Suc)

lemma dcount_split: "q \<le> w \<Longrightarrow> dcount n w = dcount n q + length (data_of n [q..<w])"
  unfolding dcount_def by (metis filter_append le_add_diff_inverse length_append upt_add_eq_append zero_le)

lemma length_contents: "length (contents n r m ts) = length (data_of n ts)"
  by (simp add: contents_def)

lemma src_at_inj:
  assumes "n \<le> 4096" "p < n" "p' < n"
  shows "src_at r p = src_at r p' \<longleftrightarrow> p = p'"
proof -
  have "unat (8 * of_nat i :: u64) = 8 * i" if "i < n" for i
    using that assms(1) by (simp add: unat_mult_less unat_of_nat)
  moreover have "src_at r p = src_at r p' \<longleftrightarrow> (8 * of_nat p :: u64) = 8 * of_nat p'" by (simp add: src_at_def src_idx_def)
  ultimately show ?thesis using assms(2,3) unfolding word_unat_eq_iff by auto
qed

lemma start_inv:
  assumes "16 \<le> n" "n \<le> 4096" "B AND 0xffff = 0"
  shows "run_inv n (ring_start n B S st)"
proof -
  obtain r st' where a: "HW_USB_XHCI_allocRing (of_nat n) B S st = (r, st')" by (cases "HW_USB_XHCI_allocRing (of_nat n) B S st")
  have n: "2 \<le> n" using assms(1) by simp
  note I = allocRing_inv [OF n assms(2,3) a]
  show ?thesis using I(1,2) assms(1)
    by (auto simp: run_inv_def ring_start_def a deq_at_def lap_def contents_def dcount_def intro!: exI [of _ 0])
qed

lemma release_eq:
  assumes "HW_USB_XHCI_Ring_release r pos st = Some (req, st')"
  shows "req = src st (src_idx (rg_reqSrc r) pos)"
    "st' = st\<lparr>src := \<lambda>x. if x \<in> rq_target (reqs st req) ` {..<unat (rq_trbCnt (reqs st req))} then NULL else src st x\<rparr>"
proof -
  have "fold (\<lambda>i st. st\<lparr>src := (src st)(rq_target (reqs st req) i := NULL)\<rparr>) is st =
    st\<lparr>src := \<lambda>x. if x \<in> rq_target (reqs st req) ` set is then NULL else src st x\<rparr>" for "is" and st :: XHCI_Mem
    by (induction "is" arbitrary: st) (auto simp: fun_eq_iff)
  from this [of "[0..<unat (rq_trbCnt (reqs st req))]" st] assms
  show "req = src st (src_idx (rg_reqSrc r) pos)"
    "st' = st\<lparr>src := \<lambda>x. if x \<in> rq_target (reqs st req) ` {..<unat (rq_trbCnt (reqs st req))} then NULL else src st x\<rparr>"
    by (auto simp: HW_USB_XHCI_Ring_release_def Let_def lessThan_atLeast0 split: if_splits)
qed

lemma insert_run:
  assumes I: "run_inv n s" and req: "req \<noteq> NULL" "req \<notin> fst ` set (rs_live s)"
    and k: "k = unat (rq_trbCnt (reqs (rs_mem s) req))" "1 \<le> k" "k \<le> 15"
    and ok: "req_ok n (rs_ring s) k (rq_trb (reqs (rs_mem s) req)) (dm (rs_mem s))"
    and t: "HW_USB_XHCI_Ring_tryInsReq (rs_ring s) req (rs_mem s) = Some (1, r', st')"
  shows "run_inv n (s\<lparr>rs_ring := r', rs_mem := st', rs_sent := rs_sent s @ req_trbs req (rs_mem s),
          rs_live := (req, length (rs_sent s) + k) # rs_live s\<rparr>)"
proof -
  let ?r = "rs_ring s" and ?st = "rs_mem s"
  obtain q w where n: "16 \<le> n" and inv: "ring_inv n q w ?r ?st" and deq: "rs_deq s = deq_at n q ?r"
    and sent: "rs_sent s = rs_got s @ contents n ?r (dm ?st) [q..<w]" "length (rs_got s) = dcount n q"
    and live: "\<forall>l\<in>set (rs_live s). live_ok n w ?r ?st l" "distinct (map fst (rs_live s))"
    using I by (rule run_invE)
  let ?e = "adv n w k"
  let ?mem = "upd_req req (\<lambda>q. q\<lparr>rq_flags := rq_flags q AND NOT (ucast XHCI_Request_Flag_Finished)\<rparr>) ?st"
  have n2: "2 \<le> n" "k < n" and qw: "q \<le> w" using n k(3) inv by (simp_all add: ring_inv_def)
  have free: "\<forall>d. w \<le> d \<and> d < ?e \<and> \<not> is_link n d \<longrightarrow> src ?st (src_at ?r (d mod n)) = NULL"
    and r': "r' = ring_at n ?e ?r" and st': "st' = Ring_write ?r req (map (pos_cyc n) [w..<?e]) 0 ?mem"
    using t unfolding tryInsReq_eq [OF inv k(1) [symmetric] k(3) n] by (simp_all split: if_splits)
  have st0: "dm ?mem = dm ?st" "src ?mem = src ?st" "\<And>q. q \<noteq> req \<Longrightarrow> reqs ?mem q = reqs ?st q"
    "rq_trb (reqs ?mem req) = rq_trb (reqs ?st req)" "rq_trbCnt (reqs ?mem req) = rq_trbCnt (reqs ?st req)"
    by (simp_all add: upd_req_def)
  have inv0: "ring_inv n q w ?r ?mem" using inv by (simp add: ring_inv_def st0)
  have ok0: "req_ok n ?r k (rq_trb (reqs ?mem req)) (dm ?mem)"
    and free0: "\<forall>d. w \<le> d \<and> d < ?e \<and> \<not> is_link n d \<longrightarrow> src ?mem (src_at ?r (d mod n)) = NULL"
    unfolding st0 by (rule ok, rule free)
  note J = insert_inv [OF inv0 k(2) n2(2) ok0 req(1) free0, folded st', unfolded st0]
  have len: "0 + length (data_of n [w..<?e]) \<le> k" by (simp add: adv_data [OF n2(1)])
  note R = Ring_write_reqs [OF ring_inv_shape [OF inv0] ok0 len, folded st']
  have we: "w \<le> ?e" using adv_ge [of w k n] by simp
  have inj: "src_at ?r (t mod n) = src_at ?r (u mod n) \<longleftrightarrow> t mod n = u mod n" for t u
    using inv n by (intro src_at_inj) (auto simp: ring_inv_def ring_shape_def)
  have cnt: "dcount n ?e = length (rs_sent s) + k"
    using sent dcount_split [OF qw, of n] dcount_split [OF we, of n] by (simp add: length_contents adv_data [OF n2(1)])
  have new: "live_ok n ?e r' st' (req, length (rs_sent s) + k)"
    unfolding live_ok_def prod.case
  proof (intro conjI exI)
    show "req \<noteq> NULL" by (rule req(1))
    show "?e \<le> ?e" "dcount n ?e = length (rs_sent s) + k" using cnt by simp_all
    show "map (rq_target (reqs st' req)) [0..<unat (rq_trbCnt (reqs st' req))] =
        map (\<lambda>t. src_at r' (t mod n)) (data_of n [w..<?e])"
      using J(4) R(2) [of req] k(1) by (simp add: r' st0)
    show "\<forall>t\<in>set (data_of n [w..<?e]). ?e \<le> t + n \<and> src st' (src_at r' (t mod n)) = req"
      using adv_le [OF n2, of w] k(3) n by (auto simp: r' J(3) split: if_splits)
  qed
  have old: "live_ok n ?e r' st' (q', c)" if "(q', c) \<in> set (rs_live s)" for q' c
  proof -
    have q': "q' \<noteq> req" using that req(2) by force
    have "live_ok n w ?r ?st (q', c)" using live(1) that by blast
    then obtain a e where ae: "q' \<noteq> NULL" "e \<le> w" "dcount n e = c"
      "map (rq_target (reqs ?st q')) [0..<unat (rq_trbCnt (reqs ?st q'))] = map (\<lambda>t. src_at ?r (t mod n)) (data_of n [a..<e])"
      "\<forall>t\<in>set (data_of n [a..<e]). w \<le> t + n \<and> src ?st (src_at ?r (t mod n)) = q'"
      by (rule live_okE)
    have rq: "reqs st' q' = reqs ?st q'" using R(4) [OF q'] st0(3) [OF q'] by simp
    have "?e \<le> t + n \<and> src st' (src_at r' (t mod n)) = q'" if t: "t \<in> set (data_of n [a..<e])" for t
    proof -
      have o: "w \<le> t + n" "src ?st (src_at ?r (t mod n)) = q'" "\<not> is_link n t" using ae(5) t by auto
      have nf: "src_at ?r (t mod n) \<noteq> src_at ?r (d mod n)" if "w \<le> d" "d < ?e" "\<not> is_link n d" for d
        using free that o(2) ae(1) by auto
      have "?e \<le> t + n"
      proof (rule ccontr)
        assume "\<not> ?e \<le> t + n"
        then show False using nf [of "t + n"] o by (simp add: is_link_def)
      qed
      moreover have "src st' (src_at r' (t mod n)) = q'" using o(2) nf by (auto simp: r' J(3) image_iff)
      ultimately show ?thesis by simp
    qed
    then show ?thesis unfolding live_ok_def prod.case
      using ae(1-4) we by (intro conjI exI [of _ a] exI [of _ e]) (auto simp: rq r')
  qed
  have "rs_sent s @ req_trbs req ?st = rs_got s @ contents n r' (dm st') [q..<?e]"
    using J(2) k(1) by (simp add: sent(1) req_trbs_def r' contents_def)
  then show ?thesis using n J(1) deq sent(2) new old live(2) req(2)
    by (intro run_invI [of n q ?e]) (auto simp: r' deq_at_def)
qed

lemma release_run:
  assumes I: "run_inv n s" and l: "(req, c) \<in> set (rs_live s)" "c \<le> length (rs_got s)"
    and r: "src (rs_mem s) (src_idx (rg_reqSrc (rs_ring s)) pos) = req"
      "HW_USB_XHCI_Ring_release (rs_ring s) pos (rs_mem s) = Some (req', st')"
  shows "run_inv n (s\<lparr>rs_mem := st', rs_live := filter (\<lambda>l. fst l \<noteq> req') (rs_live s)\<rparr>)"
proof -
  let ?r = "rs_ring s" and ?st = "rs_mem s"
  obtain q w where n: "16 \<le> n" and inv: "ring_inv n q w ?r ?st" and deq: "rs_deq s = deq_at n q ?r"
    and sent: "rs_sent s = rs_got s @ contents n ?r (dm ?st) [q..<w]" "length (rs_got s) = dcount n q"
    and live: "\<forall>l\<in>set (rs_live s). live_ok n w ?r ?st l" "distinct (map fst (rs_live s))"
    using I by (rule run_invE)
  have req': "req' = req" and st': "st' = ?st\<lparr>src := \<lambda>x. if x \<in> rq_target (reqs ?st req) ` {..<unat (rq_trbCnt (reqs ?st req))} then NULL else src ?st x\<rparr>"
    using release_eq [OF r(2)] r(1) by simp_all
  have "live_ok n w ?r ?st (req, c)" using live(1) l(1) by blast
  then obtain a e where ae: "e \<le> w" "dcount n e = c"
    "map (rq_target (reqs ?st req)) [0..<unat (rq_trbCnt (reqs ?st req))] = map (\<lambda>t. src_at ?r (t mod n)) (data_of n [a..<e])"
    "\<forall>t\<in>set (data_of n [a..<e]). w \<le> t + n \<and> src ?st (src_at ?r (t mod n)) = req"
    by (rule live_okE)
  let ?T = "rq_target (reqs ?st req) ` {..<unat (rq_trbCnt (reqs ?st req))}"
  have T: "?T = (\<lambda>t. src_at ?r (t mod n)) ` set (data_of n [a..<e])"
    using arg_cong [OF ae(3), of set] by (simp add: lessThan_atLeast0)
  have Tq: "t < q" if "t \<in> set (data_of n [a..<e])" for t
  proof (rule ccontr)
    assume "\<not> t < q"
    then have "dcount n q < dcount n (Suc t)" using that dcount_mono [of q t n] by (simp add: dcount_Suc)
    also have "\<dots> \<le> dcount n e" using that by (intro dcount_mono) simp
    finally show False using ae(2) l(2) sent(2) by simp
  qed
  have inj: "src_at ?r (t mod n) = src_at ?r (u mod n) \<longleftrightarrow> t mod n = u mod n" for t u
    using inv n by (intro src_at_inj) (auto simp: ring_inv_def ring_shape_def)
  have keep: "src_at ?r (t mod n) \<notin> ?T" if "q \<le> t" "t < w" for t
  proof
    assume "src_at ?r (t mod n) \<in> ?T"
    then obtain u where u: "u \<in> set (data_of n [a..<e])" "t mod n = u mod n" unfolding T using inj by blast
    have "t = u" using u that Tq [OF u(1)] ae(4) by (intro mod_window [of u t n u]) fastforce+
    then show False using Tq [OF u(1)] that by simp
  qed
  have "ring_inv n q w ?r st'" using inv keep by (simp add: ring_inv_def st')
  moreover have "live_ok n w ?r st' (q', c')" if "(q', c') \<in> set (rs_live s)" "q' \<noteq> req" for q' c'
  proof -
    have "src ?st x = req" if "x \<in> ?T" for x using that ae(4) unfolding T by auto
    then have "src ?st x = q' \<Longrightarrow> x \<notin> ?T" for x using \<open>q' \<noteq> req\<close> by blast
    then have s: "src ?st x = q' \<Longrightarrow> src st' x = q'" for x by (simp add: st')
    have "reqs st' = reqs ?st" by (simp add: st')
    moreover have "live_ok n w ?r ?st (q', c')" using live(1) that(1) by blast
    ultimately show ?thesis unfolding live_ok_def prod.case using s by metis
  qed
  moreover have "dm st' = dm ?st" by (simp add: st')
  ultimately show ?thesis using n deq sent live(2)
    by (intro run_invI [of n q w]) (auto simp: req' distinct_map_filter)
qed

lemma step_inv:
  assumes "run_inv n s" "ring_step n s s'"
  shows "run_inv n s'"
  using assms(2)
proof cases
  case insert
  then show ?thesis using insert_run [OF assms(1)] by simp
next
  case release
  then show ?thesis using release_run [OF assms(1)] by simp
next
  case (full req r' st')
  from assms(1) show ?thesis
  proof (rule run_invE)
    fix q w
    assume I: "16 \<le> n" "ring_inv n q w (rs_ring s) (rs_mem s)" "rs_deq s = deq_at n q (rs_ring s)"
      "rs_sent s = rs_got s @ contents n (rs_ring s) (dm (rs_mem s)) [q..<w]" "length (rs_got s) = dcount n q"
      "\<forall>l\<in>set (rs_live s). live_ok n w (rs_ring s) (rs_mem s) l" "distinct (map fst (rs_live s))"
    let ?mem = "upd_req req (\<lambda>q. q\<lparr>rq_flags := rq_flags q AND NOT (ucast XHCI_Request_Flag_Finished)\<rparr>) (rs_mem s)"
    have eq: "r' = rs_ring s" "st' = ?mem"
      using full(4) unfolding tryInsReq_eq [OF I(2) refl full(3) I(1)] by (simp_all split: if_splits)
    have st0: "dm ?mem = dm (rs_mem s)" "src ?mem = src (rs_mem s)" "\<And>q. q \<noteq> req \<Longrightarrow> reqs ?mem q = reqs (rs_mem s) q"
      by (simp_all add: upd_req_def)
    have "live_ok n w (rs_ring s) ?mem l" if "l \<in> set (rs_live s)" for l
    proof -
      have "fst l \<noteq> req" using that full(2) by blast
      then show ?thesis using I(6) that st0 live_ok_cong [of ?mem "rs_mem s" l n w "rs_ring s"] by simp
    qed
    then show ?thesis using I st0 unfolding full(1) eq
      by (intro run_invI [of n q w]) (simp_all add: ring_inv_def)
  qed
next
  case (fetch ts d)
  obtain q w where n: "16 \<le> n" and inv: "ring_inv n q w (rs_ring s) (rs_mem s)" and deq: "rs_deq s = deq_at n q (rs_ring s)"
    and sent: "rs_sent s = rs_got s @ contents n (rs_ring s) (dm (rs_mem s)) [q..<w]" "length (rs_got s) = dcount n q"
    and live: "\<forall>l\<in>set (rs_live s). live_ok n w (rs_ring s) (rs_mem s) l" "distinct (map fst (rs_live s))"
    using assms(1) by (rule run_invE)
  have q: "q \<noteq> w" and t: "ts = contents n (rs_ring s) (dm (rs_mem s)) [q]" "d = deq_at n (Suc q) (rs_ring s)"
    using fetch(2) ring_inv_stop [OF inv] unfolding deq xhc_step_at [OF ring_inv_shape [OF inv]] by (auto split: if_splits)
  then have qw: "q < w" using inv by (simp add: ring_inv_def)
  then have c: "contents n (rs_ring s) (dm (rs_mem s)) [q..<w] = ts @ contents n (rs_ring s) (dm (rs_mem s)) [Suc q..<w]"
    by (simp add: t(1) contents_def upt_conv_Cons)
  have "ring_inv n (Suc q) w (rs_ring s) (rs_mem s)" using ring_inv_fetched [OF inv, of "Suc q"] qw by simp
  moreover have "length (rs_got s @ ts) = dcount n (Suc q)" by (simp add: sent(2) t(1) contents_def dcount_Suc)
  ultimately show ?thesis unfolding fetch(1) using n t(2) sent(1) c live
    by (intro run_invI [of n "Suc q" w]) simp_all
next
  case (other m' rs')
  obtain q w where n: "16 \<le> n" and inv: "ring_inv n q w (rs_ring s) (rs_mem s)" and deq: "rs_deq s = deq_at n q (rs_ring s)"
    and sent: "rs_sent s = rs_got s @ contents n (rs_ring s) (dm (rs_mem s)) [q..<w]" "length (rs_got s) = dcount n q"
    and live: "\<forall>l\<in>set (rs_live s). live_ok n w (rs_ring s) (rs_mem s) l" "distinct (map fst (rs_live s))"
    using assms(1) by (rule run_invE)
  let ?B = "rg_ring (rs_ring s)" and ?m = "dm (rs_mem s)"
  have same: "m' x = ?m x" if "p < n" "x \<in> trb_dwords (slot ?B p)" for p x
    using other(2) that by (auto simp: trb_area_def)
  have t: "trb_of m' (slot ?B p) = trb_of ?m (slot ?B p)" "HW_USB_XHCI_TRB_getCycBit m' (slot ?B p) = HW_USB_XHCI_TRB_getCycBit ?m (slot ?B p)"
    if "p < n" for p by (rule trb_of_cong getCycBit_cong, erule same [OF that])+
  have "ring_shape n (rs_ring s) m'" using t(1) by (intro ring_shape_cong [OF ring_inv_shape [OF inv]]) simp
  then have "ring_inv n q w (rs_ring s) (rs_mem s\<lparr>dm := m', reqs := rs'\<rparr>)" using inv t(2) n by (simp add: ring_inv_def)
  moreover have "contents n (rs_ring s) m' [q..<w] = contents n (rs_ring s) ?m [q..<w]" using t(1) n by (simp add: contents_def)
  moreover have "live_ok n w (rs_ring s) (rs_mem s\<lparr>dm := m', reqs := rs'\<rparr>) l" if "l \<in> set (rs_live s)" for l
    using live(1) other(3) that live_ok_cong [of "rs_mem s\<lparr>dm := m', reqs := rs'\<rparr>" "rs_mem s" l n w "rs_ring s"] by simp
  ultimately show ?thesis unfolding other(1) using n deq sent live(2)
    by (intro run_invI [of n q w]) simp_all
qed

lemma reach_inv:
  assumes "ring_reach n B S s" "16 \<le> n" "n \<le> 4096" "B AND 0xffff = 0"
  shows "run_inv n s"
  using assms by induction (auto intro: start_inv step_inv)

section \<open>A ring with one request\<close>

lemma trb_area_bound:
  assumes "x \<in> trb_area B n" "n \<le> 4096"
  shows "unat (x - B) < 16 * n"
proof -
  obtain p where p: "p < n" "x \<in> trb_dwords (slot B p)" using assms(1) by (auto simp: trb_area_def)
  obtain c :: nat where c: "c < 16" "x = slot B p + of_nat c"
    using p(2) that [of 0] that [of 4] that [of 8] that [of 12] by (auto simp: trb_dwords_eq)
  then show ?thesis using p(1) assms(2) by (simp add: slot_off)
qed

definition demo_mem :: XHCI_Mem where
  "demo_mem = \<lparr>dm = (\<lambda>x. if x = 0xffff88000030000c then 0x400 else if x = 0xffff88000030001c then 0x420 else 0),
    src = (\<lambda>_. 0),
    reqs = (\<lambda>_. \<lparr>rq_flags = 0, rq_trbCnt = 2, rq_trb = 0xffff880000300000, rq_target = (\<lambda>_. 0)\<rparr>)\<rparr>"

definition demo_ring :: "XHCI_Ring \<times> XHCI_Mem" where
  "demo_ring = HW_USB_XHCI_allocRing (of_nat 16) 0xffff880000100000 0xffff880000200000 demo_mem"

lemma demo_ring:
  "ring_inv 16 0 0 (fst demo_ring) (snd demo_ring)"
  "req_ok 16 (fst demo_ring) 2 0xffff880000300000 (dm (snd demo_ring))"
  "reqs (snd demo_ring) = reqs demo_mem" "src (snd demo_ring) x = 0"
  "map (\<lambda>i. trb_of (dm (snd demo_ring)) (slot 0xffff880000300000 i)) [0..<2] = [(0, 0, 0, 0x400), (0, 0, 0, 0x420)]"
proof -
  have n: "2 \<le> (16 :: nat)" "(16 :: nat) \<le> 4096" "(0xffff880000100000 :: u64) AND 0xffff = 0" by simp_all
  have e: "HW_USB_XHCI_allocRing (of_nat 16) 0xffff880000100000 0xffff880000200000 demo_mem = (fst demo_ring, snd demo_ring)"
    by (simp add: demo_ring_def)
  note I = allocRing_inv [OF n e]
  show "ring_inv 16 0 0 (fst demo_ring) (snd demo_ring)" "reqs (snd demo_ring) = reqs demo_mem" by (rule I)+
  show "src (snd demo_ring) x = 0"
    by (simp add: demo_ring_def HW_USB_XHCI_allocRing_def Let_def upd_dm_def clear_src_def demo_mem_def)
  have out: "dm (snd demo_ring) x = dm demo_mem x" if "x \<in> {0xffff880000300000, 0xffff880000300004, 0xffff880000300008,
    0xffff88000030000c, 0xffff880000300010, 0xffff880000300014, 0xffff880000300018, 0xffff88000030001c}" for x
    using that by (intro I(5)) auto
  have dw: "\<Union> (trb_dwords ` slot 0xffff880000300000 ` {..<2}) = {0xffff880000300000, 0xffff880000300004, 0xffff880000300008,
    0xffff88000030000c, 0xffff880000300010, 0xffff880000300014, 0xffff880000300018, 0xffff88000030001c}"
    by (auto simp: trb_dwords_eq slot_def lessThan_Suc numeral_2_eq_2)
  show "map (\<lambda>i. trb_of (dm (snd demo_ring)) (slot 0xffff880000300000 i)) [0..<2] = [(0, 0, 0, 0x400), (0, 0, 0, 0x420)]"
    by (simp add: upt_rec trb_of_def slot_def out demo_mem_def nocyc_def)
  show "req_ok 16 (fst demo_ring) 2 0xffff880000300000 (dm (snd demo_ring))"
    unfolding req_ok_def
  proof (intro allI impI conjI)
    fix i :: nat assume i: "i < 2"
    have "x \<notin> trb_area (rg_ring (fst demo_ring)) 16" if "x \<in> trb_dwords (slot 0xffff880000300000 i)" for x
    proof -
      have "x \<in> \<Union> (trb_dwords ` slot 0xffff880000300000 ` {..<2})" using that i by blast
      then have "256 \<le> unat (x - 0xffff880000100000)" unfolding dw by auto
      then show ?thesis using trb_area_bound [of x "0xffff880000100000" 16] I(2) by auto
    qed
    then show "trb_dwords (slot 0xffff880000300000 i) \<inter> trb_area (rg_ring (fst demo_ring)) 16 = {}" by blast
    have "i = 0 \<or> i = 1" using i by auto
    then show "HW_USB_XHCI_TRB_getType (dm (snd demo_ring)) (slot 0xffff880000300000 i) \<noteq> XHCI_TRB_Type_Link"
      by (auto simp: getType_of trb_of_def slot_def out demo_mem_def nocyc_def XHCI_TRB_Type_Link_def mask_eq_exp_minus_1)
  qed
qed

text \<open>
  C29: in every run, with insertions, fetches, releases and other writes to memory in any order, the TRBs that
  were inserted are, in this order, those that the controller has fetched and those it fetches when it goes on:
  no TRB is lost, overwritten before it is fetched, or fetched twice.
\<close>

theorem XHCI_ring_fifo:
  assumes "ring_reach n B S s" "16 \<le> n" "n \<le> 4096" "B AND 0xffff = 0"
  shows "rs_sent s = rs_got s @ fst (xhc_fetch n (dm (rs_mem s)) (rs_deq s))"
  using reach_inv [OF assms]
proof (rule run_invE)
  fix q w
  assume "ring_inv n q w (rs_ring s) (rs_mem s)" "rs_deq s = deq_at n q (rs_ring s)"
    "rs_sent s = rs_got s @ contents n (rs_ring s) (dm (rs_mem s)) [q..<w]"
  then show ?thesis using fetch_inv by simp
qed

theorem XHCI_ring_fifo_witness:
  "\<exists>s. ring_reach 16 0xffff880000100000 0xffff880000200000 s \<and> rs_sent s = [(0, 0, 0, 0x400), (0, 0, 0, 0x420)] \<and>
    rs_sent s = rs_got s @ fst (xhc_fetch 16 (dm (rs_mem s)) (rs_deq s))"
proof -
  let ?s = "ring_start 16 0xffff880000100000 0xffff880000200000 demo_mem"
  have s: "rs_ring ?s = fst demo_ring" "rs_mem ?s = snd demo_ring" "rs_sent ?s = []" "rs_live ?s = []"
    by (simp_all add: ring_start_def demo_ring_def split: prod.splits)
  have r: "rq_trbCnt (reqs (snd demo_ring) 1) = 2" "rq_trb (reqs (snd demo_ring) 1) = 0xffff880000300000"
    by (simp_all add: demo_ring(3) demo_mem_def)
  obtain r' st' where t: "HW_USB_XHCI_Ring_tryInsReq (fst demo_ring) 1 (snd demo_ring) = Some (1, r', st')"
    using tryInsReq_eq [OF demo_ring(1), of 1 2] by (simp add: r demo_ring(4))
  have "ring_step 16 ?s (?s\<lparr>rs_ring := r', rs_mem := st', rs_sent := rs_sent ?s @ req_trbs 1 (rs_mem ?s),
      rs_live := (1, length (rs_sent ?s) + 2) # rs_live ?s\<rparr>)" (is "ring_step _ _ ?s'")
    by (rule ring_step.insert) (use t demo_ring(2) in \<open>simp_all add: s r\<close>)
  then have R: "ring_reach 16 0xffff880000100000 0xffff880000200000 ?s'"
    by (intro ring_reach.step [OF ring_reach.start])
  have "rs_sent ?s' = [(0, 0, 0, 0x400), (0, 0, 0, 0x420)]"
    using demo_ring(5) by (simp add: s req_trbs_def r)
  then show ?thesis using R XHCI_ring_fifo [OF R] by (intro exI [of _ ?s']) simp
qed

text \<open>
  C30: when the host controller reads from the place where it stands, it fetches, after an insertion that
  succeeds, exactly what it would have fetched before and then the TRBs of the request, in order; an
  insertion that does not find room changes neither the ring nor what is fetched.  The insertion always
  returns, keeps the invariant of the ring, succeeds exactly when the slots it needs are not occupied, and
  then occupies them.
\<close>

theorem XHCI_tryInsReq_fetched:
  assumes inv: "ring_inv n q w r st" and k: "unat (rq_trbCnt (reqs st req)) = k" "1 \<le> k" "k \<le> 15" "16 \<le> n"
    and ok: "req_ok n r k (rq_trb (reqs st req)) (dm st)" "req \<noteq> NULL"
  shows "\<exists>res r' st' w'. HW_USB_XHCI_Ring_tryInsReq r req st = Some (res, r', st') \<and> ring_inv n q w' r' st' \<and>
    (res = 1 \<longleftrightarrow> (\<forall>d. w \<le> d \<and> d < adv n w k \<and> \<not> is_link n d \<longrightarrow> src st (src_at r (d mod n)) = NULL)) \<and>
    (if res = 1 then
       fst (xhc_fetch n (dm st') (deq_at n q r)) =
         fst (xhc_fetch n (dm st) (deq_at n q r)) @ map (\<lambda>i. trb_of (dm st) (slot (rq_trb (reqs st req)) i)) [0..<k] \<and>
       (\<forall>i<k. src st' (rq_target (reqs st' req) i) = req)
     else r' = r \<and> dm st' = dm st \<and> src st' = src st)"
proof -
  let ?st0 = "upd_req req (\<lambda>q. q\<lparr>rq_flags := rq_flags q AND NOT (ucast XHCI_Request_Flag_Finished)\<rparr>) st"
  have st0: "dm ?st0 = dm st" "src ?st0 = src st" "rq_trb (reqs ?st0 req) = rq_trb (reqs st req)"
    by (simp_all add: upd_req_def)
  have inv0: "ring_inv n q w r ?st0" using inv by (simp add: ring_inv_def st0)
  have kn: "k < n" using k by simp
  show ?thesis
  proof (cases "\<forall>d. w \<le> d \<and> d < adv n w k \<and> \<not> is_link n d \<longrightarrow> src st (src_at r (d mod n)) = NULL")
    case True
    let ?e = "adv n w k"
    let ?st' = "Ring_write r req (map (pos_cyc n) [w..<?e]) 0 ?st0"
    have "req_ok n r k (rq_trb (reqs ?st0 req)) (dm ?st0)"
      "\<forall>d. w \<le> d \<and> d < adv n w k \<and> \<not> is_link n d \<longrightarrow> src ?st0 (src_at r (d mod n)) = NULL"
      using ok True unfolding st0 by blast+
    note I = insert_inv [OF inv0 k(2) kn this(1) ok(2) this(2), unfolded st0]
    have f: "fst (xhc_fetch n (dm ?st') (deq_at n q r)) = contents n r (dm ?st') [q..<?e]"
      using fetch_inv [OF I(1)] by (simp add: deq_at_def contents_def)
    have "rq_target (reqs ?st' req) i \<in> (\<lambda>t. src_at r (t mod n)) ` set (data_of n [w..<?e])" if "i < k" for i
    proof -
      have "rq_target (reqs ?st' req) i \<in> set (map (rq_target (reqs ?st' req)) [0..<k])" using that by simp
      then show ?thesis unfolding I(4) by simp
    qed
    then have "\<forall>i<k. src ?st' (rq_target (reqs ?st' req) i) = req" by (simp add: I(3))
    then show ?thesis using I(1,2) True f fetch_inv [OF inv] tryInsReq_eq [OF inv k(1,3,4)]
      by (intro exI [of _ 1] exI [of _ "ring_at n ?e r"] exI [of _ ?st'] exI [of _ ?e]) simp
  next
    case False
    then show ?thesis using inv0 tryInsReq_eq [OF inv k(1,3,4)] st0
      by (intro exI [of _ 0] exI [of _ r] exI [of _ ?st0] exI [of _ w]) simp
  qed
qed

theorem XHCI_tryInsReq_fetched_witness:
  "\<exists>res r' st' w'. HW_USB_XHCI_Ring_tryInsReq (fst demo_ring) 1 (snd demo_ring) = Some (res, r', st') \<and> ring_inv 16 0 w' r' st' \<and>
    res = 1 \<and> fst (xhc_fetch 16 (dm st') (deq_at 16 0 (fst demo_ring))) =
      fst (xhc_fetch 16 (dm (snd demo_ring)) (deq_at 16 0 (fst demo_ring))) @ [(0, 0, 0, 0x400), (0, 0, 0, 0x420)] \<and>
    (\<forall>i<2. src st' (rq_target (reqs st' 1) i) = 1)"
proof -
  have r: "rq_trbCnt (reqs (snd demo_ring) 1) = 2" "rq_trb (reqs (snd demo_ring) 1) = 0xffff880000300000"
    by (simp_all add: demo_ring(3) demo_mem_def)
  have "\<exists>res r' st' w'. HW_USB_XHCI_Ring_tryInsReq (fst demo_ring) 1 (snd demo_ring) = Some (res, r', st') \<and> ring_inv 16 0 w' r' st' \<and>
    (res = 1 \<longleftrightarrow> (\<forall>d. 0 \<le> d \<and> d < adv 16 0 2 \<and> \<not> is_link 16 d \<longrightarrow> src (snd demo_ring) (src_at (fst demo_ring) (d mod 16)) = NULL)) \<and>
    (if res = 1 then
       fst (xhc_fetch 16 (dm st') (deq_at 16 0 (fst demo_ring))) =
         fst (xhc_fetch 16 (dm (snd demo_ring)) (deq_at 16 0 (fst demo_ring))) @
         map (\<lambda>i. trb_of (dm (snd demo_ring)) (slot (rq_trb (reqs (snd demo_ring) 1)) i)) [0..<2] \<and>
       (\<forall>i<2. src st' (rq_target (reqs st' 1) i) = 1)
     else r' = fst demo_ring \<and> dm st' = dm (snd demo_ring) \<and> src st' = src (snd demo_ring))"
    using demo_ring(2) by (intro XHCI_tryInsReq_fetched [OF demo_ring(1)]) (simp_all add: r)
  then show ?thesis using demo_ring(5) by (simp only: demo_ring(4) r) auto
qed

end
