(* ===== verification/Nvme.thy ===== *)
theory Nvme
  imports Locks MemDesc HwLayout
begin

text \<open>
  \<open>hardware/NVMe/api.h\<close>, \<open>api.c\<close> and \<open>process.c\<close>: submission and completion queues, the commands and the
  functions of the disk device.  Queue managers and requests are maps from their addresses, the array of a
  queue belongs to its manager.  A queue manager is used either for submission, with \<open>reqSrc\<close>, or for
  completion, with \<open>phaseBit\<close>; \<open>til\<close> and \<open>hdr\<close> are one field of the code.
\<close>

section \<open>Queues and requests\<close>

record subm_entry =
  se_cmd :: u32
  se_nsid :: u32
  se_metaPtr :: u64
  se_dtPtr :: "u64 \<times> u64"
  se_cmdSpec :: "u32 list"

record cmpl_entry =
  ce_cmdSpec :: u32
  ce_submQueHdrPtr :: u16
  ce_submQueId :: u16
  ce_cmdId :: u16
  ce_phaseBit :: u8
  ce_status :: u16

record NVMe_Request =
  nr_entry :: subm_entry
  nr_res :: cmpl_entry
  nr_attr :: u64

record NVMe_QueMgr = SpinLock +
  nq_attr :: u16
  nq_size :: u16
  nq_iden :: u16
  nq_til :: u16
  nq_que :: u64
  nq_submQue :: "nat \<Rightarrow> subm_entry"
  nq_cmplQue :: "nat \<Rightarrow> cmpl_entry"
  nq_reqSrc :: "nat \<Rightarrow> ptr"
  nq_phaseBit :: u8

record NVMe_Sys =
  nv_ques :: "ptr \<Rightarrow> NVMe_QueMgr"
  nv_submQue :: "nat \<Rightarrow> ptr"
  nv_cmplQue :: "nat \<Rightarrow> ptr"
  nv_reqs :: "ptr \<Rightarrow> NVMe_Request"
  nv_regs :: "u64 \<Rightarrow> u32"
  nv_cap :: u64
  nv_capStride :: u64
  nv_pgSize :: u8

definition upd_que :: "ptr \<Rightarrow> (NVMe_QueMgr \<Rightarrow> NVMe_QueMgr) \<Rightarrow> NVMe_Sys \<Rightarrow> NVMe_Sys" where
  "upd_que q f s = s\<lparr>nv_ques := (nv_ques s)(q := f (nv_ques s q))\<rparr>"

definition upd_nreq :: "ptr \<Rightarrow> (NVMe_Request \<Rightarrow> NVMe_Request) \<Rightarrow> NVMe_Sys \<Rightarrow> NVMe_Sys" where
  "upd_nreq r f s = s\<lparr>nv_reqs := (nv_reqs s)(r := f (nv_reqs s r))\<rparr>"

definition HW_NVMe_writeReg32 :: "u64 \<Rightarrow> u32 \<Rightarrow> NVMe_Sys \<Rightarrow> NVMe_Sys" where
  "HW_NVMe_writeReg32 off v s = s\<lparr>nv_regs := (nv_regs s)(off := v)\<rparr>"

definition HW_NVMe_readReg32 :: "u64 \<Rightarrow> NVMe_Sys \<Rightarrow> u32" where
  "HW_NVMe_readReg32 off s = nv_regs s off"

definition HW_NVMe_writeReg64 :: "u64 \<Rightarrow> u64 \<Rightarrow> NVMe_Sys \<Rightarrow> NVMe_Sys" where
  "HW_NVMe_writeReg64 off v s = s\<lparr>nv_regs := (nv_regs s)(off := ucast v, off + 4 := ucast (drop_bit 32 v))\<rparr>"

definition HW_NVMe_readReg64 :: "u64 \<Rightarrow> NVMe_Sys \<Rightarrow> u64" where
  "HW_NVMe_readReg64 off s = (ucast (nv_regs s off) :: u64) OR push_bit 32 (ucast (nv_regs s (off + 4)))"

definition HW_NVMe_pageSize :: "NVMe_Sys \<Rightarrow> u64" where
  "HW_NVMe_pageSize s = push_bit (unat (nv_pgSize s)) Page_4KSize"

text \<open>
  The doorbells.  \<open>iden << 1\<close> is an int that is widened for the product with the stride.
\<close>

definition subm_db :: "u64 \<Rightarrow> u16 \<Rightarrow> u64" where
  "subm_db stride iden = 0x1000 + push_bit 1 (ucast iden) * stride"

definition cmpl_db :: "u64 \<Rightarrow> u16 \<Rightarrow> u64" where
  "cmpl_db stride iden = 0x1000 + (push_bit 1 (ucast iden) OR 1) * stride"

definition HW_NVMe_ringSubmDb :: "ptr \<Rightarrow> NVMe_Sys \<Rightarrow> NVMe_Sys" where
  "HW_NVMe_ringSubmDb q s =
    HW_NVMe_writeReg32 (subm_db (nv_capStride s) (nq_iden (nv_ques s q))) (ucast (nq_til (nv_ques s q))) s"

definition HW_NVMe_ringCmplDb :: "ptr \<Rightarrow> NVMe_Sys \<Rightarrow> NVMe_Sys" where
  "HW_NVMe_ringCmplDb q s =
    HW_NVMe_writeReg32 (cmpl_db (nv_capStride s) (nq_iden (nv_ques s q))) (ucast (nq_til (nv_ques s q))) s"

text \<open>
  \<open>HW_NVMe_initQue\<close>; the address of the array is an argument, the arrays come cleared.  The fields that it
  does not set keep their values.
\<close>

definition zero_subm :: subm_entry where
  "zero_subm = \<lparr>se_cmd = 0, se_nsid = 0, se_metaPtr = 0, se_dtPtr = (0, 0), se_cmdSpec = replicate 6 0\<rparr>"

definition zero_cmpl :: cmpl_entry where
  "zero_cmpl = \<lparr>ce_cmdSpec = 0, ce_submQueHdrPtr = 0, ce_submQueId = 0, ce_cmdId = 0, ce_phaseBit = 0, ce_status = 0\<rparr>"

definition HW_NVMe_initQue :: "u64 \<Rightarrow> u16 \<Rightarrow> u64 \<Rightarrow> u64 \<Rightarrow> NVMe_QueMgr \<Rightarrow> NVMe_QueMgr" where
  "HW_NVMe_initQue queSize iden qattr mem q =
    (let q = q\<lparr>nq_attr := ucast qattr\<rparr>;
         q = q\<lparr>nq_que := mem, nq_submQue := (\<lambda>_. zero_subm), nq_cmplQue := (\<lambda>_. zero_cmpl)\<rparr>;
         q = q\<lparr>nq_size := ucast queSize, nq_iden := iden, nq_til := 0, lock := 0\<rparr>
     in if nq_attr q AND ucast NVMe_QueMgr_attr_isSubmQue \<noteq> 0 then q\<lparr>nq_reqSrc := (\<lambda>_. NULL)\<rparr>
        else q\<lparr>nq_phaseBit := 1\<rparr>)"

section \<open>Commands\<close>

definition HW_NVMe_mkSubmEntry_IO :: "u8 \<Rightarrow> u32 \<Rightarrow> u64 \<Rightarrow> u64 \<Rightarrow> u16 \<Rightarrow> subm_entry" where
  "HW_NVMe_mkSubmEntry_IO opcode nsid data lba numBlks =
    zero_subm\<lparr>se_cmd := ucast opcode, se_nsid := nsid, se_dtPtr := (DMAS_virt2Phys data, 0),
      se_cmdSpec := [ucast lba, ucast (drop_bit 32 lba), ucast numBlks - 1, 0, 0, 0]\<rparr>"

definition que_spec :: "NVMe_QueMgr \<Rightarrow> u32" where
  "que_spec q = ucast (nq_iden q) OR push_bit 16 (ucast (nq_size q) - 1)"

definition HW_NVMe_mkSubmEntry_NewSubm :: "NVMe_QueMgr \<Rightarrow> NVMe_QueMgr \<Rightarrow> u8 \<Rightarrow> subm_entry" where
  "HW_NVMe_mkSubmEntry_NewSubm q cq priority =
    zero_subm\<lparr>se_cmd := 0x1, se_dtPtr := (DMAS_virt2Phys (nq_que q), 0),
      se_cmdSpec := [que_spec q, 0x1 OR push_bit 1 (ucast priority) OR push_bit 16 (ucast (nq_iden cq)), 0, 0, 0, 0]\<rparr>"

definition HW_NVMe_mkSubmEntry_NewCmpl :: "NVMe_QueMgr \<Rightarrow> u8 \<Rightarrow> subm_entry" where
  "HW_NVMe_mkSubmEntry_NewCmpl q intrId =
    zero_subm\<lparr>se_cmd := 0x5, se_dtPtr := (DMAS_virt2Phys (nq_que q), 0),
      se_cmdSpec := [que_spec q, 0x3 OR push_bit 16 (ucast intrId), 0, 0, 0, 0]\<rparr>"

definition HW_NVMe_mkSubmEntry_Iden :: "u64 \<Rightarrow> u8 \<Rightarrow> u32 \<Rightarrow> subm_entry" where
  "HW_NVMe_mkSubmEntry_Iden data type nspId =
    zero_subm\<lparr>se_cmd := 0x6, se_dtPtr := (DMAS_virt2Phys data, 0),
      se_cmdSpec := [ucast type, 0, 0, 0, 0, 0], se_nsid := nspId\<rparr>"

section \<open>Submission\<close>

text \<open>
  One turn of the loop of \<open>HW_NVMe_insReq\<close> and what follows it: \<open>None\<close> when the lock is held,
  \<open>(False, s)\<close> when the place is taken and the task gives the processor away, \<open>(True, s)\<close> when the
  request is in the queue.
\<close>

definition HW_NVMe_insReq :: "ptr \<Rightarrow> ptr \<Rightarrow> NVMe_Sys \<Rightarrow> (bool \<times> NVMe_Sys) option" where
  "HW_NVMe_insReq q req s =
    (let s = upd_nreq req (\<lambda>r. r\<lparr>nr_attr := 0\<rparr>) s in
     if lock (nv_ques s q) \<noteq> 0 then None
     else
       let s = upd_que q (\<lambda>m. m\<lparr>lock := 1\<rparr>) s; til = nq_til (nv_ques s q) in
       if nq_reqSrc (nv_ques s q) (unat til) \<noteq> NULL then Some (False, upd_que q (\<lambda>m. m\<lparr>lock := 0\<rparr>) s)
       else
         let s = upd_que q (\<lambda>m. m\<lparr>nq_reqSrc := (nq_reqSrc m)(unat til := req)\<rparr>) s;
             s = upd_nreq req (\<lambda>r. r\<lparr>nr_entry := nr_entry r\<lparr>se_cmd := se_cmd (nr_entry r) OR push_bit 16 (ucast til)\<rparr>\<rparr>) s;
             s = upd_que q (\<lambda>m. m\<lparr>nq_submQue := (nq_submQue m)(unat til := nr_entry (nv_reqs s req))\<rparr>) s;
             s = upd_que q (\<lambda>m. m\<lparr>nq_til := nq_til m + 1\<rparr>) s;
             s = (if nq_til (nv_ques s q) = nq_size (nv_ques s q) then upd_que q (\<lambda>m. m\<lparr>nq_til := 0\<rparr>) s else s);
             s = HW_NVMe_ringSubmDb q s
         in Some (True, upd_que q (\<lambda>m. m\<lparr>lock := 0\<rparr>) s))"

text \<open>The end of \<open>HW_NVMe_insReqWait\<close>: \<open>None\<close> while the request is not finished.\<close>

definition HW_NVMe_reqResult :: "ptr \<Rightarrow> NVMe_Sys \<Rightarrow> u16 option" where
  "HW_NVMe_reqResult req s =
    (if nr_attr (nv_reqs s req) AND NVMe_Request_attr_Finished = 0 then None
     else Some (ce_status (nr_res (nv_reqs s req))))"

section \<open>The interrupt handler\<close>

definition handle_entry :: "cmpl_entry \<Rightarrow> NVMe_Sys \<Rightarrow> NVMe_Sys" where
  "handle_entry e s =
    (let sq = nv_submQue s (unat (ce_submQueId e));
         req = nq_reqSrc (nv_ques s sq) (unat (ce_cmdId e));
         s = upd_que sq (\<lambda>m. m\<lparr>nq_reqSrc := (nq_reqSrc m)(unat (ce_cmdId e) := NULL)\<rparr>) s
     in upd_nreq req (\<lambda>r. r\<lparr>nr_res := e, nr_attr := nr_attr r OR NVMe_Request_attr_Finished\<rparr>) s)"

definition next_hdr :: "NVMe_QueMgr \<Rightarrow> NVMe_QueMgr" where
  "next_hdr m =
    (let newHdr = nq_til m + 1 in
     if newHdr = nq_size m then m\<lparr>nq_til := 0, nq_phaseBit := nq_phaseBit m XOR 1\<rparr> else m\<lparr>nq_til := newHdr\<rparr>)"

partial_function (option) intr_loop :: "ptr \<Rightarrow> u16 \<Rightarrow> NVMe_Sys \<Rightarrow> (u16 \<times> NVMe_Sys) option" where
  "intr_loop cq found s =
    (let e = nq_cmplQue (nv_ques s cq) (unat (nq_til (nv_ques s cq))) in
     if ce_phaseBit e \<noteq> nq_phaseBit (nv_ques s cq) then Some (found, s)
     else intr_loop cq (found + 1) (upd_que cq next_hdr (handle_entry e s)))"

text \<open>\<open>arg\<close> is the address of the host with the number of the interrupt in its low byte.\<close>

definition HW_NVMe_intrHandler :: "u64 \<Rightarrow> NVMe_Sys \<Rightarrow> NVMe_Sys option" where
  "HW_NVMe_intrHandler arg s =
    (let cq = nv_cmplQue s (unat (arg AND 0xff)) in
     map_option (\<lambda>(found, s). if found \<noteq> 0 then HW_NVMe_ringCmplDb cq s else s) (intr_loop cq 0 s))"

section \<open>The disk device\<close>

record NVMe_Nsp =
  ns_submQue :: "ptr \<times> ptr"
  ns_id :: u32
  ns_lstSubmId :: u32
  ns_sz :: u64

text \<open>
  \<open>HW_NVMe_read\<close> and \<open>HW_NVMe_write\<close> differ in the operation code.  \<open>Inl\<close> is the code returned without a
  request, \<open>Inr\<close> the queue and the command that is submitted.
\<close>

definition nvme_io :: "u8 \<Rightarrow> NVMe_Nsp \<Rightarrow> u64 \<Rightarrow> u64 \<Rightarrow> u64 \<Rightarrow> u32 + (NVMe_Nsp \<times> ptr \<times> subm_entry)" where
  "nvme_io opcode nsp buf pos sz =
    (if pos AND 0x1ff \<noteq> 0 \<or> sz AND 0x1ff \<noteq> 0 then
       Inl (DiskDevice_Task_State_Fail OR DiskDevice_Task_State_InvalidArg)
     else if pos + sz > push_bit 9 (ns_sz nsp) then
       Inl (DiskDevice_Task_State_Fail OR DiskDevice_Task_State_OutOfRange)
     else
       let e = HW_NVMe_mkSubmEntry_IO opcode (ns_id nsp) buf (drop_bit (unat DiskDevice_LbaShift) pos)
             (ucast (drop_bit (unat DiskDevice_LbaShift) sz));
           nsp = nsp\<lparr>ns_lstSubmId := ns_lstSubmId nsp XOR 1\<rparr>
       in Inr (nsp, if ns_lstSubmId nsp = 0 then fst (ns_submQue nsp) else snd (ns_submQue nsp), e))"

definition HW_NVMe_read :: "NVMe_Nsp \<Rightarrow> u64 \<Rightarrow> u64 \<Rightarrow> u64 \<Rightarrow> u32 + (NVMe_Nsp \<times> ptr \<times> subm_entry)" where
  "HW_NVMe_read = nvme_io 0x2"

definition HW_NVMe_write :: "NVMe_Nsp \<Rightarrow> u64 \<Rightarrow> u64 \<Rightarrow> u64 \<Rightarrow> u32 + (NVMe_Nsp \<times> ptr \<times> subm_entry)" where
  "HW_NVMe_write = nvme_io 0x1"

text \<open>What they return when the request is finished.\<close>

definition nvme_result :: "u16 \<Rightarrow> u32" where
  "nvme_result res =
    (if res \<noteq> 0 then DiskDevice_Task_State_Fail OR DiskDevice_Task_State_Unknown else DiskDevice_Task_State_Succ)"

section \<open>The start of a controller\<close>

definition cap_stride :: "u64 \<Rightarrow> u64" where
  "cap_stride cap = push_bit (unat (2 + (drop_bit 32 cap AND 0x7))) 1"

definition cap_pgSize :: "u64 \<Rightarrow> u8" where
  "cap_pgSize cap = ucast (drop_bit 48 cap) AND 0xf"

definition que_sizes :: "u64 \<Rightarrow> u64 \<times> u64" where
  "que_sizes cap =
    (let pg = push_bit (unat (cap_pgSize cap)) Page_4KSize; mx = cap AND (push_bit 16 1 - 1) in
     (min (pg div 64) mx, min (pg div 16) mx))"

definition init_cfg :: "u64 \<Rightarrow> u32" where
  "init_cfg cap = push_bit 16 6 OR push_bit 20 4 OR push_bit 7 (ucast (cap_pgSize cap))"

definition adm_attr :: "u64 \<Rightarrow> u32" where
  "adm_attr cap = (case que_sizes cap of (sz, cz) \<Rightarrow> ucast ((sz - 1) OR push_bit 16 (cz - 1)))"

text \<open>
  The part of \<open>HW_NVMe_initDevice\<close> that describes the controller to itself: the admin queues, whose managers
  are at \<open>aq\<close> and \<open>cq\<close> with arrays at \<open>aqm\<close> and \<open>cqm\<close>, and the registers.
\<close>

definition init_admin :: "ptr \<Rightarrow> ptr \<Rightarrow> u64 \<Rightarrow> u64 \<Rightarrow> NVMe_Sys \<Rightarrow> NVMe_Sys" where
  "init_admin aq cq aqm cqm s =
    (let s = s\<lparr>nv_capStride := cap_stride (nv_cap s), nv_pgSize := cap_pgSize (nv_cap s)\<rparr>;
         (ssz, csz) = que_sizes (nv_cap s);
         s = HW_NVMe_writeReg32 (ucast NVMe_Reg_Cfg) (init_cfg (nv_cap s)) s;
         s = upd_que cq (HW_NVMe_initQue csz 0 NVMe_QueMgr_attr_isAdmQue cqm) s;
         s = upd_que aq (HW_NVMe_initQue ssz 0 (NVMe_QueMgr_attr_isSubmQue OR NVMe_QueMgr_attr_isAdmQue) aqm) s;
         s = HW_NVMe_writeReg64 (ucast NVMe_Reg_AdmSubmQue) (DMAS_virt2Phys (nq_que (nv_ques s aq))) s;
         s = HW_NVMe_writeReg64 (ucast NVMe_Reg_AdmCmplQue) (DMAS_virt2Phys (nq_que (nv_ques s cq))) s;
         s = s\<lparr>nv_cmplQue := (nv_cmplQue s)(0 := cq), nv_submQue := (nv_submQue s)(0 := aq)\<rparr>
     in HW_NVMe_writeReg32 (ucast NVMe_Reg_AdmQueAttr) (adm_attr (nv_cap s)) s)"

text \<open>
  The queues of namespace number \<open>i\<close> and the three admin commands that create them.
\<close>

definition init_nsp :: "nat \<Rightarrow> ptr \<Rightarrow> ptr \<Rightarrow> ptr \<Rightarrow> u64 \<Rightarrow> u64 \<Rightarrow> u64 \<Rightarrow> NVMe_Sys \<Rightarrow> NVMe_Sys" where
  "init_nsp i cq sq0 sq1 cqm sqm0 sqm1 s =
    (let (ssz, csz) = que_sizes (nv_cap s);
         s = upd_que cq (HW_NVMe_initQue csz (of_nat i + 1) 0 cqm) s;
         s = upd_que sq0 (HW_NVMe_initQue ssz (push_bit 1 (of_nat i + 1)) NVMe_QueMgr_attr_isSubmQue sqm0) s;
         s = upd_que sq1 (HW_NVMe_initQue ssz (push_bit 1 (of_nat i + 1) OR 1) NVMe_QueMgr_attr_isSubmQue sqm1) s
     in s\<lparr>nv_cmplQue := (nv_cmplQue s)(i + 1 := cq),
          nv_submQue := (nv_submQue s)(2 * (i + 1) := sq0, 2 * (i + 1) + 1 := sq1)\<rparr>)"

definition nsp_commands :: "nat \<Rightarrow> ptr \<Rightarrow> ptr \<Rightarrow> ptr \<Rightarrow> NVMe_Sys \<Rightarrow> subm_entry list" where
  "nsp_commands i cq sq0 sq1 s =
    [HW_NVMe_mkSubmEntry_NewCmpl (nv_ques s cq) (of_nat i + 1),
     HW_NVMe_mkSubmEntry_NewSubm (nv_ques s sq0) (nv_ques s cq) 0,
     HW_NVMe_mkSubmEntry_NewSubm (nv_ques s sq1) (nv_ques s cq) 0]"

end
