(* ===== verification/Nvme_Props.thy ===== *)
theory Nvme_Props
  imports Nvme
begin

text \<open>
  The NVMe driver: what the interrupt handler does with the entries that the controller has posted, what
  happens when every place of a submission queue is used, and what a command of the disk device covers.
\<close>

section \<open>The completion queue\<close>

text \<open>
  Entries are numbered from the start; number \<open>i\<close> is at place \<open>i mod n\<close> and carries the phase of its lap.
  The kernel has handled the entries before \<open>h\<close>, the controller has posted those before \<open>t\<close>.
\<close>

definition phase :: "nat \<Rightarrow> nat \<Rightarrow> u8" where
  "phase n i = (if even (i div n) then 1 else 0)"

definition cq_inv :: "nat \<Rightarrow> nat \<Rightarrow> nat \<Rightarrow> NVMe_QueMgr \<Rightarrow> bool" where
  "cq_inv n h t m \<longleftrightarrow> 1 \<le> n \<and> n < 65536 \<and> nq_size m = of_nat n \<and> nq_til m = of_nat (h mod n) \<and>
    nq_phaseBit m = phase n h \<and> h \<le> t \<and> t \<le> h + n \<and>
    (\<forall>i. h \<le> i \<and> i < t \<longrightarrow> ce_phaseBit (nq_cmplQue m (i mod n)) = phase n i) \<and>
    (\<forall>i. t \<le> i \<and> i < h + n \<longrightarrow> ce_phaseBit (nq_cmplQue m (i mod n)) \<noteq> phase n i)"

definition posted :: "nat \<Rightarrow> nat \<Rightarrow> nat \<Rightarrow> NVMe_QueMgr \<Rightarrow> cmpl_entry list" where
  "posted n h t m = map (\<lambda>i. nq_cmplQue m (i mod n)) [h..<t]"

lemma phase_add: "0 < n \<Longrightarrow> phase n (i + n) \<noteq> phase n i"
  using div_add_self2 [of n i] by (simp add: phase_def)

lemma phase_Suc: "0 < n \<Longrightarrow> phase n (Suc i) = (if Suc i mod n = 0 then phase n i XOR 1 else phase n i)"
  by (auto simp: phase_def div_Suc mod_Suc)

lemma unat_mod: "n < 65536 \<Longrightarrow> 0 < n \<Longrightarrow> unat (of_nat (i mod n) :: u16) = i mod n"
  using mod_less_divisor [of n i] by (simp add: unat_of_nat del: mod_less_divisor)

lemma next_hdr_inv:
  assumes "cq_inv n h t m" "h < t"
  shows "cq_inv n (Suc h) t (next_hdr m)"
proof -
  have n: "0 < n" "n < 65536" using assms by (simp_all add: cq_inv_def)
  have hn: "h mod n < n" using n by simp
  have e: "(of_nat (h mod n) + 1 = (of_nat n :: u16)) \<longleftrightarrow> Suc (h mod n) = n"
  proof -
    have *: "of_nat (Suc k) = (of_nat n :: u16) \<longleftrightarrow> Suc k = n" if "k < n" for k
      using that n by (subst word_unat_eq_iff) (simp add: unat_of_nat del: of_nat_Suc)
    show ?thesis using * [OF hn] by (simp add: add.commute)
  qed
  have keep: "nq_cmplQue (next_hdr m) = nq_cmplQue m" "nq_size (next_hdr m) = nq_size m" by (simp_all add: next_hdr_def Let_def)
  have last: "ce_phaseBit (nq_cmplQue m ((h + n) mod n)) \<noteq> phase n (h + n)"
    using assms phase_add [OF n(1), of h] by (simp add: cq_inv_def)
  have "nq_til (next_hdr m) = of_nat (Suc h mod n) \<and> nq_phaseBit (next_hdr m) = phase n (Suc h)"
    using assms e by (auto simp: next_hdr_def Let_def cq_inv_def phase_Suc [OF n(1)] mod_Suc)
  moreover have "ce_phaseBit (nq_cmplQue m (i mod n)) \<noteq> phase n i" if "t \<le> i" "i < Suc h + n" for i
    using that last assms by (cases "i = h + n") (auto simp: cq_inv_def)
  ultimately show ?thesis using assms by (simp add: cq_inv_def keep)
qed

lemma cq_stop:
  assumes "cq_inv n h t m" "h = t"
  shows "ce_phaseBit (nq_cmplQue m (unat (nq_til m))) \<noteq> nq_phaseBit m"
  using assms by (auto simp: cq_inv_def unat_mod dest: spec [of _ t])

lemma handle_entry_que:
  "nq_til (nv_ques (handle_entry e s) q) = nq_til (nv_ques s q)"
  "nq_size (nv_ques (handle_entry e s) q) = nq_size (nv_ques s q)"
  "nq_phaseBit (nv_ques (handle_entry e s) q) = nq_phaseBit (nv_ques s q)"
  "nq_cmplQue (nv_ques (handle_entry e s) q) = nq_cmplQue (nv_ques s q)"
  by (simp_all add: handle_entry_def Let_def upd_que_def upd_nreq_def)

lemma cq_inv_handle [simp]: "cq_inv n h t (nv_ques (handle_entry e s) q) = cq_inv n h t (nv_ques s q)"
  by (simp add: cq_inv_def handle_entry_que)

text \<open>One turn of the loop.\<close>

definition turn :: "ptr \<Rightarrow> cmpl_entry \<Rightarrow> NVMe_Sys \<Rightarrow> NVMe_Sys" where
  "turn cq e s = upd_que cq next_hdr (handle_entry e s)"

lemma turn_inv: "cq_inv n h t (nv_ques s cq) \<Longrightarrow> h < t \<Longrightarrow> cq_inv n (Suc h) t (nv_ques (turn cq e s) cq)"
  by (simp add: turn_def upd_que_def next_hdr_inv)

lemma turn_posted: "posted n a b (nv_ques (turn cq e s) cq) = posted n a b (nv_ques s cq)"
  by (simp add: posted_def turn_def upd_que_def next_hdr_def Let_def handle_entry_que)

lemma intr_loop_eq:
  "cq_inv n h t (nv_ques s cq) \<Longrightarrow>
    intr_loop cq f s = Some (f + of_nat (t - h), fold (turn cq) (posted n h t (nv_ques s cq)) s) \<and>
    cq_inv n t t (nv_ques (fold (turn cq) (posted n h t (nv_ques s cq)) s) cq)"
proof (induction "t - h" arbitrary: h f s)
  case 0
  then have "h = t" by (simp add: cq_inv_def)
  then show ?case using 0 cq_stop [OF 0(2)] by (subst intr_loop.simps) (simp add: Let_def posted_def)
next
  case (Suc k)
  then have ht: "h < t" by simp
  let ?e = "nq_cmplQue (nv_ques s cq) (h mod n)"
  have m: "0 < n" "n < 65536" "nq_til (nv_ques s cq) = of_nat (h mod n)" "ce_phaseBit ?e = nq_phaseBit (nv_ques s cq)"
    using Suc.prems ht by (auto simp: cq_inv_def)
  have "cq_inv n (Suc h) t (nv_ques (turn cq ?e s) cq)" by (rule turn_inv [OF Suc.prems ht])
  note IH = Suc.hyps(1) [OF _ this, of "f + 1"]
  have p: "posted n h t (nv_ques s cq) = ?e # posted n (Suc h) t (nv_ques s cq)"
    using ht by (simp add: posted_def upt_conv_Cons)
  have "intr_loop cq f s = intr_loop cq (f + 1) (turn cq ?e s)"
    using m by (subst intr_loop.simps) (simp add: Let_def unat_mod turn_def)
  moreover have "f + 1 + of_nat (t - Suc h) = f + of_nat (t - h)" using ht by (simp add: of_nat_diff)
  ultimately show ?case using IH Suc.hyps(2) by (simp add: p turn_posted)
qed

section \<open>Requests that are finished\<close>

definition slot_of :: "NVMe_Sys \<Rightarrow> cmpl_entry \<Rightarrow> ptr \<times> nat" where
  "slot_of s e = (nv_submQue s (unat (ce_submQueId e)), unat (ce_cmdId e))"

definition src_of :: "NVMe_Sys \<Rightarrow> ptr \<times> nat \<Rightarrow> ptr" where
  "src_of s = (\<lambda>(q, c). nq_reqSrc (nv_ques s q) c)"

definition finish :: "cmpl_entry \<Rightarrow> NVMe_Request \<Rightarrow> NVMe_Request" where
  "finish e r = r\<lparr>nr_res := e, nr_attr := nr_attr r OR NVMe_Request_attr_Finished\<rparr>"

lemma turn_slot: "slot_of (turn cq e s) = slot_of s"
  by (simp add: fun_eq_iff slot_of_def turn_def upd_que_def handle_entry_def upd_nreq_def Let_def)

lemma turn_reqs: "nv_reqs (turn cq e s) = (nv_reqs s)(src_of s (slot_of s e) := finish e (nv_reqs s (src_of s (slot_of s e))))"
  by (simp add: slot_of_def src_of_def finish_def turn_def upd_que_def handle_entry_def upd_nreq_def Let_def)

lemma turn_src: "src_of (turn cq e s) = (src_of s)(slot_of s e := NULL)"
  by (auto simp: fun_eq_iff slot_of_def src_of_def turn_def upd_que_def handle_entry_def upd_nreq_def Let_def next_hdr_def
      split: prod.splits)

lemma turns_effect:
  assumes "distinct (map (slot_of s) es)" "distinct (map (src_of s \<circ> slot_of s) es)"
  shows "nv_reqs (fold (turn cq) es s) = (\<lambda>r. case List.find (\<lambda>e. src_of s (slot_of s e) = r) es of
      None \<Rightarrow> nv_reqs s r | Some e \<Rightarrow> finish e (nv_reqs s r)) \<and>
    src_of (fold (turn cq) es s) = (\<lambda>p. if p \<in> slot_of s ` set es then NULL else src_of s p) \<and>
    slot_of (fold (turn cq) es s) = slot_of s"
  using assms
proof (induction es arbitrary: s)
  case (Cons e es)
  have sl: "slot_of s e' \<noteq> slot_of s e" "src_of s (slot_of s e') \<noteq> src_of s (slot_of s e)" if "e' \<in> set es" for e'
    using Cons.prems that by (auto simp: image_iff)
  have src: "src_of (turn cq e s) (slot_of s e') = src_of s (slot_of s e')" if "e' \<in> set es" for e'
    using sl(1) [OF that] by (simp add: turn_src)
  have "distinct (map (slot_of (turn cq e s)) es)" "distinct (map (src_of (turn cq e s) \<circ> slot_of (turn cq e s)) es)"
    using Cons.prems src by (auto simp: turn_slot distinct_map inj_on_def)
  note IH = Cons.IH [OF this]
  have fnd: "List.find (\<lambda>e'. src_of (turn cq e s) (slot_of s e') = r) es = List.find (\<lambda>e'. src_of s (slot_of s e') = r) es" for r
    using src by (intro find_cong) auto
  have none: "List.find (\<lambda>e'. src_of s (slot_of s e') = src_of s (slot_of s e)) es = None"
    using sl(2) by (auto simp: find_None_iff)
  have R: "nv_reqs (fold (turn cq) es (turn cq e s)) r = (case List.find (\<lambda>e'. src_of s (slot_of s e') = r) es of
      None \<Rightarrow> nv_reqs (turn cq e s) r | Some e' \<Rightarrow> finish e' (nv_reqs (turn cq e s) r))" for r
    using IH fnd [of r] by (simp add: turn_slot)
  have S: "src_of (fold (turn cq) es (turn cq e s)) p = (if p \<in> slot_of s ` set es then NULL else src_of (turn cq e s) p)" for p
    using IH by (simp add: turn_slot)
  show ?case
  proof (intro conjI ext)
    show "slot_of (fold (turn cq) (e # es) s) x = slot_of s x" for x using IH by (simp add: turn_slot)
    show "src_of (fold (turn cq) (e # es) s) p = (if p \<in> slot_of s ` set (e # es) then NULL else src_of s p)" for p
      by (simp add: S turn_src)
    show "nv_reqs (fold (turn cq) (e # es) s) r = (case List.find (\<lambda>e. src_of s (slot_of s e) = r) (e # es) of
        None \<Rightarrow> nv_reqs s r | Some e \<Rightarrow> finish e (nv_reqs s r))" for r
      using none by (cases "src_of s (slot_of s e) = r") (auto simp: R turn_reqs split: option.splits)
  qed
qed (simp add: turn_slot)

lemma find_distinct:
  "distinct (map f es) \<Longrightarrow> e \<in> set es \<Longrightarrow> List.find (\<lambda>x. f x = f e) es = Some e"
  by (induction es) (auto simp: image_iff)

lemma turns_regs:
  "nv_regs (fold (turn cq) es s) = nv_regs s" "nv_capStride (fold (turn cq) es s) = nv_capStride s"
  "nq_iden (nv_ques (fold (turn cq) es s) q) = nq_iden (nv_ques s q)"
proof -
  have "nv_regs (turn cq e s) = nv_regs s \<and> nv_capStride (turn cq e s) = nv_capStride s \<and>
      nq_iden (nv_ques (turn cq e s) q) = nq_iden (nv_ques s q)" for e s
    by (simp add: turn_def upd_que_def handle_entry_def upd_nreq_def Let_def next_hdr_def)
  then have "nv_regs (fold (turn cq) es s) = nv_regs s \<and> nv_capStride (fold (turn cq) es s) = nv_capStride s \<and>
      nq_iden (nv_ques (fold (turn cq) es s) q) = nq_iden (nv_ques s q)"
    by (induction es arbitrary: s) simp_all
  then show "nv_regs (fold (turn cq) es s) = nv_regs s" "nv_capStride (fold (turn cq) es s) = nv_capStride s"
    "nq_iden (nv_ques (fold (turn cq) es s) q) = nq_iden (nv_ques s q)" by simp_all
qed


text \<open>Two entries, posted out of order and across the end of a completion queue of two places.\<close>

definition demo_entry :: "u16 \<Rightarrow> u8 \<Rightarrow> u16 \<Rightarrow> cmpl_entry" where
  "demo_entry cid ph st = zero_cmpl\<lparr>ce_submQueId := 0, ce_cmdId := cid, ce_phaseBit := ph, ce_status := st\<rparr>"

definition demo_nvme :: NVMe_Sys where
  "demo_nvme =
    (let q = \<lparr>lock = 0, nq_attr = 0, nq_size = 2, nq_iden = 0, nq_til = 0, nq_que = 0, nq_submQue = (\<lambda>_. zero_subm),
           nq_cmplQue = (\<lambda>_. zero_cmpl), nq_reqSrc = (\<lambda>_. NULL), nq_phaseBit = 0\<rparr>
     in \<lparr>nv_ques = (\<lambda>p. if p = 1 then q\<lparr>nq_reqSrc := (\<lambda>c. if c = 0 then 100 else if c = 1 then 200 else 0)\<rparr>
           else q\<lparr>nq_til := 1, nq_phaseBit := 1, nq_cmplQue := (\<lambda>i. if i = 1 then demo_entry 1 1 0 else demo_entry 0 0 7)\<rparr>),
         nv_submQue = (\<lambda>_. 1), nv_cmplQue = (\<lambda>_. 2),
         nv_reqs = (\<lambda>_. \<lparr>nr_entry = zero_subm, nr_res = zero_cmpl, nr_attr = 0\<rparr>),
         nv_regs = (\<lambda>_. 0), nv_cap = 0, nv_capStride = 4, nv_pgSize = 0\<rparr>)"


section \<open>Commands of the disk device\<close>

text \<open>The number of blocks that the controller transfers: the field counts from 0 and has 16 bits.\<close>

definition io_blocks :: "subm_entry \<Rightarrow> nat" where
  "io_blocks e = unat (se_cmdSpec e ! 2 AND 0xffff) + 1"

definition io_lba :: "subm_entry \<Rightarrow> nat" where
  "io_lba e = unat (se_cmdSpec e ! 0) + 2 ^ 32 * unat (se_cmdSpec e ! 1)"

lemma unat_split32: "unat (ucast x :: u32) + 2 ^ 32 * unat (ucast (drop_bit 32 x) :: u32) = unat (x :: u64)"
proof -
  have d: "unat (drop_bit 32 x) = unat x div 2 ^ 32" by (rule unat_div_pow2)
  then have "unat (ucast (drop_bit 32 x) :: u32) = unat x div 2 ^ 32"
    using unat_u64_less [of x] by (simp add: unat_ucast_mod)
  then show ?thesis by (simp add: unat_ucast_mod)
qed

lemma io_blocks_16: "unat ((ucast (b :: u16) - 1 :: u32) AND 0xffff) + 1 = (if b = 0 then 65536 else unat b)"
proof (cases "b = 0")
  case False
  have m: "(0xffff :: u32) = mask 16" by (simp add: mask_eq_exp_minus_1)
  have u: "unat (ucast b :: u32) = unat b" using unat_u16_less [of b] by (simp add: unat_ucast_mod)
  have nz: "(ucast b :: u32) \<noteq> 0" using False by (simp add: unat_eq_0 [symmetric] u)
  have "unat ((ucast b - 1 :: u32) AND 0xffff) = (unat b - 1) mod 65536"
    unfolding m unat_and_mask unat_minus1 [OF nz] u by simp
  moreover have "0 < unat b" using False by (simp add: unat_gt_0)
  ultimately show ?thesis using False unat_u16_less [of b] by simp
qed simp



section \<open>A full submission queue\<close>

fun insert_all :: "ptr \<Rightarrow> ptr list \<Rightarrow> NVMe_Sys \<Rightarrow> NVMe_Sys option" where
  "insert_all q [] s = Some s"
| "insert_all q (r # rs) s =
    (case HW_NVMe_insReq q r s of Some (True, s') \<Rightarrow> insert_all q rs s' | _ \<Rightarrow> None)"

lemma insReq_free:
  assumes "lock (nv_ques s q) = 0" "nq_reqSrc (nv_ques s q) (unat (nq_til (nv_ques s q))) = NULL"
    "unat (nq_til (nv_ques s q)) < unat (nq_size (nv_ques s q))"
  obtains s' where "HW_NVMe_insReq q r s = Some (True, s')" "lock (nv_ques s' q) = 0"
    "nq_size (nv_ques s' q) = nq_size (nv_ques s q)" "nq_iden (nv_ques s' q) = nq_iden (nv_ques s q)"
    "nv_capStride s' = nv_capStride s"
    "unat (nq_til (nv_ques s' q)) = Suc (unat (nq_til (nv_ques s q))) mod unat (nq_size (nv_ques s q))"
    "nq_reqSrc (nv_ques s' q) = (nq_reqSrc (nv_ques s q))(unat (nq_til (nv_ques s q)) := r)"
    "nv_regs s' (subm_db (nv_capStride s) (nq_iden (nv_ques s q))) = ucast (nq_til (nv_ques s' q))"
proof -
  let ?t = "nq_til (nv_ques s q)" and ?n = "nq_size (nv_ques s q)"
  have inc: "unat (?t + 1) = Suc (unat ?t)" using assms(3) unat_u16_less [of ?n] by (simp add: unat_word_ariths)
  have e: "?t + 1 = ?n \<longleftrightarrow> Suc (unat ?t) = unat ?n" by (subst word_unat_eq_iff) (simp add: inc)
  obtain s' where s': "HW_NVMe_insReq q r s = Some (True, s')" and
    f: "lock (nv_ques s' q) = 0" "nq_size (nv_ques s' q) = ?n" "nq_iden (nv_ques s' q) = nq_iden (nv_ques s q)"
    "nv_capStride s' = nv_capStride s" "nq_til (nv_ques s' q) = (if ?t + 1 = ?n then 0 else ?t + 1)"
    "nq_reqSrc (nv_ques s' q) = (nq_reqSrc (nv_ques s q))(unat ?t := r)"
    "nv_regs s' (subm_db (nv_capStride s) (nq_iden (nv_ques s q))) = ucast (nq_til (nv_ques s' q))"
    using assms(1,2)
    by (auto simp: HW_NVMe_insReq_def Let_def upd_que_def upd_nreq_def HW_NVMe_ringSubmDb_def HW_NVMe_writeReg32_def)
  have "unat (nq_til (nv_ques s' q)) = Suc (unat ?t) mod unat ?n"
    using assms(3) inc unfolding f(5) e by auto
  then show thesis using that [OF s'] f by blast
qed

lemma insert_all_free:
  assumes "lock (nv_ques s q) = 0" "unat (nq_size (nv_ques s q)) = n" "unat (nq_til (nv_ques s q)) < n"
    and "\<forall>i<length rs. nq_reqSrc (nv_ques s q) ((unat (nq_til (nv_ques s q)) + i) mod n) = NULL" "length rs \<le> n" "rs \<noteq> []"
  shows "\<exists>s'. insert_all q rs s = Some s' \<and> unat (nq_til (nv_ques s' q)) = (unat (nq_til (nv_ques s q)) + length rs) mod n \<and>
    unat (nv_regs s' (subm_db (nv_capStride s) (nq_iden (nv_ques s q)))) = (unat (nq_til (nv_ques s q)) + length rs) mod n"
  using assms
proof (induction rs arbitrary: s)
  case (Cons r rs)
  let ?t = "unat (nq_til (nv_ques s q))"
  have fr: "nq_reqSrc (nv_ques s q) ?t = NULL" using Cons.prems(3,4) by (auto dest: spec [of _ 0])
  have lt: "?t < unat (nq_size (nv_ques s q))" using Cons.prems(2,3) by simp
  obtain s1 where s1: "HW_NVMe_insReq q r s = Some (True, s1)" "lock (nv_ques s1 q) = 0"
    "nq_size (nv_ques s1 q) = nq_size (nv_ques s q)" "nq_iden (nv_ques s1 q) = nq_iden (nv_ques s q)"
    "nv_capStride s1 = nv_capStride s" "unat (nq_til (nv_ques s1 q)) = Suc ?t mod n"
    "nq_reqSrc (nv_ques s1 q) = (nq_reqSrc (nv_ques s q))(?t := r)"
    "nv_regs s1 (subm_db (nv_capStride s) (nq_iden (nv_ques s q))) = ucast (nq_til (nv_ques s1 q))"
    using insReq_free [OF Cons.prems(1) fr lt, of r] Cons.prems(2) by metis
  have db: "unat (ucast (nq_til (nv_ques s1 q)) :: u32) = unat (nq_til (nv_ques s1 q))"
    using unat_u16_less [of "nq_til (nv_ques s1 q)"] by (simp add: unat_ucast_mod)
  have n: "0 < n" using Cons.prems(3) by simp
  show ?case
  proof (cases "rs = []")
    case True
    then show ?thesis using s1 db by simp
  next
    case False
    have "nq_reqSrc (nv_ques s1 q) ((unat (nq_til (nv_ques s1 q)) + i) mod n) = NULL" if i: "i < length rs" for i
    proof -
      have e: "(Suc ?t mod n + i) mod n = (?t + Suc i) mod n" by (simp add: mod_add_left_eq)
      have "(?t + Suc i) mod n \<noteq> ?t"
      proof
        assume "(?t + Suc i) mod n = ?t"
        then have "(?t + Suc i) mod n = (?t + 0) mod n" using Cons.prems(3) by simp
        then have "n dvd Suc i" using mod_eq_dvd_iff_nat [of ?t "?t + Suc i" n] by simp
        then show False using i Cons.prems(5) by (auto dest: dvd_imp_le)
      qed
      moreover have "nq_reqSrc (nv_ques s q) ((?t + Suc i) mod n) = NULL" using spec [OF Cons.prems(4), of "Suc i"] i by simp
      ultimately show ?thesis using e by (simp add: s1(6,7))
    qed
    then have "\<exists>s'. insert_all q rs s1 = Some s' \<and> unat (nq_til (nv_ques s' q)) = (unat (nq_til (nv_ques s1 q)) + length rs) mod n \<and>
      unat (nv_regs s' (subm_db (nv_capStride s1) (nq_iden (nv_ques s1 q)))) = (unat (nq_til (nv_ques s1 q)) + length rs) mod n"
      using Cons.prems n False s1 by (intro Cons.IH) auto
    moreover have "(Suc ?t mod n + length rs) mod n = (?t + length (r # rs)) mod n" by (simp add: mod_add_left_eq)
    ultimately show ?thesis using s1 by auto
  qed
qed simp


definition demo_queue :: NVMe_Sys where
  "demo_queue = upd_que 1 (HW_NVMe_initQue 2 0 1 0) demo_nvme"


end
