(* ===== verification/Hid.thy ===== *)
theory Hid
  imports Locks HwLayout Bits
begin

text \<open>
  \<open>hardware/USB/HID/parse.c\<close> with the structures of \<open>HID/desc.h\<close>: the parser of report descriptors, which finds
  the fields of a mouse or a keyboard in the reports of a device, and the parser of reports.  A descriptor or
  report is the memory behind its pointer; \<open>None\<close> is an access behind the end of an array of the kernel.
\<close>

section \<open>Items\<close>

definition load16 :: "(nat \<Rightarrow> u8) \<Rightarrow> nat \<Rightarrow> u16" where
  "load16 p i = ucast (p i) OR push_bit 8 (ucast (p (i + 1)))"

definition load32 :: "(nat \<Rightarrow> u8) \<Rightarrow> nat \<Rightarrow> u32" where
  "load32 p i = ucast (p i) OR push_bit 8 (ucast (p (i + 1))) OR push_bit 16 (ucast (p (i + 2)))
     OR push_bit 24 (ucast (p (i + 3)))"

definition getPrefixField :: "u8 \<Rightarrow> u32 \<Rightarrow> u32" where
  "getPrefixField prefx msk = drop_bit (unat (Bit_ffs (ucast msk) - 1)) (ucast prefx AND msk)"

definition getItemSize :: "(nat \<Rightarrow> u8) \<Rightarrow> i32" where
  "getItemSize rep = (let szField = getPrefixField (rep 0) HID_RepItem_Size in szField + (if szField = 3 then 1 else 0))"

definition getItemData :: "(nat \<Rightarrow> u8) \<Rightarrow> i32" where
  "getItemData rep =
     (let n = getItemSize rep in
      if n = 1 then scast (rep 1) else if n = 2 then scast (load16 rep 1) else if n = 4 then load32 rep 1 else 0)"

section \<open>State and result of the parser\<close>

record DataState =
  lgMn :: i32
  lgMx :: i32
  dsId :: i32
  dsCnt :: i32
  dsSz :: i32
  usagePg :: u8
  usage :: "nat \<Rightarrow> nat \<Rightarrow> i32"
  phyMn :: "nat \<Rightarrow> i32"
  phyMx :: "nat \<Rightarrow> i32"
  locTop :: i32
  usageNum :: "nat \<Rightarrow> i32"

definition DataState0 :: DataState where
  "DataState0 = \<lparr>lgMn = 0, lgMx = 0, dsId = 0, dsCnt = 0, dsSz = 0, usagePg = 0, usage = (\<lambda>_ _. 0),
     phyMn = (\<lambda>_. 0), phyMx = (\<lambda>_. 0), locTop = 0, usageNum = (\<lambda>_. 0)\<rparr>"

record USB_HID_ReportItem =
  rgMn :: i32
  rgMx :: i32
  riFlags :: u8
  riSize :: u8
  riOff :: u8

text \<open>
  The members of the union \<open>items\<close> are arrays of report items at the same place: \<open>btn\<close>, \<open>x\<close>, \<open>y\<close> and
  \<open>wheel\<close> of a mouse are its elements 0 to 3, \<open>spK\<close>, \<open>key[6]\<close> and \<open>leds\<close> of a keyboard its elements 0, 1 to 6 and 7.
\<close>

record USB_HID_ParseHelper =
  hpType :: i32
  hpId :: i32
  inSz :: i32
  outSz :: i32
  idle :: u32
  items :: "nat \<Rightarrow> USB_HID_ReportItem"

definition helper0 :: USB_HID_ParseHelper where
  "helper0 = \<lparr>hpType = 0, hpId = 0, inSz = 0, outSz = 0, idle = 0,
     items = (\<lambda>_. \<lparr>rgMn = 0, rgMx = 0, riFlags = 0, riSize = 0, riOff = 0\<rparr>)\<rparr>"

definition item_btn :: nat where "item_btn = 0"
definition item_x :: nat where "item_x = 1"
definition item_y :: nat where "item_y = 2"
definition item_wheel :: nat where "item_wheel = 3"
definition item_spK :: nat where "item_spK = 0"
definition item_key :: "nat \<Rightarrow> nat" where "item_key i = 1 + i"

definition HID_RepItem_Main_isConst :: "u8 \<Rightarrow> bool" where
  "HID_RepItem_Main_isConst flag \<longleftrightarrow> flag AND 1 \<noteq> 0"

definition HID_RepItem_Main_isRel :: "u8 \<Rightarrow> bool" where
  "HID_RepItem_Main_isRel flag \<longleftrightarrow> drop_bit 2 flag AND 1 \<noteq> 0"

fun count_row :: "(nat \<Rightarrow> i32) \<Rightarrow> i32 \<Rightarrow> nat list \<Rightarrow> bool option" where
  "count_row r u [] = Some False"
| "count_row r u (j # js) = (if 0x10 \<le> j then None else if r j = u then Some True else count_row r u js)"

fun count_rows :: "DataState \<Rightarrow> i32 \<Rightarrow> int list \<Rightarrow> bool option" where
  "count_rows st u [] = Some False"
| "count_rows st u (i # is) =
     (if i < 0 \<or> 8 \<le> i then None
      else case count_row (usage st (nat i)) u [0..<nat (sint (usageNum st (nat i)))] of
        Some False \<Rightarrow> count_rows st u is
      | r \<Rightarrow> r)"

definition countUsage :: "DataState \<Rightarrow> i32 \<Rightarrow> i32 \<Rightarrow> bool option" where
  "countUsage st rgSt u =
     count_rows st u [sint (if rgSt <s 0 then locTop st + rgSt + 1 else rgSt)..sint (locTop st)]"

definition applyItem :: "DataState \<Rightarrow> u8 \<Rightarrow> bool \<Rightarrow> USB_HID_ParseHelper \<Rightarrow> nat \<Rightarrow> USB_HID_ParseHelper" where
  "applyItem st flags isIn h k =
     h\<lparr>items := (items h)(k := \<lparr>rgMn = lgMn st, rgMx = lgMx st, riFlags = flags, riSize = ucast (dsSz st),
         riOff = ucast (if isIn then inSz h else outSz h)\<rparr>)\<rparr>"

section \<open>Modifiers\<close>

text \<open>\<open>a && b\<close>: the second operand is only evaluated when the first is true.\<close>

definition and_then :: "bool option \<Rightarrow> bool option \<Rightarrow> bool option" where
  "and_then a b = (case a of Some True \<Rightarrow> b | _ \<Rightarrow> a)"

definition modiChk_mouseAxis :: "u32 \<Rightarrow> DataState \<Rightarrow> bool \<Rightarrow> u8 \<Rightarrow> bool option" where
  "modiChk_mouseAxis u st isIn flags =
     and_then (Some isIn) (and_then (countUsage st 0 HID_Usage_Mouse) (and_then (countUsage st (- 1) u)
       (Some (\<not> HID_RepItem_Main_isConst flags))))"

definition modiChk_mouseX :: "DataState \<Rightarrow> bool \<Rightarrow> u8 \<Rightarrow> bool option" where
  "modiChk_mouseX = modiChk_mouseAxis HID_Usage_X"

definition modi_mouseX :: "DataState \<Rightarrow> bool \<Rightarrow> u8 \<Rightarrow> USB_HID_ParseHelper \<Rightarrow> (i32 \<times> USB_HID_ParseHelper) option" where
  "modi_mouseX st isIn flags h =
     (let h = h\<lparr>hpType := if HID_RepItem_Main_isRel flags then USB_HID_ReportHelper_Type_Mouse
                          else USB_HID_ReportHelper_Type_Touchpad\<rparr>
      in Some (1, applyItem st flags True h item_x))"

definition modiChk_mouseY :: "DataState \<Rightarrow> bool \<Rightarrow> u8 \<Rightarrow> bool option" where
  "modiChk_mouseY = modiChk_mouseAxis HID_Usage_Y"

definition modi_mouseY :: "DataState \<Rightarrow> bool \<Rightarrow> u8 \<Rightarrow> USB_HID_ParseHelper \<Rightarrow> (i32 \<times> USB_HID_ParseHelper) option" where
  "modi_mouseY st isIn flags h = Some (1, applyItem st flags True h item_y)"

definition modiChk_mouseWheel :: "DataState \<Rightarrow> bool \<Rightarrow> u8 \<Rightarrow> bool option" where
  "modiChk_mouseWheel = modiChk_mouseAxis HID_Usage_Wheel"

definition modi_mouseWheel :: "DataState \<Rightarrow> bool \<Rightarrow> u8 \<Rightarrow> USB_HID_ParseHelper \<Rightarrow> (i32 \<times> USB_HID_ParseHelper) option" where
  "modi_mouseWheel st isIn flags h = Some (1, applyItem st flags True h item_wheel)"

definition modiChk_mouseBtn :: "DataState \<Rightarrow> bool \<Rightarrow> u8 \<Rightarrow> bool option" where
  "modiChk_mouseBtn st isIn flags =
     and_then (Some isIn) (and_then (countUsage st 0 HID_Usage_Mouse)
       (Some (ucast (usagePg st) = HID_UsagePage_Button \<and> \<not> HID_RepItem_Main_isConst flags)))"

definition set_size :: "u8 \<Rightarrow> nat \<Rightarrow> USB_HID_ParseHelper \<Rightarrow> USB_HID_ParseHelper" where
  "set_size n k h = h\<lparr>items := (items h)(k := (items h k)\<lparr>riSize := n\<rparr>)\<rparr>"

definition modi_mouseBtn :: "DataState \<Rightarrow> bool \<Rightarrow> u8 \<Rightarrow> USB_HID_ParseHelper \<Rightarrow> (i32 \<times> USB_HID_ParseHelper) option" where
  "modi_mouseBtn st isIn flags h =
     Some (dsCnt st, set_size (ucast (dsCnt st * dsSz st)) item_btn (applyItem st flags True h item_btn))"

definition modiChk_keyboard :: "DataState \<Rightarrow> bool \<Rightarrow> u8 \<Rightarrow> bool option" where
  "modiChk_keyboard st isIn flags =
     Some (isIn \<and> ucast (usagePg st) = HID_UsagePage_Keyboard \<and> \<not> HID_RepItem_Main_isConst flags)"

fun key_loop :: "DataState \<Rightarrow> u8 \<Rightarrow> nat list \<Rightarrow> USB_HID_ParseHelper \<Rightarrow> USB_HID_ParseHelper option" where
  "key_loop st flags [] h = Some h"
| "key_loop st flags (i # is) h =
     (if 6 \<le> i then None
      else key_loop st flags is
        (h\<lparr>items := (items h)(item_key i := \<lparr>rgMn = lgMn st, rgMx = lgMx st, riFlags = flags, riSize = ucast (dsSz st),
           riOff = ucast (inSz h + of_nat i * dsSz st)\<rparr>)\<rparr>))"

definition modi_keyboard :: "DataState \<Rightarrow> bool \<Rightarrow> u8 \<Rightarrow> USB_HID_ParseHelper \<Rightarrow> (i32 \<times> USB_HID_ParseHelper) option" where
  "modi_keyboard st isIn flags h =
     (let h = h\<lparr>hpType := USB_HID_ReportHelper_Type_Keyboard\<rparr> in
      if dsSz st = 1
      then Some (dsCnt st, set_size (ucast (dsCnt st * dsSz st)) item_spK (applyItem st flags True h item_spK))
      else map_option (\<lambda>h. (dsCnt st, h)) (key_loop st flags [0..<nat (sint (dsCnt st))] h))"

text \<open>The two arrays of function pointers, filled in this order.\<close>

datatype modifier = mouseBtn | mouseX | mouseY | mouseWheel | keyboard

definition regDefaultModifier :: "modifier list" where
  "regDefaultModifier = [mouseBtn, mouseX, mouseY, mouseWheel, keyboard]"

fun modiChk :: "modifier \<Rightarrow> DataState \<Rightarrow> bool \<Rightarrow> u8 \<Rightarrow> bool option" where
  "modiChk mouseBtn = modiChk_mouseBtn"
| "modiChk mouseX = modiChk_mouseX"
| "modiChk mouseY = modiChk_mouseY"
| "modiChk mouseWheel = modiChk_mouseWheel"
| "modiChk keyboard = modiChk_keyboard"

fun modi :: "modifier \<Rightarrow> DataState \<Rightarrow> bool \<Rightarrow> u8 \<Rightarrow> USB_HID_ParseHelper \<Rightarrow> (i32 \<times> USB_HID_ParseHelper) option" where
  "modi mouseBtn = modi_mouseBtn"
| "modi mouseX = modi_mouseX"
| "modi mouseY = modi_mouseY"
| "modi mouseWheel = modi_mouseWheel"
| "modi keyboard = modi_keyboard"

definition add_size :: "bool \<Rightarrow> i32 \<Rightarrow> USB_HID_ParseHelper \<Rightarrow> USB_HID_ParseHelper" where
  "add_size isIn n h = (if isIn then h\<lparr>inSz := inSz h + n\<rparr> else h\<lparr>outSz := outSz h + n\<rparr>)"

fun modify_loop :: "DataState \<Rightarrow> bool \<Rightarrow> u8 \<Rightarrow> modifier list \<Rightarrow> i32 \<Rightarrow> USB_HID_ParseHelper \<Rightarrow> (i32 \<times> USB_HID_ParseHelper) option" where
  "modify_loop st isIn flags [] uCnt h = Some (uCnt, h)"
| "modify_loop st isIn flags (m # ms) uCnt h =
     Option.bind (modiChk m st isIn flags) (\<lambda>c.
       if c then Option.bind (modi m st isIn flags h) (\<lambda>(used, h).
         let h = add_size isIn (used * dsSz st) h; uCnt = uCnt + used in
         if uCnt = dsCnt st then Some (uCnt, h) else modify_loop st isIn flags ms uCnt h)
       else modify_loop st isIn flags ms uCnt h)"

definition tryModify :: "DataState \<Rightarrow> bool \<Rightarrow> u8 \<Rightarrow> USB_HID_ParseHelper \<Rightarrow> USB_HID_ParseHelper option" where
  "tryModify st isIn flags h =
     map_option (\<lambda>(uCnt, h). if dsCnt st \<noteq> 0 then add_size isIn (dsSz st * (dsCnt st - uCnt)) h else h)
       (modify_loop st isIn flags regDefaultModifier 0 h)"

section \<open>The parser of descriptors\<close>

definition top_row :: "DataState \<Rightarrow> nat option" where
  "top_row st = (let i = sint (locTop st) in if i < 0 \<or> 8 \<le> i then None else Some (nat i))"

text \<open>The results 0 and 1 of the parsers are \<open>False\<close> and \<open>True\<close>.\<close>

definition parseMain ::
  "USB_HID_ParseHelper \<Rightarrow> (nat \<Rightarrow> u8) \<Rightarrow> DataState \<Rightarrow> (bool \<times> USB_HID_ParseHelper \<times> DataState) option" where
  "parseMain h rep st =
     (let tag = getPrefixField (rep 0) HID_RepItem_Tag in
      if tag = HID_RepItem_Tag_Input \<or> tag = HID_RepItem_Tag_Output then
        Option.bind (tryModify st (tag = HID_RepItem_Tag_Input) (rep 1) h) (\<lambda>h.
        Option.bind (top_row st) (\<lambda>i. Some (True, h, st\<lparr>usageNum := (usageNum st)(i := 0)\<rparr>)))
      else if tag = HID_RepItem_Tag_EndColl then Some (True, h, st\<lparr>locTop := locTop st - 1\<rparr>)
      else if tag = HID_RepItem_Tag_Feature then Some (True, h, st)
      else if tag = HID_RepItem_Tag_Coll then Some (True, h, st\<lparr>locTop := locTop st + 1\<rparr>)
      else Some (False, h, st))"

definition parseGlobal :: "(nat \<Rightarrow> u8) \<Rightarrow> DataState \<Rightarrow> bool \<times> DataState" where
  "parseGlobal rep st =
     (let tag = getPrefixField (rep 0) HID_RepItem_Tag; data = getItemData rep in
      if tag = HID_RepItem_Tag_UsagePage then (True, st\<lparr>usagePg := ucast data\<rparr>)
      else if tag = HID_RepItem_Tag_LogicalMin then (True, st\<lparr>lgMn := data\<rparr>)
      else if tag = HID_RepItem_Tag_LogicalMax then (True, st\<lparr>lgMx := data\<rparr>)
      else if tag = HID_RepItem_Tag_ReportCnt then (True, st\<lparr>dsCnt := data\<rparr>)
      else if tag = HID_RepItem_Tag_ReportSize then (True, st\<lparr>dsSz := data\<rparr>)
      else if tag = HID_RepItem_Tag_ReportId then (True, st\<lparr>dsId := data\<rparr>)
      else (False, st))"

definition parseLocal :: "(nat \<Rightarrow> u8) \<Rightarrow> DataState \<Rightarrow> (bool \<times> DataState) option" where
  "parseLocal rep st =
     (let tag = getPrefixField (rep 0) HID_RepItem_Tag; data = getItemData rep in
      if tag = HID_RepItem_Tag_UsageMin then
        Option.bind (top_row st) (\<lambda>i. Some (True, st\<lparr>phyMn := (phyMn st)(i := data)\<rparr>))
      else if tag = HID_RepItem_Tag_UsageMax then
        Option.bind (top_row st) (\<lambda>i. Some (True, st\<lparr>phyMx := (phyMx st)(i := data)\<rparr>))
      else if tag = HID_RepItem_Tag_Usage then
        Option.bind (top_row st) (\<lambda>i.
          let n = sint (usageNum st i) in
          if n < 0 \<or> 0x10 \<le> n then None
          else Some (True, st\<lparr>usage := (usage st)(i := (usage st i)(nat n := data)),
                              usageNum := (usageNum st)(i := usageNum st i + 1)\<rparr>))
      else Some (False, st))"

datatype parse_end = Parsed | NoLongItems | InvalidItem

function parse_loop ::
  "(nat \<Rightarrow> u8) \<Rightarrow> nat \<Rightarrow> nat \<Rightarrow> USB_HID_ParseHelper \<Rightarrow> DataState \<Rightarrow> (parse_end \<times> USB_HID_ParseHelper \<times> DataState) option" where
  "parse_loop rep len idx h st =
     (if idx < len then
        let r = (\<lambda>i. rep (idx + i)); itemLen = getItemSize r; t = getPrefixField (r 0) HID_RepItem_Type;
          next_item = (\<lambda>(res, h, st). if \<not> res then Some (InvalidItem, h, st)
                                 else parse_loop rep len (idx + 1 + unat itemLen) h st) in
        if t = HID_RepItem_Type_Main then Option.bind (parseMain h r st) next_item
        else if t = HID_RepItem_Type_Global then (let (res, st) = parseGlobal r st in next_item (res, h, st))
        else if t = HID_RepItem_Type_Local then Option.bind (parseLocal r st) (\<lambda>(res, st). next_item (res, h, st))
        else Some (NoLongItems, h, st)
      else Some (Parsed, h, st))"
  by pat_completeness auto

termination
  by (relation "measure (\<lambda>(rep, len, idx, h, st). len - idx)") auto

declare parse_loop.simps [simp del]

definition set_idle :: "USB_HID_ParseHelper \<Rightarrow> USB_HID_ParseHelper" where
  "set_idle h =
     (if hpType h = USB_HID_ReportHelper_Type_Keyboard then h\<lparr>idle := 0\<rparr>
      else if hpType h = USB_HID_ReportHelper_Type_Mouse \<or> hpType h = USB_HID_ReportHelper_Type_Touchpad
      then h\<lparr>idle := 0xff\<rparr> else h)"

text \<open>
  The helper is memory that \<open>kmalloc\<close> has cleared, \<open>curDtState\<close> is cleared before it is used.  \<open>None\<close> is
  also a lock that is held, at which the caller spins.
\<close>

definition HW_USB_HID_genParseHelper ::
  "SpinLock \<Rightarrow> (nat \<Rightarrow> u8) \<Rightarrow> nat \<Rightarrow> (SpinLock \<times> USB_HID_ParseHelper) option" where
  "HW_USB_HID_genParseHelper l rep len =
     Option.bind (SpinLock_acquire l) (\<lambda>l.
     Option.bind (parse_loop rep len 0 helper0 DataState0) (\<lambda>(e, h, st).
       case e of
         NoLongItems \<Rightarrow> Some (l, h)
       | InvalidItem \<Rightarrow> Some (SpinLock_unlock l, h\<lparr>hpType := 0\<rparr>)
       | Parsed \<Rightarrow> Some (SpinLock_unlock l, set_idle (h\<lparr>hpId := dsId st\<rparr>))))"

definition HW_USB_HID_initParse :: "SpinLock \<Rightarrow> SpinLock \<times> modifier list" where
  "HW_USB_HID_initParse l = (SpinLock_init l, regDefaultModifier)"

section \<open>The parser of reports\<close>

text \<open>
  The shifts are those of the processor, which takes the count modulo the width: the counts are out of range
  for an item of size 0, which a mouse without a wheel has.
\<close>

definition parseItem :: "(nat \<Rightarrow> u8) \<Rightarrow> USB_HID_ReportItem \<Rightarrow> i32" where
  "parseItem raw it =
     (let ones = (push_bit (unat (riSize it) mod 64) 1 :: u64) - 1;
          msk = (ucast (push_bit (unat (riOff it AND 7)) ones) :: u32);
          data = drop_bit (unat (Bit_ffs (ucast msk) - 1) mod 32) (load32 raw (unat (riOff it div 8)) AND msk)
      in if data AND push_bit (unat (ucast (riSize it) - 1 :: u32) mod 32) 1 \<noteq> 0 \<and> HID_RepItem_Main_isRel (riFlags it)
         then data OR ucast (NOT ones) else data)"

definition parseItemByte :: "(nat \<Rightarrow> u8) \<Rightarrow> USB_HID_ReportItem \<Rightarrow> u8" where
  "parseItemByte raw it = ucast (parseItem raw it)"

text \<open>The member of the union \<open>items\<close> of a report that its type selects.\<close>

datatype report_items = MouseReport (m_btn: i32) (m_x: i32) (m_y: i32) (m_wheel: i32) | KeyboardReport u8 "u8 list"

record USB_HID_Report =
  rpType :: i32
  rpItems :: report_items

definition HW_USB_HID_parseReport :: "(nat \<Rightarrow> u8) \<Rightarrow> USB_HID_ParseHelper \<Rightarrow> USB_HID_Report \<Rightarrow> USB_HID_Report" where
  "HW_USB_HID_parseReport raw h out =
     (let out = out\<lparr>rpType := hpType h\<rparr> in
      if hpType h = USB_HID_ReportHelper_Type_Mouse then
        out\<lparr>rpItems := MouseReport (parseItem raw (items h item_btn)) (parseItem raw (items h item_x))
           (parseItem raw (items h item_y)) (parseItem raw (items h item_wheel))\<rparr>
      else if hpType h = USB_HID_ReportHelper_Type_Keyboard then
        out\<lparr>rpItems := KeyboardReport (parseItemByte raw (items h item_spK))
           (map (\<lambda>i. parseItemByte raw (items h (item_key i))) [0..<6])\<rparr>
      else out)"

end
