(* ===== verification/Hid_Props.thy ===== *)
theory Hid_Props
  imports Hid MemDesc
begin

text \<open>
  The HID parsers: a field of a report is read bit by bit, the sizes of the reports are the sums that the
  descriptor declares, and the field that the parser finds in the descriptor of a mouse is read from its reports.
\<close>

section \<open>Fields of a report\<close>

definition rbit :: "(nat \<Rightarrow> u8) \<Rightarrow> nat \<Rightarrow> bool" where
  "rbit raw p = bit (raw (p div 8)) (p mod 8)"

definition field :: "(nat \<Rightarrow> u8) \<Rightarrow> nat \<Rightarrow> nat \<Rightarrow> int" where
  "field raw off n = horner_sum of_bool 2 (map (rbit raw) [off..<off + n])"

lemma bit_field: "bit (field raw off n) i \<longleftrightarrow> i < n \<and> rbit raw (off + i)"
  by (auto simp: field_def bit_horner_sum_bit_iff)

lemma bit_ucast_u8: "bit (ucast (b :: u8) :: 'a::len word) m \<longleftrightarrow> m < LENGTH('a) \<and> m < 8 \<and> bit b m"
  by (auto simp: bit_simps dest: bit_imp_le_length)

lemma bit_u8_high: "8 \<le> m \<Longrightarrow> \<not> bit (b :: u8) m"
  by (auto dest: bit_imp_le_length)

lemma bit_load32: "bit (load32 raw k) n \<longleftrightarrow> n < 32 \<and> rbit raw (8 * k + n)"
proof -
  obtain q r where n: "n = 8 * q + r" "r < 8"
    using mult_div_mod_eq [of 8 n] mod_less_divisor [of 8 n] by (metis zero_less_numeral)
  have a: "rbit raw (8 * k + n) = bit (raw (k + q)) r"
  proof -
    have "8 * k + n = r + 8 * (k + q)" using n by simp
    then show ?thesis using n(2) unfolding rbit_def by simp
  qed
  consider "q = 0" | "q = 1" | "q = 2" | "q = 3" | "4 \<le> q" by arith
  then show ?thesis
    unfolding a using n(2) by cases (auto simp: n(1) load32_def bit_simps bit_ucast_u8 bit_u8_high)
qed

lemma Bit_ffs_run:
  assumes "0 < s" "k + s \<le> 64"
  shows "Bit_ffs (push_bit k (mask s)) = of_nat k + 1"
proof -
  have "List.find (bit (push_bit k (mask s) :: u64)) [0..<64] = Some k"
    using assms by (auto simp: find_upt_Some bit_simps)
  then show ?thesis by (simp add: Bit_ffs_def)
qed

lemma bit_parseItem:
  assumes "0 < unat (riSize it)" "unat (riOff it) mod 8 + unat (riSize it) \<le> 32" "n < 32"
  shows "bit (parseItem raw it) n \<longleftrightarrow>
    (if n < unat (riSize it) then rbit raw (unat (riOff it) + n)
     else HID_RepItem_Main_isRel (riFlags it) \<and> rbit raw (unat (riOff it) + (unat (riSize it) - 1)))"
proof -
  define s where "s = unat (riSize it)"
  define k where "k = unat (riOff it) mod 8"
  define q where "q = unat (riOff it) div 8"
  have off: "unat (riOff it) = 8 * q + k" "k < 8" by (simp_all add: q_def k_def)
  have s: "0 < s" "s \<le> 32" "k + s \<le> 32" using assms by (simp_all add: s_def k_def)
  have ones: "(push_bit (unat (riSize it) mod 64) 1 :: u64) - 1 = mask s"
    using s by (simp add: s_def [symmetric] mask_eq_exp_minus_1)
  have o7: "unat (riOff it AND 7) = k"
    using unat_and_mask [of "riOff it" 3] by (simp add: k_def mask_eq_exp_minus_1)
  have m: "(ucast (ucast (push_bit k (mask s :: u64)) :: u32) :: u64) = push_bit k (mask s)"
    using s by (intro bit_word_eqI) (auto simp: bit_simps)
  have sh: "unat (Bit_ffs (ucast (ucast (push_bit k (mask s :: u64)) :: u32)) - 1) mod 32 = k"
    unfolding m using s off(2) by (simp add: Bit_ffs_run unat_of_nat)
  have q: "unat (riOff it div 8) = q" by (simp add: q_def unat_div)
  define d where "d = drop_bit k (load32 raw q AND ucast (push_bit k (mask s :: u64)))"
  have d: "bit d i \<longleftrightarrow> i < s \<and> rbit raw (unat (riOff it) + i)" for i
    using s by (auto simp: d_def bit_simps bit_load32 off algebra_simps)
  have top: "unat (ucast (riSize it) - 1 :: u32) mod 32 = s - 1"
  proof -
    have "unat (ucast (riSize it) :: u32) = s" using unat_u8_less [of "riSize it"] by (simp add: s_def unsigned_ucast_eq take_bit_nat_eq_self)
    then have "unat (ucast (riSize it) - 1 :: u32) = s - 1"
      using s(1) by (subst unat_minus1) (auto simp: unat_eq_0 [symmetric])
    then show ?thesis using s by simp
  qed
  have e: "parseItem raw it =
     (if d AND push_bit (s - 1) 1 \<noteq> 0 \<and> HID_RepItem_Main_isRel (riFlags it) then d OR ucast (NOT (mask s :: u64)) else d)"
    unfolding parseItem_def ones Let_def o7 sh q top d_def by (rule refl)
  have t: "d AND push_bit (s - 1) 1 \<noteq> 0 \<longleftrightarrow> bit d (s - 1)"
    by (simp only: bit_iff_and_push_bit_not_eq_0)
  show ?thesis
    unfolding e t s_def [symmetric] using s assms(3) by (auto simp: bit_simps d)
qed

lemma parseItem_field:
  assumes "0 < unat (riSize it)" "unat (riOff it) mod 8 + unat (riSize it) \<le> 32"
  shows "parseItem raw it = word_of_int
    (let f = field raw (unat (riOff it)) (unat (riSize it)) in
     if HID_RepItem_Main_isRel (riFlags it) then signed_take_bit (unat (riSize it) - 1) f else f)"
proof (rule bit_word_eqI)
  fix n assume "n < LENGTH(32)"
  then have n: "n < 32" by simp
  consider "n < unat (riSize it) - 1" | "n = unat (riSize it) - 1" | "unat (riSize it) \<le> n" by arith
  then show "bit (parseItem raw it) n \<longleftrightarrow> bit (word_of_int
    (let f = field raw (unat (riOff it)) (unat (riSize it)) in
     if HID_RepItem_Main_isRel (riFlags it) then signed_take_bit (unat (riSize it) - 1) f else f) :: i32) n"
    using assms(1) n
    unfolding bit_parseItem [OF assms n]
    by cases (auto simp: bit_word_of_int_iff bit_signed_take_bit_iff bit_field Let_def min_def)
qed

section \<open>Descriptors as lists of items\<close>

text \<open>The type of an item selects the parser; an item with data is its prefix byte and the bytes of the data.\<close>

definition item_step ::
  "(nat \<Rightarrow> u8) \<Rightarrow> USB_HID_ParseHelper \<Rightarrow> DataState \<Rightarrow> (bool \<times> USB_HID_ParseHelper \<times> DataState) option" where
  "item_step r h st =
     (let t = getPrefixField (r 0) HID_RepItem_Type in
      if t = HID_RepItem_Type_Main then parseMain h r st
      else if t = HID_RepItem_Type_Global then (let (res, st) = parseGlobal r st in Some (res, h, st))
      else map_option (\<lambda>(res, st). (res, h, st)) (parseLocal r st))"

definition is_main :: "u8 list \<Rightarrow> bool" where
  "is_main b \<longleftrightarrow> getPrefixField (b ! 0) HID_RepItem_Type = HID_RepItem_Type_Main"

definition is_global :: "u8 list \<Rightarrow> bool" where
  "is_global b \<longleftrightarrow> getPrefixField (b ! 0) HID_RepItem_Type = HID_RepItem_Type_Global"

definition is_local :: "u8 list \<Rightarrow> bool" where
  "is_local b \<longleftrightarrow> getPrefixField (b ! 0) HID_RepItem_Type = HID_RepItem_Type_Local"

definition tag_of :: "u8 list \<Rightarrow> u32" where
  "tag_of b = getPrefixField (b ! 0) HID_RepItem_Tag"

definition wf_item :: "u8 list \<Rightarrow> bool" where
  "wf_item b \<longleftrightarrow> length b = 1 + unat (getItemSize (nth b)) \<and> (is_main b \<or> is_global b \<or> is_local b) \<and>
     (is_main b \<and> (tag_of b = HID_RepItem_Tag_Input \<or> tag_of b = HID_RepItem_Tag_Output) \<longrightarrow> 1 < length b)"

fun run_items ::
  "u8 list list \<Rightarrow> USB_HID_ParseHelper \<Rightarrow> DataState \<Rightarrow> (parse_end \<times> USB_HID_ParseHelper \<times> DataState) option" where
  "run_items [] h st = Some (Parsed, h, st)"
| "run_items (b # bs) h st =
     Option.bind (item_step (nth b) h st) (\<lambda>(res, h, st). if \<not> res then Some (InvalidItem, h, st) else run_items bs h st)"

definition at_bytes :: "(nat \<Rightarrow> u8) \<Rightarrow> nat \<Rightarrow> u8 list \<Rightarrow> bool" where
  "at_bytes rep idx bs \<longleftrightarrow> (\<forall>i<length bs. rep (idx + i) = bs ! i)"

lemma at_bytes_append:
  "at_bytes rep idx (as @ bs) \<longleftrightarrow> at_bytes rep idx as \<and> at_bytes rep (idx + length as) bs"
proof
  assume a: "at_bytes rep idx (as @ bs)"
  then have "rep (idx + (length as + i)) = (as @ bs) ! (length as + i)" if "i < length bs" for i
    using that unfolding at_bytes_def by simp
  then show "at_bytes rep idx as \<and> at_bytes rep (idx + length as) bs"
    using a unfolding at_bytes_def by (auto simp: nth_append add.assoc split: if_splits)
next
  assume a: "at_bytes rep idx as \<and> at_bytes rep (idx + length as) bs"
  have "rep (idx + i) = (as @ bs) ! i" if i: "i < length (as @ bs)" for i
  proof (cases "i < length as")
    case False
    then obtain j where j: "i = length as + j" by (metis le_Suc_ex leI)
    then show ?thesis using a i unfolding at_bytes_def by (simp add: nth_append add.assoc)
  qed (use a in \<open>simp add: at_bytes_def nth_append\<close>)
  then show "at_bytes rep idx (as @ bs)" unfolding at_bytes_def by blast
qed

lemma getItemSize_cong: "r 0 = r' 0 \<Longrightarrow> getItemSize r = getItemSize r'"
  by (simp add: getItemSize_def)

lemma getItemData_cong:
  assumes "\<And>i. i \<le> unat (getItemSize r) \<Longrightarrow> r i = r' i"
  shows "getItemData r = getItemData r'"
proof -
  have "getItemSize r' = getItemSize r" using assms [of 0] by (intro getItemSize_cong) simp
  then show ?thesis using assms by (simp add: getItemData_def Let_def load16_def load32_def)
qed

lemma item_step_cong:
  assumes "at_bytes rep idx b" "wf_item b"
  shows "item_step (\<lambda>i. rep (idx + i)) h st = item_step (nth b) h st"
proof -
  have l: "0 < length b" using assms(2) by (simp add: wf_item_def)
  have z: "rep (idx + 0) = b ! 0" using assms(1) l unfolding at_bytes_def by blast
  have d: "getItemData (\<lambda>i. rep (idx + i)) = getItemData (nth b)"
    using assms getItemSize_cong [of "\<lambda>i. rep (idx + i)" "nth b", OF z]
    by (intro getItemData_cong) (simp add: at_bytes_def wf_item_def)
  have "1 < length b \<Longrightarrow> rep (idx + 1) = b ! 1" using assms(1) unfolding at_bytes_def by blast
  then show ?thesis
    using assms(2) z
    by (auto simp: item_step_def parseMain_def parseGlobal_def parseLocal_def d Let_def wf_item_def is_main_def tag_of_def
        simp del: One_nat_def)
qed

lemma parse_loop_item:
  assumes "at_bytes rep idx b" "wf_item b" "idx + length b \<le> len"
  shows "parse_loop rep len idx h st =
    Option.bind (item_step (nth b) h st)
      (\<lambda>(res, h, st). if \<not> res then Some (InvalidItem, h, st) else parse_loop rep len (idx + length b) h st)"
proof -
  have l: "length b = 1 + unat (getItemSize (nth b))" "idx < len" using assms by (simp_all add: wf_item_def)
  have z: "rep (idx + 0) = b ! 0" using assms(1) l(1) unfolding at_bytes_def by (metis add_gr_0 zero_less_one)
  have s: "getItemSize (\<lambda>i. rep (idx + i)) = getItemSize (nth b)" by (rule getItemSize_cong) (rule z)
  have n: "idx + 1 + unat (getItemSize (\<lambda>i. rep (idx + i))) = idx + length b" unfolding s l(1) by simp
  show ?thesis
    unfolding item_step_cong [OF assms(1,2), symmetric]
    apply (subst parse_loop.simps)
    using assms(2) l(2) unfolding n Let_def wf_item_def is_main_def is_global_def is_local_def z [symmetric]
    by (auto simp: item_step_def Let_def Option.bind_map_option o_def split_def
        intro!: arg_cong [where f = "Option.bind _"] split: prod.splits)
qed

lemma parse_loop_end: "parse_loop rep len len h st = Some (Parsed, h, st)"
  by (subst parse_loop.simps) simp

lemma parse_loop_items:
  assumes "\<forall>b\<in>set bs. wf_item b" "at_bytes rep idx (concat bs)" "idx + length (concat bs) \<le> len"
  shows "parse_loop rep len idx h st = Option.bind (run_items bs h st)
    (\<lambda>(e, h, st). if e = Parsed then parse_loop rep len (idx + length (concat bs)) h st else Some (e, h, st))"
  using assms
proof (induction bs arbitrary: idx h st)
  case (Cons b bs)
  have "parse_loop rep len (idx + length b) h st = Option.bind (run_items bs h st)
    (\<lambda>(e, h, st). if e = Parsed then parse_loop rep len (idx + length (concat (b # bs))) h st else Some (e, h, st))" for h st
    using Cons.prems by (subst Cons.IH) (auto simp: at_bytes_append add.assoc cong: if_cong)
  note IH = this
  have p: "parse_loop rep len idx h st = Option.bind (item_step (nth b) h st)
    (\<lambda>(res, h, st). if \<not> res then Some (InvalidItem, h, st) else parse_loop rep len (idx + length b) h st)"
    using Cons.prems by (intro parse_loop_item) (auto simp: at_bytes_append)
  show ?case
  proof (cases "item_step (nth b) h st")
    case (Some x)
    obtain res h1 st1 where "x = (res, h1, st1)" by (cases x)
    then show ?thesis unfolding p run_items.simps Some by (cases res) (simp_all add: IH)
  qed (simp add: p)
qed simp

section \<open>The sizes of the reports\<close>

text \<open>
  Reference: the bits of all items with tag \<open>tg\<close>, from the current count \<open>c\<close> and size \<open>s\<close> of fields.
\<close>

fun report_bits :: "u32 \<Rightarrow> u8 list list \<Rightarrow> i32 \<Rightarrow> i32 \<Rightarrow> i32" where
  "report_bits tg [] c s = 0"
| "report_bits tg (b # bs) c s =
     (if is_global b \<and> tag_of b = HID_RepItem_Tag_ReportCnt then report_bits tg bs (getItemData (nth b)) s
      else if is_global b \<and> tag_of b = HID_RepItem_Tag_ReportSize then report_bits tg bs c (getItemData (nth b))
      else if is_main b \<and> tag_of b = tg then c * s + report_bits tg bs c s
      else report_bits tg bs c s)"

text \<open>
  The limits of the parser: 8 collections in each other, 16 usages of each, 6 keys, no empty field.
  \<open>d\<close> is the depth, \<open>u\<close> counts the usages, \<open>pg\<close> is the usage page.
\<close>

fun fits :: "u8 list list \<Rightarrow> nat \<Rightarrow> (nat \<Rightarrow> nat) \<Rightarrow> u8 \<Rightarrow> i32 \<Rightarrow> i32 \<Rightarrow> bool" where
  "fits [] d u pg c s \<longleftrightarrow> True"
| "fits (b # bs) d u pg c s \<longleftrightarrow>
    (if is_main b then
       (if tag_of b = HID_RepItem_Tag_Input \<or> tag_of b = HID_RepItem_Tag_Output then
          c \<noteq> 0 \<and> (pg = 7 \<and> s \<noteq> 1 \<and> \<not> HID_RepItem_Main_isConst (b ! 1) \<longrightarrow> sint c \<le> 6) \<and> fits bs d (u(d := 0)) pg c s
        else if tag_of b = HID_RepItem_Tag_EndColl then 0 < d \<and> fits bs (d - 1) u pg c s
        else if tag_of b = HID_RepItem_Tag_Feature then fits bs d u pg c s
        else tag_of b = HID_RepItem_Tag_Coll \<and> d < 7 \<and> fits bs (d + 1) u pg c s)
     else if is_global b then
       (if tag_of b = HID_RepItem_Tag_UsagePage then fits bs d u (ucast (getItemData (nth b))) c s
        else if tag_of b = HID_RepItem_Tag_ReportCnt then fits bs d u pg (getItemData (nth b)) s
        else if tag_of b = HID_RepItem_Tag_ReportSize then fits bs d u pg c (getItemData (nth b))
        else tag_of b \<in> {HID_RepItem_Tag_LogicalMin, HID_RepItem_Tag_LogicalMax, HID_RepItem_Tag_ReportId} \<and>
          fits bs d u pg c s)
     else
       (if tag_of b = HID_RepItem_Tag_Usage then u d < 16 \<and> fits bs d (u(d := u d + 1)) pg c s
        else tag_of b \<in> {HID_RepItem_Tag_UsageMin, HID_RepItem_Tag_UsageMax} \<and> fits bs d u pg c s))"

definition tracks :: "nat \<Rightarrow> (nat \<Rightarrow> nat) \<Rightarrow> u8 \<Rightarrow> i32 \<Rightarrow> i32 \<Rightarrow> DataState \<Rightarrow> bool" where
  "tracks d u pg c s st \<longleftrightarrow> d < 8 \<and> locTop st = of_nat d \<and> (\<forall>i<8. usageNum st i = of_nat (u i) \<and> u i \<le> 16) \<and>
     usagePg st = pg \<and> dsCnt st = c \<and> dsSz st = s"

lemma sint_small: "n < 2 ^ 31 \<Longrightarrow> sint (of_nat n :: i32) = int n"
  by (simp add: signed_of_nat signed_take_bit_int_eq_self)

lemma count_row_total: "\<forall>j\<in>set js. j < 16 \<Longrightarrow> \<exists>r. count_row f u js = Some r"
  by (induction js) auto

lemma count_rows_total:
  assumes "\<forall>i<8. sint (usageNum st i) \<le> 16" "\<forall>i\<in>set is. 0 \<le> i \<and> i < 8"
  shows "\<exists>r. count_rows st u is = Some r"
  using assms(2)
proof (induction "is")
  case (Cons i js)
  then have "nat i < 8" by (simp add: nat_less_iff)
  then have "nat (sint (usageNum st (nat i))) \<le> 16" using assms(1) by (metis nat_le_iff of_nat_numeral)
  then obtain r where "count_row (usage st (nat i)) u [0..<nat (sint (usageNum st (nat i)))] = Some r"
    using count_row_total [of "[0..<nat (sint (usageNum st (nat i)))]"] by auto
  then have "count_rows st u (i # js) = (if r then Some True else count_rows st u js)"
    using Cons.prems by auto
  with Cons show ?case by (cases r) auto
qed (rule exI [of _ False], simp)

lemma countUsage_total:
  assumes "tracks d u pg c s st" "k = 0 \<or> k = - 1"
  shows "\<exists>r. countUsage st k v = Some r"
proof -
  have d: "sint (locTop st) = int d" "d < 8" "locTop st + - 1 + 1 = locTop st"
    using assms(1) by (auto simp: tracks_def sint_small)
  have n: "sint (usageNum st i) \<le> 16" if "i < 8" for i
  proof -
    have "usageNum st i = of_nat (u i)" "u i \<le> 16" using assms(1) that by (auto simp: tracks_def)
    then show ?thesis by (simp add: sint_small)
  qed
  show ?thesis
    unfolding countUsage_def using assms(2) d n by (intro count_rows_total) (auto simp: word_sless_alt)
qed

lemma key_loop_ok:
  "\<forall>i\<in>set is. i < 6 \<Longrightarrow> \<exists>h'. key_loop st flags is h = Some h' \<and> inSz h' = inSz h \<and> outSz h' = outSz h"
proof (induction "is" arbitrary: h)
  case (Cons i js)
  define h1 where "h1 = h\<lparr>items := (items h)(item_key i := \<lparr>rgMn = lgMn st, rgMx = lgMx st, riFlags = flags,
    riSize = ucast (dsSz st), riOff = ucast (inSz h + of_nat i * dsSz st)\<rparr>)\<rparr>"
  have "key_loop st flags (i # js) h = key_loop st flags js h1" using Cons.prems by (simp add: h1_def)
  moreover have "inSz h1 = inSz h" "outSz h1 = outSz h" by (simp_all add: h1_def)
  ultimately show ?case using Cons.IH [of h1] Cons.prems by simp
qed simp

lemma usagePg_7: "(ucast (p :: u8) :: u32) = 7 \<longleftrightarrow> p = 7"
  using unat_u8_less [of p] by (simp add: word_unat_eq_iff unsigned_ucast_eq take_bit_nat_eq_self)

lemma and_then_total: "\<exists>x. a = Some x \<Longrightarrow> \<exists>x. b = Some x \<Longrightarrow> \<exists>x. and_then a b = Some x"
  by (auto simp: and_then_def split: bool.split)

lemma modiChk_total:
  assumes "tracks d u pg c s st"
  shows "\<exists>r. modiChk m st isIn flags = Some r"
  using countUsage_total [OF assms]
  by (cases m) (auto intro!: and_then_total simp: modiChk_mouseBtn_def modiChk_mouseX_def modiChk_mouseY_def
      modiChk_mouseWheel_def modiChk_mouseAxis_def modiChk_keyboard_def)

lemma modi_total:
  assumes "m = keyboard \<longrightarrow> dsSz st \<noteq> 1 \<longrightarrow> sint (dsCnt st) \<le> 6"
  shows "\<exists>n h'. modi m st isIn flags h = Some (n, h') \<and> inSz h' = inSz h \<and> outSz h' = outSz h"
proof (cases "m = keyboard \<and> dsSz st \<noteq> 1")
  case True
  then have "\<forall>i\<in>set [0..<nat (sint (dsCnt st))]. i < 6" using assms by auto
  from key_loop_ok [OF this] True show ?thesis
    by (auto simp: modi_keyboard_def Let_def) (metis USB_HID_ParseHelper.select_convs(3,4) USB_HID_ParseHelper.surjective
      USB_HID_ParseHelper.update_convs(1))
qed (cases m; auto simp: modi_mouseBtn_def modi_mouseX_def modi_mouseY_def modi_mouseWheel_def modi_keyboard_def
    applyItem_def set_size_def Let_def)

lemma add_size_simps [simp]:
  "inSz (add_size isIn n h) = (if isIn then inSz h + n else inSz h)"
  "outSz (add_size isIn n h) = (if isIn then outSz h else outSz h + n)"
  by (simp_all add: add_size_def)

text \<open>The sizes grow by the fields that the modifiers have taken.\<close>

definition grown :: "bool \<Rightarrow> i32 \<Rightarrow> USB_HID_ParseHelper \<Rightarrow> USB_HID_ParseHelper \<Rightarrow> bool" where
  "grown isIn n h h' \<longleftrightarrow> inSz h' = (if isIn then inSz h + n else inSz h) \<and> outSz h' = (if isIn then outSz h else outSz h + n)"

lemma modify_loop_ok:
  assumes "tracks d u pg c s st" "pg = 7 \<and> s \<noteq> 1 \<and> isIn \<and> \<not> HID_RepItem_Main_isConst flags \<longrightarrow> sint c \<le> 6"
  shows "\<exists>n h'. modify_loop st isIn flags ms uCnt h = Some (n, h') \<and> grown isIn ((n - uCnt) * s) h h'"
proof (induction ms arbitrary: uCnt h)
  case Nil
  then show ?case by (simp add: grown_def)
next
  case (Cons m ms)
  have st: "dsCnt st = c" "dsSz st = s" "usagePg st = pg" using assms(1) by (simp_all add: tracks_def)
  obtain r where r: "modiChk m st isIn flags = Some r" using modiChk_total [OF assms(1)] by blast
  show ?case
  proof (cases r)
    case False
    then show ?thesis using Cons.IH r by simp
  next
    case True
    have "m = keyboard \<longrightarrow> dsSz st \<noteq> 1 \<longrightarrow> sint (dsCnt st) \<le> 6"
      using r True assms(2) by (auto simp: modiChk_keyboard_def st HID_UsagePage_Keyboard_def usagePg_7)
    from modi_total [OF this] obtain n h1 where
      m: "modi m st isIn flags h = Some (n, h1)" "inSz h1 = inSz h" "outSz h1 = outSz h" by blast
    have g: "grown isIn ((uCnt + n - uCnt) * s) h (add_size isIn (n * s) h1)" by (simp add: grown_def m)
    show ?thesis
    proof (cases "uCnt + n = c")
      case True
      then show ?thesis using r \<open>r\<close> m(1) g by (auto simp: st)
    next
      case False
      from Cons.IH obtain n' h' where
        "modify_loop st isIn flags ms (uCnt + n) (add_size isIn (n * s) h1) = Some (n', h')"
        "grown isIn ((n' - (uCnt + n)) * s) (add_size isIn (n * s) h1) h'" by blast
      moreover have "grown isIn ((n' - uCnt) * s) h h'"
        using calculation(2) m(2,3) by (auto simp: grown_def algebra_simps)
      ultimately show ?thesis using r \<open>r\<close> m(1) False by (auto simp: st)
    qed
  qed
qed

lemma tryModify_ok:
  assumes "tracks d u pg c s st" "pg = 7 \<and> s \<noteq> 1 \<and> isIn \<and> \<not> HID_RepItem_Main_isConst flags \<longrightarrow> sint c \<le> 6" "c \<noteq> 0"
  shows "\<exists>h'. tryModify st isIn flags h = Some h' \<and> grown isIn (c * s) h h'"
proof -
  have st: "dsCnt st = c" "dsSz st = s" using assms(1) by (simp_all add: tracks_def)
  from modify_loop_ok [OF assms(1,2)] obtain n h1 where
    "modify_loop st isIn flags regDefaultModifier 0 h = Some (n, h1)" "grown isIn ((n - 0) * s) h h1" by blast
  then show ?thesis using assms(3) by (auto simp: tryModify_def st grown_def algebra_simps)
qed

lemma tracks_top: "tracks d u pg c s st \<Longrightarrow> top_row st = Some d"
  by (auto simp: tracks_def top_row_def Let_def sint_small)

lemmas tag_defs = HID_RepItem_Tag_Input_def HID_RepItem_Tag_Output_def HID_RepItem_Tag_Coll_def
  HID_RepItem_Tag_Feature_def HID_RepItem_Tag_EndColl_def HID_RepItem_Tag_Usage_def HID_RepItem_Tag_UsageMin_def
  HID_RepItem_Tag_UsageMax_def HID_RepItem_Tag_UsagePage_def HID_RepItem_Tag_LogicalMin_def
  HID_RepItem_Tag_LogicalMax_def HID_RepItem_Tag_ReportSize_def HID_RepItem_Tag_ReportId_def HID_RepItem_Tag_ReportCnt_def

lemmas type_defs = HID_RepItem_Type_Main_def HID_RepItem_Type_Global_def HID_RepItem_Type_Local_def

lemma item_step_main: "is_main b \<Longrightarrow> item_step (nth b) h st = parseMain h (nth b) st"
  by (simp add: item_step_def is_main_def Let_def)

lemma item_step_global:
  "is_global b \<Longrightarrow> item_step (nth b) h st = (let (res, st) = parseGlobal (nth b) st in Some (res, h, st))"
  by (simp add: item_step_def is_global_def Let_def type_defs)

lemma item_step_local:
  "\<not> is_main b \<Longrightarrow> \<not> is_global b \<Longrightarrow>
     item_step (nth b) h st = map_option (\<lambda>(res, st). (res, h, st)) (parseLocal (nth b) st)"
  by (simp add: item_step_def is_main_def is_global_def Let_def)

lemma main_not_global: "is_main b \<Longrightarrow> \<not> is_global b"
  by (simp add: is_main_def is_global_def type_defs)

lemma getPrefixField_simps:
  "getPrefixField p HID_RepItem_Size = ucast p AND 3"
  "getPrefixField p HID_RepItem_Type = drop_bit 2 (ucast p AND 0xc)"
  "getPrefixField p HID_RepItem_Tag = drop_bit 4 (ucast p AND 0xf0)"
  using Bit_ffs_run [of 2 0] Bit_ffs_run [of 2 2] Bit_ffs_run [of 4 4]
  by (simp_all add: getPrefixField_def HID_RepItem_Size_def HID_RepItem_Type_def HID_RepItem_Tag_def mask_numeral push_bit_eq_mult)

lemmas item_simps = item_step_def getItemData_def getItemSize_def getPrefixField_simps type_defs tag_defs Let_def

definition sizes_grow :: "i32 \<Rightarrow> i32 \<Rightarrow> USB_HID_ParseHelper \<Rightarrow> USB_HID_ParseHelper \<Rightarrow> bool" where
  "sizes_grow a b h h' \<longleftrightarrow> inSz h' = inSz h + a \<and> outSz h' = outSz h + b"

lemma run_items_sizes:
  assumes "fits bs d u pg c s" "tracks d u pg c s st"
  shows "\<exists>h' st'. run_items bs h st = Some (Parsed, h', st') \<and>
    sizes_grow (report_bits HID_RepItem_Tag_Input bs c s) (report_bits HID_RepItem_Tag_Output bs c s) h h'"
  using assms
proof (induction bs arbitrary: d u pg c s h st)
  case Nil
  then show ?case by (simp add: sizes_grow_def)
next
  case (Cons b bs)
  let ?I = "report_bits HID_RepItem_Tag_Input" let ?O = "report_bits HID_RepItem_Tag_Output"
  have step: ?case if
    "item_step (nth b) h st = Some (True, h1, st1)" "fits bs d1 u1 pg1 c1 s1" "tracks d1 u1 pg1 c1 s1 st1"
    "sizes_grow (?I (b # bs) c s - ?I bs c1 s1) (?O (b # bs) c s - ?O bs c1 s1) h h1" for h1 st1 d1 u1 pg1 c1 s1
  proof -
    from Cons.IH [OF that(2,3)] obtain h' st' where
      "run_items bs h1 st1 = Some (Parsed, h', st')" "sizes_grow (?I bs c1 s1) (?O bs c1 s1) h1 h'" by blast
    then show ?thesis using that(1,4) by (auto simp: sizes_grow_def simp del: report_bits.simps)
  qed
  have t: "d < 8" "locTop st = of_nat d" "dsCnt st = c" "dsSz st = s" "usagePg st = pg"
    "\<And>i. i < 8 \<Longrightarrow> usageNum st i = of_nat (u i)" "\<And>i. i < 8 \<Longrightarrow> u i \<le> 16"
    using Cons.prems(2) by (auto simp: tracks_def)
  note tag = tag_of_def [symmetric]
  consider (io) "is_main b" "tag_of b = HID_RepItem_Tag_Input \<or> tag_of b = HID_RepItem_Tag_Output"
    | (m) "is_main b" "tag_of b \<noteq> HID_RepItem_Tag_Input" "tag_of b \<noteq> HID_RepItem_Tag_Output"
    | (g) "is_global b" "\<not> is_main b" | (l) "\<not> is_main b" "\<not> is_global b"
    using main_not_global by blast
  then show ?case
  proof cases
    case io
    let ?in = "tag_of b = HID_RepItem_Tag_Input"
    have f: "c \<noteq> 0" "pg = 7 \<and> s \<noteq> 1 \<and> ?in \<and> \<not> HID_RepItem_Main_isConst (b ! 1) \<longrightarrow> sint c \<le> 6"
      "fits bs d (u(d := 0)) pg c s"
      using Cons.prems(1) io by auto
    from tryModify_ok [OF Cons.prems(2) f(2,1)] obtain h1 where
      h1: "tryModify st ?in (b ! 1) h = Some h1" "grown ?in (c * s) h h1" by blast
    let ?st = "st\<lparr>usageNum := (usageNum st)(d := 0)\<rparr>"
    have "item_step (nth b) h st = Some (True, h1, ?st)"
      using io h1(1) tracks_top [OF Cons.prems(2)] by (auto simp: item_step_main parseMain_def tag Let_def)
    moreover have "tracks d (u(d := 0)) pg c s ?st" using Cons.prems(2) by (auto simp: tracks_def)
    moreover have "sizes_grow (?I (b # bs) c s - ?I bs c s) (?O (b # bs) c s - ?O bs c s) h h1"
      using h1(2) io main_not_global [OF io(1)] by (auto simp: sizes_grow_def grown_def tag_defs)
    ultimately show ?thesis by (intro step [OF _ f(3)])
  next
    case m
    then have "\<exists>st1 d1. item_step (nth b) h st = Some (True, h, st1) \<and> fits bs d1 u pg c s \<and> tracks d1 u pg c s st1"
      using Cons.prems t(1,2)
      by (auto simp: item_step_main parseMain_def tag Let_def tag_defs tracks_def of_nat_diff split: if_splits)
    moreover have "sizes_grow (?I (b # bs) c s - ?I bs c s) (?O (b # bs) c s - ?O bs c s) h h"
      using m main_not_global [OF m(1)] by (auto simp: sizes_grow_def)
    ultimately show ?thesis by (blast intro: step)
  next
    case g
    let ?st = "snd (parseGlobal (nth b) st)"
    let ?p = "usagePg ?st" let ?c = "dsCnt ?st" let ?s = "dsSz ?st"
    have "item_step (nth b) h st = Some (True, h, ?st) \<and> fits bs d u ?p ?c ?s \<and> tracks d u ?p ?c ?s ?st \<and>
      sizes_grow (?I (b # bs) c s - ?I bs ?c ?s) (?O (b # bs) c s - ?O bs ?c ?s) h h"
      using g Cons.prems t(1-5)
      by (auto simp: item_step_global parseGlobal_def tag Let_def tracks_def sizes_grow_def tag_defs split: if_splits)
    then show ?thesis by (blast intro: step)
  next
    case l
    then have "\<exists>st1 u1. item_step (nth b) h st = Some (True, h, st1) \<and> fits bs d u1 pg c s \<and> tracks d u1 pg c s st1"
    proof (cases "tag_of b = HID_RepItem_Tag_Usage")
      case True
      have n: "sint (usageNum st d) = int (u d)" "u d < 16"
        using t(1,6) Cons.prems(1) l True by (simp_all add: sint_small tag_defs)
      then have "\<exists>st1. item_step (nth b) h st = Some (True, h, st1) \<and> tracks d (u(d := u d + 1)) pg c s st1"
        using l True tracks_top [OF Cons.prems(2)] Cons.prems(2)
        by (auto simp: item_step_local parseLocal_def tag Let_def tag_defs tracks_def)
      then show ?thesis using l True Cons.prems(1) by auto
    next
      case False
      then have "\<exists>st1. item_step (nth b) h st = Some (True, h, st1) \<and> tracks d u pg c s st1"
        using l tracks_top [OF Cons.prems(2)] Cons.prems
        by (auto simp: item_step_local parseLocal_def tag Let_def tag_defs tracks_def)
      then show ?thesis using l False Cons.prems(1) by auto
    qed
    moreover have "sizes_grow (?I (b # bs) c s - ?I bs c s) (?O (b # bs) c s - ?O bs c s) h h"
      using l by (auto simp: sizes_grow_def)
    ultimately show ?thesis by (blast intro: step)
  qed
qed


text \<open>
  a long item, behind items that the parser accepts, makes it return with its lock held: every later
  descriptor, of any device, makes the processor spin for ever.
\<close>

theorem HID_long_item_lock:
  assumes "\<forall>b\<in>set bs. wf_item b" "fits bs 0 (\<lambda>_. 0) 0 0 0" "at_bytes rep 0 (concat bs)" "lock l = 0"
    "length (concat bs) < len" "getPrefixField (rep (length (concat bs))) HID_RepItem_Type = HID_RepItem_Type_Long"
  shows "\<exists>l' h. HW_USB_HID_genParseHelper l rep len = Some (l', h) \<and> (\<forall>rep' len'. HW_USB_HID_genParseHelper l' rep' len' = None)"
proof -
  have "tracks 0 (\<lambda>_. 0) 0 0 0 DataState0" by (simp add: tracks_def DataState0_def)
  from run_items_sizes [OF assms(2) this] obtain h' st' where
    r: "run_items bs helper0 DataState0 = Some (Parsed, h', st')" by blast
  have "parse_loop rep len (length (concat bs)) h' st' = Some (NoLongItems, h', st')"
    using assms(5,6) by (subst parse_loop.simps) (simp add: Let_def type_defs HID_RepItem_Type_Long_def)
  then have "parse_loop rep len 0 helper0 DataState0 = Some (NoLongItems, h', st')"
    using r parse_loop_items [OF assms(1,3)] assms(5) by simp
  then have "HW_USB_HID_genParseHelper l rep len = Some (l\<lparr>lock := 1\<rparr>, h')"
    using assms(4) by (simp add: HW_USB_HID_genParseHelper_def SpinLock_acquire_free)
  moreover have "HW_USB_HID_genParseHelper (l\<lparr>lock := 1\<rparr>) rep' len' = None" for rep' len'
    by (simp add: HW_USB_HID_genParseHelper_def SpinLock_acquire_held)
  ultimately show ?thesis by blast
qed

lemma at_bytes_nth: "at_bytes (nth (as @ bs)) 0 as"
  by (simp add: at_bytes_def nth_append)


theorem HID_long_item_lock_witness:
  "\<exists>l' h. HW_USB_HID_genParseHelper \<lparr>lock = 0\<rparr> (nth [0x05, 0x07, 0xfe]) 3 = Some (l', h) \<and>
    (\<forall>rep' len'. HW_USB_HID_genParseHelper l' rep' len' = None)"
  using HID_long_item_lock [of "[[0x05, 0x07]]" "nth [0x05, 0x07, 0xfe]" "\<lparr>lock = 0\<rparr>" 3]
    at_bytes_nth [of "[0x05, 0x07]" "[0xfe]"]
  by (simp add: wf_item_def is_main_def is_global_def is_local_def tag_of_def item_simps
      HID_RepItem_Type_Long_def)

end
