(* ===== verification/Hid_Mouse.thy ===== *)
theory Hid_Mouse
  imports Hid_Props
begin

text \<open>
  The descriptor of a mouse, run through the parser symbolically, and what the parser of reports then reads.
\<close>

section \<open>The steps of the parser for items with one byte of data\<close>

lemma ucast_scast_u8: "ucast (scast (x :: u8) :: u32) = x"
  by (rule bit_word_eqI) (auto simp: bit_simps)

lemma short_global:
  "item_step (nth [0x05, x]) h st = Some (True, h, st\<lparr>usagePg := x\<rparr>)"
  "item_step (nth [0x15, x]) h st = Some (True, h, st\<lparr>lgMn := scast x\<rparr>)"
  "item_step (nth [0x25, x]) h st = Some (True, h, st\<lparr>lgMx := scast x\<rparr>)"
  "item_step (nth [0x75, x]) h st = Some (True, h, st\<lparr>dsSz := scast x\<rparr>)"
  "item_step (nth [0x95, x]) h st = Some (True, h, st\<lparr>dsCnt := scast x\<rparr>)"
  by (simp_all add: parseGlobal_def item_simps ucast_scast_u8)

lemma short_local:
  assumes "top_row st = Some i"
  shows "item_step (nth [0x19, x]) h st = Some (True, h, st\<lparr>phyMn := (phyMn st)(i := scast x)\<rparr>)"
  "item_step (nth [0x29, x]) h st = Some (True, h, st\<lparr>phyMx := (phyMx st)(i := scast x)\<rparr>)"
  using assms by (simp_all add: parseLocal_def item_simps)

lemma short_usage:
  assumes "top_row st = Some i" "unat (usageNum st i) < 16"
  shows "item_step (nth [0x09, x]) h st =
     Some (True, h, st\<lparr>usage := (usage st)(i := (usage st i)(unat (usageNum st i) := scast x)),
                       usageNum := (usageNum st)(i := usageNum st i + 1)\<rparr>)"
proof -
  have "sint (usageNum st i) = int (unat (usageNum st i))" using assms(2) sint_small [of "unat (usageNum st i)"] by simp
  then show ?thesis
    using assms unfolding item_simps parseLocal_def by (simp del: of_nat_unat uint_nat)
qed

lemma short_main:
  "item_step (nth [0xa1, x]) h st = Some (True, h, st\<lparr>locTop := locTop st + 1\<rparr>)"
  "item_step (nth [0xc0]) h st = Some (True, h, st\<lparr>locTop := locTop st - 1\<rparr>)"
  "top_row st = Some i \<Longrightarrow> tryModify st True x h = Some h' \<Longrightarrow>
     item_step (nth [0x81, x]) h st = Some (True, h', st\<lparr>usageNum := (usageNum st)(i := 0)\<rparr>)"
  by (simp_all add: parseMain_def item_simps)

section \<open>A mouse\<close>

text \<open>
  The usual descriptor of a mouse: \<open>nb\<close> buttons of one bit, \<open>pad\<close> unused bits, then x, y and wheel as relative values
  of \<open>w\<close> bits.
\<close>

definition mouse_desc :: "u8 \<Rightarrow> u8 \<Rightarrow> u8 \<Rightarrow> u8 list list" where
  "mouse_desc nb pad w =
     [[0x05, 0x01], [0x09, 0x02], [0xa1, 0x01], [0x09, 0x01], [0xa1, 0x00],
      [0x05, 0x09], [0x19, 0x01], [0x29, nb], [0x15, 0x00], [0x25, 0x01], [0x95, nb], [0x75, 0x01], [0x81, 0x02],
      [0x95, 0x01], [0x75, pad], [0x81, 0x03],
      [0x05, 0x01], [0x09, 0x30], [0x09, 0x31], [0x09, 0x38], [0x15, 0x81], [0x25, 0x7f],
      [0x75, w], [0x95, 0x03], [0x81, 0x06], [0xc0], [0xc0]]"

lemma run_items_step:
  "item_step (nth b) h st = Some (True, h', st') \<Longrightarrow> run_items (b # bs) h st = run_items bs h' st'"
  by simp

lemmas run_steps = short_global [THEN run_items_step] short_local [THEN run_items_step] short_usage [THEN run_items_step] short_main [THEN run_items_step]

definition buttons_st :: "u8 \<Rightarrow> DataState" where
  "buttons_st nb = \<lparr>lgMn = 0, lgMx = 1, dsId = 0, dsCnt = scast nb, dsSz = 1, usagePg = 9,
           usage = (\<lambda>_ _. 0)(0 := (\<lambda>_. 0)(0 := 2), 1 := (\<lambda>_. 0)(0 := 1)), phyMn = (\<lambda>_. 0)(2 := 1), phyMx = (\<lambda>_. 0)(2 := scast nb), locTop = 2,
           usageNum = (\<lambda>_. 0)(0 := 1, 1 := 1)\<rparr>"

lemma mouse_buttons:
 "run_items ([0x05, 0x01] # [0x09, 0x02] # [0xa1, 0x01] # [0x09, 0x01] # [0xa1, 0x00] #
      [0x05, 0x09] # [0x19, 0x01] # [0x29, nb] # [0x15, 0x00] # [0x25, 0x01] # [0x95, nb] # [0x75, 0x01] # bs) h DataState0 =
  run_items bs h (buttons_st nb)"
  by (simp add: run_steps DataState0_def top_row_def Let_def buttons_st_def del: run_items.simps)

lemma scast_u8_small:
  assumes "unat (x :: u8) < 128" shows "(scast x :: i32) = of_nat (unat x)"
proof -
  have "int (unat x) < 128" using assms by linarith
  then have "uint x < 128" by simp
  then have s: "sint x = int (unat x)" unfolding sint_uint
    by (subst signed_take_bit_int_eq_self) (auto intro: order_trans [OF _ uint_ge_0])
  have "(scast x :: i32) = word_of_int (sint x)" by (rule scast_eq)
  also have "\<dots> = of_nat (unat x)" unfolding s by (rule of_int_of_nat_eq)
  finally show ?thesis .
qed

lemma count_axis: "[0..2] = [0, 1, 2::int]" "[2..2] = [2::int]" "[0..<3] = [0, 1, 2::nat]"
  by (simp_all add: upto.simps upt_rec)

lemmas modi_simps = modiChk_mouseBtn_def modiChk_mouseX_def modiChk_mouseY_def
      modiChk_mouseWheel_def modiChk_mouseAxis_def modiChk_keyboard_def and_then_def
 modi_mouseBtn_def modi_mouseX_def modi_mouseY_def modi_mouseWheel_def modi_keyboard_def
    applyItem_def set_size_def Let_def add_size_def HID_RepItem_Main_isConst_def HID_RepItem_Main_isRel_def
 item_btn_def item_x_def item_y_def item_wheel_def
 HID_Usage_Mouse_def HID_Usage_X_def HID_Usage_Y_def HID_Usage_Wheel_def HID_UsagePage_Button_def HID_UsagePage_Keyboard_def

lemma try_buttons:
  "tryModify (buttons_st nb) True 2 h = Some (h\<lparr>inSz := inSz h + scast nb,
     items := (items h)(0 := \<lparr>rgMn = 0, rgMx = 1, riFlags = 2, riSize = nb, riOff = ucast (inSz h)\<rparr>)\<rparr>)"
  by (simp add: tryModify_def regDefaultModifier_def modi_simps countUsage_def buttons_st_def count_axis ucast_scast_u8)

definition pad_st :: "u8 \<Rightarrow> u8 \<Rightarrow> DataState" where
  "pad_st nb pad = (buttons_st nb)\<lparr>dsCnt := 1, dsSz := scast pad, usageNum := (\<lambda>_. 0)(0 := 1, 1 := 1, 2 := 0)\<rparr>"

lemma try_pad: "tryModify (pad_st nb pad) True 3 h = Some (h\<lparr>inSz := inSz h + scast pad\<rparr>)"
  by (simp add: tryModify_def regDefaultModifier_def modi_simps countUsage_def pad_st_def buttons_st_def count_axis)

lemma mouse_pad:
  "run_items ([0x81, 0x02] # [0x95, 0x01] # [0x75, pad] # bs) h (buttons_st nb) =
   run_items bs (h\<lparr>inSz := inSz h + scast nb,
     items := (items h)(0 := \<lparr>rgMn = 0, rgMx = 1, riFlags = 2, riSize = nb, riOff = ucast (inSz h)\<rparr>)\<rparr>) (pad_st nb pad)"
proof -
  have t: "top_row (buttons_st nb) = Some 2" by (simp add: top_row_def buttons_st_def Let_def)
  show ?thesis
   by (subst run_items_step [OF short_main(3) [OF t try_buttons]])
    (simp add: run_steps pad_st_def buttons_st_def top_row_def Let_def fun_upd_twist del: run_items.simps)
qed

definition axis_st :: "u8 \<Rightarrow> u8 \<Rightarrow> DataState" where
  "axis_st nb w = (buttons_st nb)\<lparr>lgMn := - 127, lgMx := 127, dsCnt := 3, dsSz := scast w, usagePg := 1,
     usage := (\<lambda>_ _. 0)(0 := (\<lambda>_. 0)(0 := 2), 1 := (\<lambda>_. 0)(0 := 1), 2 := (\<lambda>_. 0)(0 := 0x30, 1 := 0x31, 2 := 0x38)),
     usageNum := (\<lambda>_. 0)(0 := 1, 1 := 1, 2 := 3)\<rparr>"

lemma mouse_axis:
  "run_items ([0x81, 0x03] # [0x05, 0x01] # [0x09, 0x30] # [0x09, 0x31] # [0x09, 0x38] # [0x15, 0x81] # [0x25, 0x7f] #
      [0x75, w] # [0x95, 0x03] # bs) h (pad_st nb pad) =
   run_items bs (h\<lparr>inSz := inSz h + scast pad\<rparr>) (axis_st nb w)"
proof -
  have t: "top_row (pad_st nb pad) = Some 2" by (simp add: top_row_def buttons_st_def pad_st_def Let_def)
  show ?thesis
   by (subst run_items_step [OF short_main(3) [OF t try_pad]])
    (simp add: run_steps pad_st_def buttons_st_def axis_st_def top_row_def Let_def fun_upd_twist del: run_items.simps)
qed

lemma axis_usages:
  "countUsage (axis_st nb w) 0 2 = Some True" "countUsage (axis_st nb w) (- 1) 0x30 = Some True"
  "countUsage (axis_st nb w) (- 1) 0x31 = Some True" "countUsage (axis_st nb w) (- 1) 0x38 = Some True"
  by (simp_all add: countUsage_def axis_st_def buttons_st_def count_axis upt_rec_numeral)

lemma axis_fields: "dsCnt (axis_st nb w) = 3" "dsSz (axis_st nb w) = scast w" "usagePg (axis_st nb w) = 1"
  "lgMn (axis_st nb w) = - 127" "lgMx (axis_st nb w) = 127"
  by (simp_all add: axis_st_def)

definition axis_helper :: "u8 \<Rightarrow> USB_HID_ParseHelper \<Rightarrow> USB_HID_ParseHelper" where
  "axis_helper w h = h\<lparr>hpType := 2,
     items := (items h)(1 := \<lparr>rgMn = - 127, rgMx = 127, riFlags = 6, riSize = w, riOff = ucast (inSz h)\<rparr>,
       2 := \<lparr>rgMn = - 127, rgMx = 127, riFlags = 6, riSize = w, riOff = ucast (inSz h + scast w)\<rparr>,
       3 := \<lparr>rgMn = - 127, rgMx = 127, riFlags = 6, riSize = w, riOff = ucast (2 * scast w + inSz h)\<rparr>),
     inSz := 3 * scast w + inSz h\<rparr>"

lemma try_axis: "tryModify (axis_st nb w) True 6 h = Some (axis_helper w h)"
  by (simp add: tryModify_def regDefaultModifier_def modi_simps axis_usages axis_fields ucast_scast_u8
     USB_HID_ReportHelper_Type_Mouse_def axis_helper_def)

lemma mouse_end:
  "\<exists>st. run_items ([0x81, 0x06] # [0xc0] # [[0xc0]]) h (axis_st nb w) = Some (Parsed, axis_helper w h, st)"
proof -
  have t: "top_row (axis_st nb w) = Some 2" by (simp add: top_row_def buttons_st_def axis_st_def Let_def)
  show ?thesis
   by (subst run_items_step [OF short_main(3) [OF t try_axis]]) (simp add: short_main)
qed

definition mouse_helper :: "u8 \<Rightarrow> u8 \<Rightarrow> u8 \<Rightarrow> USB_HID_ParseHelper" where
  "mouse_helper nb pad w = axis_helper w (helper0\<lparr>inSz := scast nb + scast pad,
     items := (items helper0)(0 := \<lparr>rgMn = 0, rgMx = 1, riFlags = 2, riSize = nb, riOff = 0\<rparr>)\<rparr>)"

lemma run_mouse: "\<exists>st. run_items (mouse_desc nb pad w) helper0 DataState0 = Some (Parsed, mouse_helper nb pad w, st)"
  unfolding mouse_desc_def mouse_buttons mouse_pad mouse_axis
  using mouse_end by (simp add: mouse_helper_def helper0_def del: run_items.simps)

lemma mouse_wf: "\<forall>b\<in>set (mouse_desc nb pad w). wf_item b"
  by (simp add: mouse_desc_def wf_item_def is_main_def is_global_def is_local_def tag_of_def item_simps)

lemma set_idle_simps [simp]: "hpType (set_idle h) = hpType h" "items (set_idle h) = items h"
  by (simp_all add: set_idle_def)

text \<open>
  C34: for every mouse with the usual descriptor the parser finds the buttons and the three axes, and the parser of reports
  gives the values that the device sends: the buttons are the first \<open>nb\<close> bits, and x, y and wheel the signed
  numbers in the three fields of \<open>w\<close> bits behind the padding.
\<close>

theorem HID_mouse_report:
  assumes "at_bytes rep 0 (concat (mouse_desc nb pad w))" "lock l = 0"
    "0 < unat nb" "unat nb \<le> 32" "0 < unat w" "unat w \<le> 25" "unat pad < 128" "unat nb + unat pad + 3 * unat w < 256"
    "len = length (concat (mouse_desc nb pad w))"
  shows "\<exists>h. HW_USB_HID_genParseHelper l rep len = Some (l, h) \<and>
    (\<forall>raw out. HW_USB_HID_parseReport raw h out =
       \<lparr>rpType = USB_HID_ReportHelper_Type_Mouse, rpItems =
          (let p = unat nb + unat pad; n = unat w;
               axis = (\<lambda>off. word_of_int (signed_take_bit (n - 1) (field raw off n)))
           in MouseReport (word_of_int (field raw 0 (unat nb))) (axis p) (axis (p + n)) (axis (p + 2 * n)))\<rparr>)"
proof -
  let ?d = "mouse_desc nb pad w" let ?h = "mouse_helper nb pad w"
  let ?b = "unat nb" let ?p = "unat nb + unat pad" let ?n = "unat w"
  have "?b < 128" "?n < 128" using assms(4,6) by simp_all
  then have z: "(scast nb :: i32) = of_nat ?b" "(scast pad :: i32) = of_nat (unat pad)" "(scast w :: i32) = of_nat ?n"
    using assms(7) by (auto simp only: scast_u8_small)
  have off: "unat (ucast (of_nat k :: i32) :: u8) = k" if "k < 256" for k
    using that by (simp add: unsigned_ucast_eq take_bit_nat_eq_self unat_of_nat)
  have o: "unat (riOff (items ?h 0)) = 0" "unat (riOff (items ?h 1)) = ?p" "unat (riOff (items ?h 2)) = ?p + ?n"
    "unat (riOff (items ?h 3)) = ?p + 2 * ?n"
    using assms(8) off [of ?p] off [of "?p + ?n"] off [of "?p + 2 * ?n"]
    by (simp_all add: mouse_helper_def axis_helper_def z algebra_simps)
  have s: "riSize (items ?h 0) = nb" "riSize (items ?h 1) = w" "riSize (items ?h 2) = w" "riSize (items ?h 3) = w"
    by (simp_all add: mouse_helper_def axis_helper_def)
  have f: "\<not> HID_RepItem_Main_isRel (riFlags (items ?h 0))" "HID_RepItem_Main_isRel (riFlags (items ?h 1))"
    "HID_RepItem_Main_isRel (riFlags (items ?h 2))" "HID_RepItem_Main_isRel (riFlags (items ?h 3))"
    by (simp_all add: mouse_helper_def axis_helper_def HID_RepItem_Main_isRel_def)
  obtain st where "run_items ?d helper0 DataState0 = Some (Parsed, ?h, st)" using run_mouse by blast
  then have "parse_loop rep len 0 helper0 DataState0 = Some (Parsed, ?h, st)"
    using parse_loop_items [OF mouse_wf assms(1)] assms(9) by (simp add: parse_loop_end)
  then have "HW_USB_HID_genParseHelper l rep len = Some (l, set_idle (?h\<lparr>hpId := dsId st\<rparr>))"
    using assms(2) by (cases l) (auto simp: HW_USB_HID_genParseHelper_def SpinLock_acquire_free SpinLock_unlock_def)
  moreover have m: "k mod 8 + ?n \<le> 32" for k using assms(6) mod_less_divisor [of 8 k] by linarith
  have "HW_USB_HID_parseReport raw (set_idle (?h\<lparr>hpId := dsId st\<rparr>)) out =
       \<lparr>rpType = USB_HID_ReportHelper_Type_Mouse, rpItems =
          (let p = unat nb + unat pad; n = unat w;
               axis = (\<lambda>off. word_of_int (signed_take_bit (n - 1) (field raw off n)))
           in MouseReport (word_of_int (field raw 0 (unat nb))) (axis p) (axis (p + n)) (axis (p + 2 * n)))\<rparr>" for raw out
  proof -
    have t: "hpType ?h = USB_HID_ReportHelper_Type_Mouse"
      by (simp add: mouse_helper_def axis_helper_def USB_HID_ReportHelper_Type_Mouse_def)
    show ?thesis
      using parseItem_field [of "items ?h 0" raw] parseItem_field [of "items ?h 1" raw] parseItem_field [of "items ?h 2" raw]
        parseItem_field [of "items ?h 3" raw] assms(3-5) m
      by (cases out) (simp add: HW_USB_HID_parseReport_def t o s f item_btn_def item_x_def item_y_def item_wheel_def Let_def
        del: One_nat_def)
  qed
  ultimately show ?thesis by blast
qed

theorem HID_mouse_report_witness:
  "\<exists>h. HW_USB_HID_genParseHelper \<lparr>lock = 0\<rparr> (nth (concat (mouse_desc 3 5 8))) 52 = Some (\<lparr>lock = 0\<rparr>, h) \<and>
    HW_USB_HID_parseReport (nth [5, 0xff, 2, 0]) h \<lparr>rpType = 0, rpItems = KeyboardReport 0 []\<rparr> =
      \<lparr>rpType = USB_HID_ReportHelper_Type_Mouse, rpItems = MouseReport 5 (- 1) 2 0\<rparr>"
proof -
  let ?d = "concat (mouse_desc 3 5 8)" let ?o = "\<lparr>rpType = 0, rpItems = KeyboardReport 0 []\<rparr>"
  have "length ?d = 52" by (simp add: mouse_desc_def)
  moreover have "at_bytes (nth ?d) 0 ?d" using at_bytes_nth [of ?d "[]"] by simp
  ultimately obtain h where h: "HW_USB_HID_genParseHelper \<lparr>lock = 0\<rparr> (nth ?d) 52 = Some (\<lparr>lock = 0\<rparr>, h)"
    "HW_USB_HID_parseReport (nth [5, 0xff, 2, 0]) h ?o =
      \<lparr>rpType = USB_HID_ReportHelper_Type_Mouse, rpItems =
        MouseReport (word_of_int (field (nth [5, 0xff, 2, 0]) 0 3))
          (word_of_int (signed_take_bit 7 (field (nth [5, 0xff, 2, 0]) 8 8)))
          (word_of_int (signed_take_bit 7 (field (nth [5, 0xff, 2, 0]) 16 8)))
          (word_of_int (signed_take_bit 7 (field (nth [5, 0xff, 2, 0]) 24 8)))\<rparr>"
    using HID_mouse_report [of "nth ?d" 3 5 8 "\<lparr>lock = 0\<rparr>" 52] by (auto simp: Let_def)
  have "field (nth [5, 0xff, 2, 0]) 0 3 = 5" "field (nth [5, 0xff, 2, 0]) 8 8 = 255"
    "field (nth [5, 0xff, 2, 0]) 16 8 = 2" "field (nth [5, 0xff, 2, 0]) 24 8 = 0"
    by (simp_all add: field_def rbit_def upt_rec bit_simps)
  then show ?thesis using h by simp
qed

end
