(* ===== verification/Intr.thy ===== *)
theory Intr
  imports Smp Timer
begin

text \<open>
  \<open>interrupt/interrupt.c\<close>: the descriptors of interrupts, how an interrupt reaches its handler, and the start of the
  interrupt system.  A controller is a record of functions on the state \<open>'s\<close> of the machine, as in the
  code; a handler gets its parameter and the address of the saved registers.  \<open>None\<close> is an access outside of a table or
  a call through a null pointer.
\<close>

section \<open>Descriptors\<close>

record 's IntrController =
  ic_enable :: "u8 \<Rightarrow> 's \<Rightarrow> 's option"
  ic_disable :: "u8 \<Rightarrow> 's \<Rightarrow> 's option"
  ic_install :: "u8 \<Rightarrow> u64 \<Rightarrow> 's \<Rightarrow> 's option"
  ic_uninstall :: "u8 \<Rightarrow> 's \<Rightarrow> 's option"
  ic_ack :: "(u8 \<Rightarrow> 's \<Rightarrow> 's) option"

type_synonym 's IntrHandler = "u64 \<Rightarrow> ptr \<Rightarrow> 's \<Rightarrow> u64 \<times> 's"

record 's IntrDescriptor =
  id_controller :: "'s IntrController option"
  id_irqName :: ptr
  id_param :: u64
  id_handler :: "'s IntrHandler option"

definition null_desc :: "'s IntrDescriptor" where
  "null_desc = \<lparr>id_controller = None, id_irqName = NULL, id_param = 0, id_handler = None\<rparr>"

definition Intr_Num :: nat where "Intr_Num = 24"

record 's IntrTables =
  Intr_descriptor :: "nat \<Rightarrow> 's IntrDescriptor"
  Intr_smpDescriptor :: "nat \<Rightarrow> 's IntrDescriptor"

text \<open>The message of \<open>Intr_noHandler\<close> is left out.\<close>

definition Intr_noHandler :: "'s IntrHandler" where
  "Intr_noHandler arg regs s = (0, s)"

text \<open>Which table and which index; the subtraction is one of 64 bits.\<close>

definition irq_place :: "u64 \<Rightarrow> (bool \<times> nat) option" where
  "irq_place irqId =
    (if irqId AND 0x80 \<noteq> 0 then (let i = unat (irqId - 0xc8) in if i < 10 then Some (True, i) else None)
     else (let i = unat (irqId - 0x20) in if i < Intr_Num then Some (False, i) else None))"

definition get_desc :: "bool \<times> nat \<Rightarrow> 's IntrTables \<Rightarrow> 's IntrDescriptor" where
  "get_desc p t = (if fst p then Intr_smpDescriptor t (snd p) else Intr_descriptor t (snd p))"

definition set_desc :: "bool \<times> nat \<Rightarrow> 's IntrDescriptor \<Rightarrow> 's IntrTables \<Rightarrow> 's IntrTables" where
  "set_desc p d t =
    (if fst p then t\<lparr>Intr_smpDescriptor := (Intr_smpDescriptor t)(snd p := d)\<rparr>
     else t\<lparr>Intr_descriptor := (Intr_descriptor t)(snd p := d)\<rparr>)"

lemma get_set_desc [simp]: "get_desc p (set_desc p d t) = d"
  by (simp add: get_desc_def set_desc_def)

lemma get_set_other: "p' \<noteq> p \<Longrightarrow> get_desc p' (set_desc p d t) = get_desc p' t"
  by (cases p; cases p') (auto simp: get_desc_def set_desc_def)

section \<open>Operations\<close>

definition Intr_register ::
  "u64 \<Rightarrow> u64 \<Rightarrow> 's IntrHandler option \<Rightarrow> u64 \<Rightarrow> 's IntrController option \<Rightarrow> ptr \<Rightarrow> 's IntrTables \<times> 's \<Rightarrow>
    ('s IntrTables \<times> 's) option" where
  "Intr_register irqId arg hdl param controller irqName st =
    Option.bind (irq_place irqId) (\<lambda>p.
      let t = set_desc p \<lparr>id_controller = controller, id_irqName = irqName, id_param = param, id_handler = hdl\<rparr> (fst st) in
      case controller of None \<Rightarrow> Some (t, snd st)
      | Some c \<Rightarrow> map_option (Pair t) (Option.bind (ic_install c (ucast irqId) arg (snd st)) (ic_enable c (ucast irqId))))"

definition Intr_unregister :: "u64 \<Rightarrow> 's IntrTables \<times> 's \<Rightarrow> ('s IntrTables \<times> 's) option" where
  "Intr_unregister irqId st =
    Option.bind (irq_place irqId) (\<lambda>p.
      case id_controller (get_desc p (fst st)) of None \<Rightarrow> None
      | Some c \<Rightarrow> map_option (Pair (set_desc p null_desc (fst st)))
                  (Option.bind (ic_disable c (ucast irqId) (snd st)) (ic_uninstall c (ucast irqId))))"

text \<open>
  What the entry stub of vector \<open>irqId\<close> calls.  Handlers do not change the tables; \<open>edgeAck\<close> is
  \<open>HW_APIC_edgeAck\<close> on the state.
\<close>

definition Intr_irqdispatch :: "(u8 \<Rightarrow> 's \<Rightarrow> 's) \<Rightarrow> ptr \<Rightarrow> u64 \<Rightarrow> 's IntrTables \<times> 's \<Rightarrow> (u64 \<times> 's) option" where
  "Intr_irqdispatch edgeAck rsp irqId st =
    Option.bind (irq_place irqId) (\<lambda>p.
      let d = get_desc p (fst st);
          (res, s) = (case id_handler d of Some h \<Rightarrow> h (id_param d) rsp (snd st) | None \<Rightarrow> Intr_noHandler irqId rsp (snd st));
          s = (if irqId AND 0x80 \<noteq> 0 then edgeAck (ucast irqId) s
               else case Option.bind (id_controller d) ic_ack of Some a \<Rightarrow> a (ucast irqId) s | None \<Rightarrow> s)
      in Some (res, s))"

text \<open>\<open>stubs v\<close> is the address of the entry stub \<open>irq<v>Interrupt\<close>, which the assembler generates.\<close>

definition Intr_init_gates :: "(nat \<Rightarrow> u64) \<Rightarrow> Gates \<Rightarrow> Gates" where
  "Intr_init_gates stubs g =
    fold (\<lambda>i. Intr_Gate_setIntr i 0 (stubs i)) [200..<210] (fold (\<lambda>i. Intr_Gate_setIntr i 0 (stubs i)) [32..<56] g)"

definition Intr_init ::
  "(nat \<Rightarrow> u64) \<Rightarrow> Gates \<Rightarrow> 'a TimerSys_scheme \<Rightarrow> (Gates \<times> 's IntrTables \<times> 'a TimerSys_scheme) option" where
  "Intr_init stubs g ts =
    map_option (\<lambda>ts. (Intr_init_gates stubs g,
        \<lparr>Intr_descriptor = (\<lambda>_. null_desc), Intr_smpDescriptor = (\<lambda>_. null_desc)\<rparr>, ts))
      (Intr_SoftIrq_init ts)"

text \<open>The controller of the keyboard and of the timer: the I/O APIC.\<close>

definition APIC_controller :: "Apic IntrController" where
  "APIC_controller = \<lparr>ic_enable = HW_APIC_enableIntr, ic_disable = HW_APIC_disableIntr, ic_install = HW_APIC_install,
     ic_uninstall = HW_APIC_uninstall, ic_ack = Some HW_APIC_edgeAck\<rparr>"

section \<open>From registration to dispatch\<close>

definition intr_irqs :: "u64 set" where
  "intr_irqs = {q. 0x20 \<le> q \<and> q \<le> 0x37 \<or> 0xc8 \<le> q \<and> q \<le> 0xd1}"

lemma irq_place_valid:
  assumes "q \<in> intr_irqs"
  shows "irq_place q = Some (if 0xc8 \<le> q then (True, unat q - 0xc8) else (False, unat q - 0x20))"
proof -
  have "q AND 0x80 \<noteq> 0 \<longleftrightarrow> bit q 7" using bit_iff_and_push_bit_not_eq_0 [of q 7] by simp
  also have "\<dots> \<longleftrightarrow> odd (unat q div 128)"
  proof -
    have "bit q 7 \<longleftrightarrow> bit (unat q) 7" by (simp add: bit_unsigned_iff)
    then show ?thesis by (simp add: bit_iff_odd)
  qed
  also have "\<dots> \<longleftrightarrow> 0xc8 \<le> q"
  proof (cases "0xc8 \<le> q")
    case True
    then have "unat q div 128 = 1" using assms by (intro div_nat_eqI) (auto simp: intr_irqs_def word_le_nat_alt)
    then show ?thesis using True by simp
  next
    case False
    then have "unat q div 128 = 0" using assms by (intro div_nat_eqI) (auto simp: intr_irqs_def word_le_nat_alt)
    then show ?thesis using False by simp
  qed
  finally have "q AND 0x80 \<noteq> 0 \<longleftrightarrow> 0xc8 \<le> q" .
  then show ?thesis
    using assms by (auto simp: irq_place_def intr_irqs_def Let_def Intr_Num_def word_le_nat_alt unat_minus_le)
qed

lemma irq_place_inj:
  "q \<in> intr_irqs \<Longrightarrow> q' \<in> intr_irqs \<Longrightarrow> irq_place q = irq_place q' \<Longrightarrow> q = q'"
  by (auto simp: irq_place_valid intr_irqs_def word_le_nat_alt word_unat_eq_iff split: if_splits)

text \<open>
  C36: an interrupt that is registered at the APIC reaches its handler with its parameter and is acknowledged after
  the handler; its entry in the I/O APIC is the one that was given, unmasked; all other interrupts are dispatched as
  before, and their entries stay.
\<close>

theorem Intr_register_dispatch:
  assumes "q \<in> intr_irqs" "q \<le> 0x37"
  shows "\<exists>t' s'. Intr_register q ent (Some h) param (Some APIC_controller) irqName (t, s) = Some (t', s') \<and>
    rte s' (irq_slot (ucast q)) = ent AND NOT 0x10000 \<and>
    (\<forall>s1 rsp. Intr_irqdispatch edgeAck rsp q (t', s1) =
       (let (res, s2) = h param rsp s1 in Some (res, HW_APIC_edgeAck (ucast q) s2))) \<and>
    (\<forall>q'\<in>intr_irqs. q' \<noteq> q \<longrightarrow>
       (\<forall>s1 rsp. Intr_irqdispatch edgeAck rsp q' (t', s1) = Intr_irqdispatch edgeAck rsp q' (t, s1)) \<and>
       (q' \<le> 0x37 \<longrightarrow> rte s' (irq_slot (ucast q')) = rte s (irq_slot (ucast q'))))"
proof -
  let ?d = "\<lparr>id_controller = Some APIC_controller, id_irqName = irqName, id_param = param, id_handler = Some h\<rparr>"
  have le: "0x20 \<le> (ucast q' :: u8) \<and> (ucast q' :: u8) \<le> 0x37 \<and> unat (ucast q' :: u8) = unat q'"
    if "q' \<in> intr_irqs" "q' \<le> 0x37" for q'
    using that by (auto simp: intr_irqs_def word_le_nat_alt unsigned_ucast_eq take_bit_nat_eq_self)
  obtain p where p: "irq_place q = Some p" "fst p = False"
    using irq_place_valid [OF assms(1)] assms(2) by (auto simp: word_le_nat_alt split: if_splits)
  obtain i where i: "HW_APIC_install (ucast q) ent s = Some i" "rte i (irq_slot (ucast q)) = ent"
    "\<And>q'. 0x20 \<le> q' \<Longrightarrow> q' \<le> 0x37 \<Longrightarrow> q' \<noteq> ucast q \<Longrightarrow> rte i (irq_slot q') = rte s (irq_slot q')"
    using APIC_mask_entry [of "ucast q" s ent] le [OF assms] by blast
  obtain e where e: "HW_APIC_enableIntr (ucast q) i = Some e" "rte e (irq_slot (ucast q)) = ent AND NOT 0x10000"
    "\<And>q'. 0x20 \<le> q' \<Longrightarrow> q' \<le> 0x37 \<Longrightarrow> q' \<noteq> ucast q \<Longrightarrow> rte e (irq_slot q') = rte i (irq_slot q')"
    using APIC_mask_entry [of "ucast q" i ent] le [OF assms] i(2) by metis
  have "Intr_register q ent (Some h) param (Some APIC_controller) irqName (t, s) = Some (set_desc p ?d t, e)"
    using i(1) e(1) by (simp add: Intr_register_def p APIC_controller_def Let_def)
  moreover have "Intr_irqdispatch edgeAck rsp q (set_desc p ?d t, s1) =
       (let (res, s2) = h param rsp s1 in Some (res, HW_APIC_edgeAck (ucast q) s2))" for s1 rsp
  proof -
    have "q AND 0x80 = 0" using p by (auto simp: irq_place_def Let_def split: if_splits)
    then show ?thesis
      using p(1) by (simp add: Intr_irqdispatch_def Let_def APIC_controller_def split_def)
  qed
  moreover have "Intr_irqdispatch edgeAck rsp q' (set_desc p ?d t, s1) = Intr_irqdispatch edgeAck rsp q' (t, s1)"
    if "q' \<in> intr_irqs" "q' \<noteq> q" for q' s1 rsp
  proof -
    note q' = that
    have "irq_place q' \<noteq> irq_place q" using irq_place_inj [OF that(1) assms(1)] that(2) by blast
    moreover obtain p' where "irq_place q' = Some p'" using irq_place_valid [OF q'(1)] by (cases "irq_place q'") auto
    ultimately show ?thesis using p(1) by (simp add: Intr_irqdispatch_def get_set_other cong: option.case_cong)
  qed
  moreover have "rte e (irq_slot (ucast q')) = rte s (irq_slot (ucast q'))"
    if "q' \<in> intr_irqs" "q' \<noteq> q" "q' \<le> 0x37" for q'
  proof -
    have "(ucast q' :: u8) \<noteq> ucast q" using le [OF that(1,3)] le [OF assms] that(2) by (metis word_unat_eq_iff)
    then show ?thesis using e(3) i(3) le [OF that(1,3)] by simp
  qed
  ultimately show ?thesis using e(2) by blast
qed

theorem Intr_register_dispatch_witness:
  "\<forall>s. \<exists>t' s'. Intr_register 0x21 0x21 (Some (\<lambda>x rsp s. (x + 1, s))) 6 (Some APIC_controller) NULL
      (\<lparr>Intr_descriptor = (\<lambda>_. null_desc), Intr_smpDescriptor = (\<lambda>_. null_desc)\<rparr>, s) = Some (t', s') \<and>
    (\<forall>rsp. Intr_irqdispatch HW_APIC_edgeAck rsp 0x21 (t', s') = Some (7, HW_APIC_edgeAck 0x21 s'))"
proof
  fix s
  have "(0x21 :: u64) \<in> intr_irqs" "(0x21 :: u64) \<le> 0x37" by (simp_all add: intr_irqs_def)
  from Intr_register_dispatch [OF this, where ent = "0x21" and h = "\<lambda>x rsp s. (x + 1, s)" and param = 6 and irqName = NULL and s = s and edgeAck = HW_APIC_edgeAck and
      t = "\<lparr>Intr_descriptor = (\<lambda>_. null_desc), Intr_smpDescriptor = (\<lambda>_. null_desc)\<rparr>"]
  show "\<exists>t' s'. Intr_register 0x21 0x21 (Some (\<lambda>x rsp s. (x + 1, s))) 6 (Some APIC_controller) NULL
      (\<lparr>Intr_descriptor = (\<lambda>_. null_desc), Intr_smpDescriptor = (\<lambda>_. null_desc)\<rparr>, s) = Some (t', s') \<and>
    (\<forall>rsp. Intr_irqdispatch HW_APIC_edgeAck rsp 0x21 (t', s') = Some (7, HW_APIC_edgeAck 0x21 s'))"
    by (simp add: Let_def) blast
qed

end
