(* ===== verification/Pcie.thy ===== *)
theory Pcie
  imports Intr MemDesc
begin

text \<open>
  \<open>hardware/PCIe.h\<close> and \<open>PCIe/PCIe.c\<close>: the search for devices in the configuration space, the capability list,
  and message-signalled interrupts.  Memory is a map from virtual addresses to bytes; the
  configuration space is part of it.
\<close>

section \<open>Configuration space\<close>

definition HW_PCIe_getDevPtr :: "u64 \<Rightarrow> u8 \<Rightarrow> u8 \<Rightarrow> u8 \<Rightarrow> u64" where
  "HW_PCIe_getDevPtr addrBase bus slot func =
     DMAS_phys2Virt (addrBase OR push_bit 20 (ucast bus) OR push_bit 15 (ucast slot) OR push_bit 12 (ucast func))"

definition rdm :: "ctype \<Rightarrow> sel list \<Rightarrow> u64 \<Rightarrow> bytes \<Rightarrow> 'a::len word" where
  "rdm t p a m = the (rd_memb t p (unat a) m)"

definition wrm :: "ctype \<Rightarrow> sel list \<Rightarrow> 'a::len word \<Rightarrow> u64 \<Rightarrow> bytes \<Rightarrow> bytes" where
  "wrm t p v a m = the (wr_memb t p v (unat a) m)"

definition getVendor :: "u64 \<Rightarrow> u8 \<Rightarrow> u8 \<Rightarrow> u8 \<Rightarrow> bytes \<Rightarrow> u16" where
  "getVendor addrBase bus slot func m = rdm PCIeConfig [Mem ''vendorID''] (HW_PCIe_getDevPtr addrBase bus slot func) m"

text \<open>The address of the configuration space is a parameter of 32 bits here.\<close>

definition getHeaderType :: "u32 \<Rightarrow> u8 \<Rightarrow> u8 \<Rightarrow> u8 \<Rightarrow> bytes \<Rightarrow> u8" where
  "getHeaderType addrBase bus slot func m =
     rdm PCIeConfig [Mem ''headerType''] (HW_PCIe_getDevPtr (ucast addrBase) bus slot func) m"

record PCIeManager =
  pm_cfg :: u64
  pm_bus :: u8
  pm_slot :: u8
  pm_func :: u8

text \<open>The list of managers, to which \<open>List_insBefore\<close> the head appends.\<close>

definition chkFunc :: "bytes \<Rightarrow> u64 \<Rightarrow> u8 \<Rightarrow> u8 \<Rightarrow> u8 \<Rightarrow> PCIeManager list \<Rightarrow> PCIeManager list" where
  "chkFunc m addrBase bus slot func l =
    (if getVendor addrBase bus slot func m = 0xffff then l
     else
       let devPtr = HW_PCIe_getDevPtr addrBase bus slot func in
       if (rdm PCIeConfig [Mem ''classCode''] devPtr m :: u8) = 0x06 \<and> (rdm PCIeConfig [Mem ''subclass''] devPtr m :: u8) = 0x4
       then l
       else l @ [\<lparr>pm_cfg = devPtr, pm_bus = bus, pm_slot = slot, pm_func = func\<rparr>])"

definition chkDev :: "bytes \<Rightarrow> u64 \<Rightarrow> u8 \<Rightarrow> u8 \<Rightarrow> PCIeManager list \<Rightarrow> PCIeManager list" where
  "chkDev m addrBase bus dev l =
    (let vendor = getVendor addrBase bus dev 0 m in
     if vendor = 0xffff then l
     else
       let head = getHeaderType (ucast addrBase) bus dev 0 m in
       if head AND 0x80 = 0 then chkFunc m addrBase bus dev 0 l
       else fold (\<lambda>func. chkFunc m addrBase bus dev (of_nat func)) [0..<8] l)"

definition chkBus :: "bytes \<Rightarrow> u64 \<Rightarrow> u8 \<Rightarrow> PCIeManager list \<Rightarrow> PCIeManager list" where
  "chkBus m addrBase bus l = fold (\<lambda>dev. chkDev m addrBase bus (of_nat dev)) [0..<32] l"

section \<open>The table of the firmware\<close>

definition table_sig :: "u64 \<Rightarrow> bytes \<Rightarrow> string" where
  "table_sig a m = map (\<lambda>i. char_of (unat (m (unat a + i)))) [0..<4]"

definition xsdt_entry :: "u64 \<Rightarrow> nat \<Rightarrow> bytes \<Rightarrow> u64" where
  "xsdt_entry xsdt i m = get_bits (8 * (unat xsdt + sizeof XSDTDescriptor + 8 * i)) 64 m"

definition find_table :: "string \<Rightarrow> u64 \<Rightarrow> nat \<Rightarrow> bytes \<Rightarrow> u64 option" where
  "find_table sg xsdt n m =
     map_option (\<lambda>i. DMAS_phys2Virt (xsdt_entry xsdt i m))
       (List.find (\<lambda>i. table_sig (DMAS_phys2Virt (xsdt_entry xsdt i m)) m = sg) [0..<n])"

definition mcfg_struct :: "u64 \<Rightarrow> nat \<Rightarrow> u64" where
  "mcfg_struct desc i = desc + of_nat (sizeof PCIeDescriptor + i * sizeof PCIeStruct)"

text \<open>All buses of one segment; the loop counter has 16 bits, so the last bus 255 ends it.\<close>

definition chkSegment :: "bytes \<Rightarrow> u64 \<Rightarrow> PCIeManager list \<Rightarrow> PCIeManager list" where
  "chkSegment m st l =
     fold (\<lambda>bus. chkBus m (rdm PCIeStruct [Mem ''address''] st m) (of_nat bus))
       [unat (rdm PCIeStruct [Mem ''stBus''] st m :: u8)..<unat (rdm PCIeStruct [Mem ''edBus''] st m :: u8) + 1] l"

text \<open>\<open>None\<close>: there is no such table, and the kernel halts.\<close>

definition HW_PCIe_init :: "u64 \<Rightarrow> bytes \<Rightarrow> PCIeManager list option" where
  "HW_PCIe_init xsdt m =
    (let len = (rdm XSDTDescriptor [Mem ''header'', Mem ''length''] xsdt m :: u32);
         entryCnt = (ucast ((ucast len - of_nat (sizeof XSDTDescriptor) :: u64) div 8) :: u32)
     in map_option (\<lambda>desc.
          let dlen = (rdm PCIeDescriptor [Mem ''header'', Mem ''length''] desc m :: u32);
              devCnt = (ucast ((ucast dlen - of_nat (sizeof PCIeDescriptor) :: u64) div of_nat (sizeof PCIeStruct)) :: i32)
          in fold (\<lambda>i. chkSegment m (mcfg_struct desc i)) [0..<nat (sint devCnt)] [])
        (find_table ''MCFG'' xsdt (unat entryCnt) m))"

section \<open>Capabilities\<close>

text \<open>\<open>NULL\<close> asks for the first one.\<close>

definition HW_PCIe_getNxtCapHdr :: "u64 \<Rightarrow> u64 \<Rightarrow> bytes \<Rightarrow> u64" where
  "HW_PCIe_getNxtCapHdr cfg hdr m =
    (if hdr \<noteq> NULL then
       (let n = (rdm PCIe_CapHdr [Mem ''nxtPtr''] hdr m :: u8) in if n \<noteq> 0 then cfg + ucast n else NULL)
     else cfg + ucast (rdm PCIeConfig [Mem ''type0'', Mem ''capPtr''] cfg m :: u8))"

text \<open>
  The search of the drivers: the last MSI and the last MSI-X capability of the list.  A list that is a circle
  never ends.
\<close>

partial_function (option) find_caps :: "u64 \<Rightarrow> u64 \<Rightarrow> bytes \<Rightarrow> u64 \<times> u64 \<Rightarrow> (u64 \<times> u64) option" where
  "find_caps cfg hdr m r =
    (if hdr = NULL then Some r
     else
       let c = (rdm PCIe_CapHdr [Mem ''capId''] hdr m :: u8);
           r = (if ucast c = PCIe_CapId_MSI then (hdr, snd r) else if ucast c = PCIe_CapId_MSIX then (fst r, hdr) else r)
       in find_caps cfg (HW_PCIe_getNxtCapHdr cfg hdr m) m r)"

text \<open>The number of vectors of the two capabilities, and where the table of MSI-X is.\<close>

definition PCIe_MSICap_vecNum :: "u64 \<Rightarrow> bytes \<Rightarrow> u32" where
  "PCIe_MSICap_vecNum cap m = push_bit (unat (drop_bit 1 (rdm PCIe_MSICap [Mem ''msgCtrl''] cap m :: u16) AND 0x7)) 1"

definition PCIe_MSIXCap_vecNum :: "u64 \<Rightarrow> bytes \<Rightarrow> u32" where
  "PCIe_MSIXCap_vecNum cap m = (ucast (rdm PCIe_MSIXCap [Mem ''msgCtrl''] cap m :: u16) AND (push_bit 11 1 - 1)) + 1"

definition PCIe_MSIXCap_bir :: "u64 \<Rightarrow> bytes \<Rightarrow> u32" where
  "PCIe_MSIXCap_bir cap m = rdm PCIe_MSIXCap [Mem ''dw1''] cap m AND 0x7"

definition PCIe_MSIXCap_tblOff :: "u64 \<Rightarrow> bytes \<Rightarrow> u32" where
  "PCIe_MSIXCap_tblOff cap m = rdm PCIe_MSIXCap [Mem ''dw1''] cap m AND NOT 0x7"

text \<open>The 64 bits at the base address register; mapping the page of the table is left out.\<close>

definition HW_PCIe_MSIX_getTable :: "u64 \<Rightarrow> u64 \<Rightarrow> bytes \<Rightarrow> u64" where
  "HW_PCIe_MSIX_getTable cfg cap m =
    (let bar = (get_bits (8 * (unat cfg + 0x10 + 4 * unat (PCIe_MSIXCap_bir cap m))) 64 m :: u64)
     in DMAS_phys2Virt ((bar AND NOT 0xf) + ucast (PCIe_MSIXCap_tblOff cap m)))"

section \<open>Message-signalled interrupts of a device\<close>

definition HW_PCIe_MSI_maskIntr :: "u64 \<Rightarrow> i32 \<Rightarrow> bytes \<Rightarrow> bytes" where
  "HW_PCIe_MSI_maskIntr cap intrId m =
    wrm PCIe_MSICap [Mem ''mask''] (if intrId \<noteq> - 1 then rdm PCIe_MSICap [Mem ''mask''] cap m OR push_bit (unat intrId mod 32) 1
      else 0xffffffff :: u32) cap m"

definition HW_PCIe_MSI_unmaskIntr :: "u64 \<Rightarrow> i32 \<Rightarrow> bytes \<Rightarrow> bytes" where
  "HW_PCIe_MSI_unmaskIntr cap intrId m =
    wrm PCIe_MSICap [Mem ''mask''] (if intrId \<noteq> - 1
      then rdm PCIe_MSICap [Mem ''mask''] cap m AND NOT (push_bit (unat intrId mod 32) 1) else 0 :: u32) cap m"

definition msg_addr :: "u32 \<Rightarrow> i32 \<Rightarrow> i32 \<Rightarrow> u32" where
  "msg_addr apicId redirect destMode = 0xfee00000 OR push_bit 12 apicId OR push_bit 3 redirect OR push_bit 2 destMode"

definition msg_data :: "u32 \<Rightarrow> u32 \<Rightarrow> u32 \<Rightarrow> u32 \<Rightarrow> u32" where
  "msg_data vec deliverMode level triggerMode =
     vec OR push_bit 8 deliverMode OR push_bit 14 level OR push_bit 15 triggerMode"

definition HW_PCIe_MSI_setMsgAddr :: "u64 \<Rightarrow> u32 \<Rightarrow> i32 \<Rightarrow> i32 \<Rightarrow> bytes \<Rightarrow> bytes" where
  "HW_PCIe_MSI_setMsgAddr msi apicId redirect destMode =
     wrm PCIe_MSICap [Mem ''msgAddr''] (ucast (msg_addr apicId redirect destMode) :: u64) msi"

definition HW_PCIe_MSI_setMsgData :: "u64 \<Rightarrow> u32 \<Rightarrow> u32 \<Rightarrow> u32 \<Rightarrow> u32 \<Rightarrow> bytes \<Rightarrow> bytes" where
  "HW_PCIe_MSI_setMsgData msi vec deliverMode level triggerMode =
     wrm PCIe_MSICap [Mem ''msgData''] (ucast (msg_data vec deliverMode level triggerMode) :: u16) msi"

definition HW_PCIe_MSI_enableAll :: "u64 \<Rightarrow> bytes \<Rightarrow> bytes" where
  "HW_PCIe_MSI_enableAll cap m =
    (let m = (if (rdm PCIe_MSICap [Mem ''msgCtrl''] cap m :: u16) AND push_bit 8 1 \<noteq> 0
              then wrm PCIe_MSICap [Mem ''mask''] (0 :: u32) cap m else m)
     in wrm PCIe_MSICap [Mem ''msgCtrl''] ((rdm PCIe_MSICap [Mem ''msgCtrl''] cap m :: u16) OR 1) cap m)"

definition HW_PCIe_MSIX_enable :: "u64 \<Rightarrow> bytes \<Rightarrow> bytes" where
  "HW_PCIe_MSIX_enable cap m =
     wrm PCIe_MSIXCap [Mem ''msgCtrl''] ((rdm PCIe_MSIXCap [Mem ''msgCtrl''] cap m :: u16) OR push_bit 15 1) cap m"

definition HW_PCIe_MSIX_disable :: "u64 \<Rightarrow> bytes \<Rightarrow> bytes" where
  "HW_PCIe_MSIX_disable cap m =
     wrm PCIe_MSIXCap [Mem ''msgCtrl''] ((rdm PCIe_MSIXCap [Mem ''msgCtrl''] cap m :: u16) AND NOT (push_bit 15 1)) cap m"

text \<open>The entry \<open>intrId\<close> of the table.\<close>

definition msix_entry :: "u64 \<Rightarrow> nat \<Rightarrow> u64" where
  "msix_entry tbl i = tbl + of_nat (16 * i)"

definition HW_PCIe_MSIX_setMsgAddr :: "u64 \<Rightarrow> nat \<Rightarrow> u32 \<Rightarrow> i32 \<Rightarrow> i32 \<Rightarrow> bytes \<Rightarrow> bytes" where
  "HW_PCIe_MSIX_setMsgAddr tbl intrId apicId redirect destMode =
     wrm PCIe_MSIX_Table [Mem ''msgAddr''] (ucast (msg_addr apicId redirect destMode) :: u64) (msix_entry tbl intrId)"

definition HW_PCIe_MSIX_setMsgData :: "u64 \<Rightarrow> nat \<Rightarrow> u32 \<Rightarrow> u32 \<Rightarrow> u32 \<Rightarrow> u32 \<Rightarrow> bytes \<Rightarrow> bytes" where
  "HW_PCIe_MSIX_setMsgData tbl intrId vec deliverMode level triggerMode =
     wrm PCIe_MSIX_Table [Mem ''msgData''] (msg_data vec deliverMode level triggerMode) (msix_entry tbl intrId)"

definition HW_PCIe_MSIX_maskIntr :: "u64 \<Rightarrow> nat \<Rightarrow> bytes \<Rightarrow> bytes" where
  "HW_PCIe_MSIX_maskIntr tbl intrId m =
     wrm PCIe_MSIX_Table [Mem ''vecCtrl''] ((rdm PCIe_MSIX_Table [Mem ''vecCtrl''] (msix_entry tbl intrId) m :: u32) OR 1)
       (msix_entry tbl intrId) m"

definition HW_PCIe_MSIX_unmaskIntr :: "u64 \<Rightarrow> nat \<Rightarrow> bytes \<Rightarrow> bytes" where
  "HW_PCIe_MSIX_unmaskIntr tbl intrId m =
     wrm PCIe_MSIX_Table [Mem ''vecCtrl''] ((rdm PCIe_MSIX_Table [Mem ''vecCtrl''] (msix_entry tbl intrId) m :: u32) AND NOT 1)
       (msix_entry tbl intrId) m"

definition HW_PCIe_MSIX_enableAll :: "u64 \<Rightarrow> u64 \<Rightarrow> bytes \<Rightarrow> bytes" where
  "HW_PCIe_MSIX_enableAll cfg cap m =
    (let tbl = HW_PCIe_MSIX_getTable cfg cap m; vecNum = PCIe_MSIXCap_vecNum cap m
     in HW_PCIe_MSIX_enable cap (fold (HW_PCIe_MSIX_unmaskIntr tbl) [0..<unat vecNum] m))"

section \<open>Their handlers\<close>

record 's PCIe_MSI_Descriptor =
  md_cpuId :: i32
  md_vec :: i32
  md_intrDesc :: "'s IntrDescriptor"

text \<open>
  \<open>intrDesc\<close> are the tables of the processors, with the address of a descriptor or \<open>NULL\<close>; \<open>cpuGates\<close> are their
  interrupt tables.
\<close>

record 's MsiSys =
  msiDescs :: "ptr \<Rightarrow> 's PCIe_MSI_Descriptor"
  intrDesc :: "nat \<Rightarrow> nat \<Rightarrow> ptr"
  cpuGates :: "nat \<Rightarrow> Gates"

definition MSI_defaultController :: "(u8 \<Rightarrow> 's \<Rightarrow> 's) \<Rightarrow> 's IntrController" where
  "MSI_defaultController edgeAck = \<lparr>ic_enable = (\<lambda>_ _. None), ic_disable = (\<lambda>_ _. None), ic_install = (\<lambda>_ _ _. None),
     ic_uninstall = (\<lambda>_ _. None), ic_ack = Some edgeAck\<rparr>"

definition HW_PCIe_MSI_initDesc ::
  "(u8 \<Rightarrow> 's \<Rightarrow> 's) \<Rightarrow> ptr \<Rightarrow> i32 \<Rightarrow> i32 \<Rightarrow> 's IntrHandler \<Rightarrow> u64 \<Rightarrow> 's MsiSys \<Rightarrow> 's MsiSys" where
  "HW_PCIe_MSI_initDesc edgeAck desc cpuId irqId hdl param st =
     st\<lparr>msiDescs := (msiDescs st)(desc := (msiDescs st desc)\<lparr>md_cpuId := cpuId, md_vec := irqId,
         md_intrDesc := (md_intrDesc (msiDescs st desc))\<lparr>id_handler := Some hdl, id_param := param,
           id_controller := Some (MSI_defaultController edgeAck)\<rparr>\<rparr>)\<rparr>"

text \<open>\<open>stubs\<close> are the 64 addresses in \<open>HW_PCIe_MSI_intrList\<close>.\<close>

definition HW_PCIe_MSI_setIntr :: "(nat \<Rightarrow> u64) \<Rightarrow> ptr \<Rightarrow> 's MsiSys \<Rightarrow> 's MsiSys option" where
  "HW_PCIe_MSI_setIntr stubs desc st =
    (let c = sint (md_cpuId (msiDescs st desc)); v = sint (md_vec (msiDescs st desc)) - 0x40 in
     if 0 \<le> c \<and> c < int Hardware_CPUNumber \<and> 0 \<le> v \<and> v < 0x40 then
       Some (st\<lparr>intrDesc := (intrDesc st)(nat c := (intrDesc st (nat c))(nat v := desc)),
                cpuGates := Intr_Gate_setSMPIntr (nat c) (nat (v + 0x40)) 0 (stubs (nat v)) (cpuGates st)\<rparr>)
     else None)"

text \<open>What the entry stub of vector \<open>irqId\<close> calls on processor \<open>cpu\<close>; without a descriptor it prints a message.\<close>

definition HW_PCIe_MSI_dispatcher :: "nat \<Rightarrow> ptr \<Rightarrow> u64 \<Rightarrow> 's MsiSys \<times> 's \<Rightarrow> 's option" where
  "HW_PCIe_MSI_dispatcher cpu rsp irqId ms =
    (case ms of (st, s) \<Rightarrow>
      let i = unat (irqId - 0x40) in
      if 0x40 \<le> i then None
      else
        let p = intrDesc st cpu i in
        if p = NULL then Some s
        else
          let d = md_intrDesc (msiDescs st p) in
          case (id_handler d, Option.bind (id_controller d) ic_ack) of
            (Some h, Some ack) \<Rightarrow> Some (ack (ucast irqId) (snd (h (id_param d) rsp s)))
          | _ \<Rightarrow> None)"

end
