(* ===== verification/Pcie_Props.thy ===== *)
theory Pcie_Props
  imports Pcie
begin

text \<open>
  The search for PCIe devices finds every function of every bus once; the messages of a device's interrupts.
\<close>

section \<open>The search\<close>

lemma fold_append: "(\<And>x l. f x l = l @ g x) \<Longrightarrow> fold f xs l = l @ concat (map g xs)"
  by (induction xs arbitrary: l) simp_all

text \<open>A function answers and is no bridge; a device with bit 7 of its header type has eight functions.\<close>

definition fn_present :: "bytes \<Rightarrow> u64 \<Rightarrow> u8 \<Rightarrow> u8 \<Rightarrow> u8 \<Rightarrow> bool" where
  "fn_present m base bus slot func \<longleftrightarrow> getVendor base bus slot func m \<noteq> 0xffff \<and>
     \<not> ((rdm PCIeConfig [Mem ''classCode''] (HW_PCIe_getDevPtr base bus slot func) m :: u8) = 0x06 \<and>
        (rdm PCIeConfig [Mem ''subclass''] (HW_PCIe_getDevPtr base bus slot func) m :: u8) = 0x4)"

definition multi_fn :: "bytes \<Rightarrow> u64 \<Rightarrow> u8 \<Rightarrow> u8 \<Rightarrow> bool" where
  "multi_fn m base bus slot \<longleftrightarrow> bit (rdm PCIeConfig [Mem ''headerType''] (HW_PCIe_getDevPtr base bus slot 0) m :: u8) 7"

definition mgr_of :: "u64 \<Rightarrow> u8 \<Rightarrow> u8 \<Rightarrow> u8 \<Rightarrow> PCIeManager" where
  "mgr_of base bus slot func = \<lparr>pm_cfg = HW_PCIe_getDevPtr base bus slot func, pm_bus = bus, pm_slot = slot, pm_func = func\<rparr>"

definition fn_list :: "bytes \<Rightarrow> u64 \<Rightarrow> u8 \<Rightarrow> u8 \<Rightarrow> u8 \<Rightarrow> PCIeManager list" where
  "fn_list m base bus slot func = (if fn_present m base bus slot func then [mgr_of base bus slot func] else [])"

definition dev_list :: "bytes \<Rightarrow> u64 \<Rightarrow> u8 \<Rightarrow> u8 \<Rightarrow> PCIeManager list" where
  "dev_list m base bus slot =
     (if getVendor base bus slot 0 m = 0xffff then []
      else concat (map (fn_list m base bus slot) (if multi_fn m base bus slot then map of_nat [0..<8] else [0])))"

lemma chkFunc_app: "chkFunc m base bus slot func l = l @ fn_list m base bus slot func"
  by (simp add: chkFunc_def fn_list_def fn_present_def mgr_of_def Let_def)

lemma chkDev_app:
  assumes "unat base < 2 ^ 32" shows "chkDev m base bus slot l = l @ dev_list m base bus slot"
proof -
  have "(ucast (ucast base :: u32) :: u64) = base"
    using assms by (simp add: word_unat_eq_iff unsigned_ucast_eq unsigned_take_bit_eq take_bit_nat_eq_self)
  then have h: "getHeaderType (ucast base) bus slot 0 m AND 0x80 = 0 \<longleftrightarrow> \<not> multi_fn m base bus slot"
    using bit_iff_and_push_bit_not_eq_0 [of "rdm PCIeConfig [Mem ''headerType''] (HW_PCIe_getDevPtr base bus slot 0) m :: u8" 7]
    by (simp add: getHeaderType_def multi_fn_def)
  have "fold (\<lambda>func. chkFunc m base bus slot (of_nat func)) [0..<8] l =
      l @ concat (map (\<lambda>func. fn_list m base bus slot (of_nat func)) [0..<8])"
    by (rule fold_append) (rule chkFunc_app)
  then show ?thesis unfolding chkDev_def dev_list_def Let_def h by (simp add: chkFunc_app o_def)
qed

lemma mgr_of_inj [simp]: "mgr_of b x y z = mgr_of b' x' y' z' \<longleftrightarrow>
    x = x' \<and> y = y' \<and> z = z' \<and> HW_PCIe_getDevPtr b x y z = HW_PCIe_getDevPtr b' x' y' z'"
  by (auto simp: mgr_of_def)

lemma distinct_concat_map:
  assumes "distinct xs" "\<And>x. x \<in> set xs \<Longrightarrow> distinct (g x)"
    "\<And>x y. x \<in> set xs \<Longrightarrow> y \<in> set xs \<Longrightarrow> x \<noteq> y \<Longrightarrow> set (g x) \<inter> set (g y) = {}"
  shows "distinct (concat (map g xs))"
  using assms
proof (induction xs)
  case (Cons a xs)
  then have "distinct (concat (map g xs))" by simp
  moreover have "set (g a) \<inter> set (g y) = {}" if "y \<in> set xs" for y using Cons.prems that by auto
  ultimately show ?case using Cons.prems(2) [of a] by auto
qed simp

lemma set_fn_list: "p \<in> set (fn_list m base bus slot func) \<longleftrightarrow> fn_present m base bus slot func \<and> p = mgr_of base bus slot func"
  by (auto simp: fn_list_def)

lemma of_nat_u8_inj: "x < 256 \<Longrightarrow> y < 256 \<Longrightarrow> (of_nat x :: u8) = of_nat y \<longleftrightarrow> x = y"
  by (simp add: word_unat_eq_iff unat_of_nat)

lemma dev_list_ok:
  "distinct (dev_list m base bus slot)"
  "p \<in> set (dev_list m base bus slot) \<longleftrightarrow> getVendor base bus slot 0 m \<noteq> 0xffff \<and>
     (\<exists>f<8. (f = 0 \<or> multi_fn m base bus slot) \<and> fn_present m base bus slot (of_nat f) \<and> p = mgr_of base bus slot (of_nat f))"
proof -
  have "distinct (map (of_nat :: nat \<Rightarrow> u8) [0..<8])" by (simp add: distinct_map inj_on_def of_nat_u8_inj)
  then show "distinct (dev_list m base bus slot)"
    unfolding dev_list_def by (auto intro!: distinct_concat_map simp: set_fn_list of_nat_u8_inj) (auto simp: fn_list_def)
  show "p \<in> set (dev_list m base bus slot) \<longleftrightarrow> getVendor base bus slot 0 m \<noteq> 0xffff \<and>
     (\<exists>f<8. (f = 0 \<or> multi_fn m base bus slot) \<and> fn_present m base bus slot (of_nat f) \<and> p = mgr_of base bus slot (of_nat f))"
    unfolding dev_list_def by (auto simp: set_fn_list)
qed

definition bus_list :: "bytes \<Rightarrow> u64 \<Rightarrow> u8 \<Rightarrow> PCIeManager list" where
  "bus_list m base bus = concat (map (\<lambda>s. dev_list m base bus (of_nat s)) [0..<32])"

lemma chkBus_app: "unat base < 2 ^ 32 \<Longrightarrow> chkBus m base bus l = l @ bus_list m base bus"
  unfolding chkBus_def bus_list_def by (rule fold_append) (rule chkDev_app)

lemma bus_list_ok:
  "distinct (bus_list m base bus)"
  "p \<in> set (bus_list m base bus) \<longleftrightarrow> (\<exists>s<32. p \<in> set (dev_list m base bus (of_nat s)))"
proof -
  show "distinct (bus_list m base bus)"
    unfolding bus_list_def
    by (rule distinct_concat_map) (auto simp: dev_list_ok of_nat_u8_inj)
  show "p \<in> set (bus_list m base bus) \<longleftrightarrow> (\<exists>s<32. p \<in> set (dev_list m base bus (of_nat s)))"
    unfolding bus_list_def by auto
qed

text \<open>
  C38: the search of a segment whose configuration space is below 4 GB appends, to the managers found before, one for
  every function of its buses that answers and is no bridge: function 0 of every device, and the functions 1 to 7 of
  devices with several functions.  No function is found twice.
\<close>

theorem PCIe_scan_complete:
  fixes m st
  defines "base \<equiv> rdm PCIeStruct [Mem ''address''] st m"
    and "b0 \<equiv> unat (rdm PCIeStruct [Mem ''stBus''] st m :: u8)" and "b1 \<equiv> unat (rdm PCIeStruct [Mem ''edBus''] st m :: u8)"
  assumes "unat base < 2 ^ 32"
  shows "\<exists>ds. chkSegment m st l = l @ ds \<and> distinct ds \<and>
    (\<forall>p. p \<in> set ds \<longleftrightarrow> (\<exists>b s f. b0 \<le> b \<and> b \<le> b1 \<and> s < 32 \<and> f < 8 \<and>
       getVendor base (of_nat b) (of_nat s) 0 m \<noteq> 0xffff \<and> (f = 0 \<or> multi_fn m base (of_nat b) (of_nat s)) \<and>
       fn_present m base (of_nat b) (of_nat s) (of_nat f) \<and> p = mgr_of base (of_nat b) (of_nat s) (of_nat f)))"
proof -
  let ?bs = "[b0..<b1 + 1]"
  let ?ds = "concat (map (\<lambda>b. bus_list m base (of_nat b)) ?bs)"
  have "chkSegment m st l = l @ ?ds"
    unfolding chkSegment_def base_def [symmetric] b0_def [symmetric] b1_def [symmetric]
    by (rule fold_append) (rule chkBus_app [OF assms(4)])
  moreover have "distinct ?ds"
  proof (rule distinct_concat_map)
    fix x y assume "x \<in> set ?bs" "y \<in> set ?bs" "x \<noteq> y"
    moreover have "b1 < 256" using unat_u8_less by (simp add: b1_def)
    ultimately show "set (bus_list m base (of_nat x)) \<inter> set (bus_list m base (of_nat y)) = {}"
      by (auto simp: bus_list_ok dev_list_ok of_nat_u8_inj)
  qed (simp_all add: bus_list_ok)
  moreover have "p \<in> set ?ds \<longleftrightarrow> (\<exists>b s f. b0 \<le> b \<and> b \<le> b1 \<and> s < 32 \<and> f < 8 \<and>
       getVendor base (of_nat b) (of_nat s) 0 m \<noteq> 0xffff \<and> (f = 0 \<or> multi_fn m base (of_nat b) (of_nat s)) \<and>
       fn_present m base (of_nat b) (of_nat s) (of_nat f) \<and> p = mgr_of base (of_nat b) (of_nat s) (of_nat f))" for p
  proof -
    have "p \<in> set ?ds \<longleftrightarrow> (\<exists>b. b0 \<le> b \<and> b \<le> b1 \<and> p \<in> set (bus_list m base (of_nat b)))" by auto
    then show ?thesis unfolding bus_list_ok(2) dev_list_ok(2) by blast
  qed
  ultimately show ?thesis by blast
qed

lemma get_bits_zero: "get_bits off w (\<lambda>_. 0) = 0"
  by (rule bit_word_eqI) (simp add: bit_get_bits mbit_def)

lemma rdm_zero: "locate t p (8 * unat a) \<noteq> None \<Longrightarrow> rdm t p a (\<lambda>_. 0) = 0"
  by (auto simp: rdm_def rd_memb_def get_bits_zero)

theorem PCIe_scan_complete_witness:
  "\<exists>ds. chkSegment (\<lambda>_. 0) 0 [] = ds \<and> distinct ds \<and> mgr_of 0 0 5 0 \<in> set ds \<and> mgr_of 0 0 5 1 \<notin> set ds"
proof -
  have z: "rdm PCIeStruct [Mem ''address''] 0 (\<lambda>_. 0) = (0 :: u64)" "rdm PCIeStruct [Mem ''stBus''] 0 (\<lambda>_. 0) = (0 :: u8)"
    "rdm PCIeStruct [Mem ''edBus''] 0 (\<lambda>_. 0) = (0 :: u8)"
    by (rule rdm_zero, simp add: PCIeStruct_def up_to_def)+
  have y: "rdm PCIeConfig [Mem ''vendorID''] a (\<lambda>_. 0) = (0 :: u16)" "rdm PCIeConfig [Mem ''classCode''] a (\<lambda>_. 0) = (0 :: u8)"
    "rdm PCIeConfig [Mem ''headerType''] a (\<lambda>_. 0) = (0 :: u8)" for a
    by (rule rdm_zero, simp add: PCIeConfig_def up_to_def)+
  have f: "fn_present (\<lambda>_. 0) 0 b s f" "\<not> multi_fn (\<lambda>_. 0) 0 b s" "getVendor 0 b s f (\<lambda>_. 0) \<noteq> 0xffff" for b s f
    by (simp_all add: fn_present_def multi_fn_def getVendor_def y)
  obtain ds where "chkSegment (\<lambda>_. 0) 0 [] = ds" "distinct ds" and
    ds: "\<And>p. p \<in> set ds \<longleftrightarrow> (\<exists>s f. s < 32 \<and> f = 0 \<and> p = mgr_of 0 0 (of_nat s) (of_nat f))"
    using PCIe_scan_complete [of 0 "\<lambda>_. 0" "[]"] by (auto simp: z f)
  moreover have "mgr_of 0 0 5 0 \<in> set ds" unfolding ds by (intro exI [of _ 5] exI [of _ 0]) simp
  moreover have "mgr_of 0 0 5 1 \<notin> set ds" unfolding ds by simp
  ultimately show ?thesis by blast
qed

end
