(* ===== verification/Msi.thy ===== *)
theory Msi
  imports Pcie_Props
begin

text \<open>
  How a driver gives the interrupts of a device to the processors (\<open>hardware/NVMe/process.c\<close>, the part for MSI-X): vectors
  from \<open>SMP_allocIntrVec\<close>, the table of the device, the descriptors and the tables of the processors.  The theorem follows an
  interrupt from the message of the device to the handler.
\<close>

section \<open>Setting up the interrupts\<close>

definition msi_desc :: "ptr \<Rightarrow> nat \<Rightarrow> ptr" where
  "msi_desc descs i = descs + of_nat (40 * i)"

text \<open>
  The loop over the interrupts of the device: \<open>False\<close> when no vector is left, where the driver gives up.  \<open>host\<close> is the
  address of the host and \<open>hdl\<close> the interrupt handler of the driver.
\<close>

fun msix_loop ::
  "(u8 \<Rightarrow> 's \<Rightarrow> 's) \<Rightarrow> (nat \<Rightarrow> u64) \<Rightarrow> 's IntrHandler \<Rightarrow> u64 \<Rightarrow> ptr \<Rightarrow> u64 \<Rightarrow> nat list \<Rightarrow> nat \<Rightarrow>
    SmpSys \<times> bytes \<times> 's MsiSys \<Rightarrow> (bool \<times> SmpSys \<times> bytes \<times> 's MsiSys) option" where
  "msix_loop ack stubs hdl host descs tbl [] cpuId st = Some (True, st)"
| "msix_loop ack stubs hdl host descs tbl (i # is) cpuId (smp, m, st) =
     (case SMP_allocIntrVec 1 cpuId smp of
        None \<Rightarrow> None
      | Some (None, smp) \<Rightarrow> Some (False, smp, m, st)
      | Some (Some (c, v), smp) \<Rightarrow>
          let m = HW_PCIe_MSIX_setMsgAddr tbl i (apicID (cpuInfo smp ! c)) 0 HW_APIC_DestMode_Physical m;
              m = HW_PCIe_MSIX_setMsgData tbl i (of_nat v) HW_APIC_DeliveryMode_Fixed HW_APIC_Level_Deassert
                    HW_APIC_TriggerMode_Edge m;
              d = msi_desc descs i;
              st = HW_PCIe_MSI_initDesc ack d (of_nat c) (of_nat v) hdl (host OR of_nat i) st
          in case HW_PCIe_MSI_setIntr stubs d st of
               None \<Rightarrow> None
             | Some st \<Rightarrow> msix_loop ack stubs hdl host descs tbl is ((c + 1) mod length (cpuInfo smp)) (smp, m, st))"

definition NVMe_setup_msix ::
  "(u8 \<Rightarrow> 's \<Rightarrow> 's) \<Rightarrow> (nat \<Rightarrow> u64) \<Rightarrow> 's IntrHandler \<Rightarrow> u64 \<Rightarrow> ptr \<Rightarrow> u64 \<Rightarrow> u64 \<Rightarrow>
    SmpSys \<times> bytes \<times> 's MsiSys \<Rightarrow> (bool \<times> SmpSys \<times> bytes \<times> 's MsiSys) option" where
  "NVMe_setup_msix ack stubs hdl host descs cfg cap st =
    (let vecNum = min 8 (PCIe_MSIXCap_vecNum cap (fst (snd st)));
         tbl = HW_PCIe_MSIX_getTable cfg cap (fst (snd st))
     in msix_loop ack stubs hdl host descs tbl [0..<unat vecNum] 0 st)"

section \<open>The table of the device\<close>

lemma msix_members:
  "rdm PCIe_MSIX_Table [Mem ''msgAddr''] a m = get_bits (8 * unat a) 64 m"
  "rdm PCIe_MSIX_Table [Mem ''msgData''] a m = get_bits (8 * unat a + 64) 32 m"
  "wrm PCIe_MSIX_Table [Mem ''msgAddr''] v a m = put_bits (8 * unat a) 64 v m"
  "wrm PCIe_MSIX_Table [Mem ''msgData''] v a m = put_bits (8 * unat a + 64) 32 v m"
  by (simp_all add: rdm_def wrm_def rd_memb_def wr_memb_def PCIe_MSIX_Table_def up_to_def)

text \<open>What the device sends for interrupt \<open>i\<close>: an address and data.\<close>

definition msg_of :: "u64 \<Rightarrow> nat \<Rightarrow> bytes \<Rightarrow> u64 \<times> u32" where
  "msg_of tbl i m = (rdm PCIe_MSIX_Table [Mem ''msgAddr''] (msix_entry tbl i) m,
     rdm PCIe_MSIX_Table [Mem ''msgData''] (msix_entry tbl i) m)"

lemma msix_entry_unat:
  assumes "unat tbl + 16 * i < 2 ^ 64" shows "unat (msix_entry tbl i) = unat tbl + 16 * i"
proof -
  have "unat (of_nat (16 * i) :: u64) = 16 * i" using assms by (simp only: unat_of_nat) simp
  then show ?thesis using assms by (simp only: msix_entry_def) (subst unat_plus_less; simp)
qed

lemma take_bit_full: "take_bit 64 (x :: u64) = x" "take_bit 32 (y :: u32) = y"
  by (rule bit_word_eqI, simp add: bit_take_bit_iff)+

lemma msg_of_set:
  assumes "unat tbl + 16 * i < 2 ^ 64"
  shows "msg_of tbl i (HW_PCIe_MSIX_setMsgData tbl i v dm lv tm (HW_PCIe_MSIX_setMsgAddr tbl i ap rd ds m)) =
    (ucast (msg_addr ap rd ds), msg_data v dm lv tm)"
  unfolding msg_of_def HW_PCIe_MSIX_setMsgData_def HW_PCIe_MSIX_setMsgAddr_def msix_members
  by (simp add: get_put_same get_put_other take_bit_full)

lemma msg_of_other:
  assumes "unat tbl + 16 * i < 2 ^ 64" "unat tbl + 16 * j < 2 ^ 64" "i \<noteq> j"
  shows "msg_of tbl j (HW_PCIe_MSIX_setMsgData tbl i v dm lv tm (HW_PCIe_MSIX_setMsgAddr tbl i ap rd ds m)) = msg_of tbl j m"
proof -
  have "i < j \<or> j < i" using assms(3) by arith
  then show ?thesis
    unfolding msg_of_def HW_PCIe_MSIX_setMsgData_def HW_PCIe_MSIX_setMsgAddr_def msix_members
      msix_entry_unat [OF assms(1)] msix_entry_unat [OF assms(2)]
    by (elim disjE) (simp_all add: get_put_other)
qed

text \<open>
  A message that reaches the processor with APIC number \<open>ap\<close> (bits 12 to 19 of an address at 0xfee00000) as vector \<open>v\<close>
  with fixed delivery, and what the dispatcher does there.
\<close>

definition message_to :: "u64 \<times> u32 \<Rightarrow> u32 \<Rightarrow> nat \<Rightarrow> bool" where
  "message_to ad ap v \<longleftrightarrow> drop_bit 20 (fst ad) = 0xfee \<and> unat (drop_bit 12 (fst ad) AND 0xff) = unat ap \<and>
     fst ad AND 0xfff = 0 \<and> snd ad = of_nat v"

definition handles :: "(u8 \<Rightarrow> 's \<Rightarrow> 's) \<Rightarrow> 's IntrHandler \<Rightarrow> u64 \<Rightarrow> 's MsiSys \<Rightarrow> nat \<Rightarrow> nat \<Rightarrow> bool" where
  "handles ack hdl param st c v \<longleftrightarrow>
     (\<forall>rsp s. HW_PCIe_MSI_dispatcher c rsp (of_nat v) (st, s) = Some (ack (of_nat v) (snd (hdl param rsp s))))"

lemma msg_addr_to:
  assumes "unat ap < 256"
  shows "message_to (ucast (msg_addr ap 0 HW_APIC_DestMode_Physical), msg_data (of_nat v) HW_APIC_DeliveryMode_Fixed
    HW_APIC_Level_Deassert HW_APIC_TriggerMode_Edge) ap v"
proof -
  let ?x = "0xfee00000 :: u32" let ?k = "unat ap"
  have x: "?x = push_bit 20 0xfee" by simp
  have "?x AND push_bit 12 ap = 0"
  proof (rule bit_word_eqI)
    fix n assume "n < LENGTH(32)"
    have "\<not> bit ap (n - 12)" if "20 \<le> n"
    proof -
      have "take_bit 8 ap = ap" using assms by (simp add: take_bit_eq_mod word_unat_eq_iff unat_mod)
      then have "bit ap (n - 12) \<longleftrightarrow> n - 12 < 8 \<and> bit ap (n - 12)" using bit_take_bit_iff [of 8 ap "n - 12"] by simp
      moreover have "\<not> n - 12 < 8" using that by simp
      ultimately show ?thesis by blast
    qed
    moreover have "20 \<le> n" if "bit ?x n" using that unfolding x by (simp only: bit_push_bit_iff)
    ultimately show "bit (?x AND push_bit 12 ap) n \<longleftrightarrow> bit (0 :: u32) n" by (auto simp: bit_simps)
  qed
  then have "?x OR push_bit 12 ap = ?x + push_bit 12 ap" using word_plus_and_or [of ?x "push_bit 12 ap"] by simp
  then have w: "msg_addr ap 0 HW_APIC_DestMode_Physical = ?x + push_bit 12 ap"
    by (simp add: msg_addr_def HW_APIC_DestMode_Physical_def)
  have "unat (push_bit 12 ap) = 4096 * ?k"
    using assms by (simp add: push_bit_eq_mult unat_mult_less)
  then have u: "unat (?x + push_bit 12 ap) = 0xfee00000 + 4096 * ?k"
    using assms by (subst unat_plus_less) auto
  let ?a = "ucast (?x + push_bit 12 ap) :: u64"
  have a: "unat ?a = 0xfee00000 + 4096 * ?k"
    using u assms by (simp add: unsigned_ucast_eq take_bit_nat_eq_self)
  have "unat (drop_bit 20 ?a) = 0xfee" unfolding unat_div_pow2 a using assms by (simp add: div_nat_eqI)
  then have "drop_bit 20 ?a = 0xfee" by (simp add: word_unat_eq_iff)
  moreover have "(1043968 + ?k) mod 256 = ?k" using assms mod_mult_self4 [of 256 4078 ?k] by simp
  then have "unat (drop_bit 12 ?a AND 0xff) = ?k"
    using unat_and_mask [of "drop_bit 12 ?a" 8] assms unfolding unat_div_pow2 a by (simp add: mask_numeral)
  moreover have "?a AND 0xfff = 0"
    using unat_and_mask [of ?a 12] unfolding a by (simp add: mask_numeral word_unat_eq_iff)
  ultimately show ?thesis
    unfolding message_to_def w by (simp add: msg_data_def HW_APIC_DeliveryMode_Fixed_def HW_APIC_Level_Deassert_def
      HW_APIC_TriggerMode_Edge_def)
qed

section \<open>From the device to the handler\<close>

text \<open>The vectors that \<open>SMP_registerCPU\<close> keeps from allocation, and processors with numbers of 8 bits.\<close>

definition vecs_ok :: "SmpSys \<Rightarrow> bool" where
  "vecs_ok s \<longleftrightarrow> length (cpuInfo s) \<le> Hardware_CPUNumber \<and>
     (\<forall>p\<in>set (cpuInfo s). unat (apicID p) < 256 \<and> (\<forall>v<256. v < 0x40 \<or> 0x80 \<le> v \<longrightarrow> msk_bit p v))"

definition cpu_msk :: "SmpSys \<Rightarrow> nat \<Rightarrow> nat \<Rightarrow> bool" where
  "cpu_msk s c v = msk_bit (cpuInfo s ! c) v"

lemma mask_spare_vecs:
  assumes "cpuInfo s = ps @ [p]" "mask_spare s = Some s'"
  shows "\<exists>q. cpuInfo s' = ps @ [q] \<and> apicID q = apicID p \<and> (\<forall>v<256. v < 0x40 \<or> 0x80 \<le> v \<longrightarrow> msk_bit q v)"
proof -
  obtain q where q: "SMP_maskIntr_pkg 0 64 p = Some q" "\<And>i. msk_bit q i \<longleftrightarrow> i < 64 \<or> msk_bit p i" "q = p\<lparr>intrMsk := intrMsk q\<rparr>"
    using mask_pkg [of 0 64 p] by auto
  obtain r where r: "SMP_maskIntr_pkg 128 128 q = Some r" "\<And>i. msk_bit r i \<longleftrightarrow> 128 \<le> i \<and> i < 256 \<or> msk_bit q i"
    "r = q\<lparr>intrMsk := intrMsk r\<rparr>"
    using mask_pkg [of 128 128 q] by auto
  have "cpuInfo s' = ps @ [r]"
    using assms by (auto simp: mask_spare_def SMP_maskIntr_def upd_cpu_def q(1) r(1) Let_def)
  moreover have "apicID r = apicID p" by (subst r(3), simp, subst q(3), simp)
  ultimately show ?thesis using q(2) r(2) by auto
qed

text \<open>Registering processors with numbers of 8 bits keeps the condition of the theorem below.\<close>

lemma registerCPU_vecs_ok:
  assumes "vecs_ok s" "unat ap < 256" "SMP_registerCPU x2 ap bsp mems s = Some s'"
  shows "vecs_ok s'"
proof -
  have l: "length (cpuInfo s) < Hardware_CPUNumber"
    using assms(1,3) by (auto simp: SMP_registerCPU_def vecs_ok_def split: if_splits)
  have "\<exists>s0. mask_spare s0 = Some s' \<and> (\<exists>p. cpuInfo s0 = cpuInfo s @ [p] \<and> apicID p = ap)"
    using assms(3) l
    by (cases bsp; cases mems; cases "x2 = bspx2ApicId s")
      (simp_all add: SMP_registerCPU_def Let_def, (intro exI conjI, assumption, simp, simp)+)
  then obtain s0 p where s0: "cpuInfo s0 = cpuInfo s @ [p]" "apicID p = ap" "mask_spare s0 = Some s'" by blast
  from mask_spare_vecs [OF s0(1,3)] obtain q where
    "cpuInfo s' = cpuInfo s @ [q]" "apicID q = ap" "\<forall>v<256. v < 0x40 \<or> 0x80 \<le> v \<longrightarrow> msk_bit q v"
    unfolding s0(2) by blast
  then show ?thesis using assms(1,2) l by (auto simp: vecs_ok_def)
qed

lemma alloc_one:
  assumes "vecs_ok s" "SMP_allocIntrVec 1 k s = Some (Some (c, v), s')"
  shows "c < length (cpuInfo s)" "0x40 \<le> v" "v < 0x80" "\<not> cpu_msk s c v" "vecs_ok s'"
    "length (cpuInfo s') = length (cpuInfo s)" "\<And>d. d < length (cpuInfo s) \<Longrightarrow> apicID (cpuInfo s' ! d) = apicID (cpuInfo s ! d)"
    "\<And>d w. d < length (cpuInfo s) \<Longrightarrow> cpu_msk s' d w \<longleftrightarrow> (d = c \<and> w = v) \<or> cpu_msk s d w"
proof -
  have "vec_post 1 s (Some (c, v)) s'" using allocIntrVec_spec [of 1 k s] assms(2) by auto
  then obtain p where v: "c < length (cpuInfo s)" "free_run (cpuInfo s ! c) v 1"
    "s' = s\<lparr>cpuInfo := (cpuInfo s)[c := p]\<rparr>" "p = (cpuInfo s ! c)\<lparr>intrMsk := intrMsk p\<rparr>"
    "\<And>i. msk_bit p i \<longleftrightarrow> i \<in> {v..<v + 1} \<or> msk_bit (cpuInfo s ! c) i"
    unfolding vec_post_def by auto
  have ap: "apicID p = apicID (cpuInfo s ! c)" by (subst v(4)) simp
  show c: "c < length (cpuInfo s)" by (rule v(1))
  have f: "v < 256" "\<not> msk_bit (cpuInfo s ! c) v" using v(2) by (auto simp: free_run_def)
  have m: "\<And>w. w < 256 \<Longrightarrow> w < 0x40 \<or> 0x80 \<le> w \<Longrightarrow> msk_bit (cpuInfo s ! c) w" using assms(1) c unfolding vecs_ok_def by auto
  show "0x40 \<le> v" "v < 0x80" using m [of v] f by force+
  show "\<not> cpu_msk s c v" using f(2) by (simp add: cpu_msk_def)
  show "length (cpuInfo s') = length (cpuInfo s)" by (simp add: v(3))
  show "apicID (cpuInfo s' ! d) = apicID (cpuInfo s ! d)" if "d < length (cpuInfo s)" for d
    using that by (cases "d = c") (simp_all add: v(3) ap)
  show "cpu_msk s' d w \<longleftrightarrow> (d = c \<and> w = v) \<or> cpu_msk s d w" if "d < length (cpuInfo s)" for d w
    using that by (cases "d = c") (auto simp: cpu_msk_def v(3,5))
  show "vecs_ok s'"
    using assms(1) c unfolding vecs_ok_def v(3) by (auto simp: v(5) ap dest: set_update_subset_insert [THEN subsetD])
qed

lemma sint_i32: "n < 2 ^ 31 \<Longrightarrow> sint (of_nat n :: i32) = int n"
  by (simp add: signed_of_nat signed_take_bit_int_eq_self)

lemma init_set:
  assumes "c < Hardware_CPUNumber" "0x40 \<le> v" "v < 0x80" "d \<noteq> NULL"
  shows "\<exists>st'. HW_PCIe_MSI_setIntr stubs d (HW_PCIe_MSI_initDesc ack d (of_nat c) (of_nat v) hdl param st) = Some st' \<and>
    handles ack hdl param st' c v \<and> intrDesc st' c (v - 0x40) = d \<and>
    (\<forall>e. e \<noteq> d \<longrightarrow> msiDescs st' e = msiDescs st e) \<and>
    (\<forall>c' w. (c', w) \<noteq> (c, v - 0x40) \<longrightarrow> intrDesc st' c' w = intrDesc st c' w) \<and>
    msiDescs st' d = (msiDescs st d)\<lparr>md_cpuId := of_nat c, md_vec := of_nat v,
      md_intrDesc := (md_intrDesc (msiDescs st d))\<lparr>id_handler := Some hdl, id_param := param,
        id_controller := Some (MSI_defaultController ack)\<rparr>\<rparr>"
proof -
  have c: "sint (of_nat c :: i32) = int c" "sint (of_nat v :: i32) = int v"
    using assms by (auto intro!: sint_i32 simp: Hardware_CPUNumber_def)
  have u: "unat (of_nat v :: u64) = v" using assms(3) by (simp add: unat_of_nat)
  then have v: "unat (of_nat v - 0x40 :: u64) = v - 0x40" using assms(2) by (simp add: unat_minus_le word_le_nat_alt)
  have w: "(ucast (of_nat v :: u64) :: u8) = of_nat v"
    using assms(3) by (simp add: word_unat_eq_iff unsigned_ucast_eq u unat_of_nat take_bit_nat_eq_self)
  have i: "nat (int v - 64) = v - 64" using assms(2) by simp
  show ?thesis
    using assms
    by (auto simp: HW_PCIe_MSI_setIntr_def HW_PCIe_MSI_initDesc_def Let_def c i handles_def HW_PCIe_MSI_dispatcher_def v w
      MSI_defaultController_def)
qed

text \<open>Interrupt \<open>i\<close> of the device is handled on processor \<open>c\<close> as vector \<open>v\<close>.\<close>

definition routed ::
  "(u8 \<Rightarrow> 's \<Rightarrow> 's) \<Rightarrow> 's IntrHandler \<Rightarrow> u64 \<Rightarrow> u64 \<Rightarrow> SmpSys \<Rightarrow> bytes \<Rightarrow> 's MsiSys \<Rightarrow> nat \<Rightarrow> nat \<Rightarrow> nat \<Rightarrow> bool" where
  "routed ack hdl host tbl s m st i c v \<longleftrightarrow>
     message_to (msg_of tbl i m) (apicID (cpuInfo s ! c)) v \<and> handles ack hdl (host OR of_nat i) st c v"

definition good_descs :: "ptr \<Rightarrow> u64 \<Rightarrow> nat list \<Rightarrow> bool" where
  "good_descs descs tbl is \<longleftrightarrow> distinct is \<and> (\<forall>i\<in>set is. unat tbl + 16 * i < 2 ^ 64 \<and> msi_desc descs i \<noteq> NULL) \<and>
     inj_on (msi_desc descs) (set is)"

text \<open>
  What a run of the loop over the interrupts \<open>is\<close> leaves: \<open>f\<close> gives the processor and the vector of every interrupt, all different and
  free before; other entries, descriptors and vectors stay.
\<close>

definition route_post ::
  "(u8 \<Rightarrow> 's \<Rightarrow> 's) \<Rightarrow> 's IntrHandler \<Rightarrow> u64 \<Rightarrow> ptr \<Rightarrow> u64 \<Rightarrow> nat list \<Rightarrow> SmpSys \<Rightarrow> bytes \<Rightarrow> 's MsiSys \<Rightarrow> bytes \<Rightarrow> 's MsiSys \<Rightarrow>
    (nat \<Rightarrow> nat \<times> nat) \<Rightarrow> bool" where
  "route_post ack hdl host descs tbl is s m st m' st' f \<longleftrightarrow>
    (\<forall>i\<in>set is. fst (f i) < length (cpuInfo s) \<and> 0x40 \<le> snd (f i) \<and> snd (f i) < 0x80 \<and> \<not> cpu_msk s (fst (f i)) (snd (f i)) \<and>
      routed ack hdl host tbl s m' st' i (fst (f i)) (snd (f i))) \<and> inj_on f (set is) \<and>
    (\<forall>j. j \<notin> set is \<longrightarrow> unat tbl + 16 * j < 2 ^ 64 \<longrightarrow> msg_of tbl j m' = msg_of tbl j m) \<and>
    (\<forall>d. d \<notin> msi_desc descs ` set is \<longrightarrow> msiDescs st' d = msiDescs st d) \<and>
    (\<forall>c v. c < length (cpuInfo s) \<longrightarrow> 0x40 \<le> v \<longrightarrow> v < 0x80 \<longrightarrow> cpu_msk s c v \<longrightarrow>
       intrDesc st' c (v - 0x40) = intrDesc st c (v - 0x40))"

lemma handles_frame:
  assumes "handles ack hdl param st c v" "0x40 \<le> v" "v < 0x80" "intrDesc st' c (v - 0x40) = intrDesc st c (v - 0x40)"
    "msiDescs st' (intrDesc st c (v - 0x40)) = msiDescs st (intrDesc st c (v - 0x40))"
  shows "handles ack hdl param st' c v"
proof -
  have "unat (of_nat v :: u64) = v" using assms(3) by (simp add: unat_of_nat)
  then have n: "unat (of_nat v - 0x40 :: u64) = v - 0x40" using assms(2) by (simp add: unat_minus_le word_le_nat_alt)
  have "HW_PCIe_MSI_dispatcher c rsp (of_nat v) (st', s) = HW_PCIe_MSI_dispatcher c rsp (of_nat v) (st, s)" for rsp s
    unfolding HW_PCIe_MSI_dispatcher_def Let_def prod.case n assms(4,5) by (rule refl)
  then show ?thesis using assms(1) by (simp add: handles_def)
qed

lemma msix_loop_ok:
  assumes "msix_loop ack stubs hdl host descs tbl is k (s, m, st) = Some (True, s', m', st')" "vecs_ok s" "good_descs descs tbl is"
  shows "\<exists>f. route_post ack hdl host descs tbl is s m st m' st' f"
  using assms
proof (induction "is" arbitrary: k s m st)
  case Nil
  then show ?case by (auto simp: route_post_def)
next
  case (Cons i js)
  let ?n = "length (cpuInfo s)"
  obtain c v s1 where al: "SMP_allocIntrVec 1 k s = Some (Some (c, v), s1)"
    using Cons.prems(1) by (auto split: option.splits prod.splits)
  note a = alloc_one [OF Cons.prems(2) al]
  have g: "good_descs descs tbl js" "i \<notin> set js" "unat tbl + 16 * i < 2 ^ 64" "msi_desc descs i \<noteq> NULL"
    "msi_desc descs i \<notin> msi_desc descs ` set js" "\<And>j. j \<in> set js \<Longrightarrow> unat tbl + 16 * j < 2 ^ 64"
    using Cons.prems(3) by (auto simp: good_descs_def inj_on_def)
  have cn: "c < Hardware_CPUNumber" using a(1) Cons.prems(2) by (simp add: vecs_ok_def)
  have ap: "unat (apicID (cpuInfo s1 ! c)) < 256" using a(1,5,6) by (simp add: vecs_ok_def)
  let ?m1 = "HW_PCIe_MSIX_setMsgData tbl i (of_nat v) HW_APIC_DeliveryMode_Fixed HW_APIC_Level_Deassert HW_APIC_TriggerMode_Edge
    (HW_PCIe_MSIX_setMsgAddr tbl i (apicID (cpuInfo s1 ! c)) 0 HW_APIC_DestMode_Physical m)"
  let ?d = "msi_desc descs i"
  obtain st1 where st1: "HW_PCIe_MSI_setIntr stubs ?d (HW_PCIe_MSI_initDesc ack ?d (of_nat c) (of_nat v) hdl (host OR of_nat i) st) = Some st1"
    "handles ack hdl (host OR of_nat i) st1 c v" "intrDesc st1 c (v - 0x40) = ?d"
    "\<forall>e. e \<noteq> ?d \<longrightarrow> msiDescs st1 e = msiDescs st e"
    "\<forall>c' w. (c', w) \<noteq> (c, v - 0x40) \<longrightarrow> intrDesc st1 c' w = intrDesc st c' w"
    using init_set [OF cn a(2,3) g(4), of stubs ack hdl "host OR of_nat i" st] by (elim exE conjE)
  have rest: "msix_loop ack stubs hdl host descs tbl js ((c + 1) mod length (cpuInfo s1)) (s1, ?m1, st1) = Some (True, s', m', st')"
    using Cons.prems(1) al st1(1) by (simp add: Let_def)
  obtain f where f: "route_post ack hdl host descs tbl js s1 ?m1 st1 m' st' f"
    using Cons.IH [OF rest a(5) g(1)] by (elim exE)
  have f1: "fst (f j) < ?n" "0x40 \<le> snd (f j)" "snd (f j) < 0x80" "\<not> cpu_msk s1 (fst (f j)) (snd (f j))"
      "routed ack hdl host tbl s1 m' st' j (fst (f j)) (snd (f j))" if "j \<in> set js" for j
    using f that unfolding route_post_def a(6) by (auto simp only:)
  have f2: "inj_on f (set js)" using f unfolding route_post_def by (elim conjE)
  have f3: "j \<notin> set js \<Longrightarrow> unat tbl + 16 * j < 2 ^ 64 \<Longrightarrow> msg_of tbl j m' = msg_of tbl j ?m1" for j
    using f unfolding route_post_def by (auto simp only:)
  have f4: "d \<notin> msi_desc descs ` set js \<Longrightarrow> msiDescs st' d = msiDescs st1 d" for d
    using f unfolding route_post_def by (auto simp only:)
  have f5: "x < ?n \<Longrightarrow> 0x40 \<le> w \<Longrightarrow> w < 0x80 \<Longrightarrow> cpu_msk s1 x w \<Longrightarrow> intrDesc st' x (w - 0x40) = intrDesc st1 x (w - 0x40)" for x w
    using f unfolding route_post_def a(6) by (auto simp only:)
  have cv: "cpu_msk s1 c v" using a(8) [OF a(1)] by simp
  let ?f = "f(i := (c, v))"
  have e: "intrDesc st' c (v - 0x40) = intrDesc st1 c (v - 0x40)" by (rule f5 [OF a(1-3) cv])
  have "msiDescs st' ?d = msiDescs st1 ?d" by (rule f4) (rule g(5))
  then have h: "handles ack hdl (host OR of_nat i) st' c v" using handles_frame [OF st1(2) a(2,3) e] st1(3) by simp
  have "msg_of tbl i m' = (ucast (msg_addr (apicID (cpuInfo s1 ! c)) 0 HW_APIC_DestMode_Physical),
      msg_data (of_nat v) HW_APIC_DeliveryMode_Fixed HW_APIC_Level_Deassert HW_APIC_TriggerMode_Edge)"
    unfolding f3 [OF g(2,3)] by (rule msg_of_set [OF g(3)])
  then have ri: "routed ack hdl host tbl s m' st' i c v"
    using msg_addr_to [OF ap] h a(7) [OF a(1)] by (simp add: routed_def)
  have rj: "routed ack hdl host tbl s m' st' j (fst (f j)) (snd (f j))" "\<not> cpu_msk s (fst (f j)) (snd (f j))" "f j \<noteq> (c, v)"
    if "j \<in> set js" for j
    using f1 [OF that] a(7) [of "fst (f j)"] a(8) [of "fst (f j)" "snd (f j)"] cv by (auto simp: routed_def)
  have nin: "(c, v) \<notin> f ` set js" using rj(3) by (metis imageE)
  have "inj_on ?f (set js)" using f2 nin by (rule inj_on_fun_updI)
  then have "inj_on ?f (set (i # js))" using nin g(2) by (auto simp: fun_upd_image)
  moreover have "msg_of tbl j m' = msg_of tbl j m" if "j \<notin> set (i # js)" "unat tbl + 16 * j < 2 ^ 64" for j
    using f3 [of j] msg_of_other [OF g(3) that(2)] that by simp
  moreover have "msiDescs st' d = msiDescs st d" if "d \<notin> msi_desc descs ` set (i # js)" for d
    using f4 [of d] st1(4) that by simp
  moreover have "intrDesc st' x (w - 0x40) = intrDesc st x (w - 0x40)"
    if "x < ?n" "0x40 \<le> w" "w < 0x80" "cpu_msk s x w" for x w
  proof -
    have "(x, w) \<noteq> (c, v)" using that(4) a(4) by auto
    then have "(x, w - 0x40) \<noteq> (c, v - 0x40)" using that(2) a(2) by auto
    then show ?thesis using f5 [OF that(1-3)] a(8) [OF that(1), of w] that(4) st1(5) by simp
  qed
  ultimately have "route_post ack hdl host descs tbl (i # js) s m st m' st' ?f"
    unfolding route_post_def using ri rj f1 a(1-4) g(2) by (auto simp: all_conj_distrib)
  then show ?case by (rule exI [of _ ?f])
qed

lemma msix_loop_total:
  assumes "vecs_ok s" "good_descs descs tbl is"
  shows "\<exists>r. msix_loop ack stubs hdl host descs tbl is k (s, m, st) = Some r"
  using assms
proof (induction "is" arbitrary: k s m st)
  case (Cons i js)
  obtain r s1 where r: "SMP_allocIntrVec 1 k s = Some (r, s1)" using allocIntrVec_spec [of 1 k s] by auto
  show ?case
  proof (cases r)
    case None
    then have "msix_loop ack stubs hdl host descs tbl (i # js) k (s, m, st) = Some (False, s1, m, st)" using r by simp
    then show ?thesis by (rule exI [of _ "(False, s1, m, st)"])
  next
    case (Some cv)
    obtain c v where cv: "cv = (c, v)" by (cases cv)
    have al: "SMP_allocIntrVec 1 k s = Some (Some (c, v), s1)" using r Some cv by simp
    note a = alloc_one [OF Cons.prems(1) al]
    have cn: "c < Hardware_CPUNumber" using a(1) Cons.prems(1) by (simp add: vecs_ok_def)
    have d: "msi_desc descs i \<noteq> NULL" "good_descs descs tbl js" using Cons.prems(2) by (auto simp: good_descs_def)
    obtain st1 where "HW_PCIe_MSI_setIntr stubs (msi_desc descs i)
        (HW_PCIe_MSI_initDesc ack (msi_desc descs i) (of_nat c) (of_nat v) hdl (host OR of_nat i) st) = Some st1"
      using init_set [OF cn a(2,3) d(1), of stubs ack hdl "host OR of_nat i" st] by (elim exE conjE)
    then show ?thesis using al Cons.IH [OF a(5) d(2)] by (simp add: Let_def)
  qed
qed (rule exI, rule msix_loop.simps(1))

lemma msi_desc_unat:
  assumes "unat descs + 40 * i < 2 ^ 64" shows "unat (msi_desc descs i) = unat descs + 40 * i"
proof -
  have "unat (of_nat (40 * i) :: u64) = 40 * i" using assms by (simp only: unat_of_nat) simp
  then show ?thesis using assms by (simp only: msi_desc_def) (subst unat_plus_less; simp)
qed

lemma good_descsI:
  assumes "unat tbl + 128 \<le> 2 ^ 64" "descs \<noteq> NULL" "unat descs + 320 \<le> 2 ^ 64" "n \<le> 8"
  shows "good_descs descs tbl [0..<n]"
proof -
  have u: "unat (msi_desc descs i) = unat descs + 40 * i" if "i < 8" for i
    using assms(3) that by (intro msi_desc_unat) simp
  have nz: "msi_desc descs i \<noteq> NULL" if "i < 8" for i
    using u [OF that] assms(2) by (auto simp: unat_eq_0 [symmetric])
  have "msi_desc descs i \<noteq> msi_desc descs j" if "i < 8" "j < 8" "i \<noteq> j" for i j
    using u [OF that(1)] u [OF that(2)] that(3) by auto
  then have "inj_on (msi_desc descs) (set [0..<n])" using assms(4) unfolding inj_on_def by (metis atLeastLessThan_iff
    less_le_trans set_upt)
  moreover have "\<forall>i\<in>set [0..<n]. unat tbl + 16 * i < 2 ^ 64 \<and> msi_desc descs i \<noteq> NULL"
    using assms(1,4) nz by simp
  ultimately show ?thesis by (simp add: good_descs_def)
qed


definition demo_msi_smp :: SmpSys where
  "demo_msi_smp = demo_smp [(demo_cpu 1 0)\<lparr>intrMsk := (\<lambda>k. if k = 1 then 0 else - 1)\<rparr>]"

lemma demo_vecs_ok: "vecs_ok demo_msi_smp"
proof -
  have "bit (- 1 :: u64) (v mod 64)" for v by simp
  moreover have "v div 64 \<noteq> 1" if "v < 0x40 \<or> 0x80 \<le> v" for v :: nat
    using that div_le_mono [of 128 v 64] by auto
  ultimately show ?thesis
    by (auto simp: vecs_ok_def demo_msi_smp_def demo_smp_def demo_cpu_def msk_bit_def Hardware_CPUNumber_def)
qed

lemma demo_alloc: "\<exists>c v s'. SMP_allocIntrVec 1 0 demo_msi_smp = Some (Some (c, v), s')"
proof -
  have "i div 64 = 1" if "i \<in> {64..<64 + 1}" for i :: nat using that by auto
  then have "free_run (cpuInfo demo_msi_smp ! 0) 64 1"
    by (simp add: free_run_def demo_msi_smp_def demo_smp_def demo_cpu_def msk_bit_def)
  moreover have "0 < length (cpuInfo demo_msi_smp)" by (simp add: demo_msi_smp_def demo_smp_def)
  moreover obtain r s' where "SMP_allocIntrVec 1 0 demo_msi_smp = Some (r, s')" "vec_post 1 demo_msi_smp r s'"
    using allocIntrVec_spec [of 1 0 demo_msi_smp] by auto
  ultimately show ?thesis by (cases r) (auto simp: vec_post_def)
qed


end
